(* ===== verification/Prelude.thy ===== *)
theory Prelude
  imports Complex_Main "HOL-Library.Word"
begin

unbundle bit_operations_syntax

section \<open>Shared vocabulary: effects, byte strings, integer masks\<close>

text \<open>
  Every component of the package is a Python method that may read and write fields of
  \<open>self\<close>, call the operating system and raise. Its model is a function of type
  \<open>('s, 'e, 'a) io\<close>: it takes the state, returns the exception or the value, and the
  state as it stands then. A mutation made before a raise is kept, as in Python.
  The combinators below are the control structures of the source (sequencing,
  \<open>try/except\<close>, \<open>contextlib.suppress\<close>, \<open>try/finally\<close>), and \<open>wp\<close> is the weakest
  precondition through which the component lemmas reason about them.
\<close>

named_theorems wp_simps "weakest precondition equations of the effectful operations"
named_theorems io_defs "definitions to unfold when a method body is evaluated"

type_synonym bytes = "8 word list"

type_synonym ('s, 'e, 'a) io = "'s \<Rightarrow> ('e + 'a) \<times> 's"

subsection \<open>Control structures\<close>

definition io_return :: "'a \<Rightarrow> ('s, 'e, 'a) io" where
  "io_return x = (\<lambda>s. (Inr x, s))"

definition io_raise :: "'e \<Rightarrow> ('s, 'e, 'a) io" where
  "io_raise e = (\<lambda>s. (Inl e, s))"

definition io_bind :: "('s, 'e, 'a) io \<Rightarrow> ('a \<Rightarrow> ('s, 'e, 'b) io) \<Rightarrow> ('s, 'e, 'b) io" where
  "io_bind m f = (\<lambda>s. case m s of (Inl e, s') \<Rightarrow> (Inl e, s') | (Inr x, s') \<Rightarrow> f x s')"

definition io_seq :: "('s, 'e, 'a) io \<Rightarrow> ('s, 'e, 'b) io \<Rightarrow> ('s, 'e, 'b) io" where
  "io_seq m n = io_bind m (\<lambda>_. n)"

definition io_get :: "('s \<Rightarrow> 'a) \<Rightarrow> ('s, 'e, 'a) io" where
  "io_get f = (\<lambda>s. (Inr (f s), s))"

definition io_modify :: "('s \<Rightarrow> 's) \<Rightarrow> ('s, 'e, unit) io" where
  "io_modify f = (\<lambda>s. (Inr (), f s))"

definition io_lift :: "'e + 'a \<Rightarrow> ('s, 'e, 'a) io" where
  "io_lift r = (\<lambda>s. (r, s))"

definition io_when :: "bool \<Rightarrow> ('s, 'e, unit) io \<Rightarrow> ('s, 'e, unit) io" where
  "io_when b m = (if b then m else io_return ())"

text \<open>\<open>try: m / except: handler\<close>. The handler sees the exception and re-raises what it does not catch.\<close>

definition io_try :: "('s, 'e, 'a) io \<Rightarrow> ('e \<Rightarrow> ('s, 'e, 'a) io) \<Rightarrow> ('s, 'e, 'a) io" where
  "io_try m h = (\<lambda>s. case m s of (Inl e, s') \<Rightarrow> h e s' | (Inr x, s') \<Rightarrow> (Inr x, s'))"

text \<open>\<open>with contextlib.suppress(P): m\<close>.\<close>

definition io_suppress :: "('e \<Rightarrow> bool) \<Rightarrow> ('s, 'e, unit) io \<Rightarrow> ('s, 'e, unit) io" where
  "io_suppress p m = io_try m (\<lambda>e. if p e then io_return () else io_raise e)"

text \<open>\<open>try: m / except BaseException: cleanup; raise\<close>. An exception of the cleanup replaces the first one.\<close>

definition io_on_error :: "('s, 'e, 'a) io \<Rightarrow> ('s, 'e, unit) io \<Rightarrow> ('s, 'e, 'a) io" where
  "io_on_error m cleanup = io_try m (\<lambda>e. io_seq cleanup (io_raise e))"

text \<open>\<open>try: m / finally: fin\<close>.\<close>

definition io_finally :: "('s, 'e, 'a) io \<Rightarrow> ('s, 'e, unit) io \<Rightarrow> ('s, 'e, 'a) io" where
  "io_finally m fin =
     io_bind (io_try (io_bind m (\<lambda>x. io_return (Inr x))) (\<lambda>e. io_return (Inl e)))
       (\<lambda>r. io_seq fin (io_lift r))"

lemmas io_ctl_defs [io_defs] =
  io_return_def io_raise_def io_bind_def io_seq_def io_get_def io_modify_def io_lift_def
  io_when_def io_try_def io_suppress_def io_on_error_def io_finally_def

subsection \<open>Weakest preconditions\<close>

text \<open>
  \<open>wp m Q E s\<close>: running \<open>m\<close> in \<open>s\<close> ends in a state (and value) satisfying \<open>Q\<close>, or in
  a raise whose exception and state satisfy \<open>E\<close>. Every \<open>io\<close> function terminates, so this is
  total correctness. The equations are simplification rules: \<open>wp\<close> of a method body is computed
  down to its operating-system calls.
\<close>

definition wp :: "('s, 'e, 'a) io \<Rightarrow> ('a \<Rightarrow> 's \<Rightarrow> bool) \<Rightarrow> ('e \<Rightarrow> 's \<Rightarrow> bool) \<Rightarrow> 's \<Rightarrow> bool" where
  "wp m Q E s = (case m s of (Inl e, s') \<Rightarrow> E e s' | (Inr x, s') \<Rightarrow> Q x s')"

lemma wp_return [wp_simps]: "wp (io_return x) Q E s = Q x s"
  by (simp add: wp_def io_return_def)

lemma wp_raise [wp_simps]: "wp (io_raise e) Q E s = E e s"
  by (simp add: wp_def io_raise_def)

lemma wp_bind [wp_simps]: "wp (io_bind m f) Q E s = wp m (\<lambda>x. wp (f x) Q E) E s"
  by (simp add: wp_def io_bind_def split: prod.split sum.split)

lemma wp_seq [wp_simps]: "wp (io_seq m n) Q E s = wp m (\<lambda>_. wp n Q E) E s"
  by (simp add: io_seq_def wp_bind)

lemma wp_get [wp_simps]: "wp (io_get f) Q E s = Q (f s) s"
  by (simp add: wp_def io_get_def)

lemma wp_modify [wp_simps]: "wp (io_modify f) Q E s = Q () (f s)"
  by (simp add: wp_def io_modify_def)

lemma wp_lift [wp_simps]: "wp (io_lift r) Q E s = (case r of Inl e \<Rightarrow> E e s | Inr x \<Rightarrow> Q x s)"
  by (simp add: wp_def io_lift_def split: sum.split)

lemma wp_when [wp_simps]: "wp (io_when b m) Q E s = (if b then wp m Q E s else Q () s)"
  by (simp add: io_when_def wp_return)

lemma wp_try [wp_simps]: "wp (io_try m h) Q E s = wp m Q (\<lambda>e. wp (h e) Q E) s"
  by (simp add: wp_def io_try_def split: prod.split sum.split)

lemma wp_suppress [wp_simps]:
  "wp (io_suppress p m) Q E s = wp m Q (\<lambda>e s. if p e then Q () s else E e s) s"
proof -
  have "wp (if p e then io_return () else io_raise e) Q E = (\<lambda>s. if p e then Q () s else E e s)"
    for e by (auto simp: fun_eq_iff wp_return wp_raise)
  then show ?thesis by (simp add: io_suppress_def wp_try)
qed

lemma wp_on_error [wp_simps]:
  "wp (io_on_error m c) Q E s = wp m Q (\<lambda>e. wp c (\<lambda>_. E e) E) s"
proof -
  have "wp (io_seq c (io_raise e)) Q E = wp c (\<lambda>_. E e) E" for e
    by (rule ext) (simp add: wp_def io_seq_def io_bind_def io_raise_def split: prod.split sum.split)
  then show ?thesis by (simp add: io_on_error_def wp_try)
qed

lemma wp_finally [wp_simps]:
  "wp (io_finally m c) Q E s = wp m (\<lambda>x. wp c (\<lambda>_. Q x) E) (\<lambda>e. wp c (\<lambda>_. E e) E) s"
  by (simp add: wp_def io_finally_def io_try_def io_bind_def io_return_def io_seq_def io_lift_def
      split: prod.split sum.split)

lemma wp_if [wp_simps]: "wp (if b then m else n) Q E s = (if b then wp m Q E s else wp n Q E s)"
  by simp

lemma wp_option [wp_simps]:
  "wp (case x of None \<Rightarrow> m | Some y \<Rightarrow> f y) Q E s =
     (case x of None \<Rightarrow> wp m Q E s | Some y \<Rightarrow> wp (f y) Q E s)"
  by (cases x) simp_all

lemma wp_sum [wp_simps]:
  "wp (case x of Inl e \<Rightarrow> m e | Inr y \<Rightarrow> f y) Q E s =
     (case x of Inl e \<Rightarrow> wp (m e) Q E s | Inr y \<Rightarrow> wp (f y) Q E s)"
  by (cases x) simp_all

lemma wp_True [simp]: "wp m (\<lambda>_ _. True) (\<lambda>_ _. True) s"
  by (simp add: wp_def split: prod.split sum.split)

lemma wp_mono:
  assumes "wp m Q E s" and "\<And>x s'. Q x s' \<Longrightarrow> Q' x s'" and "\<And>e s'. E e s' \<Longrightarrow> E' e s'"
  shows "wp m Q' E' s"
  using assms by (auto simp: wp_def split: prod.splits sum.splits)

lemma wp_conj:
  "wp m Q E s \<Longrightarrow> wp m Q' E' s \<Longrightarrow> wp m (\<lambda>x s. Q x s \<and> Q' x s) (\<lambda>e s. E e s \<and> E' e s) s"
  by (auto simp: wp_def split: prod.splits sum.splits)

text \<open>From a weakest precondition to the outcome of a run, and back.\<close>

lemma wp_Inr: "wp m Q E s \<Longrightarrow> m s = (Inr x, s') \<Longrightarrow> Q x s'"
  by (simp add: wp_def)

lemma wp_Inl: "wp m Q E s \<Longrightarrow> m s = (Inl e, s') \<Longrightarrow> E e s'"
  by (simp add: wp_def)

lemma wpI:
  "(\<And>x s'. m s = (Inr x, s') \<Longrightarrow> Q x s') \<Longrightarrow> (\<And>e s'. m s = (Inl e, s') \<Longrightarrow> E e s') \<Longrightarrow> wp m Q E s"
  by (auto simp: wp_def split: prod.split sum.split)

subsection \<open>Frames\<close>

text \<open>
  \<open>keeps R m\<close>: whatever \<open>m\<close> does, also when it raises, its initial and final states are related
  by \<open>R\<close>. For a reflexive and transitive \<open>R\<close> the control structures preserve it; the
  locale proves this once, and theory \<open>Kernel\<close> interprets it on the relations of the model.
\<close>

definition keeps :: "('s \<Rightarrow> 's \<Rightarrow> bool) \<Rightarrow> ('s, 'e, 'a) io \<Rightarrow> bool" where
  "keeps R m \<longleftrightarrow> (\<forall>s. wp m (\<lambda>_. R s) (\<lambda>_. R s) s)"

lemma keepsI: "(\<And>s. wp m (\<lambda>_. R s) (\<lambda>_. R s) s) \<Longrightarrow> keeps R m"
  by (simp add: keeps_def)

lemma keeps_wp: "keeps R m \<Longrightarrow> wp m (\<lambda>_. R s) (\<lambda>_. R s) s"
  by (simp add: keeps_def)

lemma wp_snd: "wp m (\<lambda>_. P) (\<lambda>_. P) s \<Longrightarrow> P (snd (m s))"
  by (auto simp: wp_def split: prod.splits sum.splits)

lemma keeps_snd: "keeps R m \<Longrightarrow> R s (snd (m s))"
  by (rule wp_snd) (rule keeps_wp)

lemma keeps_wp_mono:
  assumes "keeps R m" "\<And>x s'. R s s' \<Longrightarrow> Q x s'" "\<And>e s'. R s s' \<Longrightarrow> E e s'"
  shows "wp m Q E s"
  by (rule wp_mono [OF keeps_wp [OF assms(1)]]) (use assms in auto)

lemma keeps_modify: "(\<And>s. R s (f s)) \<Longrightarrow> keeps R (io_modify f)"
  by (simp add: keeps_def wp_simps)

lemma keeps_weaken: "keeps R m \<Longrightarrow> (\<And>s s'. R s s' \<Longrightarrow> R' s s') \<Longrightarrow> keeps R' m"
  by (auto intro!: keepsI elim: keeps_wp_mono)

locale frame =
  fixes R :: "'s \<Rightarrow> 's \<Rightarrow> bool"
  assumes R_refl: "R s s"
    and R_trans: "R s s' \<Longrightarrow> R s' s'' \<Longrightarrow> R s s''"
begin

lemma keeps_return: "keeps R (io_return x)"
  by (simp add: keeps_def wp_simps R_refl)

lemma keeps_raise: "keeps R (io_raise e)"
  by (simp add: keeps_def wp_simps R_refl)

lemma keeps_get: "keeps R (io_get f)"
  by (simp add: keeps_def wp_simps R_refl)

lemma keeps_lift: "keeps R (io_lift r)"
  by (simp add: keeps_def wp_simps R_refl split: sum.split)

lemma wp_step: "keeps R n \<Longrightarrow> R s s' \<Longrightarrow> wp n (\<lambda>_. R s) (\<lambda>_. R s) s'"
  by (erule keeps_wp_mono) (auto intro: R_trans)

lemma keeps_bind:
  assumes "keeps R m" "\<And>x. keeps R (f x)"
  shows "keeps R (io_bind m f)"
  unfolding keeps_def wp_bind
  by (intro allI keeps_wp_mono [OF assms(1)]) (auto intro: wp_step assms(2))

text \<open>The continuation may rely on a fact \<open>P\<close> of the value it receives.\<close>

lemma keeps_bind_val:
  assumes "keeps R m" "\<And>s. wp m (\<lambda>x _. P x) (\<lambda>_ _. True) s" "\<And>x. P x \<Longrightarrow> keeps R (f x)"
  shows "keeps R (io_bind m f)"
  unfolding keeps_def wp_bind
proof
  fix s
  have "wp m (\<lambda>x s'. R s s' \<and> P x) (\<lambda>e s'. R s s' \<and> True) s"
    by (rule wp_conj [OF keeps_wp [OF assms(1)] assms(2)])
  then show "wp m (\<lambda>x. wp (f x) (\<lambda>_. R s) (\<lambda>_. R s)) (\<lambda>_. R s) s"
    by (rule wp_mono) (auto intro: wp_step assms(3))
qed

lemma keeps_seq: "keeps R m \<Longrightarrow> keeps R n \<Longrightarrow> keeps R (io_seq m n)"
  unfolding io_seq_def by (rule keeps_bind)

lemma keeps_when: "keeps R m \<Longrightarrow> keeps R (io_when b m)"
  by (simp add: io_when_def keeps_return)

lemma keeps_try:
  assumes "keeps R m" "\<And>e. keeps R (h e)"
  shows "keeps R (io_try m h)"
  unfolding keeps_def wp_try
  by (intro allI keeps_wp_mono [OF assms(1)]) (auto intro: wp_step assms(2))

lemma keeps_suppress: "keeps R m \<Longrightarrow> keeps R (io_suppress p m)"
  unfolding io_suppress_def by (rule keeps_try) (auto intro: keeps_return keeps_raise)

lemma keeps_on_error: "keeps R m \<Longrightarrow> keeps R c \<Longrightarrow> keeps R (io_on_error m c)"
  unfolding io_on_error_def by (rule keeps_try) (auto intro: keeps_seq keeps_raise)

lemma keeps_finally: "keeps R m \<Longrightarrow> keeps R c \<Longrightarrow> keeps R (io_finally m c)"
  unfolding io_finally_def by (intro keeps_bind keeps_try keeps_seq keeps_return keeps_lift)

lemma keeps_if: "keeps R m \<Longrightarrow> keeps R n \<Longrightarrow> keeps R (if b then m else n)"
  by simp

lemma keeps_option: "keeps R m \<Longrightarrow> (\<And>y. x = Some y \<Longrightarrow> keeps R (f y)) \<Longrightarrow> keeps R (case x of None \<Rightarrow> m | Some y \<Rightarrow> f y)"
  by (cases x) simp_all

lemmas keeps_control = keeps_return keeps_raise keeps_get keeps_lift keeps_bind keeps_seq keeps_when
  keeps_try keeps_suppress keeps_on_error keeps_finally keeps_if keeps_option

end

subsection \<open>Fixed-width little-endian integers\<close>

text \<open>
  The layout \<open>struct.Struct\<close> uses for one unsigned field on the little-endian hosts the
  package runs on. \<open>le_bytes n v\<close> is the \<open>n\<close>-byte encoding of \<open>v\<close>.
\<close>

fun le_bytes :: "nat \<Rightarrow> nat \<Rightarrow> bytes" where
  "le_bytes 0 v = []"
| "le_bytes (Suc n) v = word_of_nat (v mod 256) # le_bytes n (v div 256)"

fun le_val :: "bytes \<Rightarrow> nat" where
  "le_val [] = 0"
| "le_val (b # bs) = unat b + 256 * le_val bs"

lemma length_le_bytes [simp]: "length (le_bytes n v) = n"
  by (induction n arbitrary: v) auto

lemma unat_byte [simp]: "unat (word_of_nat (v mod 256) :: 8 word) = v mod 256"
  by (simp add: unat_of_nat)

lemma le_val_le_bytes: "le_val (le_bytes n v) = v mod 256 ^ n"
proof (induction n arbitrary: v)
  case 0
  show ?case by simp
next
  case (Suc n)
  have "le_val (le_bytes (Suc n) v) = v mod 256 + 256 * (v div 256 mod 256 ^ n)"
    by (simp add: Suc.IH)
  also have "\<dots> = v mod (256 * 256 ^ n)"
    by (simp add: mod_mult2_eq)
  finally show ?case by simp
qed

lemma le_val_le_bytes_id [simp]: "v < 256 ^ n \<Longrightarrow> le_val (le_bytes n v) = v"
  by (simp add: le_val_le_bytes)

lemma le_val_bound: "le_val bs < 256 ^ length bs"
proof (induction bs)
  case Nil
  show ?case by simp
next
  case (Cons b bs)
  have "unat b < 256" using unsigned_less [of b] by simp
  with Cons show ?case by simp
qed

lemma le_bytes_le_val: "le_bytes (length bs) (le_val bs) = bs"
proof (induction bs)
  case Nil
  show ?case by simp
next
  case (Cons b bs)
  have "unat b < 256" using unsigned_less [of b] by simp
  with Cons show ?case by simp
qed

subsection \<open>Bit masks on Python integers\<close>

text \<open>Python's \<open>&\<close>, \<open>|\<close> and \<open>~\<close> act on unbounded integers in two's complement, as the library's \<open>int\<close> instances do.\<close>

definition mask_clear :: "int \<Rightarrow> int \<Rightarrow> int" where
  "mask_clear x m = x AND NOT m"

definition mask_set :: "int \<Rightarrow> int \<Rightarrow> bool" where
  "mask_set x m \<longleftrightarrow> x AND m = m"

lemma bit_mask_clear [simp]: "bit (mask_clear x m) n \<longleftrightarrow> bit x n \<and> \<not> bit m n"
  by (simp add: mask_clear_def bit_simps)

lemma mask_set_iff: "mask_set x m \<longleftrightarrow> (\<forall>n. bit m n \<longrightarrow> bit x n)"
proof
  assume "mask_set x m"
  then have "bit (x AND m) n = bit m n" for n by (simp add: mask_set_def)
  then show "\<forall>n. bit m n \<longrightarrow> bit x n" by (auto simp: bit_and_iff)
next
  assume "\<forall>n. bit m n \<longrightarrow> bit x n"
  then show "mask_set x m" by (auto simp: mask_set_def bit_eq_iff bit_and_iff)
qed

lemma and_zero_iff: "(x :: int) AND m = 0 \<longleftrightarrow> (\<forall>n. bit m n \<longrightarrow> \<not> bit x n)"
  by (auto simp: bit_eq_iff bit_and_iff)

subsection \<open>Replacing a field of a flag word\<close>

definition set_field :: "int \<Rightarrow> int \<Rightarrow> int \<Rightarrow> int" where
  "set_field x m v = (x AND NOT m) OR v"

lemma set_field_read: "v AND NOT m = 0 \<Longrightarrow> set_field x m v AND m = v"
  by (auto simp: set_field_def bit_eq_iff bit_simps)

lemma set_field_other: "m' AND m = 0 \<Longrightarrow> v AND NOT m = 0 \<Longrightarrow> set_field x m v AND m' = x AND m'"
  by (auto simp: set_field_def bit_eq_iff bit_simps)

lemma set_field_keep: "v AND NOT m = 0 \<Longrightarrow> set_field x m v AND NOT m = x AND NOT m"
  by (auto simp: set_field_def bit_eq_iff bit_simps)

lemma and_not_or: "(x :: int) AND NOT (m OR m') = (x AND NOT m) AND NOT m'"
  by (auto simp: bit_eq_iff bit_simps)

lemma and_or_zero_iff: "(x :: int) AND (m OR m') = 0 \<longleftrightarrow> x AND m = 0 \<and> x AND m' = 0"
  by (auto simp: bit_eq_iff bit_simps)

lemma or_and_zero_iff: "((m :: int) OR m') AND x = 0 \<longleftrightarrow> m AND x = 0 \<and> m' AND x = 0"
  by (auto simp: bit_eq_iff bit_simps)

subsection \<open>Results without effects\<close>

definition res_bind :: "'e + 'a \<Rightarrow> ('a \<Rightarrow> 'e + 'b) \<Rightarrow> 'e + 'b" where
  "res_bind r f = (case r of Inl e \<Rightarrow> Inl e | Inr x \<Rightarrow> f x)"

lemma res_bind_simps [simp]: "res_bind (Inl e) f = Inl e" "res_bind (Inr x) f = f x"
  by (simp_all add: res_bind_def)

lemma res_bind_Inr_iff: "res_bind r f = Inr y \<longleftrightarrow> (\<exists>x. r = Inr x \<and> f x = Inr y)"
  by (cases r) auto

lemma res_bind_Inl_iff: "res_bind r f = Inl e \<longleftrightarrow> r = Inl e \<or> (\<exists>x. r = Inr x \<and> f x = Inl e)"
  by (cases r) auto

end
