(* ===== verification/Strings.thy ===== *)
theory Strings
  imports Prelude
begin

section \<open>Python strings, integers in decimal, and paths\<close>

text \<open>
  The string operations of the source on ASCII text: prefixes and substrings, \<open>strip\<close>, \<open>split\<close>,
  \<open>str(n)\<close> and \<open>int(s)\<close> with their round trip, and the purely textual part of \<open>pathlib\<close>.
\<close>

definition starts_with :: "string \<Rightarrow> string \<Rightarrow> bool" where
  "starts_with pre s \<longleftrightarrow> take (length pre) s = pre"

definition is_digit :: "char \<Rightarrow> bool" where
  "is_digit c \<longleftrightarrow> 48 \<le> (of_char c :: nat) \<and> (of_char c :: nat) \<le> 57"

text \<open>\<open>int(s)\<close> of a string of ASCII digits.\<close>

definition nat_of_digits :: "string \<Rightarrow> nat" where
  "nat_of_digits = foldl (\<lambda>n c. 10 * n + (of_char c - 48)) 0"

fun contains :: "string \<Rightarrow> string \<Rightarrow> bool" where
  "contains sub [] = (sub = [])"
| "contains sub (c # cs) = (starts_with sub (c # cs) \<or> contains sub cs)"

text \<open>\<open>str.strip()\<close> of ASCII white space, \<open>str.split(c)\<close>, and \<open>str(n)\<close>.\<close>

definition is_space :: "char \<Rightarrow> bool" where
  "is_space c \<longleftrightarrow> (of_char c :: nat) \<in> {9, 10, 11, 12, 13, 28, 29, 30, 31, 32}"

definition strip :: "string \<Rightarrow> string" where
  "strip s = rev (dropWhile is_space (rev (dropWhile is_space s)))"

fun split_on :: "char \<Rightarrow> string \<Rightarrow> string list" where
  "split_on c [] = [[]]"
| "split_on c (x # xs) =
     (if x = c then [] # split_on c xs
      else (x # hd (split_on c xs)) # tl (split_on c xs))"

definition digit_char :: "nat \<Rightarrow> char" where
  "digit_char d = char_of (48 + d)"

fun string_of_nat :: "nat \<Rightarrow> string" where
  "string_of_nat n = (if n < 10 then [digit_char n] else string_of_nat (n div 10) @ [digit_char (n mod 10)])"

declare string_of_nat.simps [simp del]

definition string_of_int :: "int \<Rightarrow> string" where
  "string_of_int k = (if k < 0 then CHR ''-'' # string_of_nat (nat (- k)) else string_of_nat (nat k))"

text \<open>\<open>int(s)\<close>: white space stripped, an optional sign, groups of digits separated by single underscores.\<close>

definition digit_groups :: "string \<Rightarrow> nat option" where
  "digit_groups s =
     (let gs = split_on (CHR ''_'') s in
      if list_all (\<lambda>g. g \<noteq> [] \<and> list_all is_digit g) gs then Some (nat_of_digits (concat gs)) else None)"

definition py_int :: "string \<Rightarrow> int option" where
  "py_int s =
     (case strip s of
        [] \<Rightarrow> None
      | c # cs \<Rightarrow>
          if c = CHR ''-'' then map_option (\<lambda>n. - int n) (digit_groups cs)
          else if c = CHR ''+'' then map_option int (digit_groups cs)
          else map_option int (digit_groups (c # cs)))"

lemma of_char_digit: "d < 10 \<Longrightarrow> (of_char (digit_char d) :: nat) = 48 + d"
  by (simp add: digit_char_def)

lemma is_digit_digit_char: "d < 10 \<Longrightarrow> is_digit (digit_char d)"
  by (simp add: is_digit_def of_char_digit)

lemma string_of_nat_digits: "list_all is_digit (string_of_nat n)"
proof (induction n rule: string_of_nat.induct)
  case (1 n)
  then show ?case
    by (subst string_of_nat.simps) (simp add: is_digit_digit_char)
qed

lemma string_of_nat_nonempty [simp]: "string_of_nat n \<noteq> []"
  by (subst string_of_nat.simps) simp

lemma nat_of_string_of_nat [simp]: "nat_of_digits (string_of_nat n) = n"
proof (induction n rule: string_of_nat.induct)
  case (1 n)
  show ?case
  proof (cases "n < 10")
    case True
    then show ?thesis by (subst string_of_nat.simps) (simp add: nat_of_digits_def of_char_digit)
  next
    case False
    then have "nat_of_digits (string_of_nat (n div 10)) = n div 10" using 1 by simp
    with False show ?thesis
      by (subst string_of_nat.simps) (simp add: nat_of_digits_def of_char_digit)
  qed
qed

lemma is_digit_not_space: "is_digit c \<Longrightarrow> \<not> is_space c"
  by (auto simp: is_digit_def is_space_def)

lemma is_digit_neq: "is_digit c \<Longrightarrow> c \<noteq> CHR ''_'' \<and> c \<noteq> CHR ''-'' \<and> c \<noteq> CHR ''+''"
  by (auto simp: is_digit_def)

lemma split_on_none: "c \<notin> set s \<Longrightarrow> split_on c s = [s]"
  by (induction s) auto

lemma strip_id:
  assumes "s \<noteq> []" "\<not> is_space (hd s)" "\<not> is_space (last s)"
  shows "strip s = s"
proof -
  have "dropWhile is_space s = s" using assms by (cases s) auto
  moreover have "dropWhile is_space (rev s) = rev s"
    using assms by (cases s rule: rev_cases) auto
  ultimately show ?thesis by (simp add: strip_def)
qed

lemma strip_newline: "strip (s @ [CHR 0x0A]) = strip s"
proof (cases "list_all is_space s")
  case True
  have "is_space (CHR 0x0A)" by (simp add: is_space_def)
  with True have d: "dropWhile is_space (s @ [CHR 0x0A]) = []" "dropWhile is_space s = []"
    by (simp_all add: list_all_iff)
  show ?thesis by (simp only: strip_def d)
next
  case False
  then have "dropWhile is_space (s @ [CHR 0x0A]) = dropWhile is_space s @ [CHR 0x0A]"
    by (auto simp: list_all_iff dropWhile_append)
  then show ?thesis by (simp add: strip_def is_space_def)
qed

lemma digit_groups_nat [simp]: "digit_groups (string_of_nat n) = Some n"
proof -
  have "CHR ''_'' \<notin> set (string_of_nat n)"
    using string_of_nat_digits [of n] is_digit_neq by (auto simp: list_all_iff)
  then show ?thesis
    using string_of_nat_digits [of n] by (simp add: digit_groups_def Let_def split_on_none)
qed

lemma string_of_nat_ends: "is_digit (hd (string_of_nat n))" "is_digit (last (string_of_nat n))"
  using string_of_nat_digits [of n] string_of_nat_nonempty [of n] by (auto simp: list_all_iff)

lemma strip_string_of_int [simp]: "strip (string_of_int k) = string_of_int k"
  using string_of_nat_ends [THEN is_digit_not_space]
  by (intro strip_id) (auto simp: string_of_int_def is_space_def split: if_splits)

lemma py_int_string_of_int [simp]: "py_int (string_of_int k) = Some k"
proof -
  let ?d = "string_of_nat (nat \<bar>k\<bar>)"
  have "digit_groups ?d = Some (nat \<bar>k\<bar>)" "strip (string_of_int k) = string_of_int k" by simp_all
  then show ?thesis
    using string_of_nat_ends [of "nat \<bar>k\<bar>"] is_digit_neq [of "hd ?d"]
    by (cases ?d) (auto simp: py_int_def string_of_int_def split: if_splits)
qed

text \<open>\<open>pathlib.PurePosixPath\<close>: the components of a path, its \<open>name\<close>, and \<open>p / q\<close>.\<close>

definition path_parts :: "string \<Rightarrow> string list" where
  "path_parts p = filter (\<lambda>x. x \<noteq> [] \<and> x \<noteq> ''.'') (split_on (CHR ''/'') p)"

definition path_name :: "string \<Rightarrow> string" where
  "path_name p = (if path_parts p = [] then [] else last (path_parts p))"

definition path_div :: "string \<Rightarrow> string \<Rightarrow> string" where
  "path_div p q = (if q = [] then p else p @ ''/'' @ q)"

end
