(* ===== verification/Types.thy ===== *)
theory Types
  imports Strings
begin

section \<open>Core enums and snapshots (\<open>_types.py\<close>) and Python floats\<close>

text \<open>
  The \<open>StrEnum\<close> classes of \<open>_types.py\<close> as datatypes with their string values, the modem and
  control line snapshots as records, and the part of Python's \<open>float\<close> the package compares and
  rounds: finite values as the rationals they denote, the infinities and NaN. Theory \<open>Doubles\<close> has the
  rounding of a computed value to a double.
\<close>

datatype byte_size = FIVE | SIX | SEVEN | EIGHT

primrec byte_size_value :: "byte_size \<Rightarrow> string" where
  "byte_size_value FIVE = ''5''"
| "byte_size_value SIX = ''6''"
| "byte_size_value SEVEN = ''7''"
| "byte_size_value EIGHT = ''8''"

datatype parity = PNONE | ODD | EVEN | MARK | SPACE

primrec parity_value :: "parity \<Rightarrow> string" where
  "parity_value PNONE = ''none''"
| "parity_value ODD = ''odd''"
| "parity_value EVEN = ''even''"
| "parity_value MARK = ''mark''"
| "parity_value SPACE = ''space''"

datatype stop_bits = ONE | ONE_POINT_FIVE | TWO

primrec stop_bits_value :: "stop_bits \<Rightarrow> string" where
  "stop_bits_value ONE = ''1''"
| "stop_bits_value ONE_POINT_FIVE = ''1.5''"
| "stop_bits_value TWO = ''2''"

datatype capability = SUPPORTED | UNSUPPORTED | UNKNOWN

primrec capability_value :: "capability \<Rightarrow> string" where
  "capability_value SUPPORTED = ''supported''"
| "capability_value UNSUPPORTED = ''unsupported''"
| "capability_value UNKNOWN = ''unknown''"

datatype unsupported_policy = RAISE | WARN | IGNORE

primrec unsupported_policy_value :: "unsupported_policy \<Rightarrow> string" where
  "unsupported_policy_value RAISE = ''raise''"
| "unsupported_policy_value WARN = ''warn''"
| "unsupported_policy_value IGNORE = ''ignore''"

record modem_lines =
  ml_cts :: bool
  ml_dsr :: bool
  ml_ri :: bool
  ml_cd :: bool

record control_lines =
  cl_rts :: bool
  cl_dtr :: bool

record comm_event =
  cts_changed :: bool
  dsr_changed :: bool
  rlsd_changed :: bool
  ring :: bool
  error :: bool
  break_received :: bool

text \<open>
  The three enums a port is configured with are finite; the library's \<open>enum\<close> class makes a
  quantifier over them executable.
\<close>

instantiation byte_size :: enum
begin
definition enum_byte_size :: "byte_size list" where
  "enum_byte_size = [FIVE, SIX, SEVEN, EIGHT]"
definition enum_all_byte_size :: "(byte_size \<Rightarrow> bool) \<Rightarrow> bool" where
  "enum_all_byte_size P \<longleftrightarrow> P FIVE \<and> P SIX \<and> P SEVEN \<and> P EIGHT"
definition enum_ex_byte_size :: "(byte_size \<Rightarrow> bool) \<Rightarrow> bool" where
  "enum_ex_byte_size P \<longleftrightarrow> P FIVE \<or> P SIX \<or> P SEVEN \<or> P EIGHT"
instance
proof
  show u: "(UNIV :: byte_size set) = set Enum.enum"
    by (auto simp: enum_byte_size_def intro: byte_size.exhaust)
  show "distinct (Enum.enum :: byte_size list)" by (simp add: enum_byte_size_def)
  show "Enum.enum_all P \<longleftrightarrow> Ball (UNIV :: byte_size set) P" for P
    by (simp add: u enum_byte_size_def enum_all_byte_size_def)
  show "Enum.enum_ex P \<longleftrightarrow> Bex (UNIV :: byte_size set) P" for P
    by (simp add: u enum_byte_size_def enum_ex_byte_size_def)
qed
end

instantiation parity :: enum
begin
definition enum_parity :: "parity list" where
  "enum_parity = [PNONE, ODD, EVEN, MARK, SPACE]"
definition enum_all_parity :: "(parity \<Rightarrow> bool) \<Rightarrow> bool" where
  "enum_all_parity P \<longleftrightarrow> P PNONE \<and> P ODD \<and> P EVEN \<and> P MARK \<and> P SPACE"
definition enum_ex_parity :: "(parity \<Rightarrow> bool) \<Rightarrow> bool" where
  "enum_ex_parity P \<longleftrightarrow> P PNONE \<or> P ODD \<or> P EVEN \<or> P MARK \<or> P SPACE"
instance
proof
  show u: "(UNIV :: parity set) = set Enum.enum"
    by (auto simp: enum_parity_def intro: parity.exhaust)
  show "distinct (Enum.enum :: parity list)" by (simp add: enum_parity_def)
  show "Enum.enum_all P \<longleftrightarrow> Ball (UNIV :: parity set) P" for P
    by (simp add: u enum_parity_def enum_all_parity_def)
  show "Enum.enum_ex P \<longleftrightarrow> Bex (UNIV :: parity set) P" for P
    by (simp add: u enum_parity_def enum_ex_parity_def)
qed
end

subsection \<open>Python floats\<close>

datatype pyfloat = Fin rat | PosInf | NegInf | NaN

fun float_less :: "pyfloat \<Rightarrow> pyfloat \<Rightarrow> bool" where
  "float_less NaN _ = False"
| "float_less _ NaN = False"
| "float_less (Fin a) (Fin b) = (a < b)"
| "float_less NegInf NegInf = False"
| "float_less NegInf _ = True"
| "float_less _ PosInf = True"
| "float_less _ _ = False"

fun float_eq :: "pyfloat \<Rightarrow> pyfloat \<Rightarrow> bool" where
  "float_eq NaN _ = False"
| "float_eq _ NaN = False"
| "float_eq a b = (a = b)"

definition float_le :: "pyfloat \<Rightarrow> pyfloat \<Rightarrow> bool" where
  "float_le a b \<longleftrightarrow> float_less a b \<or> float_eq a b"

text \<open>\<open>round(x)\<close> of a finite float: to the nearest integer, halves to the even one.\<close>

definition round_half_even :: "rat \<Rightarrow> int" where
  "round_half_even x =
     (let f = \<lfloor>x\<rfloor>; d = x - of_int f
      in if d < 1/2 then f else if 1/2 < d then f + 1 else if even f then f else f + 1)"

lemma round_half_even_near: "\<bar>of_int (round_half_even x) - x\<bar> \<le> 1/2"
proof -
  have l: "of_int \<lfloor>x\<rfloor> \<le> x" and u: "x < of_int \<lfloor>x\<rfloor> + 1" by linarith+
  consider "x - of_int \<lfloor>x\<rfloor> < 1/2" | "1/2 < x - of_int \<lfloor>x\<rfloor>" | "x - of_int \<lfloor>x\<rfloor> = 1/2" by linarith
  then show ?thesis
  proof cases
    case 1
    then have "round_half_even x = \<lfloor>x\<rfloor>" by (simp add: round_half_even_def Let_def)
    with l 1 show ?thesis by linarith
  next
    case 2
    then have "round_half_even x = \<lfloor>x\<rfloor> + 1" by (simp add: round_half_even_def Let_def)
    with u 2 show ?thesis by (simp add: abs_if)
  next
    case 3
    then have "round_half_even x = (if even \<lfloor>x\<rfloor> then \<lfloor>x\<rfloor> else \<lfloor>x\<rfloor> + 1)"
      by (simp add: round_half_even_def Let_def)
    with 3 show ?thesis by (simp add: abs_if)
  qed
qed

lemma round_half_even_of_int [simp]: "round_half_even (of_int k) = k"
  by (simp add: round_half_even_def Let_def)

lemma round_half_even_nonneg: "0 \<le> x \<Longrightarrow> 0 \<le> round_half_even x"
  by (auto simp: round_half_even_def Let_def)

lemma round_half_even_mono_bound: "x \<le> of_int k \<Longrightarrow> round_half_even x \<le> k"
proof -
  assume x: "x \<le> of_int k"
  then have f: "\<lfloor>x\<rfloor> \<le> k" by (simp add: floor_le_iff)
  show ?thesis
  proof (cases "\<lfloor>x\<rfloor> = k")
    case True
    with x have "x = of_int k" by linarith
    then show ?thesis by simp
  next
    case False
    with f have "\<lfloor>x\<rfloor> + 1 \<le> k" by simp
    then show ?thesis using f by (auto simp: round_half_even_def Let_def)
  qed
qed

end
