(* ===== verification/Exceptions.thy ===== *)
theory Exceptions
  imports Types
begin

section \<open>Exceptions (\<open>exceptions.py\<close>, \<open>_windows/_errors.py\<close>)\<close>

text \<open>
  The classes the package raises, catches or inherits from, with the base lists of their
  \<open>class\<close> statements (the classes of Python and AnyIO with theirs; \<open>StructError\<close> and
  \<open>TermiosError\<close> are \<open>struct.error\<close> and \<open>termios.error\<close>, both plain \<open>Exception\<close>s), and \<open>isinstance\<close> as
  reachability along them. An exception carries what the package reads off it: class, errno,
  strerror, filename, the Windows error code and \<open>__cause__\<close>. Message texts are not modelled.
\<close>

datatype exc_class =
    BaseException | CancelledError | Exception
  | OSError | BlockingIOError | InterruptedError | ConnectionError | BrokenPipeError
  | FileNotFoundError | PermissionError | TimeoutError
  | ValueError | RuntimeError | NotImplementedError | TypeError | LookupError | IndexError
  | KeyError | OverflowError | AttributeError | ImportError | AssertionError | BufferError | StructError
  | TermiosError
  | Warning | RuntimeWarning | ResourceWarning
  | ClosedResourceError | BrokenResourceError | BusyResourceError
  | SerialError | ConfigurationError | PortNotFoundError | PortBusyError
  | UnsupportedFeatureError | UnsupportedConfigurationError | UnsupportedPlatformError
  | SerialClosedError | SerialDisconnectedError | UnsupportedAsyncBackendError

text \<open>The classes declared in \<open>exceptions.py\<close>.\<close>

fun serial_bases :: "exc_class \<Rightarrow> exc_class list" where
  "serial_bases SerialError = [OSError]"
| "serial_bases ConfigurationError = [SerialError, ValueError]"
| "serial_bases PortNotFoundError = [SerialError, FileNotFoundError]"
| "serial_bases PortBusyError = [SerialError]"
| "serial_bases UnsupportedFeatureError = [SerialError, NotImplementedError]"
| "serial_bases UnsupportedConfigurationError = [SerialError, ValueError]"
| "serial_bases UnsupportedPlatformError = [SerialError, NotImplementedError]"
| "serial_bases SerialClosedError = [SerialError, ClosedResourceError]"
| "serial_bases SerialDisconnectedError = [SerialError, BrokenResourceError]"
| "serial_bases UnsupportedAsyncBackendError = [SerialError, RuntimeError]"
| "serial_bases _ = []"

text \<open>The classes of Python and AnyIO.\<close>

fun python_bases :: "exc_class \<Rightarrow> exc_class list" where
  "python_bases BaseException = []"
| "python_bases CancelledError = [BaseException]"
| "python_bases Exception = [BaseException]"
| "python_bases BlockingIOError = [OSError]"
| "python_bases InterruptedError = [OSError]"
| "python_bases ConnectionError = [OSError]"
| "python_bases BrokenPipeError = [ConnectionError]"
| "python_bases FileNotFoundError = [OSError]"
| "python_bases PermissionError = [OSError]"
| "python_bases TimeoutError = [OSError]"
| "python_bases NotImplementedError = [RuntimeError]"
| "python_bases IndexError = [LookupError]"
| "python_bases KeyError = [LookupError]"
| "python_bases RuntimeWarning = [Warning]"
| "python_bases ResourceWarning = [Warning]"
| "python_bases _ = [Exception]"

definition bases :: "exc_class \<Rightarrow> exc_class list" where
  "bases c = (if serial_bases c \<noteq> [] then serial_bases c else python_bases c)"

fun class_depth :: "exc_class \<Rightarrow> nat" where
  "class_depth BaseException = 0"
| "class_depth CancelledError = 1"
| "class_depth Exception = 1"
| "class_depth c =
     (if serial_bases c \<noteq> [] then (if c = SerialError then 5 else 6)
      else if python_bases c = [Exception] then 2
      else if python_bases c = [ConnectionError] then 4 else 3)"

function superclasses :: "exc_class \<Rightarrow> exc_class list" where
  "superclasses c = c # concat (map superclasses (bases c))"
  by pat_completeness auto
termination
proof (relation "measure class_depth")
  show "wf (measure class_depth)" by simp
  show "b \<in> set (bases c) \<Longrightarrow> (b, c) \<in> measure class_depth" for b c
    by (cases c) (auto simp: bases_def)
qed

declare superclasses.simps [simp del]

datatype exn = Exn (exn_class: exc_class) (exn_errno: "int option") (exn_strerror: "string option")
  (exn_filename: "string option") (exn_winerror: "int option") (exn_cause: "exn option")

definition isinstance :: "exn \<Rightarrow> exc_class \<Rightarrow> bool" where
  "isinstance e c \<longleftrightarrow> List.member (superclasses (exn_class e)) c"

text \<open>An exception constructed with a message only, and one of the OSError family with its three fields.\<close>

definition exn_msg :: "exc_class \<Rightarrow> exn" where
  "exn_msg c = Exn c None None None None None"

definition exn_os :: "exc_class \<Rightarrow> int option \<Rightarrow> string option \<Rightarrow> string option \<Rightarrow> exn" where
  "exn_os c err msg fname = Exn c err msg fname None None"

subsection \<open>Deciding \<open>isinstance\<close>\<close>

lemma isinstance_OSError:
  "isinstance e OSError \<longleftrightarrow> exn_class e \<in> {OSError, BlockingIOError, InterruptedError,
     ConnectionError, BrokenPipeError, FileNotFoundError, PermissionError, TimeoutError,
     SerialError, ConfigurationError, PortNotFoundError, PortBusyError, UnsupportedFeatureError,
     UnsupportedConfigurationError, UnsupportedPlatformError, SerialClosedError,
     SerialDisconnectedError, UnsupportedAsyncBackendError}"
  by (cases "exn_class e") (simp_all add: isinstance_def superclasses.simps bases_def)

lemma isinstance_SerialError:
  "isinstance e SerialError \<longleftrightarrow> exn_class e \<in> {SerialError, ConfigurationError,
     PortNotFoundError, PortBusyError, UnsupportedFeatureError, UnsupportedConfigurationError,
     UnsupportedPlatformError, SerialClosedError, SerialDisconnectedError,
     UnsupportedAsyncBackendError}"
  by (cases "exn_class e") (simp_all add: isinstance_def superclasses.simps bases_def)

lemma isinstance_BlockingIOError: "isinstance e BlockingIOError \<longleftrightarrow> exn_class e = BlockingIOError"
  by (cases "exn_class e") (simp_all add: isinstance_def superclasses.simps bases_def)

lemma isinstance_InterruptedError: "isinstance e InterruptedError \<longleftrightarrow> exn_class e = InterruptedError"
  by (cases "exn_class e") (simp_all add: isinstance_def superclasses.simps bases_def)

lemma isinstance_ValueError:
  "isinstance e ValueError \<longleftrightarrow>
     exn_class e \<in> {ValueError, ConfigurationError, UnsupportedConfigurationError}"
  by (cases "exn_class e") (simp_all add: isinstance_def superclasses.simps bases_def)

lemma isinstance_Exception:
  "isinstance e Exception \<longleftrightarrow> exn_class e \<notin> {BaseException, CancelledError}"
  by (cases "exn_class e") (simp_all add: isinstance_def superclasses.simps bases_def)

lemmas isinstance_simps = isinstance_OSError isinstance_SerialError isinstance_BlockingIOError
  isinstance_InterruptedError isinstance_ValueError isinstance_Exception

lemma SerialError_is_OSError: "isinstance e SerialError \<Longrightarrow> isinstance e OSError"
  by (auto simp: isinstance_simps)

subsection \<open>errno to exception\<close>

text \<open>
  The errno values the package names have the same number on every supported platform, but for
  \<open>EAGAIN\<close>, which is a field of the platform (theory \<open>Kernel\<close>).
\<close>

definition ENOENT :: int where "ENOENT = 2"
definition EINTR :: int where "EINTR = 4"
definition EIO :: int where "EIO = 5"
definition ENXIO :: int where "ENXIO = 6"
definition EBADF :: int where "EBADF = 9"
definition EACCES :: int where "EACCES = 13"
definition EBUSY :: int where "EBUSY = 16"
definition ENODEV :: int where "ENODEV = 19"
definition EINVAL :: int where "EINVAL = 22"
definition ENOTTY :: int where "ENOTTY = 25"
definition EPIPE :: int where "EPIPE = 32"

lemmas errno_defs = ENOENT_def EINTR_def EIO_def ENXIO_def EBADF_def EACCES_def EBUSY_def
  ENODEV_def EINVAL_def ENOTTY_def EPIPE_def

definition OPEN_NOT_FOUND :: "int list" where
  "OPEN_NOT_FOUND = [ENOENT, ENODEV, ENXIO]"

definition BUSY_ERRNOS :: "int list" where
  "BUSY_ERRNOS = [EBUSY, EACCES]"

definition DISCONNECT_ERRNOS :: "int list" where
  "DISCONNECT_ERRNOS = [EIO, ENXIO]"

text \<open>\<open>err in frozenset\<close> where \<open>err\<close> may be \<open>None\<close>, and \<open>a or b\<close> on optional strings.\<close>

fun errno_in :: "int option \<Rightarrow> int list \<Rightarrow> bool" where
  "errno_in None xs = False"
| "errno_in (Some e) xs = (e \<in> set xs)"

fun str_or :: "string option \<Rightarrow> string option \<Rightarrow> string option" where
  "str_or (Some (c # cs)) b = Some (c # cs)"
| "str_or _ b = b"

definition errno_to_exception :: "exn \<Rightarrow> string \<Rightarrow> string option \<Rightarrow> exn" where
  "errno_to_exception exc context path =
     (if isinstance exc SerialError then exc
      else
        let err = exn_errno exc;
            filename = str_or (exn_filename exc) path;
            cls = (if context = ''open'' \<and> errno_in err OPEN_NOT_FOUND then PortNotFoundError
                   else if context = ''lock'' \<or> errno_in err BUSY_ERRNOS then PortBusyError
                   else if context = ''ioctl'' \<and> errno_in err [EINVAL, ENOTTY]
                     then UnsupportedFeatureError
                   else if context = ''io'' \<and> errno_in err DISCONNECT_ERRNOS
                     then SerialDisconnectedError
                   else SerialError)
        in Exn cls err (exn_strerror exc) filename None (Some exc))"

lemma errno_to_exception_passthrough:
  "isinstance exc SerialError \<Longrightarrow> errno_to_exception exc ctx path = exc"
  by (simp add: errno_to_exception_def)

text \<open>C23: \<open>errno_to_exception\<close> is total into the package's hierarchy: whatever is caught and whatever
  the context, the result is a \<open>SerialError\<close> (hence an \<open>OSError\<close>); one that was already a
  \<open>SerialError\<close> is returned unchanged, any other becomes the \<open>__cause__\<close> of the new exception,
  which keeps errno and strerror and falls back to \<open>path\<close> for a missing filename.\<close>

theorem errno_to_exception_total:
  "isinstance (errno_to_exception exc ctx path) SerialError
   \<and> isinstance (errno_to_exception exc ctx path) OSError
   \<and> (if isinstance exc SerialError then errno_to_exception exc ctx path = exc
      else exn_cause (errno_to_exception exc ctx path) = Some exc
         \<and> exn_errno (errno_to_exception exc ctx path) = exn_errno exc
         \<and> exn_strerror (errno_to_exception exc ctx path) = exn_strerror exc
         \<and> exn_filename (errno_to_exception exc ctx path) = str_or (exn_filename exc) path)"
proof (cases "isinstance exc SerialError")
  case True
  then show ?thesis by (simp add: errno_to_exception_passthrough SerialError_is_OSError)
next
  case False
  then show ?thesis by (auto simp: errno_to_exception_def Let_def isinstance_simps)
qed

lemma errno_to_exception_is_serial [simp]: "isinstance (errno_to_exception exc ctx path) SerialError"
  using errno_to_exception_def [of exc ctx path]
  by (auto simp: Let_def isinstance_simps split: if_splits)

text \<open>The class, by context and errno, of an exception raised by the operating system.\<close>

lemma errno_to_exception_class:
  assumes "\<not> isinstance exc SerialError"
  shows "exn_class (errno_to_exception exc ctx path) =
    (let err = exn_errno exc in
     if ctx = ''open'' \<and> errno_in err [2, 19, 6] then PortNotFoundError
     else if ctx = ''lock'' \<or> errno_in err [16, 13] then PortBusyError
     else if ctx = ''ioctl'' \<and> errno_in err [22, 25] then UnsupportedFeatureError
     else if ctx = ''io'' \<and> errno_in err [5, 6] then SerialDisconnectedError
     else SerialError)"
  using assms by (simp add: errno_to_exception_def Let_def errno_defs OPEN_NOT_FOUND_def
      BUSY_ERRNOS_def DISCONNECT_ERRNOS_def)

end
