(* ===== verification/Config.thy ===== *)
theory Config
  imports Exceptions
begin

section \<open>Validated configuration (\<open>config.py\<close>)\<close>

text \<open>
  The frozen dataclasses as records. A constructor call runs \<open>__post_init__\<close>, so it is a function
  into \<open>exn + record\<close>; \<open>with_changes\<close> is \<open>dataclasses.replace\<close>, which goes through the constructor
  again. Keyword changes are a list of field changes, applied together before the validation.
\<close>

record flow_control =
  xon_xoff :: bool
  rts_cts :: bool
  dtr_dsr :: bool

definition flow_none :: flow_control where
  "flow_none = \<lparr>xon_xoff = False, rts_cts = False, dtr_dsr = False\<rparr>"

record rs485_config =
  rs_enabled :: bool
  rs_rts_on_send :: bool
  rs_rts_after_send :: bool
  rs_delay_before_send :: pyfloat
  rs_delay_after_send :: pyfloat
  rs_rx_during_tx :: bool

definition default_rs485_config :: rs485_config where
  "default_rs485_config = \<lparr>rs_enabled = True, rs_rts_on_send = True, rs_rts_after_send = False,
     rs_delay_before_send = Fin 0, rs_delay_after_send = Fin 0, rs_rx_during_tx = False\<rparr>"

definition rs485_post_init :: "rs485_config \<Rightarrow> exn + rs485_config" where
  "rs485_post_init c =
     (if float_less (rs_delay_before_send c) (Fin 0) then Inl (exn_msg ConfigurationError)
      else if float_less (rs_delay_after_send c) (Fin 0) then Inl (exn_msg ConfigurationError)
      else Inr c)"

definition MIN_READ_CHUNK_SIZE :: int where "MIN_READ_CHUNK_SIZE = 64"
definition MAX_READ_CHUNK_SIZE :: int where "MAX_READ_CHUNK_SIZE = push_bit 24 1"

record serial_config =
  cfg_baudrate :: int
  cfg_byte_size :: byte_size
  cfg_parity :: parity
  cfg_stop_bits :: stop_bits
  cfg_flow_control :: flow_control
  cfg_exclusive :: bool
  cfg_hangup_on_close :: bool
  cfg_low_latency :: bool
  cfg_read_chunk_size :: int
  cfg_rs485 :: "rs485_config option"
  cfg_unsupported_policy :: unsupported_policy

definition default_config :: serial_config where
  "default_config = \<lparr>cfg_baudrate = 115200, cfg_byte_size = EIGHT, cfg_parity = PNONE,
     cfg_stop_bits = ONE, cfg_flow_control = flow_none, cfg_exclusive = False,
     cfg_hangup_on_close = True, cfg_low_latency = False, cfg_read_chunk_size = 65536,
     cfg_rs485 = None, cfg_unsupported_policy = RAISE\<rparr>"

definition serial_post_init :: "serial_config \<Rightarrow> exn + serial_config" where
  "serial_post_init c =
     (if cfg_baudrate c \<le> 0 then Inl (exn_msg ConfigurationError)
      else if \<not> (MIN_READ_CHUNK_SIZE \<le> cfg_read_chunk_size c
                 \<and> cfg_read_chunk_size c \<le> MAX_READ_CHUNK_SIZE)
        then Inl (exn_msg ConfigurationError)
      else Inr c)"

datatype config_change =
    Set_baudrate int | Set_byte_size byte_size | Set_parity parity | Set_stop_bits stop_bits
  | Set_flow_control flow_control | Set_exclusive bool | Set_hangup_on_close bool
  | Set_low_latency bool | Set_read_chunk_size int | Set_rs485 "rs485_config option"
  | Set_unsupported_policy unsupported_policy

primrec apply_change :: "config_change \<Rightarrow> serial_config \<Rightarrow> serial_config" where
  "apply_change (Set_baudrate v) c = c\<lparr>cfg_baudrate := v\<rparr>"
| "apply_change (Set_byte_size v) c = c\<lparr>cfg_byte_size := v\<rparr>"
| "apply_change (Set_parity v) c = c\<lparr>cfg_parity := v\<rparr>"
| "apply_change (Set_stop_bits v) c = c\<lparr>cfg_stop_bits := v\<rparr>"
| "apply_change (Set_flow_control v) c = c\<lparr>cfg_flow_control := v\<rparr>"
| "apply_change (Set_exclusive v) c = c\<lparr>cfg_exclusive := v\<rparr>"
| "apply_change (Set_hangup_on_close v) c = c\<lparr>cfg_hangup_on_close := v\<rparr>"
| "apply_change (Set_low_latency v) c = c\<lparr>cfg_low_latency := v\<rparr>"
| "apply_change (Set_read_chunk_size v) c = c\<lparr>cfg_read_chunk_size := v\<rparr>"
| "apply_change (Set_rs485 v) c = c\<lparr>cfg_rs485 := v\<rparr>"
| "apply_change (Set_unsupported_policy v) c = c\<lparr>cfg_unsupported_policy := v\<rparr>"

definition with_changes :: "config_change list \<Rightarrow> serial_config \<Rightarrow> exn + serial_config" where
  "with_changes ch c = serial_post_init (fold apply_change ch c)"

definition valid_config :: "serial_config \<Rightarrow> bool" where
  "valid_config c \<longleftrightarrow> 0 < cfg_baudrate c \<and> 64 \<le> cfg_read_chunk_size c
     \<and> cfg_read_chunk_size c \<le> 16777216"

lemma MAX_READ_CHUNK_SIZE_eq: "MAX_READ_CHUNK_SIZE = 16777216"
  by (simp add: MAX_READ_CHUNK_SIZE_def push_bit_eq_mult)

lemma serial_post_init_Inr [simp]: "serial_post_init c = Inr c' \<longleftrightarrow> c' = c \<and> valid_config c"
  by (auto simp: serial_post_init_def valid_config_def MIN_READ_CHUNK_SIZE_def MAX_READ_CHUNK_SIZE_eq)

lemma serial_post_init_Inl:
  "serial_post_init c = Inl e \<longleftrightarrow> \<not> valid_config c \<and> e = exn_msg ConfigurationError"
  by (auto simp: serial_post_init_def valid_config_def MIN_READ_CHUNK_SIZE_def MAX_READ_CHUNK_SIZE_eq)

lemma valid_default_config [simp]: "valid_config default_config"
  by (simp add: valid_config_def default_config_def)

definition mentions_baudrate :: "config_change \<Rightarrow> bool" where
  "mentions_baudrate ch = (case ch of Set_baudrate _ \<Rightarrow> True | _ \<Rightarrow> False)"

lemma fold_apply_change_baudrate:
  "\<forall>x \<in> set ch. \<not> mentions_baudrate x \<Longrightarrow> cfg_baudrate (fold apply_change ch c) = cfg_baudrate c"
proof (induction ch arbitrary: c)
  case Nil
  show ?case by simp
next
  case (Cons x ch)
  then have "cfg_baudrate (apply_change x c) = cfg_baudrate c"
    by (cases x) (simp_all add: mentions_baudrate_def)
  with Cons show ?case by simp
qed

text \<open>Deriving a configuration re-validates it: \<open>with_changes\<close> returns exactly the field-wise
  replacement, and does so precisely when that replacement has a positive baud rate and a read chunk
  size within the documented bounds; otherwise it raises \<open>ConfigurationError\<close>, which a caller can also
  catch as \<open>ValueError\<close>.\<close>

theorem with_changes_validates:
  "with_changes ch c =
     (if valid_config (fold apply_change ch c) then Inr (fold apply_change ch c)
      else Inl (exn_msg ConfigurationError))
   \<and> isinstance (exn_msg ConfigurationError) ValueError"
  using serial_post_init_Inl [of "fold apply_change ch c"]
  by (auto simp: with_changes_def isinstance_simps exn_msg_def split: if_splits)

end
