(* ===== verification/Termios.thy ===== *)
theory Termios
  imports Config
begin

section \<open>Pure termios builders (\<open>_posix/termios_apply.py\<close>)\<close>

text \<open>
  The builders are functions of the running host's \<open>termios\<close> module, which is not part of the
  package: it is the parameter \<open>m :: termios_mod\<close>. Constants the code reads as plain attributes are
  fields; constants it probes with \<open>getattr\<close>, \<open>hasattr\<close> or \<open>dir\<close> are looked up by name in
  \<open>t_dir\<close>. \<open>termios_ok\<close> states what POSIX documents about the flag constants: the fields of
  \<open>c_cflag\<close> and \<open>c_iflag\<close> the package owns do not overlap. The main lemmas say that the builder
  pipeline makes the attributes read back as the requested configuration, leaves every other bit
  alone, and fails exactly on the combinations termios cannot express.
\<close>

datatype pyval = PyInt int | PyOther

record termios_mod =
  t_platform :: string
  t_dir :: "(string \<times> pyval) list"
  IGNBRK :: int
  BRKINT :: int
  PARMRK :: int
  ISTRIP :: int
  INLCR :: int
  IGNCR :: int
  ICRNL :: int
  IXON :: int
  IXOFF :: int
  IXANY :: int
  OPOST :: int
  ECHO :: int
  ECHONL :: int
  ICANON :: int
  ISIG :: int
  IEXTEN :: int
  CSIZE :: int
  CS5 :: int
  CS6 :: int
  CS7 :: int
  CS8 :: int
  CSTOPB :: int
  CREAD :: int
  PARENB :: int
  PARODD :: int
  HUPCL :: int
  CLOCAL :: int
  VMIN :: nat
  VTIME :: nat
  B9600 :: int
  TCSANOW :: int
  TCIFLUSH :: int
  TCOFLUSH :: int

text \<open>\<open>getattr(termios, name, None)\<close>, \<open>int(getattr(termios, name, 0))\<close> and \<open>hasattr(termios, name)\<close>.\<close>

definition getattr_opt :: "termios_mod \<Rightarrow> string \<Rightarrow> int option" where
  "getattr_opt m name = (case map_of (t_dir m) name of Some (PyInt v) \<Rightarrow> Some v | _ \<Rightarrow> None)"

definition getattr_int :: "termios_mod \<Rightarrow> string \<Rightarrow> int" where
  "getattr_int m name = (case getattr_opt m name of Some v \<Rightarrow> v | None \<Rightarrow> 0)"

definition has_attr :: "termios_mod \<Rightarrow> string \<Rightarrow> bool" where
  "has_attr m name \<longleftrightarrow> map_of (t_dir m) name \<noteq> None"

subsection \<open>Attribute snapshots\<close>

datatype ccval = CC_bytes bytes | CC_int int

record termios_attrs =
  ta_iflag :: int
  ta_oflag :: int
  ta_cflag :: int
  ta_lflag :: int
  ta_ispeed :: int
  ta_ospeed :: int
  ta_cc :: "ccval list"

text \<open>The 7-element list \<open>tcgetattr\<close> returns and \<open>tcsetattr\<close> takes.\<close>

type_synonym tc_list = "int \<times> int \<times> int \<times> int \<times> int \<times> int \<times> ccval list"

fun attrs_from_list :: "tc_list \<Rightarrow> termios_attrs" where
  "attrs_from_list (i, ou, c, l, ispd, ospd, cc) =
     \<lparr>ta_iflag = i, ta_oflag = ou, ta_cflag = c, ta_lflag = l, ta_ispeed = ispd, ta_ospeed = ospd,
      ta_cc = cc\<rparr>"

definition attrs_to_list :: "termios_attrs \<Rightarrow> tc_list" where
  "attrs_to_list a = (ta_iflag a, ta_oflag a, ta_cflag a, ta_lflag a, ta_ispeed a, ta_ospeed a, ta_cc a)"

lemma attrs_list_inverse [simp]:
  "attrs_from_list (attrs_to_list a) = a" "attrs_to_list (attrs_from_list t) = t"
  by (simp add: attrs_to_list_def, cases t, simp add: attrs_to_list_def)

subsection \<open>Platform probes\<close>

definition LINUX_CMSPAR :: int where "LINUX_CMSPAR = 0x40000000"

definition CMSPAR :: "termios_mod \<Rightarrow> int" where
  "CMSPAR m = (if getattr_int m ''CMSPAR'' \<noteq> 0 then getattr_int m ''CMSPAR''
               else if starts_with ''linux'' (t_platform m) then LINUX_CMSPAR else 0)"

definition rts_cts_mask :: "termios_mod \<Rightarrow> int" where
  "rts_cts_mask m =
     (let crtscts = getattr_int m ''CRTSCTS'' in
      if crtscts \<noteq> 0 then crtscts
      else
        let ccts_oflow = getattr_int m ''CCTS_OFLOW''; crts_iflow = getattr_int m ''CRTS_IFLOW'' in
        if ccts_oflow \<noteq> 0 \<and> crts_iflow \<noteq> 0 then ccts_oflow OR crts_iflow else 0)"

subsection \<open>Builders\<close>

definition apply_raw_mode :: "termios_mod \<Rightarrow> termios_attrs \<Rightarrow> exn + termios_attrs" where
  "apply_raw_mode m a =
     (let iflag_clear = IGNBRK m OR BRKINT m OR PARMRK m OR ISTRIP m OR INLCR m OR IGNCR m
                          OR ICRNL m OR IXON m;
          lflag_clear = ECHO m OR ECHONL m OR ICANON m OR ISIG m OR IEXTEN m;
          cflag_clear = CSIZE m OR PARENB m;
          cflag_set = CS8 m OR CREAD m OR CLOCAL m
      in if VMIN m < length (ta_cc a) \<and> VTIME m < length (ta_cc a) then
           Inr (a\<lparr>ta_iflag := ta_iflag a AND NOT iflag_clear,
                  ta_oflag := ta_oflag a AND NOT (OPOST m),
                  ta_lflag := ta_lflag a AND NOT lflag_clear,
                  ta_cflag := (ta_cflag a AND NOT cflag_clear) OR cflag_set,
                  ta_cc := (ta_cc a)[VMIN m := CC_int 1, VTIME m := CC_int 0]\<rparr>)
         else Inl (exn_msg IndexError))"

primrec byte_size_bits :: "termios_mod \<Rightarrow> byte_size \<Rightarrow> int" where
  "byte_size_bits m FIVE = CS5 m"
| "byte_size_bits m SIX = CS6 m"
| "byte_size_bits m SEVEN = CS7 m"
| "byte_size_bits m EIGHT = CS8 m"

definition apply_byte_size :: "termios_mod \<Rightarrow> termios_attrs \<Rightarrow> byte_size \<Rightarrow> termios_attrs" where
  "apply_byte_size m a bs = a\<lparr>ta_cflag := (ta_cflag a AND NOT (CSIZE m)) OR byte_size_bits m bs\<rparr>"

definition apply_parity :: "termios_mod \<Rightarrow> termios_attrs \<Rightarrow> parity \<Rightarrow> exn + termios_attrs" where
  "apply_parity m a p =
     (let cflag = ta_cflag a AND NOT (PARENB m OR PARODD m);
          cflag = (if CMSPAR m \<noteq> 0 then cflag AND NOT (CMSPAR m) else cflag)
      in case p of
           PNONE \<Rightarrow> Inr (a\<lparr>ta_cflag := cflag\<rparr>)
         | EVEN \<Rightarrow> Inr (a\<lparr>ta_cflag := cflag OR PARENB m\<rparr>)
         | ODD \<Rightarrow> Inr (a\<lparr>ta_cflag := cflag OR (PARENB m OR PARODD m)\<rparr>)
         | MARK \<Rightarrow> (if CMSPAR m = 0 then Inl (exn_msg UnsupportedFeatureError)
                    else Inr (a\<lparr>ta_cflag := cflag OR (PARENB m OR PARODD m OR CMSPAR m)\<rparr>))
         | SPACE \<Rightarrow> (if CMSPAR m = 0 then Inl (exn_msg UnsupportedFeatureError)
                     else Inr (a\<lparr>ta_cflag := cflag OR (PARENB m OR CMSPAR m)\<rparr>)))"

primrec apply_stop_bits :: "termios_mod \<Rightarrow> termios_attrs \<Rightarrow> stop_bits \<Rightarrow> exn + termios_attrs" where
  "apply_stop_bits m a ONE = Inr (a\<lparr>ta_cflag := ta_cflag a AND NOT (CSTOPB m)\<rparr>)"
| "apply_stop_bits m a TWO = Inr (a\<lparr>ta_cflag := ta_cflag a OR CSTOPB m\<rparr>)"
| "apply_stop_bits m a ONE_POINT_FIVE = Inl (exn_msg UnsupportedFeatureError)"

definition apply_flow_control :: "termios_mod \<Rightarrow> termios_attrs \<Rightarrow> flow_control \<Rightarrow> exn + termios_attrs" where
  "apply_flow_control m a flow =
     (let iflag = ta_iflag a AND NOT (IXON m OR IXOFF m OR IXANY m);
          iflag = (if xon_xoff flow then iflag OR (IXON m OR IXOFF m) else iflag);
          cflag = (if rts_cts_mask m \<noteq> 0 then ta_cflag a AND NOT (rts_cts_mask m) else ta_cflag a)
      in if rts_cts flow \<and> rts_cts_mask m = 0 then Inl (exn_msg UnsupportedFeatureError)
         else
           let cflag = (if rts_cts flow then cflag OR rts_cts_mask m else cflag)
           in if dtr_dsr flow then Inl (exn_msg UnsupportedFeatureError)
              else Inr (a\<lparr>ta_iflag := iflag, ta_cflag := cflag\<rparr>))"

definition apply_hangup :: "termios_mod \<Rightarrow> termios_attrs \<Rightarrow> bool \<Rightarrow> termios_attrs" where
  "apply_hangup m a hangup_on_close =
     (if hangup_on_close then a\<lparr>ta_cflag := ta_cflag a OR HUPCL m\<rparr>
      else a\<lparr>ta_cflag := ta_cflag a AND NOT (HUPCL m)\<rparr>)"

text \<open>The builder sequence every backend runs between reading and committing the attributes.\<close>

definition apply_builders :: "termios_mod \<Rightarrow> serial_config \<Rightarrow> termios_attrs \<Rightarrow> exn + termios_attrs" where
  "apply_builders m c a =
     res_bind (apply_raw_mode m a) (\<lambda>a.
     res_bind (apply_parity m (apply_byte_size m a (cfg_byte_size c)) (cfg_parity c)) (\<lambda>a.
     res_bind (apply_stop_bits m a (cfg_stop_bits c)) (\<lambda>a.
     res_bind (apply_flow_control m a (cfg_flow_control c)) (\<lambda>a.
     Inr (apply_hangup m a (cfg_hangup_on_close c))))))"

subsection \<open>What POSIX documents about the flag constants\<close>

definition cflag_fields :: "termios_mod \<Rightarrow> int list" where
  "cflag_fields m = [CSIZE m, PARENB m, PARODD m, CMSPAR m, CSTOPB m, rts_cts_mask m, HUPCL m,
     CREAD m, CLOCAL m]"

fun disjoint_masks :: "int list \<Rightarrow> bool" where
  "disjoint_masks [] = True"
| "disjoint_masks (x # xs) = (list_all (\<lambda>y. x AND y = 0 \<and> y AND x = 0) xs \<and> disjoint_masks xs)"

definition termios_ok :: "termios_mod \<Rightarrow> bool" where
  "termios_ok m \<longleftrightarrow>
     disjoint_masks (cflag_fields m)
     \<and> list_all (\<lambda>b. byte_size_bits m b AND NOT (CSIZE m) = 0) Enum.enum
     \<and> distinct (map (byte_size_bits m) Enum.enum)
     \<and> PARENB m \<noteq> 0 \<and> PARODD m \<noteq> 0 \<and> CSTOPB m \<noteq> 0 \<and> HUPCL m \<noteq> 0
     \<and> IXON m OR IXOFF m \<noteq> 0 \<and> VMIN m \<noteq> VTIME m"

text \<open>The bits each setting of the configuration stands for.\<close>

definition parity_mask :: "termios_mod \<Rightarrow> int" where
  "parity_mask m = PARENB m OR PARODD m OR CMSPAR m"

primrec parity_bits :: "termios_mod \<Rightarrow> parity \<Rightarrow> int" where
  "parity_bits m PNONE = 0"
| "parity_bits m EVEN = PARENB m"
| "parity_bits m ODD = PARENB m OR PARODD m"
| "parity_bits m MARK = PARENB m OR PARODD m OR CMSPAR m"
| "parity_bits m SPACE = PARENB m OR CMSPAR m"

definition owned_cflag :: "termios_mod \<Rightarrow> int" where
  "owned_cflag m = CSIZE m OR parity_mask m OR CSTOPB m OR rts_cts_mask m OR HUPCL m OR CREAD m
     OR CLOCAL m"

definition xon_mask :: "termios_mod \<Rightarrow> int" where
  "xon_mask m = IXON m OR IXOFF m OR IXANY m"

lemma parity_bits_within: "parity_bits m p AND NOT (parity_mask m) = 0"
  by (cases p) (auto simp: parity_mask_def bit_eq_iff bit_simps)

lemma byte_size_bits_within: "termios_ok m \<Longrightarrow> byte_size_bits m b AND NOT (CSIZE m) = 0"
  by (cases b) (auto simp: termios_ok_def enum_byte_size_def)

subsection \<open>Each builder replaces one field of the control word\<close>

lemma apply_raw_mode_Inr:
  "apply_raw_mode m a = Inr a' \<longleftrightarrow>
     VMIN m < length (ta_cc a) \<and> VTIME m < length (ta_cc a) \<and>
     a' = a\<lparr>ta_iflag := ta_iflag a AND NOT (IGNBRK m OR BRKINT m OR PARMRK m OR ISTRIP m OR INLCR m
              OR IGNCR m OR ICRNL m OR IXON m),
            ta_oflag := ta_oflag a AND NOT (OPOST m),
            ta_lflag := ta_lflag a AND NOT (ECHO m OR ECHONL m OR ICANON m OR ISIG m OR IEXTEN m),
            ta_cflag := set_field (ta_cflag a) (CSIZE m OR PARENB m) (CS8 m OR CREAD m OR CLOCAL m),
            ta_cc := (ta_cc a)[VMIN m := CC_int 1, VTIME m := CC_int 0]\<rparr>"
  by (auto simp: apply_raw_mode_def Let_def set_field_def)

lemma apply_byte_size_eq:
  "apply_byte_size m a b = a\<lparr>ta_cflag := set_field (ta_cflag a) (CSIZE m) (byte_size_bits m b)\<rparr>"
  by (simp add: apply_byte_size_def set_field_def)

lemma apply_parity_Inr:
  "apply_parity m a p = Inr a' \<longleftrightarrow>
     (p \<in> {MARK, SPACE} \<longrightarrow> CMSPAR m \<noteq> 0) \<and>
     a' = a\<lparr>ta_cflag := set_field (ta_cflag a) (parity_mask m) (parity_bits m p)\<rparr>"
  by (cases p) (auto simp: apply_parity_def Let_def set_field_def parity_mask_def and_not_or and.assoc)

lemma apply_stop_bits_Inr:
  "apply_stop_bits m a s = Inr a' \<longleftrightarrow> s \<noteq> ONE_POINT_FIVE \<and>
     a' = a\<lparr>ta_cflag := set_field (ta_cflag a) (CSTOPB m) (if s = TWO then CSTOPB m else 0)\<rparr>"
proof -
  have "x OR k = set_field x k k" for x k :: int
    by (auto simp: set_field_def bit_eq_iff bit_simps)
  then show ?thesis by (cases s) (auto simp: set_field_def)
qed

lemma apply_flow_control_Inr:
  "apply_flow_control m a f = Inr a' \<longleftrightarrow>
     \<not> dtr_dsr f \<and> (rts_cts f \<longrightarrow> rts_cts_mask m \<noteq> 0) \<and>
     a' = a\<lparr>ta_iflag := set_field (ta_iflag a) (xon_mask m) (if xon_xoff f then IXON m OR IXOFF m else 0),
            ta_cflag := set_field (ta_cflag a) (rts_cts_mask m)
                          (if rts_cts f then rts_cts_mask m else 0)\<rparr>"
  by (auto simp: apply_flow_control_def Let_def set_field_def xon_mask_def)

lemma apply_hangup_eq:
  "apply_hangup m a h = a\<lparr>ta_cflag := set_field (ta_cflag a) (HUPCL m) (if h then HUPCL m else 0)\<rparr>"
proof -
  have "x OR k = set_field x k k" for x k :: int
    by (auto simp: set_field_def bit_eq_iff bit_simps)
  then show ?thesis by (simp add: apply_hangup_def set_field_def)
qed

definition pipeline_cflag :: "termios_mod \<Rightarrow> serial_config \<Rightarrow> int \<Rightarrow> int" where
  "pipeline_cflag m c x =
     set_field (set_field (set_field (set_field (set_field (set_field x
       (CSIZE m OR PARENB m) (CS8 m OR CREAD m OR CLOCAL m))
       (CSIZE m) (byte_size_bits m (cfg_byte_size c)))
       (parity_mask m) (parity_bits m (cfg_parity c)))
       (CSTOPB m) (if cfg_stop_bits c = TWO then CSTOPB m else 0))
       (rts_cts_mask m) (if rts_cts (cfg_flow_control c) then rts_cts_mask m else 0))
       (HUPCL m) (if cfg_hangup_on_close c then HUPCL m else 0)"

definition expressible :: "termios_mod \<Rightarrow> serial_config \<Rightarrow> bool" where
  "expressible m c \<longleftrightarrow> (cfg_parity c \<in> {MARK, SPACE} \<longrightarrow> CMSPAR m \<noteq> 0)
     \<and> cfg_stop_bits c \<noteq> ONE_POINT_FIVE \<and> \<not> dtr_dsr (cfg_flow_control c)
     \<and> (rts_cts (cfg_flow_control c) \<longrightarrow> rts_cts_mask m \<noteq> 0)"

lemma apply_builders_Inr:
  "apply_builders m c a = Inr a' \<longleftrightarrow>
     VMIN m < length (ta_cc a) \<and> VTIME m < length (ta_cc a) \<and> expressible m c \<and>
     a' = a\<lparr>ta_iflag := set_field (ta_iflag a AND NOT (IGNBRK m OR BRKINT m OR PARMRK m OR ISTRIP m
              OR INLCR m OR IGNCR m OR ICRNL m OR IXON m)) (xon_mask m)
              (if xon_xoff (cfg_flow_control c) then IXON m OR IXOFF m else 0),
            ta_oflag := ta_oflag a AND NOT (OPOST m),
            ta_lflag := ta_lflag a AND NOT (ECHO m OR ECHONL m OR ICANON m OR ISIG m OR IEXTEN m),
            ta_cflag := pipeline_cflag m c (ta_cflag a),
            ta_cc := (ta_cc a)[VMIN m := CC_int 1, VTIME m := CC_int 0]\<rparr>"
  by (auto simp: apply_builders_def res_bind_Inr_iff apply_raw_mode_Inr apply_byte_size_eq
      apply_parity_Inr apply_stop_bits_Inr apply_flow_control_Inr apply_hangup_eq
      pipeline_cflag_def expressible_def)

subsection \<open>Reading the committed attributes back\<close>

lemma termios_ok_disjoint:
  assumes "termios_ok m"
  shows "CSIZE m AND parity_mask m = 0" "CSIZE m AND CSTOPB m = 0" "CSIZE m AND rts_cts_mask m = 0"
    "CSIZE m AND HUPCL m = 0" "parity_mask m AND CSTOPB m = 0" "parity_mask m AND rts_cts_mask m = 0"
    "parity_mask m AND HUPCL m = 0" "CSTOPB m AND rts_cts_mask m = 0" "CSTOPB m AND HUPCL m = 0"
    "rts_cts_mask m AND HUPCL m = 0"
    "(CREAD m OR CLOCAL m) AND CSIZE m = 0" "(CREAD m OR CLOCAL m) AND parity_mask m = 0"
    "(CREAD m OR CLOCAL m) AND CSTOPB m = 0" "(CREAD m OR CLOCAL m) AND rts_cts_mask m = 0"
    "(CREAD m OR CLOCAL m) AND HUPCL m = 0"
  using assms
  by (simp_all add: termios_ok_def cflag_fields_def parity_mask_def and_or_zero_iff or_and_zero_iff)

lemma within_select: "v AND NOT m = 0 \<Longrightarrow> (if b then v else 0) AND NOT m = (0 :: int)"
  by simp

lemma self_within [simp]: "(m :: int) AND NOT m = 0"
  by simp

lemmas pipeline_within = byte_size_bits_within parity_bits_within within_select

lemma pipeline_cflag_reads:
  fixes x :: int and c :: serial_config
  assumes ok: "termios_ok m"
  defines "F \<equiv> pipeline_cflag m c x"
  shows "F AND CSIZE m = byte_size_bits m (cfg_byte_size c)"
    and "F AND parity_mask m = parity_bits m (cfg_parity c)"
    and "F AND CSTOPB m = (if cfg_stop_bits c = TWO then CSTOPB m else 0)"
    and "F AND rts_cts_mask m = (if rts_cts (cfg_flow_control c) then rts_cts_mask m else 0)"
    and "F AND HUPCL m = (if cfg_hangup_on_close c then HUPCL m else 0)"
    and "F AND (CREAD m OR CLOCAL m) = CREAD m OR CLOCAL m"
proof -
  note d = termios_ok_disjoint [OF ok]
  note w = pipeline_within byte_size_bits_within [OF ok]
  show "F AND CSIZE m = byte_size_bits m (cfg_byte_size c)"
    unfolding F_def pipeline_cflag_def by (simp add: set_field_other set_field_read d w)
  show "F AND parity_mask m = parity_bits m (cfg_parity c)"
    unfolding F_def pipeline_cflag_def by (simp add: set_field_other set_field_read d w)
  show "F AND CSTOPB m = (if cfg_stop_bits c = TWO then CSTOPB m else 0)"
    unfolding F_def pipeline_cflag_def by (subst set_field_other set_field_read, simp_all add: d w)+
  show "F AND rts_cts_mask m = (if rts_cts (cfg_flow_control c) then rts_cts_mask m else 0)"
    unfolding F_def pipeline_cflag_def by (subst set_field_other set_field_read, simp_all add: d w)+
  show "F AND HUPCL m = (if cfg_hangup_on_close c then HUPCL m else 0)"
    unfolding F_def pipeline_cflag_def by (subst set_field_read, simp_all add: d w)
  have r: "set_field x (CSIZE m OR PARENB m) (CS8 m OR CREAD m OR CLOCAL m) AND (CREAD m OR CLOCAL m)
     = CREAD m OR CLOCAL m"
    by (auto simp: set_field_def bit_eq_iff bit_simps)
  show "F AND (CREAD m OR CLOCAL m) = CREAD m OR CLOCAL m"
    unfolding F_def pipeline_cflag_def by (simp add: set_field_other d w r)
qed

lemma pipeline_cflag_frame:
  assumes ok: "termios_ok m"
  shows "pipeline_cflag m c x AND NOT (owned_cflag m) = x AND NOT (owned_cflag m)"
proof -
  have sub: "set_field y k v AND NOT (owned_cflag m) = y AND NOT (owned_cflag m)"
    if "k AND NOT (owned_cflag m) = 0" "v AND NOT (owned_cflag m) = 0" for y k v
  proof -
    from that have "bit (k AND NOT (owned_cflag m)) n = False" "bit (v AND NOT (owned_cflag m)) n = False"
      for n by simp_all
    then have "bit k n \<Longrightarrow> bit (owned_cflag m) n" "bit v n \<Longrightarrow> bit (owned_cflag m) n" for n
      by (auto simp: bit_simps)
    then show ?thesis by (auto simp: set_field_def bit_eq_iff bit_simps)
  qed
  have own: "CSIZE m AND NOT (owned_cflag m) = 0" "parity_mask m AND NOT (owned_cflag m) = 0"
    "CSTOPB m AND NOT (owned_cflag m) = 0" "rts_cts_mask m AND NOT (owned_cflag m) = 0"
    "HUPCL m AND NOT (owned_cflag m) = 0" "(CSIZE m OR PARENB m) AND NOT (owned_cflag m) = 0"
    "parity_bits m p AND NOT (owned_cflag m) = 0" for p
    by (cases p; auto simp: owned_cflag_def parity_mask_def bit_eq_iff bit_simps)+
  have csize: "byte_size_bits m b AND NOT (owned_cflag m) = 0" for b
  proof -
    have "byte_size_bits m b AND NOT (CSIZE m) = 0" by (rule byte_size_bits_within [OF ok])
    then have "bit (byte_size_bits m b AND NOT (CSIZE m)) n = False" for n by simp
    then show ?thesis by (auto simp: owned_cflag_def bit_eq_iff bit_simps)
  qed
  from csize [of EIGHT] have raw: "(CS8 m OR CREAD m OR CLOCAL m) AND NOT (owned_cflag m) = 0"
    by (auto simp: owned_cflag_def bit_eq_iff bit_simps)
  show ?thesis
    unfolding pipeline_cflag_def by (simp add: sub own csize raw)
qed

text \<open>Decoding the line settings from committed attributes, as \<open>stty\<close> would report them.\<close>

record line_settings =
  ls_byte_size :: byte_size
  ls_parity :: parity
  ls_two_stop_bits :: bool
  ls_xon_xoff :: bool
  ls_rts_cts :: bool
  ls_hangup :: bool

definition decode_line :: "termios_mod \<Rightarrow> termios_attrs \<Rightarrow> line_settings option" where
  "decode_line m a =
     (case (find (\<lambda>b. byte_size_bits m b = ta_cflag a AND CSIZE m) Enum.enum,
            find (\<lambda>p. parity_bits m p = ta_cflag a AND parity_mask m) Enum.enum) of
        (Some b, Some p) \<Rightarrow> Some
          \<lparr>ls_byte_size = b, ls_parity = p,
           ls_two_stop_bits = (ta_cflag a AND CSTOPB m \<noteq> 0),
           ls_xon_xoff = (ta_iflag a AND (IXON m OR IXOFF m) \<noteq> 0),
           ls_rts_cts = (rts_cts_mask m \<noteq> 0 \<and> ta_cflag a AND rts_cts_mask m = rts_cts_mask m),
           ls_hangup = (ta_cflag a AND HUPCL m \<noteq> 0)\<rparr>
      | _ \<Rightarrow> None)"

definition line_of_config :: "serial_config \<Rightarrow> line_settings" where
  "line_of_config c = \<lparr>ls_byte_size = cfg_byte_size c, ls_parity = cfg_parity c,
     ls_two_stop_bits = (cfg_stop_bits c = TWO), ls_xon_xoff = xon_xoff (cfg_flow_control c),
     ls_rts_cts = rts_cts (cfg_flow_control c), ls_hangup = cfg_hangup_on_close c\<rparr>"

lemma find_byte_size:
  "termios_ok m \<Longrightarrow> find (\<lambda>b. byte_size_bits m b = byte_size_bits m b0) Enum.enum = Some b0"
  by (cases b0) (auto simp: termios_ok_def enum_byte_size_def)

lemma disjoint_or_neq: "(k :: int) AND v = 0 \<Longrightarrow> k \<noteq> 0 \<Longrightarrow> v OR k \<noteq> v"
proof
  assume "k AND v = 0" "k \<noteq> 0" "v OR k = v"
  then have "k = (v OR k) AND k" by (auto simp: bit_eq_iff bit_simps)
  with \<open>v OR k = v\<close> \<open>k AND v = 0\<close> have "k = 0" by (simp add: and.commute)
  with \<open>k \<noteq> 0\<close> show False ..
qed

lemma parity_bits_inj:
  assumes ok: "termios_ok m" and p: "p \<in> {MARK, SPACE} \<longrightarrow> CMSPAR m \<noteq> 0"
  shows "find (\<lambda>q. parity_bits m q = parity_bits m p) Enum.enum = Some p"
proof -
  let ?E = "PARENB m" and ?O = "PARODD m" and ?C = "CMSPAR m"
  have d: "?E AND ?O = 0" "?E AND ?C = 0" "?O AND ?C = 0" "?O AND ?E = 0" "?C AND ?E = 0" "?C AND ?O = 0"
    and nz: "?E \<noteq> 0" "?O \<noteq> 0"
    using ok by (simp_all add: termios_ok_def cflag_fields_def)
  have sel: "(parity_bits m q AND ?E = (if q = PNONE then 0 else ?E))
     \<and> (parity_bits m q AND ?O = (if q \<in> {ODD, MARK} then ?O else 0))
     \<and> (parity_bits m q AND ?C = (if q \<in> {MARK, SPACE} then ?C else 0))" for q
    by (cases q) (simp_all add: d bit.conj_disj_distrib2)
  have neq: "parity_bits m q \<noteq> parity_bits m p" if "q \<noteq> p" "\<not> (q \<in> {MARK, SPACE} \<and> ?C = 0)" for q
  proof
    assume "parity_bits m q = parity_bits m p"
    with sel [of q] sel [of p] show False
      using that p nz by (cases q; cases p; simp)
  qed
  show ?thesis
    using neq [of PNONE] neq [of ODD] neq [of EVEN] neq [of MARK] neq [of SPACE] p
    by (cases p) (auto simp: enum_parity_def simp del: parity_bits.simps)
qed

subsection \<open>The values of a Linux host\<close>

text \<open>The constants of Linux's \<open>termios\<close> module, at which the witnesses evaluate the model.\<close>

definition linux_termios :: termios_mod where
  "linux_termios = \<lparr>t_platform = ''linux'',
     t_dir = [(''B0'', PyInt 0), (''B9600'', PyInt 13), (''B115200'', PyInt 0x1002),
       (''B4000000'', PyInt 0x100F), (''BRKINT'', PyInt 2), (''CRTSCTS'', PyInt 0x80000000),
       (''FIONREAD'', PyInt 0x541B), (''TIOCINQ'', PyInt 0x541B), (''TIOCOUTQ'', PyInt 0x5411),
       (''TIOCMGET'', PyInt 0x5415), (''TIOCMBIS'', PyInt 0x5416), (''TIOCMBIC'', PyInt 0x5417),
       (''TIOCM_RTS'', PyInt 4), (''TIOCM_DTR'', PyInt 2), (''TIOCM_CTS'', PyInt 0x20),
       (''TIOCM_DSR'', PyInt 0x100), (''TIOCM_RI'', PyInt 0x80), (''TIOCM_CAR'', PyInt 0x40)],
     IGNBRK = 1, BRKINT = 2, PARMRK = 8, ISTRIP = 0x20, INLCR = 0x40, IGNCR = 0x80, ICRNL = 0x100,
     IXON = 0x400, IXOFF = 0x1000, IXANY = 0x800, OPOST = 1, ECHO = 8, ECHONL = 0x40, ICANON = 2,
     ISIG = 1, IEXTEN = 0x8000, CSIZE = 0x30, CS5 = 0, CS6 = 0x10, CS7 = 0x20, CS8 = 0x30,
     CSTOPB = 0x40, CREAD = 0x80, PARENB = 0x100, PARODD = 0x200, HUPCL = 0x400, CLOCAL = 0x800,
     VMIN = 6, VTIME = 5, B9600 = 13, TCSANOW = 0, TCIFLUSH = 0, TCOFLUSH = 1\<rparr>"

lemma linux_CMSPAR [simp]: "CMSPAR linux_termios = 0x40000000"
  by (simp add: CMSPAR_def getattr_int_def getattr_opt_def linux_termios_def LINUX_CMSPAR_def
      starts_with_def)

lemma linux_rts_cts_mask [simp]: "rts_cts_mask linux_termios = 0x80000000"
  by (simp add: rts_cts_mask_def getattr_int_def getattr_opt_def linux_termios_def)

lemma linux_termios_ok [simp]: "termios_ok linux_termios"
  by (simp add: termios_ok_def cflag_fields_def enum_byte_size_def)
    (simp add: linux_termios_def)

definition sample_attrs :: termios_attrs where
  "sample_attrs = \<lparr>ta_iflag = 0x500, ta_oflag = 5, ta_cflag = 0x4BD, ta_lflag = 0x8A3B,
     ta_ispeed = 13, ta_ospeed = 13, ta_cc = replicate 19 (CC_int 0)\<rparr>"

subsection \<open>Properties\<close>

lemma apply_builders_reads:
  assumes ok: "termios_ok m" and run: "apply_builders m c a = Inr a'"
  shows "decode_line m a' = Some (line_of_config c)
    \<and> ta_cflag a' AND (CREAD m OR CLOCAL m) = CREAD m OR CLOCAL m
    \<and> ta_cflag a' AND NOT (owned_cflag m) = ta_cflag a AND NOT (owned_cflag m)
    \<and> ta_ispeed a' = ta_ispeed a \<and> ta_ospeed a' = ta_ospeed a
    \<and> ta_cc a' ! VMIN m = CC_int 1 \<and> ta_cc a' ! VTIME m = CC_int 0
    \<and> length (ta_cc a') = length (ta_cc a)"
proof -
  from run have len: "VMIN m < length (ta_cc a)" "VTIME m < length (ta_cc a)" and ex: "expressible m c"
    and cfl: "ta_cflag a' = pipeline_cflag m c (ta_cflag a)"
    and ifl: "\<exists>y. ta_iflag a' = set_field y (xon_mask m) (if xon_xoff (cfg_flow_control c) then IXON m OR IXOFF m else 0)"
    and rest: "ta_ispeed a' = ta_ispeed a" "ta_ospeed a' = ta_ospeed a"
      "ta_cc a' = (ta_cc a)[VMIN m := CC_int 1, VTIME m := CC_int 0]"
    by (auto simp: apply_builders_Inr)
  note rd = pipeline_cflag_reads [OF ok, of c "ta_cflag a"]
  have vv: "VMIN m \<noteq> VTIME m" and nz: "CSTOPB m \<noteq> 0" "HUPCL m \<noteq> 0" "IXON m OR IXOFF m \<noteq> 0"
    using ok by (simp_all add: termios_ok_def)
  from ex have p: "cfg_parity c \<in> {MARK, SPACE} \<longrightarrow> CMSPAR m \<noteq> 0" and stop: "cfg_stop_bits c \<noteq> ONE_POINT_FIVE"
    and rts: "rts_cts (cfg_flow_control c) \<longrightarrow> rts_cts_mask m \<noteq> 0"
    by (simp_all add: expressible_def)
  have xon: "(ta_iflag a' AND (IXON m OR IXOFF m) \<noteq> 0) = xon_xoff (cfg_flow_control c)"
  proof -
    from ifl obtain y where y: "ta_iflag a' = set_field y (xon_mask m)
        (if xon_xoff (cfg_flow_control c) then IXON m OR IXOFF m else 0)" ..
    have "set_field y (xon_mask m) (IXON m OR IXOFF m) AND (IXON m OR IXOFF m) = IXON m OR IXOFF m"
      "set_field y (xon_mask m) 0 AND (IXON m OR IXOFF m) = 0"
      by (auto simp: set_field_def xon_mask_def bit_eq_iff bit_simps)
    with y nz(3) show ?thesis by simp
  qed
  have "decode_line m a' = Some (line_of_config c)"
    using rts nz
    by (auto simp: decode_line_def line_of_config_def cfl rd find_byte_size [OF ok]
        parity_bits_inj [OF ok p] xon)
  then show ?thesis
    using rd(6) pipeline_cflag_frame [OF ok] rest len vv by (simp add: cfl)
qed

text \<open>The bits raw mode clears, besides those of the fields above.\<close>

definition raw_iflag :: "termios_mod \<Rightarrow> int" where
  "raw_iflag m = IGNBRK m OR BRKINT m OR PARMRK m OR ISTRIP m OR INLCR m OR IGNCR m OR ICRNL m OR IXON m"

definition raw_lflag :: "termios_mod \<Rightarrow> int" where
  "raw_lflag m = ECHO m OR ECHONL m OR ICANON m OR ISIG m OR IEXTEN m"

lemma apply_builders_raw:
  assumes "apply_builders m c a = Inr a'"
  shows "ta_lflag a' = ta_lflag a AND NOT (raw_lflag m)" "ta_oflag a' = ta_oflag a AND NOT (OPOST m)"
    "ta_iflag a' = (ta_iflag a AND NOT (raw_iflag m OR xon_mask m))
       OR (if xon_xoff (cfg_flow_control c) then IXON m OR IXOFF m else 0)"
    "i < length (ta_cc a) \<Longrightarrow> i \<noteq> VMIN m \<Longrightarrow> i \<noteq> VTIME m \<Longrightarrow> ta_cc a' ! i = ta_cc a ! i"
  using assms
  by (auto simp: apply_builders_Inr raw_lflag_def raw_iflag_def set_field_def and_not_or and.assoc)

text \<open>C30: The builder pipeline and the line decoder are inverse: whenever the pipeline succeeds,
  the committed attributes decode to exactly the requested byte size, parity, stop bits, flow control
  and hangup setting; the receiver is enabled and modem lines are ignored; and the line is raw: the
  line discipline's echo, canonical input, signals and extensions are off, output processing is off,
  of the input flags exactly those of raw mode and flow control are replaced, and reads return after
  one byte. The speeds, every control bit the package does not own, every other local, output and
  input flag and every other control character are those read from the device.\<close>

theorem apply_builders_roundtrip:
  assumes ok: "termios_ok m" and run: "apply_builders m c a = Inr a'"
  shows "decode_line m a' = Some (line_of_config c)
    \<and> ta_cflag a' AND (CREAD m OR CLOCAL m) = CREAD m OR CLOCAL m
    \<and> ta_cflag a' AND NOT (owned_cflag m) = ta_cflag a AND NOT (owned_cflag m)
    \<and> ta_lflag a' = ta_lflag a AND NOT (raw_lflag m)
    \<and> ta_oflag a' = ta_oflag a AND NOT (OPOST m)
    \<and> ta_iflag a' = (ta_iflag a AND NOT (raw_iflag m OR xon_mask m))
        OR (if xon_xoff (cfg_flow_control c) then IXON m OR IXOFF m else 0)
    \<and> ta_ispeed a' = ta_ispeed a \<and> ta_ospeed a' = ta_ospeed a
    \<and> ta_cc a' ! VMIN m = CC_int 1 \<and> ta_cc a' ! VTIME m = CC_int 0
    \<and> length (ta_cc a') = length (ta_cc a)
    \<and> (\<forall>i < length (ta_cc a). i \<noteq> VMIN m \<and> i \<noteq> VTIME m \<longrightarrow> ta_cc a' ! i = ta_cc a ! i)"
  using apply_builders_reads [OF ok run] apply_builders_raw [OF run] by blast

text \<open>A cooked line with the carriage return of its echo mapped becomes a raw one with mark parity.\<close>

theorem apply_builders_roundtrip_witness:
  "\<exists>a'. apply_builders linux_termios (default_config\<lparr>cfg_parity := MARK\<rparr>) sample_attrs = Inr a'
     \<and> decode_line linux_termios a' = Some (line_of_config (default_config\<lparr>cfg_parity := MARK\<rparr>))
     \<and> ta_lflag a' = 0xA30 \<and> ta_iflag a' = 0 \<and> ta_oflag a' = 4 \<and> ta_cc a' ! 4 = CC_int 0"
proof -
  have "\<exists>a'. apply_builders linux_termios (default_config\<lparr>cfg_parity := MARK\<rparr>) sample_attrs = Inr a'"
    by (simp add: apply_builders_Inr expressible_def default_config_def flow_none_def sample_attrs_def)
      (simp add: linux_termios_def)
  then obtain a' where run: "apply_builders linux_termios (default_config\<lparr>cfg_parity := MARK\<rparr>) sample_attrs = Inr a'" ..
  have vals: "ta_lflag sample_attrs AND NOT (raw_lflag linux_termios) = 0xA30"
    "ta_oflag sample_attrs AND NOT (OPOST linux_termios) = 4"
    "ta_iflag sample_attrs AND NOT (raw_iflag linux_termios OR xon_mask linux_termios) = 0"
    "\<not> xon_xoff (cfg_flow_control (default_config\<lparr>cfg_parity := MARK\<rparr>))"
    "4 < length (ta_cc sample_attrs)" "4 \<noteq> VMIN linux_termios" "4 \<noteq> VTIME linux_termios"
    "ta_cc sample_attrs ! 4 = CC_int 0"
    by (simp_all add: sample_attrs_def raw_lflag_def raw_iflag_def xon_mask_def linux_termios_def default_config_def flow_none_def)
  from apply_builders_roundtrip [OF linux_termios_ok run] vals run show ?thesis by auto
qed

lemma apply_builders_cases:
  "(\<exists>a'. apply_builders m c a = Inr a') \<longleftrightarrow>
     VMIN m < length (ta_cc a) \<and> VTIME m < length (ta_cc a) \<and> expressible m c"
  by (simp add: apply_builders_Inr)

lemma apply_builders_Inl_class:
  assumes "apply_builders m c a = Inl e" "VMIN m < length (ta_cc a)" "VTIME m < length (ta_cc a)"
  shows "e = exn_msg UnsupportedFeatureError"
proof -
  have p: "apply_parity m b p = Inl e \<Longrightarrow> e = exn_msg UnsupportedFeatureError" for b p
    by (cases p) (auto simp: apply_parity_def Let_def split: if_splits)
  have s: "apply_stop_bits m b sb = Inl e \<Longrightarrow> e = exn_msg UnsupportedFeatureError" for b sb
    by (cases sb) auto
  have f: "apply_flow_control m b fl = Inl e \<Longrightarrow> e = exn_msg UnsupportedFeatureError" for b fl
    by (auto simp: apply_flow_control_def Let_def split: if_splits)
  from assms show ?thesis
    by (auto simp: apply_builders_def res_bind_Inl_iff apply_raw_mode_def Let_def dest: p s f)
qed

text \<open>The pipeline fails loudly on exactly what termios cannot express: given attributes as long
  as \<open>tcgetattr\<close> returns, it raises \<open>UnsupportedFeatureError\<close> if and only if mark or space parity is
  asked for without \<open>CMSPAR\<close>, or 1.5 stop bits, or DTR/DSR flow control, or RTS/CTS on a host with no
  handshake bits, and never raises anything else.\<close>

theorem apply_builders_errors:
  assumes len: "VMIN m < length (ta_cc a)" "VTIME m < length (ta_cc a)"
  shows "(apply_builders m c a = Inl (exn_msg UnsupportedFeatureError) \<longleftrightarrow>
      (cfg_parity c \<in> {MARK, SPACE} \<and> CMSPAR m = 0) \<or> cfg_stop_bits c = ONE_POINT_FIVE
      \<or> dtr_dsr (cfg_flow_control c) \<or> (rts_cts (cfg_flow_control c) \<and> rts_cts_mask m = 0))
    \<and> (\<forall>e. apply_builders m c a = Inl e \<longrightarrow> e = exn_msg UnsupportedFeatureError)"
proof -
  have cls: "e = exn_msg UnsupportedFeatureError" if "apply_builders m c a = Inl e" for e
    using that len by (rule apply_builders_Inl_class)
  have "(\<exists>a'. apply_builders m c a = Inr a') \<longleftrightarrow> expressible m c"
    using len by (simp add: apply_builders_cases)
  then have "apply_builders m c a = Inl (exn_msg UnsupportedFeatureError) \<longleftrightarrow> \<not> expressible m c"
    using cls by (cases "apply_builders m c a") auto
  with cls show ?thesis by (auto simp: expressible_def)
qed

theorem apply_builders_errors_witness:
  "apply_builders linux_termios (default_config\<lparr>cfg_stop_bits := ONE_POINT_FIVE\<rparr>) sample_attrs
     = Inl (exn_msg UnsupportedFeatureError)"
proof -
  have "VMIN linux_termios < length (ta_cc sample_attrs)" "VTIME linux_termios < length (ta_cc sample_attrs)"
    by (simp_all add: linux_termios_def sample_attrs_def)
  from apply_builders_errors [OF this] show ?thesis
    by (rule conjunct1 [THEN iffD2]) simp
qed

end
