(* ===== verification/Baudrate.thy ===== *)
theory Baudrate
  imports Termios
begin

section \<open>Baud rates (\<open>_posix/baudrate.py\<close> and the per-platform \<open>baudrate\<close> modules)\<close>

text \<open>
  The table of standard rates is computed from the names the host's \<open>termios\<close> module exposes.
  Other rates go through \<open>struct termios2\<close> on Linux, whose 44-byte layout (\<open>@IIIIB19sII\<close>) is
  written out here, through the \<open>IOSSIOSPEED\<close> ioctl on Darwin, and unchanged into the attributes on
  the BSDs. Packing fails with \<open>struct.error\<close> on a field that does not fit, as Python's does.
\<close>

subsection \<open>Standard rates\<close>

definition is_baud_name :: "string \<Rightarrow> bool" where
  "is_baud_name name \<longleftrightarrow> starts_with ''B'' name \<and> 2 \<le> length name \<and> list_all is_digit (tl name)"

definition discover_step :: "string \<times> pyval \<Rightarrow> (int \<rightharpoonup> int) \<Rightarrow> (int \<rightharpoonup> int)" where
  "discover_step nv mapping =
     (if \<not> is_baud_name (fst nv) then mapping
      else let bps = int (nat_of_digits (tl (fst nv))) in
        if bps = 0 then mapping
        else case snd nv of PyInt value \<Rightarrow> mapping(bps \<mapsto> value) | PyOther \<Rightarrow> mapping)"

definition discover_standard_baud_rates :: "termios_mod \<Rightarrow> int \<rightharpoonup> int" where
  "discover_standard_baud_rates m = fold discover_step (t_dir m) Map.empty"

definition baudrate_to_speed :: "termios_mod \<Rightarrow> int \<Rightarrow> exn + int" where
  "baudrate_to_speed m rate =
     (case discover_standard_baud_rates m rate of
        Some v \<Rightarrow> Inr v
      | None \<Rightarrow> Inl (exn_msg UnsupportedConfigurationError))"

definition is_standard_baud :: "termios_mod \<Rightarrow> int \<Rightarrow> bool" where
  "is_standard_baud m rate \<longleftrightarrow> discover_standard_baud_rates m rate \<noteq> None"

lemma discover_step_dom:
  "mp r \<noteq> None \<longrightarrow> 0 < r \<Longrightarrow> discover_step nv mp r \<noteq> None \<longrightarrow> 0 < r"
  by (auto simp: discover_step_def Let_def split: pyval.splits if_splits)

lemma standard_baud_positive: "is_standard_baud m r \<Longrightarrow> 0 < r"
proof -
  have "(\<forall>r. mp r \<noteq> None \<longrightarrow> 0 < r) \<Longrightarrow> (\<forall>r. fold discover_step d mp r \<noteq> None \<longrightarrow> 0 < r)" for d mp
  proof (induction d arbitrary: mp)
    case Nil
    then show ?case by simp
  next
    case (Cons x d)
    have "\<forall>r. discover_step x mp r \<noteq> None \<longrightarrow> 0 < r"
      using Cons.prems discover_step_dom by blast
    then show ?case using Cons.IH [of "discover_step x mp"] by simp
  qed
  then show "is_standard_baud m r \<Longrightarrow> 0 < r"
    by (fastforce simp: is_standard_baud_def discover_standard_baud_rates_def)
qed

lemma baudrate_to_speed_Inr:
  "is_standard_baud m r \<Longrightarrow> \<exists>v. baudrate_to_speed m r = Inr v"
  by (auto simp: is_standard_baud_def baudrate_to_speed_def)

lemma baudrate_to_speed_Inl:
  "\<not> is_standard_baud m r \<Longrightarrow> baudrate_to_speed m r = Inl (exn_msg UnsupportedConfigurationError)"
  by (auto simp: is_standard_baud_def baudrate_to_speed_def)

lemma is_standard_baud_iff: "is_standard_baud m r \<longleftrightarrow> (\<exists>v. baudrate_to_speed m r = Inr v)"
  by (auto simp: is_standard_baud_def baudrate_to_speed_def split: option.splits)

subsection \<open>Unsigned struct fields\<close>

definition fits_unsigned :: "nat \<Rightarrow> int \<Rightarrow> bool" where
  "fits_unsigned n v \<longleftrightarrow> 0 \<le> v \<and> v < 256 ^ n"

definition pack_unsigned :: "nat \<Rightarrow> int \<Rightarrow> exn + bytes" where
  "pack_unsigned n v = (if fits_unsigned n v then Inr (le_bytes n (nat v)) else Inl (exn_msg StructError))"

definition field_at :: "nat \<Rightarrow> nat \<Rightarrow> bytes \<Rightarrow> int" where
  "field_at off n buf = int (le_val (take n (drop off buf)))"

lemma fits_unsigned_nat [simp]: "fits_unsigned n v \<Longrightarrow> nat v < 256 ^ n"
proof -
  assume "fits_unsigned n v"
  then have "0 \<le> v" "v < int (256 ^ n)" by (simp_all add: fits_unsigned_def)
  then show ?thesis by (simp add: nat_less_iff)
qed

lemma fits_unsigned_nonneg [simp]: "fits_unsigned n v \<Longrightarrow> 0 \<le> v"
  by (simp add: fits_unsigned_def)

lemma fits_field_at: "fits_unsigned n (field_at off n buf)"
proof -
  let ?t = "take n (drop off buf)"
  have "le_val ?t < 256 ^ length ?t" by (rule le_val_bound)
  also have "(256 :: nat) ^ length ?t \<le> 256 ^ n" by (rule power_increasing) simp_all
  finally have "int (le_val ?t) < int (256 ^ n)" by (simp only: of_nat_less_iff)
  then show ?thesis by (simp add: fits_unsigned_def field_at_def)
qed

lemma le_bytes_field_at:
  "off + n \<le> length buf \<Longrightarrow> le_bytes n (nat (field_at off n buf)) = take n (drop off buf)"
proof -
  assume "off + n \<le> length buf"
  then have "length (take n (drop off buf)) = n" by simp
  with le_bytes_le_val [of "take n (drop off buf)"] show ?thesis by (simp only: field_at_def nat_int)
qed

subsection \<open>\<open>struct termios2\<close>\<close>

definition TCGETS2 :: int where "TCGETS2 = 0x802C542A"
definition TCSETS2 :: int where "TCSETS2 = 0x402C542B"
definition BOTHER :: int where "BOTHER = 0x1000"
definition CBAUD :: int where "CBAUD = 0x100F"
definition NCCS2 :: nat where "NCCS2 = 19"
definition TERMIOS2_SIZE :: nat where "TERMIOS2_SIZE = 44"

record termios2_attrs =
  t2_iflag :: int
  t2_oflag :: int
  t2_cflag :: int
  t2_lflag :: int
  t2_line :: int
  t2_cc :: bytes
  t2_ispeed :: int
  t2_ospeed :: int

text \<open>The \<open>19s\<close> field truncates or zero-fills, as \<open>struct\<close> does.\<close>

definition pad_to :: "nat \<Rightarrow> bytes \<Rightarrow> bytes" where
  "pad_to n bs = take n (bs @ replicate n 0)"

lemma length_pad_to [simp]: "length (pad_to n bs) = n"
  by (simp add: pad_to_def)

lemma pad_to_id [simp]: "length bs = n \<Longrightarrow> pad_to n bs = bs"
  by (simp add: pad_to_def)

definition termios2_pack :: "termios2_attrs \<Rightarrow> exn + bytes" where
  "termios2_pack a =
     res_bind (pack_unsigned 4 (t2_iflag a)) (\<lambda>b1.
     res_bind (pack_unsigned 4 (t2_oflag a)) (\<lambda>b2.
     res_bind (pack_unsigned 4 (t2_cflag a)) (\<lambda>b3.
     res_bind (pack_unsigned 4 (t2_lflag a)) (\<lambda>b4.
     res_bind (pack_unsigned 1 (t2_line a)) (\<lambda>b5.
     res_bind (pack_unsigned 4 (t2_ispeed a)) (\<lambda>b7.
     res_bind (pack_unsigned 4 (t2_ospeed a)) (\<lambda>b8.
     Inr (b1 @ b2 @ b3 @ b4 @ b5 @ pad_to NCCS2 (t2_cc a) @ b7 @ b8))))))))"

definition termios2_unpack :: "bytes \<Rightarrow> exn + termios2_attrs" where
  "termios2_unpack buf =
     (if length buf \<noteq> TERMIOS2_SIZE then Inl (exn_msg StructError)
      else Inr \<lparr>t2_iflag = field_at 0 4 buf, t2_oflag = field_at 4 4 buf, t2_cflag = field_at 8 4 buf,
             t2_lflag = field_at 12 4 buf, t2_line = field_at 16 1 buf,
             t2_cc = take 19 (drop 17 buf),
             t2_ispeed = field_at 36 4 buf, t2_ospeed = field_at 40 4 buf\<rparr>)"

definition clear_cbaud :: "int \<Rightarrow> int" where
  "clear_cbaud cflag = cflag AND NOT CBAUD"

definition mark_bother :: "int \<Rightarrow> int" where
  "mark_bother cflag = clear_cbaud cflag OR BOTHER"

definition termios2_fits :: "termios2_attrs \<Rightarrow> bool" where
  "termios2_fits a \<longleftrightarrow> fits_unsigned 4 (t2_iflag a) \<and> fits_unsigned 4 (t2_oflag a)
     \<and> fits_unsigned 4 (t2_cflag a) \<and> fits_unsigned 4 (t2_lflag a) \<and> fits_unsigned 1 (t2_line a)
     \<and> fits_unsigned 4 (t2_ispeed a) \<and> fits_unsigned 4 (t2_ospeed a)"

lemma termios2_pack_Inr:
  "termios2_pack a = Inr bs \<longleftrightarrow> termios2_fits a \<and>
     bs = le_bytes 4 (nat (t2_iflag a)) @ le_bytes 4 (nat (t2_oflag a)) @ le_bytes 4 (nat (t2_cflag a))
       @ le_bytes 4 (nat (t2_lflag a)) @ le_bytes 1 (nat (t2_line a)) @ pad_to 19 (t2_cc a)
       @ le_bytes 4 (nat (t2_ispeed a)) @ le_bytes 4 (nat (t2_ospeed a))"
  by (auto simp: termios2_pack_def termios2_fits_def pack_unsigned_def NCCS2_def res_bind_Inr_iff)

lemma termios2_pack_Inl:
  "termios2_pack a = Inl e \<longleftrightarrow> \<not> termios2_fits a \<and> e = exn_msg StructError"
  by (auto simp: termios2_pack_def termios2_fits_def pack_unsigned_def res_bind_Inl_iff)

lemma length_termios2_pack: "termios2_pack a = Inr bs \<Longrightarrow> length bs = 44"
  by (auto simp: termios2_pack_Inr)

lemma termios2_unpack_Inr:
  "termios2_unpack buf = Inr a \<longleftrightarrow> length buf = 44 \<and>
     a = \<lparr>t2_iflag = field_at 0 4 buf, t2_oflag = field_at 4 4 buf, t2_cflag = field_at 8 4 buf,
          t2_lflag = field_at 12 4 buf, t2_line = field_at 16 1 buf, t2_cc = take 19 (drop 17 buf),
          t2_ispeed = field_at 36 4 buf, t2_ospeed = field_at 40 4 buf\<rparr>"
  by (auto simp: termios2_unpack_def TERMIOS2_SIZE_def)

lemma termios2_unpack_fits: "termios2_unpack buf = Inr a \<Longrightarrow> termios2_fits a \<and> length (t2_cc a) = 19"
  by (auto simp: termios2_unpack_Inr termios2_fits_def fits_field_at)

lemma termios2_unpack_pack:
  assumes "termios2_pack a = Inr bs" "length (t2_cc a) = 19"
  shows "termios2_unpack bs = Inr a"
proof -
  from assms have f: "termios2_fits a" and bs: "bs = le_bytes 4 (nat (t2_iflag a))
      @ le_bytes 4 (nat (t2_oflag a)) @ le_bytes 4 (nat (t2_cflag a)) @ le_bytes 4 (nat (t2_lflag a))
      @ le_bytes 1 (nat (t2_line a)) @ t2_cc a @ le_bytes 4 (nat (t2_ispeed a)) @ le_bytes 4 (nat (t2_ospeed a))"
    by (simp_all add: termios2_pack_Inr)
  have rd: "int (le_val (le_bytes n (nat v))) = v" if "fits_unsigned n v" for n v
    using le_val_le_bytes_id [OF fits_unsigned_nat [OF that]] that by simp
  show ?thesis
    using f assms(2)
    by (simp add: termios2_unpack_Inr bs field_at_def termios2_fits_def rd
        del: le_val_le_bytes_id One_nat_def le_bytes.simps)
qed

lemma termios2_pack_unpack:
  assumes "termios2_unpack buf = Inr a"
  shows "termios2_pack a = Inr buf"
proof -
  from assms have len: "length buf = 44" and a: "a = \<lparr>t2_iflag = field_at 0 4 buf, t2_oflag = field_at 4 4 buf,
      t2_cflag = field_at 8 4 buf, t2_lflag = field_at 12 4 buf, t2_line = field_at 16 1 buf,
      t2_cc = take 19 (drop 17 buf), t2_ispeed = field_at 36 4 buf, t2_ospeed = field_at 40 4 buf\<rparr>"
    by (simp_all add: termios2_unpack_Inr)
  have glue: "take k (drop n buf) @ drop (n + k) buf = drop n buf" for n k
    using append_take_drop_id [of k "drop n buf"] by (simp add: add.commute)
  have "take 4 (drop 0 buf) @ take 4 (drop 4 buf) @ take 4 (drop 8 buf) @ take 4 (drop 12 buf)
      @ take 1 (drop 16 buf) @ take 19 (drop 17 buf) @ take 4 (drop 36 buf) @ take 4 (drop 40 buf) = buf"
    using glue [of 4 0] glue [of 4 4] glue [of 4 8] glue [of 4 12] glue [of 1 16] glue [of 19 17]
      glue [of 4 36] take_all [of "drop 40 buf" 4] len
    by simp
  then show ?thesis
    using len termios2_unpack_fits [OF assms] le_bytes_field_at [of 0 4 buf] le_bytes_field_at [of 4 4 buf]
      le_bytes_field_at [of 8 4 buf] le_bytes_field_at [of 12 4 buf] le_bytes_field_at [of 16 1 buf]
      le_bytes_field_at [of 36 4 buf] le_bytes_field_at [of 40 4 buf]
    by (simp only: termios2_pack_Inr a termios2_attrs.simps) simp
qed

lemma mark_bother_eq: "mark_bother x = set_field x CBAUD BOTHER"
  by (simp add: mark_bother_def clear_cbaud_def set_field_def)

lemma mark_bother_slot: "mark_bother x AND CBAUD = BOTHER"
  unfolding mark_bother_eq by (rule set_field_read) (simp add: BOTHER_def CBAUD_def)

lemma mark_bother_frame: "mark_bother x AND NOT CBAUD = x AND NOT CBAUD"
  unfolding mark_bother_eq by (rule set_field_keep) (simp add: BOTHER_def CBAUD_def)

text \<open>C31: The \<open>struct termios2\<close> codec is a bijection between the 44-byte kernel payload and the
  attributes whose fields fit it: unpacking what was packed gives the attributes back, repacking
  what was unpacked gives the same bytes, packing fails exactly on a field out of range, and
  \<open>mark_bother\<close> rewrites the baud slot of the control word and nothing else.\<close>

theorem termios2_codec_roundtrip:
  "(\<forall>bs. termios2_pack a = Inr bs \<and> length (t2_cc a) = 19 \<longrightarrow> termios2_unpack bs = Inr a)
   \<and> (\<forall>buf. termios2_unpack buf = Inr a \<longrightarrow> termios2_pack a = Inr buf)
   \<and> (termios2_pack a = Inl (exn_msg StructError) \<longleftrightarrow> \<not> termios2_fits a)
   \<and> mark_bother x AND CBAUD = BOTHER \<and> mark_bother x AND NOT CBAUD = x AND NOT CBAUD"
  by (intro conjI allI impI)
    (blast intro: termios2_unpack_pack, rule termios2_pack_unpack,
      simp_all add: termios2_pack_Inl mark_bother_slot mark_bother_frame)

definition sample_termios2 :: termios2_attrs where
  "sample_termios2 = \<lparr>t2_iflag = 0, t2_oflag = 0, t2_cflag = 0x1CB0, t2_lflag = 0, t2_line = 0,
     t2_cc = replicate 19 1, t2_ispeed = 250000, t2_ospeed = 250000\<rparr>"

theorem termios2_codec_roundtrip_witness:
  "\<exists>bs. termios2_pack sample_termios2 = Inr bs \<and> termios2_unpack bs = Inr sample_termios2"
proof -
  have f: "\<exists>bs. termios2_pack sample_termios2 = Inr bs" and "length (t2_cc sample_termios2) = 19"
    by (simp_all add: termios2_pack_Inr termios2_fits_def fits_unsigned_def sample_termios2_def)
  then show ?thesis using termios2_codec_roundtrip [of sample_termios2 0] by blast
qed

subsection \<open>Darwin, BSD, Windows\<close>

definition IOSSIOSPEED :: int where "IOSSIOSPEED = 0x80085402"

definition passthrough_rate :: "int \<Rightarrow> int" where
  "passthrough_rate rate = rate"

definition validate_baudrate :: "int \<Rightarrow> exn + int" where
  "validate_baudrate b = (if 1 \<le> b \<and> b \<le> 0xFFFFFFFF then Inr b else Inl (exn_msg ValueError))"

end
