(* ===== verification/Kernel.thy ===== *)
theory Kernel
  imports Baudrate "HOL-Library.Multiset"
begin

section \<open>The operating system the POSIX backends call\<close>

text \<open>
  The kernel is not part of the package. It is a parameter of every run: the record \<open>os_env\<close> holds one
  function per system call, from the history of events so far and the arguments to an error or a
  result, and nothing is assumed of these functions, so that a theorem speaks of every possible
  kernel, device and schedule of failures. Each call appends what was asked and what was answered
  to the log \<open>k_log\<close>; properties such as ``no descriptor is leaked'' are predicates of the log.

  What Python adds to a call is modelled: the exception class PEP 3151 derives from errno, that
  \<open>termios\<close> functions raise \<open>termios.error\<close> (which is not an \<open>OSError\<close>), that \<open>fcntl\<close> and
  \<open>termios\<close> reject a negative descriptor with \<open>ValueError\<close> before calling the kernel, that
  \<open>ioctl\<close> returns a buffer as long as its argument, and that \<open>readv\<close> and \<open>write\<close> transfer at most the
  requested number of bytes. \<open>warnings.warn\<close> raises under a filter that turns warnings into errors.
\<close>

type_synonym oserr = "int \<times> string"

datatype payload = P_int int | P_bytes bytes | P_ints "int list"

datatype event =
    Ev_open string int "oserr + nat"
  | Ev_close int "oserr + unit"
  | Ev_flock int "oserr + unit"
  | Ev_tcgetattr int "oserr + tc_list"
  | Ev_tcsetattr int int tc_list "oserr + unit"
  | Ev_tcflush int int "oserr + unit"
  | Ev_tcdrain int "oserr + unit"
  | Ev_readv int nat "oserr + bytes"
  | Ev_write int bytes "oserr + nat"
  | Ev_ioctl int int payload "oserr + payload"
  | Ev_resolve string "exc_class + string"
  | Ev_exists string bool
  | Ev_read_text string "oserr + string"
  | Ev_write_text string string "oserr + unit"
  | Ev_warn string bool

type_synonym log = "event list"

record os_env =
  env_eagain :: int
  env_O_RDWR :: int
  env_O_NOCTTY :: int
  env_O_NONBLOCK :: int
  env_O_CLOEXEC :: "int option"
  env_open :: "log \<Rightarrow> string \<Rightarrow> int \<Rightarrow> oserr + nat"
  env_close :: "log \<Rightarrow> int \<Rightarrow> oserr + unit"
  env_flock :: "log \<Rightarrow> int \<Rightarrow> oserr + unit"
  env_tcgetattr :: "log \<Rightarrow> int \<Rightarrow> oserr + tc_list"
  env_tcsetattr :: "log \<Rightarrow> int \<Rightarrow> tc_list \<Rightarrow> oserr + unit"
  env_tcflush :: "log \<Rightarrow> int \<Rightarrow> int \<Rightarrow> oserr + unit"
  env_tcdrain :: "log \<Rightarrow> int \<Rightarrow> oserr + unit"
  env_readv :: "log \<Rightarrow> int \<Rightarrow> nat \<Rightarrow> oserr + bytes"
  env_write :: "log \<Rightarrow> int \<Rightarrow> bytes \<Rightarrow> oserr + nat"
  env_ioctl_int :: "log \<Rightarrow> int \<Rightarrow> int \<Rightarrow> int \<Rightarrow> oserr + unit"
  env_ioctl_bytes :: "log \<Rightarrow> int \<Rightarrow> int \<Rightarrow> bytes \<Rightarrow> oserr + bytes"
  env_ioctl_ints :: "log \<Rightarrow> int \<Rightarrow> int \<Rightarrow> int list \<Rightarrow> oserr + 32 word list"
  env_resolve :: "log \<Rightarrow> string \<Rightarrow> exc_class + string"
  env_exists :: "log \<Rightarrow> string \<Rightarrow> bool"
  env_read_text :: "log \<Rightarrow> string \<Rightarrow> oserr + string"
  env_write_text :: "log \<Rightarrow> string \<Rightarrow> string \<Rightarrow> oserr + unit"
  env_warn_raises :: "log \<Rightarrow> bool"

record kernel =
  k_env :: os_env
  k_log :: log

subsection \<open>Exceptions of a system call\<close>

text \<open>PEP 3151, restricted to the classes the package distinguishes.\<close>

definition os_class :: "os_env \<Rightarrow> int \<Rightarrow> exc_class" where
  "os_class env e =
     (if e = env_eagain env then BlockingIOError
      else if e = EINTR then InterruptedError
      else if e = ENOENT then FileNotFoundError
      else if e = EACCES \<or> e = 1 then PermissionError
      else if e = EPIPE then BrokenPipeError
      else OSError)"

definition os_exn :: "os_env \<Rightarrow> string option \<Rightarrow> oserr \<Rightarrow> exn" where
  "os_exn env fname err = exn_os (os_class env (fst err)) (Some (fst err)) (Some (snd err)) fname"

definition termios_exn :: "oserr \<Rightarrow> exn" where
  "termios_exn err = exn_msg TermiosError"

lemma os_exn_simps [simp]:
  "exn_errno (os_exn env f e) = Some (fst e)" "exn_strerror (os_exn env f e) = Some (snd e)"
  "exn_filename (os_exn env f e) = f" "exn_class (os_exn env f e) = os_class env (fst e)"
  by (simp_all add: os_exn_def exn_os_def)

lemma os_exn_isinstance [simp]:
  "isinstance (os_exn env f e) OSError" "\<not> isinstance (os_exn env f e) SerialError"
  "isinstance (os_exn env f e) Exception"
  by (auto simp: isinstance_simps os_class_def)

lemma os_exn_BlockingIOError [simp]:
  "isinstance (os_exn env f e) BlockingIOError \<longleftrightarrow> fst e = env_eagain env"
  by (auto simp: isinstance_simps os_class_def)

lemma termios_exn_isinstance [simp]:
  "\<not> isinstance (termios_exn e) OSError" "\<not> isinstance (termios_exn e) BlockingIOError"
  "isinstance (termios_exn e) Exception"
  by (simp_all add: termios_exn_def exn_msg_def isinstance_simps)

lemma exn_msg_isinstance [simp]: "exn_class (exn_msg c) = c"
  by (simp add: exn_msg_def)

subsection \<open>Calls\<close>

definition sys_call :: "('k kernel_scheme \<Rightarrow> 'e + 'a) \<Rightarrow> ('e + 'a \<Rightarrow> event) \<Rightarrow>
    ('k kernel_scheme \<Rightarrow> 'e \<Rightarrow> exn) \<Rightarrow> ('k kernel_scheme, exn, 'a) io" where
  "sys_call ask ev mk = (\<lambda>s.
     (case ask s of Inl e \<Rightarrow> Inl (mk s e) | Inr x \<Rightarrow> Inr x,
      s\<lparr>k_log := k_log s @ [ev (ask s)]\<rparr>))"

lemma wp_sys_call [wp_simps]:
  "wp (sys_call ask ev mk) Q E s \<longleftrightarrow>
     (\<forall>e. ask s = Inl e \<longrightarrow> E (mk s e) (s\<lparr>k_log := k_log s @ [ev (Inl e)]\<rparr>)) \<and>
     (\<forall>x. ask s = Inr x \<longrightarrow> Q x (s\<lparr>k_log := k_log s @ [ev (Inr x)]\<rparr>))"
  by (auto simp: wp_def sys_call_def split: sum.splits)

definition fildes :: "int \<Rightarrow> ('s, exn, 'a) io \<Rightarrow> ('s, exn, 'a) io" where
  "fildes fd m = (if fd < 0 then io_raise (exn_msg ValueError) else m)"

lemma wp_fildes [wp_simps]:
  "wp (fildes fd m) Q E s \<longleftrightarrow> (if fd < 0 then E (exn_msg ValueError) s else wp m Q E s)"
  by (simp add: fildes_def wp_simps)

definition os_open :: "string \<Rightarrow> int \<Rightarrow> ('k kernel_scheme, exn, nat) io" where
  "os_open path flags = sys_call (\<lambda>s. env_open (k_env s) (k_log s) path flags) (Ev_open path flags)
     (\<lambda>s. os_exn (k_env s) (Some path))"

definition os_close :: "int \<Rightarrow> ('k kernel_scheme, exn, unit) io" where
  "os_close fd = sys_call (\<lambda>s. env_close (k_env s) (k_log s) fd) (Ev_close fd)
     (\<lambda>s. os_exn (k_env s) None)"

definition fcntl_flock :: "int \<Rightarrow> ('k kernel_scheme, exn, unit) io" where
  "fcntl_flock fd = fildes fd (sys_call (\<lambda>s. env_flock (k_env s) (k_log s) fd) (Ev_flock fd)
     (\<lambda>s. os_exn (k_env s) None))"

definition tcgetattr :: "int \<Rightarrow> ('k kernel_scheme, exn, tc_list) io" where
  "tcgetattr fd = fildes fd (sys_call (\<lambda>s. env_tcgetattr (k_env s) (k_log s) fd) (Ev_tcgetattr fd)
     (\<lambda>s. termios_exn))"

definition tcsetattr :: "int \<Rightarrow> int \<Rightarrow> tc_list \<Rightarrow> ('k kernel_scheme, exn, unit) io" where
  "tcsetattr fd when a = fildes fd (sys_call (\<lambda>s. env_tcsetattr (k_env s) (k_log s) fd a)
     (Ev_tcsetattr fd when a) (\<lambda>s. termios_exn))"

definition tcflush :: "int \<Rightarrow> int \<Rightarrow> ('k kernel_scheme, exn, unit) io" where
  "tcflush fd queue = fildes fd (sys_call (\<lambda>s. env_tcflush (k_env s) (k_log s) fd queue)
     (Ev_tcflush fd queue) (\<lambda>s. termios_exn))"

definition tcdrain :: "int \<Rightarrow> ('k kernel_scheme, exn, unit) io" where
  "tcdrain fd = fildes fd (sys_call (\<lambda>s. env_tcdrain (k_env s) (k_log s) fd) (Ev_tcdrain fd)
     (\<lambda>s. termios_exn))"

lemma map_sum_id_iff [simp]:
  "map_sum id f r = Inl e \<longleftrightarrow> r = Inl e" "map_sum id f r = Inr y \<longleftrightarrow> (\<exists>x. r = Inr x \<and> y = f x)"
  by (cases r; auto)+

definition os_readv :: "int \<Rightarrow> nat \<Rightarrow> ('k kernel_scheme, exn, bytes) io" where
  "os_readv fd n = sys_call (\<lambda>s. map_sum id (take n) (env_readv (k_env s) (k_log s) fd n))
     (Ev_readv fd n) (\<lambda>s. os_exn (k_env s) None)"

definition os_write :: "int \<Rightarrow> bytes \<Rightarrow> ('k kernel_scheme, exn, nat) io" where
  "os_write fd data = sys_call
     (\<lambda>s. map_sum id (min (length data)) (env_write (k_env s) (k_log s) fd data))
     (Ev_write fd data) (\<lambda>s. os_exn (k_env s) None)"

definition ioctl_int :: "int \<Rightarrow> int \<Rightarrow> int \<Rightarrow> ('k kernel_scheme, exn, unit) io" where
  "ioctl_int fd req arg = fildes fd (sys_call (\<lambda>s. env_ioctl_int (k_env s) (k_log s) fd req arg)
     (\<lambda>r. Ev_ioctl fd req (P_int arg) (map_sum id (\<lambda>_. P_int 0) r)) (\<lambda>s. os_exn (k_env s) None))"

definition ioctl_bytes :: "int \<Rightarrow> int \<Rightarrow> bytes \<Rightarrow> ('k kernel_scheme, exn, bytes) io" where
  "ioctl_bytes fd req arg = fildes fd (sys_call
     (\<lambda>s. map_sum id (pad_to (length arg)) (env_ioctl_bytes (k_env s) (k_log s) fd req arg))
     (\<lambda>r. Ev_ioctl fd req (P_bytes arg) (map_sum id P_bytes r)) (\<lambda>s. os_exn (k_env s) None))"

text \<open>An \<open>array('i')\<close> argument is written in place; the new contents are the result.\<close>

definition fit_ints :: "nat \<Rightarrow> 32 word list \<Rightarrow> int list" where
  "fit_ints n ws = take n (map sint ws @ replicate n 0)"

lemma length_fit_ints [simp]: "length (fit_ints n ws) = n"
  by (simp add: fit_ints_def)

lemma fit_ints_range: "i < n \<Longrightarrow> - (2 ^ 31) \<le> fit_ints n ws ! i \<and> fit_ints n ws ! i < 2 ^ 31"
proof -
  assume i: "i < n"
  have "fit_ints n ws ! i \<in> set (map sint ws @ replicate n 0)"
    unfolding fit_ints_def using i by (metis length_append length_replicate nth_mem nth_take trans_less_add2)
  then have "fit_ints n ws ! i = 0 \<or> (\<exists>w. fit_ints n ws ! i = sint (w :: 32 word))" by auto
  then show ?thesis using sint_greater_eq [where 'a = 32] sint_less [where 'a = 32] by auto
qed

definition ioctl_ints :: "int \<Rightarrow> int \<Rightarrow> int list \<Rightarrow> ('k kernel_scheme, exn, int list) io" where
  "ioctl_ints fd req arg = fildes fd (sys_call
     (\<lambda>s. map_sum id (fit_ints (length arg)) (env_ioctl_ints (k_env s) (k_log s) fd req arg))
     (\<lambda>r. Ev_ioctl fd req (P_ints arg) (map_sum id P_ints r)) (\<lambda>s. os_exn (k_env s) None))"

definition path_resolve :: "string \<Rightarrow> ('k kernel_scheme, exn, string) io" where
  "path_resolve path = sys_call
     (\<lambda>s. case env_resolve (k_env s) (k_log s) path of
        Inl c \<Rightarrow> Inl (if c = RuntimeError then RuntimeError else OSError) | Inr p \<Rightarrow> Inr p)
     (Ev_resolve path) (\<lambda>s. exn_msg)"

definition path_exists :: "string \<Rightarrow> ('k kernel_scheme, exn, bool) io" where
  "path_exists path = sys_call
     (\<lambda>s. Inr (env_exists (k_env s) (k_log s) path) :: exn + bool)
     (\<lambda>r. Ev_exists path (r = Inr True)) (\<lambda>s e. e)"

definition path_read_text :: "string \<Rightarrow> ('k kernel_scheme, exn, string) io" where
  "path_read_text path = sys_call (\<lambda>s. env_read_text (k_env s) (k_log s) path) (Ev_read_text path)
     (\<lambda>s. os_exn (k_env s) (Some path))"

definition path_write_text :: "string \<Rightarrow> string \<Rightarrow> ('k kernel_scheme, exn, unit) io" where
  "path_write_text path txt = sys_call (\<lambda>s. env_write_text (k_env s) (k_log s) path txt)
     (Ev_write_text path txt) (\<lambda>s. os_exn (k_env s) (Some path))"

definition warn_runtime :: "string \<Rightarrow> ('k kernel_scheme, exn, unit) io" where
  "warn_runtime msg = sys_call
     (\<lambda>s. if env_warn_raises (k_env s) (k_log s) then Inl (exn_msg RuntimeWarning) else Inr ())
     (\<lambda>r. Ev_warn msg (r \<noteq> Inr ())) (\<lambda>s e. e)"

lemmas syscall_defs [wp_simps] = os_open_def os_close_def fcntl_flock_def tcgetattr_def tcsetattr_def
  tcflush_def tcdrain_def os_readv_def os_write_def ioctl_int_def ioctl_bytes_def ioctl_ints_def
  path_resolve_def path_exists_def path_read_text_def path_write_text_def warn_runtime_def

lemmas syscall_io_defs [io_defs] = syscall_defs sys_call_def fildes_def

subsection \<open>What a log shows\<close>

text \<open>
  The descriptors the process holds: one more for every successful \<open>open\<close>, one less for every
  \<open>close\<close>. A failed \<open>close\<close> releases the descriptor too, as on Linux and the BSDs.
\<close>

primrec fds_step :: "event \<Rightarrow> int multiset \<Rightarrow> int multiset" where
  "fds_step (Ev_open p fl r) fds = (case r of Inl _ \<Rightarrow> fds | Inr fd \<Rightarrow> add_mset (int fd) fds)"
| "fds_step (Ev_close fd r) fds = fds - {#fd#}"
| "fds_step (Ev_flock fd r) fds = fds"
| "fds_step (Ev_tcgetattr fd r) fds = fds"
| "fds_step (Ev_tcsetattr fd w a r) fds = fds"
| "fds_step (Ev_tcflush fd q r) fds = fds"
| "fds_step (Ev_tcdrain fd r) fds = fds"
| "fds_step (Ev_readv fd n r) fds = fds"
| "fds_step (Ev_write fd d r) fds = fds"
| "fds_step (Ev_ioctl fd q a r) fds = fds"
| "fds_step (Ev_resolve p r) fds = fds"
| "fds_step (Ev_exists p r) fds = fds"
| "fds_step (Ev_read_text p r) fds = fds"
| "fds_step (Ev_write_text p t r) fds = fds"
| "fds_step (Ev_warn t r) fds = fds"

definition open_fds :: "log \<Rightarrow> int multiset" where
  "open_fds l = fold fds_step l {#}"

lemma open_fds_Nil [simp]: "open_fds [] = {#}"
  by (simp add: open_fds_def)

lemma open_fds_snoc [simp]: "open_fds (l @ [e]) = fds_step e (open_fds l)"
  by (simp add: open_fds_def)

text \<open>Events that neither open nor close a descriptor.\<close>

definition fd_neutral :: "event \<Rightarrow> bool" where
  "fd_neutral e = (case e of Ev_open _ _ _ \<Rightarrow> False | Ev_close _ _ \<Rightarrow> False | _ \<Rightarrow> True)"

lemma fd_neutral_step: "fd_neutral e \<Longrightarrow> fds_step e fds = fds"
  by (cases e) (simp_all add: fd_neutral_def)

text \<open>
  Frames. \<open>appends P\<close>: the run changed nothing but the log, to which it appended events satisfying
  \<open>P\<close> (so no field of the backend, and not the environment). \<open>extends P\<close>: the run may have
  changed the backend's fields, and appended such events.
\<close>

definition appends :: "(event \<Rightarrow> bool) \<Rightarrow> 'k kernel_scheme \<Rightarrow> 'k kernel_scheme \<Rightarrow> bool" where
  "appends P s s' \<longleftrightarrow> (\<exists>es. list_all P es \<and> s' = s\<lparr>k_log := k_log s @ es\<rparr>)"

definition extends :: "(event \<Rightarrow> bool) \<Rightarrow> 'k kernel_scheme \<Rightarrow> 'k kernel_scheme \<Rightarrow> bool" where
  "extends P s s' \<longleftrightarrow> k_env s' = k_env s \<and> (\<exists>es. list_all P es \<and> k_log s' = k_log s @ es)"

lemma appends_extends: "appends P s s' \<Longrightarrow> extends P s s'"
  by (auto simp: appends_def extends_def)

lemma appends_refl [simp]: "appends P s s"
  by (auto simp: appends_def intro: exI [of _ "[]"])

lemma appends_snoc: "P e \<Longrightarrow> appends P s (s\<lparr>k_log := k_log s @ [e]\<rparr>)"
  by (auto simp: appends_def intro: exI [of _ "[e]"])

lemma appends_trans: "appends P s s' \<Longrightarrow> appends P s' s'' \<Longrightarrow> appends P s s''"
  unfolding appends_def
proof (elim exE conjE)
  fix es es'
  assume "list_all P es" "list_all P es'" "s' = s\<lparr>k_log := k_log s @ es\<rparr>"
    "s'' = s'\<lparr>k_log := k_log s' @ es'\<rparr>"
  then show "\<exists>es. list_all P es \<and> s'' = s\<lparr>k_log := k_log s @ es\<rparr>"
    by (intro exI [of _ "es @ es'"]) simp
qed

lemma appends_mono: "appends P s s' \<Longrightarrow> (\<And>e. P e \<Longrightarrow> P' e) \<Longrightarrow> appends P' s s'"
  by (auto simp: appends_def list_all_iff)

lemma extends_mono: "extends P s s' \<Longrightarrow> (\<And>e. P e \<Longrightarrow> P' e) \<Longrightarrow> extends P' s s'"
  by (auto simp: extends_def list_all_iff)

lemma extends_trans: "extends P s s' \<Longrightarrow> extends P s' s'' \<Longrightarrow> extends P s s''"
  by (force simp: extends_def)

lemma extends_refl [simp]: "extends P s s"
  by (auto simp: extends_def intro: exI [of _ "[]"])

lemma fold_neutral: "list_all fd_neutral es \<Longrightarrow> fold fds_step es fds = fds"
  by (induction es arbitrary: fds) (simp_all add: fd_neutral_step)

lemma extends_fds: "extends fd_neutral s s' \<Longrightarrow> open_fds (k_log s') = open_fds (k_log s)"
  by (auto simp: extends_def open_fds_def fold_neutral)

lemma appends_fds: "appends fd_neutral s s' \<Longrightarrow> open_fds (k_log s') = open_fds (k_log s)"
  by (auto simp: appends_def open_fds_def fold_neutral)

interpretation app: frame "appends P :: 'k kernel_scheme \<Rightarrow> 'k kernel_scheme \<Rightarrow> bool" for P
  by unfold_locales (auto intro: appends_trans)

interpretation ext: frame "extends P :: 'k kernel_scheme \<Rightarrow> 'k kernel_scheme \<Rightarrow> bool" for P
  by unfold_locales (auto intro: extends_trans)

lemma keeps_sys_call: "(\<And>r. P (ev r)) \<Longrightarrow> keeps (appends P) (sys_call ask ev mk)"
  by (auto simp: keeps_def wp_simps intro: appends_snoc)

lemma keeps_fildes: "keeps (appends P) m \<Longrightarrow> keeps (appends P) (fildes fd m)"
  by (simp add: fildes_def app.keeps_raise)

lemma keeps_syscalls:
  "(\<And>r. P (Ev_open p fl r)) \<Longrightarrow> keeps (appends P) (os_open p fl)"
  "(\<And>r. P (Ev_close fd r)) \<Longrightarrow> keeps (appends P) (os_close fd)"
  "(\<And>r. P (Ev_flock fd r)) \<Longrightarrow> keeps (appends P) (fcntl_flock fd)"
  "(\<And>r. P (Ev_tcgetattr fd r)) \<Longrightarrow> keeps (appends P) (tcgetattr fd)"
  "(\<And>r. P (Ev_tcsetattr fd w a r)) \<Longrightarrow> keeps (appends P) (tcsetattr fd w a)"
  "(\<And>r. P (Ev_tcflush fd q r)) \<Longrightarrow> keeps (appends P) (tcflush fd q)"
  "(\<And>r. P (Ev_tcdrain fd r)) \<Longrightarrow> keeps (appends P) (tcdrain fd)"
  "(\<And>r. P (Ev_readv fd n r)) \<Longrightarrow> keeps (appends P) (os_readv fd n)"
  "(\<And>r. P (Ev_write fd d r)) \<Longrightarrow> keeps (appends P) (os_write fd d)"
  "(\<And>r. P (Ev_ioctl fd q (P_int i) r)) \<Longrightarrow> keeps (appends P) (ioctl_int fd q i)"
  "(\<And>r. P (Ev_ioctl fd q (P_bytes d) r)) \<Longrightarrow> keeps (appends P) (ioctl_bytes fd q d)"
  "(\<And>r. P (Ev_ioctl fd q (P_ints is) r)) \<Longrightarrow> keeps (appends P) (ioctl_ints fd q is)"
  "(\<And>r. P (Ev_resolve p r)) \<Longrightarrow> keeps (appends P) (path_resolve p)"
  "(\<And>r. P (Ev_exists p r)) \<Longrightarrow> keeps (appends P) (path_exists p)"
  "(\<And>r. P (Ev_read_text p r)) \<Longrightarrow> keeps (appends P) (path_read_text p)"
  "(\<And>r. P (Ev_write_text p t r)) \<Longrightarrow> keeps (appends P) (path_write_text p t)"
  "(\<And>r. P (Ev_warn t r)) \<Longrightarrow> keeps (appends P) (warn_runtime t)"
  unfolding syscall_defs by (intro keeps_fildes keeps_sys_call; simp)+

lemma neutral_events [simp]:
  "fd_neutral (Ev_flock fd r1)" "fd_neutral (Ev_tcgetattr fd r2)" "fd_neutral (Ev_tcsetattr fd w a r3)"
  "fd_neutral (Ev_tcflush fd q r4)" "fd_neutral (Ev_tcdrain fd r5)" "fd_neutral (Ev_readv fd n r6)"
  "fd_neutral (Ev_write fd d r7)" "fd_neutral (Ev_ioctl fd q p r8)" "fd_neutral (Ev_resolve t r9)"
  "fd_neutral (Ev_exists t r10)" "fd_neutral (Ev_read_text t r11)" "fd_neutral (Ev_write_text t u r12)"
  "fd_neutral (Ev_warn t r13)" "\<not> fd_neutral (Ev_open t fl r14)" "\<not> fd_neutral (Ev_close fd r15)"
  by (simp_all add: fd_neutral_def)

text \<open>
  The line attributes last committed to a descriptor: by a successful \<open>tcsetattr\<close>, or by a successful
  \<open>TCSETS2\<close> ioctl, whose payload is decoded.
\<close>

datatype commit = Via_termios termios_attrs | Via_termios2 termios2_attrs

definition commit_step :: "int \<Rightarrow> event \<Rightarrow> commit option \<Rightarrow> commit option" where
  "commit_step fd e acc =
     (case e of
        Ev_tcsetattr f w a r \<Rightarrow> if f = fd \<and> \<not> isl r then Some (Via_termios (attrs_from_list a)) else acc
      | Ev_ioctl f q p r \<Rightarrow>
          if f = fd \<and> q = TCSETS2 \<and> \<not> isl r
          then (case p of
                  P_bytes bs \<Rightarrow> (case termios2_unpack bs of Inr t \<Rightarrow> Some (Via_termios2 t) | Inl _ \<Rightarrow> acc)
                | _ \<Rightarrow> acc)
          else acc
      | _ \<Rightarrow> acc)"

definition last_commit :: "int \<Rightarrow> log \<Rightarrow> commit option" where
  "last_commit fd l = fold (commit_step fd) l None"

definition commits :: "event \<Rightarrow> bool" where
  "commits e = (case e of Ev_tcsetattr f w a r \<Rightarrow> \<not> isl r | Ev_ioctl f q p r \<Rightarrow> q = TCSETS2 \<and> \<not> isl r | _ \<Rightarrow> False)"

lemma commit_step_neutral: "\<not> commits e \<Longrightarrow> commit_step fd e acc = acc"
  by (auto simp: commits_def commit_step_def split: event.splits if_splits)

lemma last_commit_snoc [simp]: "last_commit fd (l @ [e]) = commit_step fd e (last_commit fd l)"
  by (simp add: last_commit_def)

lemma last_commit_neutral: "list_all (\<lambda>e. \<not> commits e) es \<Longrightarrow> last_commit fd (l @ es) = last_commit fd l"
proof (induction es arbitrary: l)
  case Nil
  show ?case by simp
next
  case (Cons e es)
  then show ?case using Cons.IH [of "l @ [e]"] by (simp add: commit_step_neutral)
qed

lemma appends_last_commit:
  "appends (\<lambda>e. \<not> commits e) s s' \<Longrightarrow> last_commit fd (k_log s') = last_commit fd (k_log s)"
  by (auto simp: appends_def last_commit_neutral)

lemma commits_simps [simp]:
  "commits (Ev_tcsetattr f w a r) \<longleftrightarrow> \<not> isl r" "\<not> commits (Ev_tcgetattr f r1)"
  "\<not> commits (Ev_flock f r2)" "\<not> commits (Ev_open p fl r3)" "\<not> commits (Ev_close f r4)"
  "commits (Ev_ioctl f q p0 r5) \<longleftrightarrow> q = TCSETS2 \<and> \<not> isl r5"
  by (simp_all add: commits_def)

text \<open>The events that transfer data.\<close>

definition moves :: "event \<Rightarrow> bool" where
  "moves e = (case e of Ev_write fd d r \<Rightarrow> True | Ev_readv fd n r \<Rightarrow> True | _ \<Rightarrow> False)"

lemma moves_simps [simp]:
  "\<not> moves (Ev_ioctl f q p r1)" "\<not> moves (Ev_close f r2)" "\<not> moves (Ev_write_text u t r3)"
  "\<not> moves (Ev_open v fl r4)" "\<not> moves (Ev_tcflush f q' r5)" "\<not> moves (Ev_tcgetattr f r6)"
  "\<not> moves (Ev_tcsetattr f w a r7)" "\<not> moves (Ev_tcdrain f r8)"
  by (simp_all add: moves_def)

subsection \<open>A concrete host\<close>

text \<open>A kernel on which every call succeeds, at which witnesses run the backends.\<close>

definition good_env :: os_env where
  "good_env = \<lparr>env_eagain = 11, env_O_RDWR = 2, env_O_NOCTTY = 0x100, env_O_NONBLOCK = 0x800,
     env_O_CLOEXEC = Some 0x80000,
     env_open = (\<lambda>l p f. Inr 3), env_close = (\<lambda>l fd. Inr ()), env_flock = (\<lambda>l fd. Inr ()),
     env_tcgetattr = (\<lambda>l fd. Inr (attrs_to_list sample_attrs)),
     env_tcsetattr = (\<lambda>l fd a. Inr ()), env_tcflush = (\<lambda>l fd q. Inr ()), env_tcdrain = (\<lambda>l fd. Inr ()),
     env_readv = (\<lambda>l fd n. Inr [1, 2, 3]), env_write = (\<lambda>l fd d. Inr (length d)),
     env_ioctl_int = (\<lambda>l fd r a. Inr ()), env_ioctl_bytes = (\<lambda>l fd r a. Inr a),
     env_ioctl_ints = (\<lambda>l fd r a. Inr (map word_of_int a)),
     env_resolve = (\<lambda>l p. Inl OSError), env_exists = (\<lambda>l p. False),
     env_read_text = (\<lambda>l p. Inl (2, [])), env_write_text = (\<lambda>l p t. Inl (2, [])),
     env_warn_raises = (\<lambda>l. False)\<rparr>"

end
