(* ===== verification/Ioctl.thy ===== *)
theory Ioctl
  imports Kernel
begin

section \<open>tty ioctls (\<open>_posix/ioctl.py\<close>)\<close>

text \<open>
  One function per helper. The request codes and line masks are probed from the host's \<open>termios\<close>
  module as the source probes them at import; an absent one makes the helper raise
  \<open>UnsupportedFeatureError\<close> before any system call. The payload of every ioctl here is one native
  \<open>int\<close>.
\<close>

subsection \<open>Payloads and request codes\<close>

definition pack_int :: "int \<Rightarrow> exn + bytes" where
  "pack_int v = (if - (2 ^ 31) \<le> v \<and> v < 2 ^ 31 then Inr (le_bytes 4 (nat (v mod 2 ^ 32)))
                 else Inl (exn_msg StructError))"

definition unpack_int :: "bytes \<Rightarrow> int" where
  "unpack_int bs = signed_take_bit 31 (int (le_val (take 4 bs)))"

lemma unpack_pack_int: "pack_int v = Inr bs \<Longrightarrow> unpack_int bs = v"
proof -
  assume "pack_int v = Inr bs"
  then have r: "- (2 ^ 31) \<le> v" "v < 2 ^ 31" and bs: "bs = le_bytes 4 (nat (v mod 2 ^ 32))"
    by (auto simp: pack_int_def split: if_splits)
  have "nat (v mod 2 ^ 32) < 256 ^ 4" by (simp add: nat_less_iff)
  then have "unpack_int bs = signed_take_bit 31 (v mod 2 ^ 32)"
    by (simp add: unpack_int_def bs)
  also have "\<dots> = signed_take_bit 31 (take_bit 32 v)" by (simp add: take_bit_eq_mod)
  also have "\<dots> = signed_take_bit 31 v" by (simp add: signed_take_bit_take_bit)
  also have "\<dots> = v" using r by (simp add: signed_take_bit_int_eq_self)
  finally show ?thesis .
qed

definition or_none :: "int option \<Rightarrow> int option \<Rightarrow> int option" where
  "or_none a b = (case a of Some v \<Rightarrow> if v \<noteq> 0 then a else b | None \<Rightarrow> b)"

definition REQ_TIOCINQ :: "termios_mod \<Rightarrow> int option" where
  "REQ_TIOCINQ m = or_none (getattr_opt m ''TIOCINQ'') (getattr_opt m ''FIONREAD'')"

definition REQ_TIOCOUTQ :: "termios_mod \<Rightarrow> int option" where
  "REQ_TIOCOUTQ m = getattr_opt m ''TIOCOUTQ''"

definition REQ_TIOCMGET :: "termios_mod \<Rightarrow> int option" where
  "REQ_TIOCMGET m = getattr_opt m ''TIOCMGET''"

definition REQ_TIOCMBIS :: "termios_mod \<Rightarrow> int option" where
  "REQ_TIOCMBIS m = getattr_opt m ''TIOCMBIS''"

definition REQ_TIOCMBIC :: "termios_mod \<Rightarrow> int option" where
  "REQ_TIOCMBIC m = getattr_opt m ''TIOCMBIC''"

definition LINUX_TIOCSBRK :: int where "LINUX_TIOCSBRK = 0x5427"
definition LINUX_TIOCCBRK :: int where "LINUX_TIOCCBRK = 0x5428"
definition BSD_TIOCSBRK :: int where "BSD_TIOCSBRK = 0x2000747B"
definition BSD_TIOCCBRK :: int where "BSD_TIOCCBRK = 0x2000747A"

definition is_linux :: "termios_mod \<Rightarrow> bool" where
  "is_linux m \<longleftrightarrow> starts_with ''linux'' (t_platform m)"

definition is_bsd_family :: "termios_mod \<Rightarrow> bool" where
  "is_bsd_family m \<longleftrightarrow> t_platform m = ''darwin'' \<or> contains ''bsd'' (t_platform m)"

definition break_request :: "termios_mod \<Rightarrow> bool \<Rightarrow> int option" where
  "break_request m on =
     (let req = getattr_opt m (if on then ''TIOCSBRK'' else ''TIOCCBRK'') in
      if req \<noteq> None then req
      else if is_linux m then Some (if on then LINUX_TIOCSBRK else LINUX_TIOCCBRK)
      else if is_bsd_family m then Some (if on then BSD_TIOCSBRK else BSD_TIOCCBRK)
      else None)"

definition MASK_RTS :: "termios_mod \<Rightarrow> int" where "MASK_RTS m = getattr_int m ''TIOCM_RTS''"
definition MASK_DTR :: "termios_mod \<Rightarrow> int" where "MASK_DTR m = getattr_int m ''TIOCM_DTR''"
definition MASK_CTS :: "termios_mod \<Rightarrow> int" where "MASK_CTS m = getattr_int m ''TIOCM_CTS''"
definition MASK_DSR :: "termios_mod \<Rightarrow> int" where "MASK_DSR m = getattr_int m ''TIOCM_DSR''"
definition MASK_RI :: "termios_mod \<Rightarrow> int" where "MASK_RI m = getattr_int m ''TIOCM_RI''"

definition MASK_CD :: "termios_mod \<Rightarrow> int" where
  "MASK_CD m = (if getattr_int m ''TIOCM_CAR'' \<noteq> 0 then getattr_int m ''TIOCM_CAR''
                else getattr_int m ''TIOCM_CD'')"

definition require_req :: "int option \<Rightarrow> ('s, exn, int) io" where
  "require_req req = (case req of None \<Rightarrow> io_raise (exn_msg UnsupportedFeatureError)
                      | Some r \<Rightarrow> io_return r)"

lemma wp_require_req [wp_simps]:
  "wp (require_req r) Q E s = (case r of None \<Rightarrow> E (exn_msg UnsupportedFeatureError) s | Some v \<Rightarrow> Q v s)"
  by (simp add: require_req_def wp_simps split: option.split)

subsection \<open>Helpers\<close>

text \<open>\<open>fcntl.ioctl(fd, req, _INT.pack(v))\<close> and the unpacking of its result.\<close>

definition ioctl_read_int :: "int \<Rightarrow> int \<Rightarrow> ('k kernel_scheme, exn, int) io" where
  "ioctl_read_int fd req =
     io_bind (io_lift (pack_int 0)) (\<lambda>arg.
     io_bind (ioctl_bytes fd req arg) (\<lambda>out.
     io_return (unpack_int out)))"

definition ioctl_input_waiting :: "termios_mod \<Rightarrow> int \<Rightarrow> ('k kernel_scheme, exn, int) io" where
  "ioctl_input_waiting m fd = io_bind (require_req (REQ_TIOCINQ m)) (ioctl_read_int fd)"

definition ioctl_output_waiting :: "termios_mod \<Rightarrow> int \<Rightarrow> ('k kernel_scheme, exn, int) io" where
  "ioctl_output_waiting m fd = io_bind (require_req (REQ_TIOCOUTQ m)) (ioctl_read_int fd)"

definition read_tiocm_bits :: "termios_mod \<Rightarrow> int \<Rightarrow> ('k kernel_scheme, exn, int) io" where
  "read_tiocm_bits m fd = io_bind (require_req (REQ_TIOCMGET m)) (ioctl_read_int fd)"

definition decode_modem_lines :: "termios_mod \<Rightarrow> int \<Rightarrow> modem_lines" where
  "decode_modem_lines m bits = \<lparr>ml_cts = (bits AND MASK_CTS m \<noteq> 0), ml_dsr = (bits AND MASK_DSR m \<noteq> 0),
     ml_ri = (bits AND MASK_RI m \<noteq> 0), ml_cd = (bits AND MASK_CD m \<noteq> 0)\<rparr>"

definition ioctl_get_modem_lines :: "termios_mod \<Rightarrow> int \<Rightarrow> ('k kernel_scheme, exn, modem_lines) io" where
  "ioctl_get_modem_lines m fd =
     io_bind (read_tiocm_bits m fd) (\<lambda>bits. io_return (decode_modem_lines m bits))"

definition ioctl_get_control_lines :: "termios_mod \<Rightarrow> int \<Rightarrow> ('k kernel_scheme, exn, control_lines) io" where
  "ioctl_get_control_lines m fd =
     io_bind (read_tiocm_bits m fd) (\<lambda>bits.
       io_return \<lparr>cl_rts = (bits AND MASK_RTS m \<noteq> 0), cl_dtr = (bits AND MASK_DTR m \<noteq> 0)\<rparr>)"

definition line_masks :: "termios_mod \<Rightarrow> bool option \<Rightarrow> bool option \<Rightarrow> int \<times> int" where
  "line_masks m rts dtr =
     ((if rts = Some True then MASK_RTS m else 0) OR (if dtr = Some True then MASK_DTR m else 0),
      (if rts = Some False then MASK_RTS m else 0) OR (if dtr = Some False then MASK_DTR m else 0))"

definition ioctl_write_int :: "int \<Rightarrow> int \<Rightarrow> int \<Rightarrow> ('k kernel_scheme, exn, unit) io" where
  "ioctl_write_int fd req v =
     io_bind (io_lift (pack_int v)) (\<lambda>arg. io_bind (ioctl_bytes fd req arg) (\<lambda>_. io_return ()))"

definition ioctl_set_control_lines ::
    "termios_mod \<Rightarrow> int \<Rightarrow> bool option \<Rightarrow> bool option \<Rightarrow> ('k kernel_scheme, exn, unit) io" where
  "ioctl_set_control_lines m fd rts dtr =
     (let set_mask = fst (line_masks m rts dtr); clear_mask = snd (line_masks m rts dtr)
      in if set_mask = 0 \<and> clear_mask = 0 then io_return ()
         else io_seq
           (io_when (set_mask \<noteq> 0)
              (io_bind (require_req (REQ_TIOCMBIS m)) (\<lambda>req. ioctl_write_int fd req set_mask)))
           (io_when (clear_mask \<noteq> 0)
              (io_bind (require_req (REQ_TIOCMBIC m)) (\<lambda>req. ioctl_write_int fd req clear_mask))))"

definition ioctl_set_break :: "termios_mod \<Rightarrow> int \<Rightarrow> bool \<Rightarrow> ('k kernel_scheme, exn, unit) io" where
  "ioctl_set_break m fd on = io_bind (require_req (break_request m on)) (\<lambda>req. ioctl_int fd req 0)"

definition ioctl_reset_input_buffer :: "termios_mod \<Rightarrow> int \<Rightarrow> ('k kernel_scheme, exn, unit) io" where
  "ioctl_reset_input_buffer m fd = tcflush fd (TCIFLUSH m)"

definition ioctl_reset_output_buffer :: "termios_mod \<Rightarrow> int \<Rightarrow> ('k kernel_scheme, exn, unit) io" where
  "ioctl_reset_output_buffer m fd = tcflush fd (TCOFLUSH m)"

subsection \<open>Frames and behaviour\<close>

text \<open>Every helper only makes ioctls on the descriptor it is given.\<close>

definition on_fd :: "int \<Rightarrow> event \<Rightarrow> bool" where
  "on_fd fd e = (case e of Ev_ioctl f _ _ _ \<Rightarrow> f = fd | Ev_tcflush f _ _ \<Rightarrow> f = fd
     | Ev_tcgetattr f _ \<Rightarrow> f = fd | Ev_tcsetattr f _ _ _ \<Rightarrow> f = fd | Ev_flock f _ \<Rightarrow> f = fd
     | Ev_tcdrain f _ \<Rightarrow> f = fd | Ev_readv f _ _ \<Rightarrow> f = fd | Ev_write f _ _ \<Rightarrow> f = fd | _ \<Rightarrow> False)"

lemma on_fd_neutral: "on_fd fd e \<Longrightarrow> fd_neutral e"
  by (auto simp: on_fd_def fd_neutral_def split: event.splits)

lemma on_fd_events [simp]:
  "on_fd fd (Ev_ioctl f q p r1) \<longleftrightarrow> f = fd" "on_fd fd (Ev_tcflush f k r2) \<longleftrightarrow> f = fd"
  "on_fd fd (Ev_tcgetattr f r3) \<longleftrightarrow> f = fd" "on_fd fd (Ev_tcsetattr f w a r4) \<longleftrightarrow> f = fd"
  "on_fd fd (Ev_flock f r5) \<longleftrightarrow> f = fd" "on_fd fd (Ev_tcdrain f r6) \<longleftrightarrow> f = fd"
  "on_fd fd (Ev_readv f n r7) \<longleftrightarrow> f = fd" "on_fd fd (Ev_write f d r8) \<longleftrightarrow> f = fd"
  by (simp_all add: on_fd_def)

lemma appends_on_fd: "appends (on_fd fd) s s' \<Longrightarrow> appends fd_neutral s s'"
  by (erule appends_mono) (rule on_fd_neutral)

lemma keeps_require: "keeps (appends P) (require_req r)"
  by (simp add: require_req_def app.keeps_control)

lemmas ioctl_helper_defs = ioctl_read_int_def ioctl_write_int_def ioctl_input_waiting_def
  ioctl_output_waiting_def read_tiocm_bits_def ioctl_get_modem_lines_def ioctl_get_control_lines_def
  ioctl_set_control_lines_def ioctl_set_break_def ioctl_reset_input_buffer_def
  ioctl_reset_output_buffer_def

lemmas ioctl_wp [wp_simps] = ioctl_helper_defs

lemma keeps_ioctl_helpers:
  "keeps (appends (on_fd fd)) (ioctl_input_waiting m fd)"
  "keeps (appends (on_fd fd)) (ioctl_output_waiting m fd)"
  "keeps (appends (on_fd fd)) (ioctl_get_modem_lines m fd)"
  "keeps (appends (on_fd fd)) (ioctl_get_control_lines m fd)"
  "keeps (appends (on_fd fd)) (ioctl_set_control_lines m fd rts dtr)"
  "keeps (appends (on_fd fd)) (ioctl_set_break m fd on)"
  "keeps (appends (on_fd fd)) (ioctl_reset_input_buffer m fd)"
  "keeps (appends (on_fd fd)) (ioctl_reset_output_buffer m fd)"
  unfolding ioctl_helper_defs Let_def
  by (intro app.keeps_control keeps_require keeps_syscalls; simp)+

lemma le_bytes_zero [simp]: "le_bytes n 0 = replicate n 0"
  by (induction n) simp_all

lemma pack_int_0 [simp]: "pack_int 0 = Inr (replicate 4 0)"
  by (simp add: pack_int_def)

text \<open>Line changes: which ioctls are made, for every kernel.\<close>

lemma line_masks_none [simp]: "line_masks m None None = (0, 0)"
  by (simp add: line_masks_def)

lemma set_control_lines_noop: "ioctl_set_control_lines m fd None None = io_return ()"
  by (simp add: ioctl_set_control_lines_def)

end
