(* ===== verification/Capabilities.thy ===== *)
theory Capabilities
  imports Types
begin

section \<open>Capability snapshots (\<open>capabilities.py\<close> and the per-platform \<open>capabilities\<close> modules)\<close>

text \<open>
  \<open>SerialCapabilities\<close> as a record and the snapshot each platform backend reports. The snapshot of
  the generic POSIX backend depends on the host's \<open>termios\<close> module and is in theory
  \<open>Posix_Backend\<close>; the mock's is in \<open>Mock_Backend\<close>.
\<close>

record serial_capabilities =
  cap_platform :: string
  cap_backend :: string
  cap_custom_baudrate :: capability
  cap_mark_space_parity :: capability
  cap_one_point_five_stop_bits :: capability
  cap_xon_xoff :: capability
  cap_rts_cts :: capability
  cap_dtr_dsr :: capability
  cap_modem_lines :: capability
  cap_break_signal :: capability
  cap_exclusive_access :: capability
  cap_low_latency :: capability
  cap_rs485 :: capability
  cap_input_waiting :: capability
  cap_output_waiting :: capability
  cap_port_discovery :: capability

definition linux_capabilities :: serial_capabilities where
  "linux_capabilities = \<lparr>
     cap_platform = ''linux'', cap_backend = ''linux'',
     cap_custom_baudrate = SUPPORTED, cap_mark_space_parity = SUPPORTED,
     cap_one_point_five_stop_bits = UNSUPPORTED, cap_xon_xoff = SUPPORTED,
     cap_rts_cts = SUPPORTED, cap_dtr_dsr = UNSUPPORTED, cap_modem_lines = UNKNOWN,
     cap_break_signal = SUPPORTED, cap_exclusive_access = SUPPORTED,
     cap_low_latency = SUPPORTED, cap_rs485 = SUPPORTED, cap_input_waiting = SUPPORTED,
     cap_output_waiting = SUPPORTED, cap_port_discovery = SUPPORTED\<rparr>"

definition darwin_capabilities :: serial_capabilities where
  "darwin_capabilities = \<lparr>
     cap_platform = ''darwin'', cap_backend = ''darwin'',
     cap_custom_baudrate = SUPPORTED, cap_mark_space_parity = UNSUPPORTED,
     cap_one_point_five_stop_bits = UNSUPPORTED, cap_xon_xoff = SUPPORTED,
     cap_rts_cts = SUPPORTED, cap_dtr_dsr = UNSUPPORTED, cap_modem_lines = UNKNOWN,
     cap_break_signal = SUPPORTED, cap_exclusive_access = SUPPORTED,
     cap_low_latency = UNSUPPORTED, cap_rs485 = UNSUPPORTED, cap_input_waiting = SUPPORTED,
     cap_output_waiting = SUPPORTED, cap_port_discovery = SUPPORTED\<rparr>"

definition bsd_capabilities :: serial_capabilities where
  "bsd_capabilities = \<lparr>
     cap_platform = ''bsd'', cap_backend = ''bsd'',
     cap_custom_baudrate = SUPPORTED, cap_mark_space_parity = UNKNOWN,
     cap_one_point_five_stop_bits = UNSUPPORTED, cap_xon_xoff = SUPPORTED,
     cap_rts_cts = SUPPORTED, cap_dtr_dsr = UNSUPPORTED, cap_modem_lines = UNKNOWN,
     cap_break_signal = SUPPORTED, cap_exclusive_access = SUPPORTED,
     cap_low_latency = UNSUPPORTED, cap_rs485 = UNSUPPORTED, cap_input_waiting = SUPPORTED,
     cap_output_waiting = UNKNOWN, cap_port_discovery = SUPPORTED\<rparr>"

definition windows_capabilities :: serial_capabilities where
  "windows_capabilities = \<lparr>
     cap_platform = ''windows'', cap_backend = ''windows'',
     cap_custom_baudrate = SUPPORTED, cap_mark_space_parity = SUPPORTED,
     cap_one_point_five_stop_bits = SUPPORTED, cap_xon_xoff = SUPPORTED,
     cap_rts_cts = SUPPORTED, cap_dtr_dsr = SUPPORTED, cap_modem_lines = SUPPORTED,
     cap_break_signal = SUPPORTED, cap_exclusive_access = SUPPORTED,
     cap_low_latency = UNSUPPORTED, cap_rs485 = UNSUPPORTED, cap_input_waiting = SUPPORTED,
     cap_output_waiting = SUPPORTED, cap_port_discovery = SUPPORTED\<rparr>"

definition mock_capabilities :: serial_capabilities where
  "mock_capabilities = \<lparr>
     cap_platform = ''mock'', cap_backend = ''mock'',
     cap_custom_baudrate = SUPPORTED, cap_mark_space_parity = SUPPORTED,
     cap_one_point_five_stop_bits = SUPPORTED, cap_xon_xoff = UNKNOWN,
     cap_rts_cts = UNKNOWN, cap_dtr_dsr = UNKNOWN, cap_modem_lines = SUPPORTED,
     cap_break_signal = SUPPORTED, cap_exclusive_access = UNSUPPORTED,
     cap_low_latency = UNSUPPORTED, cap_rs485 = UNSUPPORTED, cap_input_waiting = SUPPORTED,
     cap_output_waiting = UNSUPPORTED, cap_port_discovery = UNSUPPORTED\<rparr>"

end
