(* ===== verification/Posix_Backend.thy ===== *)
theory Posix_Backend
  imports Ioctl Capabilities
begin

section \<open>The generic POSIX backend (\<open>_posix/backend.py\<close>)\<close>

text \<open>
  \<open>PosixBackend\<close> as an extension of the kernel record by its three fields. \<open>open\<close> and \<open>configure\<close>
  call \<open>self._apply_config_to_fd\<close>, which the platform backends override: the override is the
  argument \<open>apply\<close> of their models. The record is extensible, so the Linux backend adds its fields
  and inherits these operations.
\<close>

record posix_backend = kernel +
  pb_fd :: int
  pb_path :: string
  pb_config :: "serial_config option"

type_synonym 'k posix_op = "('k posix_backend_scheme, exn, unit) io"

subsection \<open>Operations\<close>

definition posix_init :: "os_env \<Rightarrow> log \<Rightarrow> posix_backend" where
  "posix_init env l = \<lparr>k_env = env, k_log = l, pb_fd = -1, pb_path = [], pb_config = None\<rparr>"

definition OPEN_FLAGS :: "os_env \<Rightarrow> int" where
  "OPEN_FLAGS env = env_O_RDWR env OR env_O_NOCTTY env OR env_O_NONBLOCK env
     OR (case env_O_CLOEXEC env of None \<Rightarrow> 0 | Some v \<Rightarrow> v)"

definition posix_is_open :: "'k posix_backend_scheme \<Rightarrow> bool" where
  "posix_is_open b \<longleftrightarrow> 0 \<le> pb_fd b"

definition acquire_exclusive_lock :: "int \<Rightarrow> string \<Rightarrow> 'k posix_op" where
  "acquire_exclusive_lock fd path =
     io_try (fcntl_flock fd)
       (\<lambda>exc. if isinstance exc BlockingIOError
              then io_raise (Exn OSError (Some EBUSY) (Some ''port is exclusively locked by another process'')
                     (Some path) None (Some exc))
              else io_raise exc)"

definition posix_open ::
    "(int \<Rightarrow> serial_config \<Rightarrow> 'k posix_op) \<Rightarrow> string \<Rightarrow> serial_config \<Rightarrow> 'k posix_op" where
  "posix_open apply path config =
     io_bind (io_get posix_is_open) (\<lambda>already.
     if already then io_raise (exn_msg RuntimeError)
     else
       io_bind (io_get (\<lambda>s. OPEN_FLAGS (k_env s))) (\<lambda>flags.
       io_bind (os_open path flags) (\<lambda>fdn.
       let fd = int fdn in
       io_seq
         (io_on_error
            (io_seq (io_when (cfg_exclusive config) (acquire_exclusive_lock fd path))
                    (apply fd config))
            (os_close fd))
         (io_modify (\<lambda>s. s\<lparr>pb_fd := fd, pb_path := path, pb_config := Some config\<rparr>)))))"

definition posix_close :: "'k posix_op" where
  "posix_close =
     io_bind (io_get pb_fd) (\<lambda>fd.
     if fd < 0 then io_return ()
     else io_seq (io_modify (\<lambda>s. s\<lparr>pb_fd := -1\<rparr>)) (os_close fd))"

definition posix_fileno :: "('k posix_backend_scheme, exn, int) io" where
  "posix_fileno = io_get pb_fd"

text \<open>\<open>os.readv\<close> fills the caller's buffer; the model returns the bytes it received.\<close>

definition posix_read_nonblocking :: "nat \<Rightarrow> ('k posix_backend_scheme, exn, bytes) io" where
  "posix_read_nonblocking nbytes = io_bind (io_get pb_fd) (\<lambda>fd. os_readv fd nbytes)"

definition posix_write_nonblocking :: "bytes \<Rightarrow> ('k posix_backend_scheme, exn, nat) io" where
  "posix_write_nonblocking data = io_bind (io_get pb_fd) (\<lambda>fd. os_write fd data)"

definition posix_configure ::
    "(int \<Rightarrow> serial_config \<Rightarrow> 'k posix_op) \<Rightarrow> serial_config \<Rightarrow> 'k posix_op" where
  "posix_configure apply config =
     io_bind (io_get pb_fd) (\<lambda>fd.
     io_seq (apply fd config) (io_modify (\<lambda>s. s\<lparr>pb_config := Some config\<rparr>)))"

definition posix_reset_input_buffer :: "termios_mod \<Rightarrow> 'k posix_op" where
  "posix_reset_input_buffer m = io_bind (io_get pb_fd) (ioctl_reset_input_buffer m)"

definition posix_reset_output_buffer :: "termios_mod \<Rightarrow> 'k posix_op" where
  "posix_reset_output_buffer m = io_bind (io_get pb_fd) (ioctl_reset_output_buffer m)"

definition posix_set_break :: "termios_mod \<Rightarrow> bool \<Rightarrow> 'k posix_op" where
  "posix_set_break m on = io_bind (io_get pb_fd) (\<lambda>fd. ioctl_set_break m fd on)"

definition posix_tcdrain_blocking :: "'k posix_op" where
  "posix_tcdrain_blocking = io_bind (io_get pb_fd) tcdrain"

definition posix_modem_lines :: "termios_mod \<Rightarrow> ('k posix_backend_scheme, exn, modem_lines) io" where
  "posix_modem_lines m = io_bind (io_get pb_fd) (ioctl_get_modem_lines m)"

definition posix_set_control_lines :: "termios_mod \<Rightarrow> bool option \<Rightarrow> bool option \<Rightarrow> 'k posix_op" where
  "posix_set_control_lines m rts dtr =
     io_bind (io_get pb_fd) (\<lambda>fd. ioctl_set_control_lines m fd rts dtr)"

definition posix_input_waiting :: "termios_mod \<Rightarrow> ('k posix_backend_scheme, exn, int) io" where
  "posix_input_waiting m = io_bind (io_get pb_fd) (ioctl_input_waiting m)"

definition posix_output_waiting :: "termios_mod \<Rightarrow> ('k posix_backend_scheme, exn, int) io" where
  "posix_output_waiting m = io_bind (io_get pb_fd) (ioctl_output_waiting m)"

definition posix_apply_config_to_fd :: "termios_mod \<Rightarrow> int \<Rightarrow> serial_config \<Rightarrow> 'k posix_op" where
  "posix_apply_config_to_fd m fd config =
     io_bind (tcgetattr fd) (\<lambda>lst.
     let current = attrs_from_list lst in
     io_bind (io_lift (baudrate_to_speed m (cfg_baudrate config))) (\<lambda>speed.
     io_bind (io_lift (apply_builders m config (current\<lparr>ta_ispeed := speed, ta_ospeed := speed\<rparr>)))
       (\<lambda>attrs. tcsetattr fd (TCSANOW m) (attrs_to_list attrs))))"

subsection \<open>Capabilities\<close>

definition has_rts_cts :: "termios_mod \<Rightarrow> bool" where
  "has_rts_cts m \<longleftrightarrow> has_attr m ''CRTSCTS'' \<or> (has_attr m ''CCTS_OFLOW'' \<and> has_attr m ''CRTS_IFLOW'')"

definition has_break_support :: "termios_mod \<Rightarrow> bool" where
  "has_break_support m \<longleftrightarrow> (has_attr m ''TIOCSBRK'' \<and> has_attr m ''TIOCCBRK'')
     \<or> starts_with ''linux'' (t_platform m) \<or> t_platform m = ''darwin''
     \<or> contains ''bsd'' (t_platform m)"

definition posix_capabilities :: "termios_mod \<Rightarrow> serial_capabilities" where
  "posix_capabilities m =
     (let rts = (if has_rts_cts m then UNKNOWN else UNSUPPORTED);
          brk = (if has_break_support m then UNKNOWN else UNSUPPORTED);
          mark_space = (if has_attr m ''CMSPAR'' then UNKNOWN else UNSUPPORTED)
      in \<lparr>cap_platform = t_platform m, cap_backend = ''posix'',
          cap_custom_baudrate = UNSUPPORTED, cap_mark_space_parity = mark_space,
          cap_one_point_five_stop_bits = UNSUPPORTED, cap_xon_xoff = UNKNOWN, cap_rts_cts = rts,
          cap_dtr_dsr = UNSUPPORTED, cap_modem_lines = UNKNOWN, cap_break_signal = brk,
          cap_exclusive_access = SUPPORTED, cap_low_latency = UNSUPPORTED, cap_rs485 = UNSUPPORTED,
          cap_input_waiting = SUPPORTED, cap_output_waiting = UNKNOWN,
          cap_port_discovery = UNSUPPORTED\<rparr>)"

subsection \<open>Descriptor safety\<close>

text \<open>A run that touched nothing but the log, and released what it acquired.\<close>

lemma acquire_lock_frame: "keeps (appends (on_fd fd)) (acquire_exclusive_lock fd path)"
  unfolding acquire_exclusive_lock_def by (intro app.keeps_control keeps_syscalls) simp

lemma posix_apply_frame: "keeps (appends (on_fd fd)) (posix_apply_config_to_fd m fd config)"
  unfolding posix_apply_config_to_fd_def Let_def by (intro app.keeps_control keeps_syscalls) simp_all

lemma posix_open_wp:
  fixes s :: "'k posix_backend_scheme"
  assumes ap: "\<And>fd. keeps (appends (on_fd fd)) (apply fd config)"
  shows "wp (posix_open apply path config)
    (\<lambda>_ s'. \<not> posix_is_open s \<and> posix_is_open s' \<and> pb_path s' = path \<and> pb_config s' = Some config
       \<and> s' = s\<lparr>k_log := k_log s', pb_fd := pb_fd s', pb_path := path, pb_config := Some config\<rparr>
       \<and> open_fds (k_log s') = add_mset (pb_fd s') (open_fds (k_log s)))
    (\<lambda>e s'. s' = s\<lparr>k_log := k_log s'\<rparr> \<and> open_fds (k_log s') = open_fds (k_log s)
       \<and> (posix_is_open s \<longrightarrow> s' = s \<and> e = exn_msg RuntimeError)) s"
proof -
  define B where "B fd = io_seq (io_when (cfg_exclusive config) (acquire_exclusive_lock fd path)) (apply fd config)" for fd
  have body: "keeps (appends fd_neutral) (B fd)" for fd
    unfolding B_def by (rule keeps_weaken [of "appends (on_fd fd)"])
      (auto intro: app.keeps_control acquire_lock_frame ap appends_on_fd)
  have step: "wp (B (int fdn))
     (\<lambda>_ s'. s' = s\<lparr>k_log := k_log s'\<rparr> \<and> open_fds (k_log s') = add_mset (int fdn) (open_fds (k_log s)))
     (\<lambda>e. wp (os_close (int fdn)) (\<lambda>_ s'. s' = s\<lparr>k_log := k_log s'\<rparr> \<and> open_fds (k_log s') = open_fds (k_log s))
                              (\<lambda>_ s'. s' = s\<lparr>k_log := k_log s'\<rparr> \<and> open_fds (k_log s') = open_fds (k_log s))) s0"
    if s0: "s0 = s\<lparr>k_log := k_log s @ [Ev_open path fl (Inr fdn)]\<rparr>" for s0 fl fdn
  proof (rule keeps_wp_mono [OF body])
    fix s' assume "appends fd_neutral s0 s'"
    then have *: "s' = s\<lparr>k_log := k_log s'\<rparr>" "open_fds (k_log s') = add_mset (int fdn) (open_fds (k_log s))"
      by (simp_all add: appends_fds s0) (auto simp: appends_def s0)
    then show "s' = s\<lparr>k_log := k_log s'\<rparr> \<and> open_fds (k_log s') = add_mset (int fdn) (open_fds (k_log s))"
      by simp
    from * show "wp (os_close (int fdn)) (\<lambda>_ s'. s' = s\<lparr>k_log := k_log s'\<rparr> \<and> open_fds (k_log s') = open_fds (k_log s))
          (\<lambda>_ s'. s' = s\<lparr>k_log := k_log s'\<rparr> \<and> open_fds (k_log s') = open_fds (k_log s)) s'"
      by (auto simp: wp_simps) (metis kernel.surjective kernel.update_convs(2))+
  qed
  show ?thesis
    unfolding posix_open_def Let_def B_def [symmetric]
    by (auto simp: wp_simps posix_is_open_def intro!: wp_mono [OF step [OF refl]])
qed

lemma posix_close_run:
  "posix_close s =
     (if posix_is_open s
      then os_close (pb_fd s) (s\<lparr>pb_fd := -1\<rparr>)
      else (Inr (), s))"
  by (simp add: posix_close_def posix_is_open_def io_ctl_defs)

lemma os_close_state: "snd (os_close fd s) = s\<lparr>k_log := k_log s @ [Ev_close fd (env_close (k_env s) (k_log s) fd)]\<rparr>"
  by (simp add: os_close_def sys_call_def)

text \<open>Opening a port never leaks a descriptor, whatever the kernel answers: on success the
  backend holds exactly one descriptor more than before and records descriptor, path and
  configuration; on any failure (of open, lock, attribute read or commit, or of an inexpressible
  configuration) the backend is as it was and every descriptor opened on the way is closed again.\<close>

theorem posix_open_never_leaks:
  "case posix_open (posix_apply_config_to_fd m) path config s of
     (Inr _, s') \<Rightarrow> \<not> posix_is_open s \<and> posix_is_open s' \<and> pb_path s' = path \<and> pb_config s' = Some config
        \<and> open_fds (k_log s') = add_mset (pb_fd s') (open_fds (k_log s))
   | (Inl e, s') \<Rightarrow> s' = s\<lparr>k_log := k_log s'\<rparr> \<and> open_fds (k_log s') = open_fds (k_log s)"
proof -
  have "wp (posix_open (posix_apply_config_to_fd m) path config)
     (\<lambda>_ s'. \<not> posix_is_open s \<and> posix_is_open s' \<and> pb_path s' = path \<and> pb_config s' = Some config
        \<and> open_fds (k_log s') = add_mset (pb_fd s') (open_fds (k_log s)))
     (\<lambda>e s'. s' = s\<lparr>k_log := k_log s'\<rparr> \<and> open_fds (k_log s') = open_fds (k_log s)) s"
    by (rule wp_mono [OF posix_open_wp [OF posix_apply_frame]]) simp_all
  then show ?thesis by (simp add: wp_def split: prod.splits sum.splits)
qed

text \<open>Closing releases the descriptor exactly once and is idempotent, even when the kernel's
  \<open>close\<close> fails: afterwards the backend is closed, its descriptor is no longer held, and a second
  \<open>close\<close> returns without a system call.\<close>

theorem posix_close_once:
  "\<not> posix_is_open (snd (posix_close s))
   \<and> open_fds (k_log (snd (posix_close s))) =
       (if posix_is_open s then open_fds (k_log s) - {#pb_fd s#} else open_fds (k_log s))
   \<and> posix_close (snd (posix_close s)) = (Inr (), snd (posix_close s))"
  by (simp add: posix_close_run os_close_state posix_is_open_def)

subsection \<open>Committing a configuration\<close>

lemma appends_fields: "appends P s s' \<Longrightarrow>
    k_env s' = k_env s \<and> pb_fd s' = pb_fd s \<and> pb_path s' = pb_path s \<and> pb_config s' = pb_config s"
  by (auto simp: appends_def)

lemma appends_eq: "appends P s s' \<Longrightarrow> s' = s\<lparr>k_log := k_log s'\<rparr>"
  by (auto simp: appends_def)

definition dull :: "int \<Rightarrow> event \<Rightarrow> bool" where
  "dull fd e \<longleftrightarrow> on_fd fd e \<and> \<not> commits e"

lemma appends_dull: "appends (dull fd) s s' \<Longrightarrow> appends (on_fd fd) s s'"
  "appends (dull fd) s s' \<Longrightarrow> appends (\<lambda>e. \<not> commits e) s s'"
  by (erule appends_mono, simp add: dull_def)+

text \<open>The attribute pipeline with a given speed, shared by the generic, Darwin and BSD backends.\<close>

definition commit_attrs :: "termios_mod \<Rightarrow> int \<Rightarrow> serial_config \<Rightarrow> (exn + int) \<Rightarrow> 'k posix_op" where
  "commit_attrs m fd config rate =
     io_bind (tcgetattr fd) (\<lambda>lst.
     let current = attrs_from_list lst in
     io_bind (io_lift rate) (\<lambda>speed.
     io_bind (io_lift (apply_builders m config (current\<lparr>ta_ispeed := speed, ta_ospeed := speed\<rparr>)))
       (\<lambda>attrs. tcsetattr fd (TCSANOW m) (attrs_to_list attrs))))"

lemma posix_apply_commit:
  "posix_apply_config_to_fd m fd config = commit_attrs m fd config (baudrate_to_speed m (cfg_baudrate config))"
  by (simp add: posix_apply_config_to_fd_def commit_attrs_def)

definition line_committed ::
    "termios_mod \<Rightarrow> int \<Rightarrow> serial_config \<Rightarrow> int \<Rightarrow> 'k posix_backend_scheme \<Rightarrow> bool" where
  "line_committed m fd config speed s \<longleftrightarrow>
     (\<exists>a. last_commit fd (k_log s) = Some (Via_termios a)
        \<and> decode_line m a = Some (line_of_config config) \<and> ta_ispeed a = speed \<and> ta_ospeed a = speed)"

lemma commit_attrs_wp:
  assumes ok: "termios_ok m"
  shows "wp (commit_attrs m fd config rate)
    (\<lambda>_ s'. appends (on_fd fd) s s' \<and> (\<exists>v. rate = Inr v \<and> line_committed m fd config v s'))
    (\<lambda>e s'. appends (dull fd) s s') s"
proof -
  have reached: "line_committed m fd config v
      (s\<lparr>k_log := k_log s @ [ev, Ev_tcsetattr fd (TCSANOW m) (attrs_to_list a') (Inr ())]\<rparr>)"
    if "apply_builders m config a = Inr a'" "ta_ispeed a = v" "ta_ospeed a = v" for v a a' ev
    using apply_builders_reads [OF ok that(1)] that last_commit_snoc [of fd "k_log s @ [ev]"]
    by (auto simp: line_committed_def commit_step_def)
  have app: "appends (on_fd fd) s (s\<lparr>k_log := k_log s @ [Ev_tcgetattr fd r, Ev_tcsetattr fd w a r']\<rparr>)" for r w a r'
    by (auto simp: appends_def intro!: exI [of _ "[Ev_tcgetattr fd r, Ev_tcsetattr fd w a r']"])
  have dull: "appends (dull fd) s (s\<lparr>k_log := k_log s @ [Ev_tcgetattr fd r, Ev_tcsetattr fd w a (Inl e)]\<rparr>)" for r w a e
    by (auto simp: appends_def dull_def intro!: exI [of _ "[Ev_tcgetattr fd r, Ev_tcsetattr fd w a (Inl e)]"])
  have dull1: "appends (dull fd) s (s\<lparr>k_log := k_log s @ [Ev_tcgetattr fd r]\<rparr>)" for r
    by (auto simp: appends_def dull_def intro!: exI [of _ "[Ev_tcgetattr fd r]"])
  show ?thesis
    unfolding commit_attrs_def Let_def
    by (auto simp: wp_simps dull dull1 app reached split: sum.splits)
qed

text \<open>Reconfiguring a port through the generic POSIX backend is atomic, for every kernel: on
  success the attributes last committed to the descriptor decode to exactly the requested line
  settings at the requested standard speed, and the backend records the configuration; on failure
  the backend's fields are unchanged and no attributes were committed.\<close>

theorem posix_configure_atomic:
  assumes "termios_ok m"
  shows "case posix_configure (posix_apply_config_to_fd m) config s of
      (Inr _, s') \<Rightarrow> pb_config s' = Some config \<and> pb_fd s' = pb_fd s \<and> pb_path s' = pb_path s
        \<and> is_standard_baud m (cfg_baudrate config)
        \<and> line_committed m (pb_fd s) config (projr (baudrate_to_speed m (cfg_baudrate config))) s'
    | (Inl e, s') \<Rightarrow> s' = s\<lparr>k_log := k_log s'\<rparr>
        \<and> last_commit (pb_fd s) (k_log s') = last_commit (pb_fd s) (k_log s)"
proof -
  have "wp (posix_configure (posix_apply_config_to_fd m) config)
    (\<lambda>_ s'. pb_config s' = Some config \<and> pb_fd s' = pb_fd s \<and> pb_path s' = pb_path s
       \<and> is_standard_baud m (cfg_baudrate config)
       \<and> line_committed m (pb_fd s) config (projr (baudrate_to_speed m (cfg_baudrate config))) s')
    (\<lambda>e s'. s' = s\<lparr>k_log := k_log s'\<rparr>
       \<and> last_commit (pb_fd s) (k_log s') = last_commit (pb_fd s) (k_log s)) s"
    unfolding posix_configure_def posix_apply_commit wp_bind wp_get wp_seq
  proof (rule wp_mono [OF commit_attrs_wp [OF assms]], goal_cases)
    case (1 x s')
    then have "appends (on_fd (pb_fd s)) s s'" by simp
    note f = appends_fields [OF this]
    from 1 obtain v where "baudrate_to_speed m (cfg_baudrate config) = Inr v"
      "line_committed m (pb_fd s) config v s'" by blast
    with f show ?case by (simp add: wp_modify line_committed_def is_standard_baud_iff)
  next
    case (2 e s')
    then show ?case
      using appends_eq appends_last_commit appends_dull(2) by blast
  qed
  then show ?thesis by (simp add: wp_def split: prod.splits sum.splits)
qed

definition good_backend :: posix_backend where
  "good_backend = posix_init good_env []"

theorem posix_configure_atomic_witness:
  "let s = good_backend\<lparr>pb_fd := 3\<rparr> in
   case posix_configure (posix_apply_config_to_fd linux_termios) default_config s of
      (Inr _, s') \<Rightarrow> pb_config s' = Some default_config
    | (Inl e, s') \<Rightarrow> s' = s\<lparr>k_log := k_log s'\<rparr>"
  using posix_configure_atomic [OF linux_termios_ok, of "good_backend\<lparr>pb_fd := 3\<rparr>" default_config]
  by (simp add: Let_def split: prod.splits sum.splits)

subsection \<open>The advisory lock\<close>

text \<open>A port locked by another process is reported as busy: when the kernel opens the path and
  \<open>flock\<close> answers that the lock is held, an exclusive \<open>open\<close> closes the new descriptor and raises
  an error that \<open>errno_to_exception\<close> maps to \<open>PortBusyError\<close> carrying the path; the configuration is
  never applied.\<close>

theorem posix_open_locked:
  assumes "\<not> posix_is_open s" and "cfg_exclusive config"
    and opened: "env_open (k_env s) (k_log s) path (OPEN_FLAGS (k_env s)) = Inr fd"
    and held: "\<And>l. env_flock (k_env s) l (int fd) = Inl (env_eagain (k_env s), msg)"
    and closes: "\<And>l. env_close (k_env s) l (int fd) = Inr ()"
  shows "\<exists>e. posix_open (posix_apply_config_to_fd m) path config s =
      (Inl e, s\<lparr>k_log := k_log s @ [Ev_open path (OPEN_FLAGS (k_env s)) (Inr fd),
         Ev_flock (int fd) (Inl (env_eagain (k_env s), msg)), Ev_close (int fd) (Inr ())]\<rparr>)
    \<and> exn_class (errno_to_exception e ''open'' (Some path)) = PortBusyError
    \<and> exn_filename (errno_to_exception e ''open'' (Some path)) = str_or (Some path) (Some path)"
  using assms
  by (simp add: posix_open_def Let_def io_ctl_defs acquire_exclusive_lock_def syscall_defs sys_call_def
      fildes_def posix_is_open_def os_exn_def exn_os_def isinstance_simps errno_to_exception_def
      os_class_def errno_defs OPEN_NOT_FOUND_def BUSY_ERRNOS_def)

definition locked_env :: os_env where
  "locked_env = good_env\<lparr>env_flock := (\<lambda>l fd. Inl (11, ''EAGAIN''))\<rparr>"

theorem posix_open_locked_witness:
  "\<exists>e s'. posix_open (posix_apply_config_to_fd linux_termios) ''/dev/ttyS0''
       (default_config\<lparr>cfg_exclusive := True\<rparr>) (posix_init locked_env []) = (Inl e, s')
     \<and> exn_class (errno_to_exception e ''open'' (Some ''/dev/ttyS0'')) = PortBusyError"
  using posix_open_locked [of "posix_init locked_env []" "default_config\<lparr>cfg_exclusive := True\<rparr>"
      "''/dev/ttyS0''" 3 "''EAGAIN''" linux_termios]
  by (auto simp: posix_init_def posix_is_open_def locked_env_def good_env_def)

end
