(* ===== verification/Linux_LowLatency.thy ===== *)
theory Linux_LowLatency
  imports Kernel
begin

section \<open>Low-latency mode on Linux (\<open>_linux/low_latency.py\<close>)\<close>

text \<open>
  \<open>ASYNC_LOW_LATENCY\<close> through \<open>TIOCGSERIAL\<close>/\<open>TIOCSSERIAL\<close>, whose \<open>serial_struct\<close> is the array of 32
  C ints the source passes, and the FTDI \<open>latency_timer\<close> file under \<open>/sys/class/tty\<close>. Assigning a
  slot of an \<open>array('i')\<close> raises \<open>OverflowError\<close> when the value does not fit.
\<close>

definition TIOCGSERIAL :: int where "TIOCGSERIAL = 0x541E"
definition TIOCSSERIAL :: int where "TIOCSSERIAL = 0x541F"
definition ASYNC_LOW_LATENCY :: int where "ASYNC_LOW_LATENCY = 0x2000"
definition FLAGS_INDEX :: nat where "FLAGS_INDEX = 4"
definition BUF_INTS :: nat where "BUF_INTS = 32"

definition new_buffer :: "int list" where
  "new_buffer = replicate BUF_INTS 0"

definition fits_int :: "int \<Rightarrow> bool" where
  "fits_int v \<longleftrightarrow> - (2 ^ 31) \<le> v \<and> v < 2 ^ 31"

definition read_serial_flags :: "int \<Rightarrow> ('k kernel_scheme, exn, int) io" where
  "read_serial_flags fd =
     io_bind (ioctl_ints fd TIOCGSERIAL new_buffer) (\<lambda>buf. io_return (buf ! FLAGS_INDEX))"

definition write_serial_flags :: "int \<Rightarrow> int \<Rightarrow> ('k kernel_scheme, exn, unit) io" where
  "write_serial_flags fd flags =
     io_bind (ioctl_ints fd TIOCGSERIAL new_buffer) (\<lambda>buf.
     if fits_int flags
     then io_bind (ioctl_ints fd TIOCSSERIAL (buf[FLAGS_INDEX := flags])) (\<lambda>_. io_return ())
     else io_raise (exn_msg OverflowError))"

definition enable_low_latency :: "int \<Rightarrow> ('k kernel_scheme, exn, int) io" where
  "enable_low_latency fd =
     io_bind (read_serial_flags fd) (\<lambda>original.
     if original AND ASYNC_LOW_LATENCY \<noteq> 0 then io_return original
     else io_seq (write_serial_flags fd (original OR ASYNC_LOW_LATENCY)) (io_return original))"

definition restore_serial_flags :: "int \<Rightarrow> int \<Rightarrow> ('k kernel_scheme, exn, unit) io" where
  "restore_serial_flags fd original = write_serial_flags fd original"

subsection \<open>The FTDI latency timer\<close>

definition SYS_CLASS_TTY :: string where "SYS_CLASS_TTY = ''/sys/class/tty''"
definition FTDI_DRIVER_NAME :: string where "FTDI_DRIVER_NAME = ''ftdi_sio''"
definition FTDI_TARGET_MS :: int where "FTDI_TARGET_MS = 1"

record ftdi_latency_timer =
  lt_path :: string
  lt_original_ms :: int

definition tty_name :: "string \<Rightarrow> string" where
  "tty_name device_path = path_name device_path"

definition is_resolve_failure :: "exn \<Rightarrow> bool" where
  "is_resolve_failure e \<longleftrightarrow> isinstance e OSError \<or> isinstance e RuntimeError"

definition ftdi_latency_timer_path :: "string \<Rightarrow> ('k kernel_scheme, exn, string option) io" where
  "ftdi_latency_timer_path device_path =
     (let entry = path_div SYS_CLASS_TTY (tty_name device_path);
          driver_link = path_div (path_div entry ''device'') ''driver'';
          timer_path = path_div (path_div entry ''device'') ''latency_timer''
      in io_bind
           (io_try (io_bind (path_resolve driver_link) (\<lambda>t. io_return (Some t)))
              (\<lambda>e. if is_resolve_failure e then io_return None else io_raise e))
           (\<lambda>driver_target. case driver_target of
              None \<Rightarrow> io_return None
            | Some target \<Rightarrow>
                if path_name target \<noteq> FTDI_DRIVER_NAME then io_return None
                else io_bind (path_exists timer_path) (\<lambda>ex.
                  io_return (if ex then Some timer_path else None))))"

definition read_latency_timer :: "string \<Rightarrow> ('k kernel_scheme, exn, int) io" where
  "read_latency_timer path =
     io_bind (path_read_text path) (\<lambda>txt.
     case py_int (strip txt) of None \<Rightarrow> io_raise (exn_msg ValueError) | Some n \<Rightarrow> io_return n)"

definition write_latency_timer :: "string \<Rightarrow> int \<Rightarrow> ('k kernel_scheme, exn, unit) io" where
  "write_latency_timer path value_ms = path_write_text path (string_of_int value_ms @ [CHR 0x0A])"

definition tune_ftdi_latency_timer ::
    "string \<Rightarrow> ('k kernel_scheme, exn, ftdi_latency_timer option) io" where
  "tune_ftdi_latency_timer device_path =
     io_bind (ftdi_latency_timer_path device_path) (\<lambda>p. case p of
       None \<Rightarrow> io_return None
     | Some path \<Rightarrow>
         io_bind (read_latency_timer path) (\<lambda>original.
         io_seq (io_when (original \<noteq> FTDI_TARGET_MS) (write_latency_timer path FTDI_TARGET_MS))
           (io_return (Some \<lparr>lt_path = path, lt_original_ms = original\<rparr>))))"

definition restore_ftdi_latency_timer :: "ftdi_latency_timer \<Rightarrow> ('k kernel_scheme, exn, unit) io" where
  "restore_ftdi_latency_timer saved = write_latency_timer (lt_path saved) (lt_original_ms saved)"

lemmas low_latency_defs = read_serial_flags_def write_serial_flags_def enable_low_latency_def
  restore_serial_flags_def ftdi_latency_timer_path_def read_latency_timer_def write_latency_timer_def
  tune_ftdi_latency_timer_def restore_ftdi_latency_timer_def

subsection \<open>Frames\<close>

text \<open>What low-latency tuning does to the world: ioctls that commit no line attributes and transfer no data, and sysfs accesses.\<close>

definition tuning :: "event \<Rightarrow> bool" where
  "tuning e \<longleftrightarrow> fd_neutral e \<and> \<not> commits e \<and> \<not> moves e"

lemma tuning_events [simp]:
  "tuning (Ev_ioctl f TIOCGSERIAL p r1)" "tuning (Ev_ioctl f TIOCSSERIAL p r2)"
  "tuning (Ev_resolve t r3)" "tuning (Ev_exists t r4)" "tuning (Ev_read_text t r5)"
  "tuning (Ev_write_text t u r6)" "tuning (Ev_warn t r7)"
  by (simp_all add: tuning_def commits_def moves_def TIOCGSERIAL_def TIOCSSERIAL_def TCSETS2_def)

lemma keeps_low_latency:
  "keeps (appends tuning) (enable_low_latency fd)"
  "keeps (appends tuning) (restore_serial_flags fd v)"
  "keeps (appends tuning) (tune_ftdi_latency_timer p)"
  "keeps (appends tuning) (restore_ftdi_latency_timer t)"
  unfolding low_latency_defs Let_def
  by (intro app.keeps_control keeps_syscalls; simp)+

lemma appends_tuning:
  "appends tuning s s' \<Longrightarrow> appends fd_neutral s s'"
  "appends tuning s s' \<Longrightarrow> appends (\<lambda>e. \<not> commits e) s s'"
  by (erule appends_mono, simp add: tuning_def)+

subsection \<open>Behaviour\<close>

lemma fits_int_or:
  assumes "fits_int x"
  shows "fits_int (x OR ASYNC_LOW_LATENCY)"
proof -
  from assms have "signed_take_bit 31 x = x"
    by (simp add: fits_int_def signed_take_bit_int_eq_self)
  moreover have "signed_take_bit 31 ASYNC_LOW_LATENCY = ASYNC_LOW_LATENCY"
    by (simp add: ASYNC_LOW_LATENCY_def signed_take_bit_int_eq_self)
  moreover have "signed_take_bit 31 (x OR y) = signed_take_bit 31 x OR signed_take_bit 31 y" for y
    by (auto simp: bit_eq_iff bit_simps)
  ultimately have "signed_take_bit 31 (x OR ASYNC_LOW_LATENCY) = x OR ASYNC_LOW_LATENCY"
    by simp
  then show ?thesis
    using signed_take_bit_int_greater_eq_minus_exp [of 31 "x OR ASYNC_LOW_LATENCY"]
      signed_take_bit_int_less_exp [of 31 "x OR ASYNC_LOW_LATENCY"]
    by (simp add: fits_int_def)
qed

text \<open>The saved flags fit the slot they are written back to.\<close>

lemma enable_low_latency_fits:
  "wp (enable_low_latency fd) (\<lambda>v _. fits_int v) (\<lambda>_ _. True) s"
proof -
  have fi: "fits_int (fit_ints 32 ws ! 4)" for ws
    using fit_ints_range [of 4 32 ws] by (simp add: fits_int_def)
  have len: "length new_buffer = 32" "FLAGS_INDEX = 4"
    by (simp_all add: new_buffer_def BUF_INTS_def FLAGS_INDEX_def)
  show ?thesis
    unfolding enable_low_latency_def read_serial_flags_def write_serial_flags_def
    by (auto simp: wp_simps len fi split: sum.splits)
qed

text \<open>
  A restore was attempted: either the structure could not be read, or it was written back with the
  saved value in the flags slot and every other slot as just read; and the timer file was rewritten.
\<close>

definition flags_restored :: "int \<Rightarrow> int \<Rightarrow> log \<Rightarrow> bool" where
  "flags_restored fd v es \<longleftrightarrow>
     (case es of
        [Ev_ioctl f q p (Inl e)] \<Rightarrow> f = fd \<and> q = TIOCGSERIAL
      | [Ev_ioctl f q p (Inr (P_ints buf)), Ev_ioctl f' q' (P_ints buf') r] \<Rightarrow>
          f = fd \<and> q = TIOCGSERIAL \<and> f' = fd \<and> q' = TIOCSSERIAL \<and> length buf = BUF_INTS
          \<and> buf' = buf[FLAGS_INDEX := v]
      | _ \<Rightarrow> False)"

definition timer_restored :: "ftdi_latency_timer \<Rightarrow> log \<Rightarrow> bool" where
  "timer_restored t es \<longleftrightarrow>
     (case es of
        [Ev_write_text p txt r] \<Rightarrow> p = lt_path t \<and> py_int (strip txt) = Some (lt_original_ms t)
      | _ \<Rightarrow> False)"

lemma restore_serial_flags_attempt:
  fixes s :: "'k kernel_scheme"
  assumes "fits_int v" "0 \<le> fd"
  shows "wp (restore_serial_flags fd v)
    (\<lambda>_ s'. \<exists>es. flags_restored fd v es \<and> list_all tuning es \<and> s' = s\<lparr>k_log := k_log s @ es\<rparr>)
    (\<lambda>e s'. isinstance e OSError
       \<and> (\<exists>es. flags_restored fd v es \<and> list_all tuning es \<and> s' = s\<lparr>k_log := k_log s @ es\<rparr>)) s"
proof -
  let ?P = "\<lambda>s'. \<exists>es. flags_restored fd v es \<and> list_all tuning es \<and> s' = s\<lparr>k_log := k_log s @ es\<rparr>"
  have one: "?P (s\<lparr>k_log := k_log s @ [Ev_ioctl fd TIOCGSERIAL p (Inl e)]\<rparr>)" for p e
    by (rule exI [of _ "[Ev_ioctl fd TIOCGSERIAL p (Inl e)]"]) (simp add: flags_restored_def)
  have two: "?P (s\<lparr>k_log := k_log s @ [Ev_ioctl fd TIOCGSERIAL p (Inr (P_ints buf)),
      Ev_ioctl fd TIOCSSERIAL (P_ints (buf[FLAGS_INDEX := v])) r]\<rparr>)" if "length buf = BUF_INTS" for p buf r
    by (rule exI [of _ "[Ev_ioctl fd TIOCGSERIAL p (Inr (P_ints buf)),
        Ev_ioctl fd TIOCSSERIAL (P_ints (buf[FLAGS_INDEX := v])) r]"]) (simp add: flags_restored_def that)
  show ?thesis
    unfolding restore_serial_flags_def write_serial_flags_def
    using assms one two by (auto simp: wp_simps new_buffer_def)
qed

lemma restore_timer_attempt:
  fixes s :: "'k kernel_scheme"
  shows "wp (restore_ftdi_latency_timer t)
    (\<lambda>_ s'. \<exists>es. timer_restored t es \<and> list_all tuning es \<and> s' = s\<lparr>k_log := k_log s @ es\<rparr>)
    (\<lambda>e s'. isinstance e OSError
       \<and> (\<exists>es. timer_restored t es \<and> list_all tuning es \<and> s' = s\<lparr>k_log := k_log s @ es\<rparr>)) s"
proof -
  let ?P = "\<lambda>s'. \<exists>es. timer_restored t es \<and> list_all tuning es \<and> s' = s\<lparr>k_log := k_log s @ es\<rparr>"
  have one: "?P (s\<lparr>k_log := k_log s @ [Ev_write_text (lt_path t) (string_of_int (lt_original_ms t) @ [CHR 0x0A]) r]\<rparr>)" for r
    by (rule exI [of _ "[Ev_write_text (lt_path t) (string_of_int (lt_original_ms t) @ [CHR 0x0A]) r]"])
      (simp add: timer_restored_def strip_newline)
  show ?thesis
    unfolding restore_ftdi_latency_timer_def write_latency_timer_def
    using one by (auto simp: wp_simps)
qed

end
