(* ===== verification/Doubles.thy ===== *)
theory Doubles
  imports Types "HOL-Library.Log_Nat"
begin

section \<open>Rounding to a double\<close>

text \<open>
  Python computes with IEEE 754 doubles: the result of an operation on finite floats is the exact
  one rounded to the nearest double, ties to the even significand, and an infinity from the overflow
  threshold \<open>2^1024 - 2^970\<close> on. \<open>round_double\<close> is that rounding, on the rationals; a double has 53
  significant bits and no unit below \<open>2^-1074\<close>.
\<close>

definition exp2 :: "int \<Rightarrow> rat" where
  "exp2 k = 2 powi k"

text \<open>The \<open>k\<close> with \<open>2^k \<le> x < 2^(k+1)\<close>, for a positive \<open>x\<close>.\<close>

definition floor_log2 :: "rat \<Rightarrow> int" where
  "floor_log2 x =
     (let k = bitlen (fst (quotient_of x)) - bitlen (snd (quotient_of x))
      in if exp2 k \<le> x then k else k - 1)"

text \<open>The unit in the last place of the doubles next to \<open>x\<close>.\<close>

definition double_ulp :: "rat \<Rightarrow> rat" where
  "double_ulp x = exp2 (max (floor_log2 \<bar>x\<bar> - 52) (- 1074))"

definition round_double :: "rat \<Rightarrow> pyfloat" where
  "round_double x =
     (if x = 0 then Fin 0
      else
        let u = double_ulp x; y = of_int (round_half_even (x / u)) * u
        in if 2 ^ 1024 \<le> y then PosInf else if y \<le> - (2 ^ 1024) then NegInf else Fin y)"

text \<open>\<open>x * c\<close> for a positive finite \<open>c\<close>.\<close>

fun float_scale :: "pyfloat \<Rightarrow> rat \<Rightarrow> pyfloat" where
  "float_scale (Fin a) c = round_double (a * c)"
| "float_scale PosInf c = PosInf"
| "float_scale NegInf c = NegInf"
| "float_scale NaN c = NaN"

subsection \<open>Rounding to an integer\<close>

lemma round_half_even_mono_low: "of_int k \<le> x \<Longrightarrow> k \<le> round_half_even x"
proof -
  assume "of_int k \<le> x"
  then have "k \<le> \<lfloor>x\<rfloor>" by (simp add: le_floor_iff)
  then show ?thesis by (auto simp: round_half_even_def Let_def)
qed

text \<open>A tie goes to the even neighbour.\<close>

lemma round_half_even_half_below:
  assumes "even k"
  shows "of_int k - 1/2 \<le> x \<longleftrightarrow> k \<le> round_half_even x"
proof (cases "of_int k \<le> x")
  case True
  then show ?thesis using round_half_even_mono_low [OF True] by simp
next
  case False
  then have f: "\<lfloor>x\<rfloor> \<le> k - 1" by (simp add: floor_less_iff)
  show ?thesis
  proof (cases "\<lfloor>x\<rfloor> = k - 1")
    case True
    with assms have "odd \<lfloor>x\<rfloor>" by simp
    with True show ?thesis by (auto simp: round_half_even_def Let_def)
  next
    case below: False
    with f have low: "\<lfloor>x\<rfloor> + 2 \<le> k" by simp
    then have "(of_int (\<lfloor>x\<rfloor> + 2) :: rat) \<le> of_int k" by (simp only: of_int_le_iff)
    then have "x < of_int k - 1" using floor_correct [of x] by simp
    moreover have "round_half_even x < k" using low by (auto simp: round_half_even_def Let_def)
    ultimately show ?thesis by simp
  qed
qed

subsection \<open>The unit in the last place\<close>

lemma exp2_pos [simp]: "0 < exp2 k" "0 \<le> exp2 k" "exp2 k \<noteq> 0"
  by (simp_all add: exp2_def)

lemma exp2_add: "exp2 (i + j) = exp2 i * exp2 j"
  unfolding exp2_def by (rule power_int_add) simp

lemma exp2_less_iff [simp]: "exp2 i < exp2 j \<longleftrightarrow> i < j"
  unfolding exp2_def
  using power_int_strict_increasing [of i j "2 :: rat"] power_int_increasing [of j i "2 :: rat"] by (cases "i < j") auto

lemma exp2_le_iff [simp]: "exp2 i \<le> exp2 j \<longleftrightarrow> i \<le> j"
  using exp2_less_iff [of j i] by (simp flip: not_less del: exp2_less_iff)

lemma exp2_nat: "0 \<le> i \<Longrightarrow> exp2 i = of_int (2 ^ nat i)"
  by (simp add: exp2_def power_int_def)

lemma exp2_power: "exp2 (int n) = 2 ^ n"
  by (simp add: exp2_def)

lemma floor_log2_bounds:
  assumes "0 < x"
  shows "exp2 (floor_log2 x) \<le> x" "x < exp2 (floor_log2 x + 1)"
proof -
  obtain p q where pq: "quotient_of x = (p, q)" by (cases "quotient_of x")
  have q: "0 < q" and x: "x = of_int p / of_int q" using pq by (simp_all add: quotient_of_denom_pos quotient_of_div)
  with assms have p: "0 < p" by (simp add: zero_less_divide_iff)
  let ?bp = "bitlen p" and ?bq = "bitlen q"
  have bnd: "exp2 (bitlen n - 1) \<le> (of_int n :: rat)" "(of_int n :: rat) < exp2 (bitlen n)" if "0 < n" for n
  proof -
    have b: "0 < bitlen n" using that bitlen_nonneg [of n] by (simp add: bitlen_eq_zero_iff less_le)
    from bitlen_bounds [OF that] have "2 ^ nat (bitlen n - 1) \<le> n" "n < 2 ^ nat (bitlen n)" by simp_all
    then have "(of_int (2 ^ nat (bitlen n - 1)) :: rat) \<le> of_int n" "(of_int n :: rat) < of_int (2 ^ nat (bitlen n))"
      by (simp_all only: of_int_le_iff of_int_less_iff)
    with b show "exp2 (bitlen n - 1) \<le> (of_int n :: rat)" "(of_int n :: rat) < exp2 (bitlen n)"
      by (simp_all only: exp2_nat)
  qed
  have upper: "x < exp2 (?bp - ?bq + 1)"
  proof -
    have "x < exp2 ?bp / of_int q" unfolding x using bnd(2) [OF p] q by (simp add: divide_strict_right_mono)
    also have "\<dots> \<le> exp2 ?bp / exp2 (?bq - 1)" using bnd(1) [OF q] q by (intro divide_left_mono mult_pos_pos) simp_all
    also have "\<dots> = exp2 (?bp - ?bq + 1)" using exp2_add [of "?bp - ?bq + 1" "?bq - 1"] by (simp add: divide_eq_eq)
    finally show ?thesis .
  qed
  have lower: "exp2 (?bp - ?bq - 1) \<le> x"
  proof -
    have "exp2 (?bp - ?bq - 1) = exp2 (?bp - 1) / exp2 ?bq"
      using exp2_add [of "?bp - ?bq - 1" "?bq"] by (simp add: eq_divide_eq)
    also have "\<dots> \<le> of_int p / exp2 ?bq" using bnd(1) [OF p] by (intro divide_right_mono) simp_all
    also have "\<dots> \<le> x" unfolding x using bnd(2) [OF q] p q by (intro divide_left_mono mult_pos_pos) simp_all
    finally show ?thesis .
  qed
  show "exp2 (floor_log2 x) \<le> x" "x < exp2 (floor_log2 x + 1)"
    using upper lower pq by (simp_all add: floor_log2_def Let_def)
qed

lemma floor_log2_ge: "exp2 k \<le> x \<Longrightarrow> k \<le> floor_log2 x"
proof -
  assume k: "exp2 k \<le> x"
  then have "0 < x" by (rule less_le_trans [rotated]) simp
  from floor_log2_bounds(2) [OF this] k have "exp2 k < exp2 (floor_log2 x + 1)" by (rule le_less_trans [rotated])
  then show ?thesis by simp
qed

lemma floor_log2_less: "0 < x \<Longrightarrow> x < exp2 k \<Longrightarrow> floor_log2 x < k"
  using floor_log2_bounds(1) [of x] exp2_less_iff by (blast intro: le_less_trans)

lemma double_ulp_pos: "0 < double_ulp x"
  by (simp add: double_ulp_def)

text \<open>The value before the test for overflow: how near it is, and where it lies.\<close>

definition nearest :: "rat \<Rightarrow> rat" where
  "nearest x = of_int (round_half_even (x / double_ulp x)) * double_ulp x"

lemma nearest_nonneg: "0 < x \<Longrightarrow> 0 \<le> nearest x"
  unfolding nearest_def using double_ulp_pos [of x]
  by (intro mult_nonneg_nonneg) (simp_all add: round_half_even_nonneg less_imp_le)

lemma round_double_nearest:
  "0 < x \<Longrightarrow> round_double x = (if 2 ^ 1024 \<le> nearest x then PosInf else Fin (nearest x))"
proof -
  assume x: "0 < x"
  have "0 \<le> nearest x" by (rule nearest_nonneg [OF x])
  then have "\<not> nearest x \<le> - (2 ^ 1024)" by (simp add: not_le)
  with x show ?thesis unfolding round_double_def nearest_def Let_def by simp
qed

lemma nearest_near: "\<bar>nearest x - x\<bar> \<le> double_ulp x / 2"
proof -
  let ?u = "double_ulp x"
  have u: "0 < ?u" by (rule double_ulp_pos)
  have "nearest x - x = (of_int (round_half_even (x / ?u)) - x / ?u) * ?u"
    using u by (simp add: nearest_def left_diff_distrib)
  then have "\<bar>nearest x - x\<bar> = \<bar>of_int (round_half_even (x / ?u)) - x / ?u\<bar> * ?u"
    using u by (simp add: abs_mult)
  also have "\<dots> \<le> 1/2 * ?u"
    using round_half_even_near u by (intro mult_right_mono) simp_all
  finally show ?thesis by simp
qed

lemma double_ulp_normal: "0 < x \<Longrightarrow> - 1022 \<le> floor_log2 x \<Longrightarrow> double_ulp x = exp2 (floor_log2 x - 52)"
  by (simp add: double_ulp_def)

text \<open>Rounding does not leave the binade downwards.\<close>

lemma nearest_low:
  assumes "exp2 k \<le> x" "- 1022 \<le> k"
  shows "exp2 k \<le> nearest x"
proof -
  let ?f = "floor_log2 x"
  have x: "0 < x" using assms(1) by (rule less_le_trans [rotated]) simp
  have k: "k \<le> ?f" by (rule floor_log2_ge [OF assms(1)])
  with assms(2) have u: "double_ulp x = exp2 (?f - 52)" by (intro double_ulp_normal [OF x]) simp
  have two: "exp2 ?f = 2 ^ 52 * exp2 (?f - 52)"
    using exp2_add [of 52 "?f - 52"] exp2_power [of 52] by simp
  have "of_int (2 ^ 52) \<le> x / double_ulp x"
    using floor_log2_bounds(1) [OF x] unfolding u two by (simp add: pos_le_divide_eq)
  then have "2 ^ 52 \<le> round_half_even (x / double_ulp x)" by (rule round_half_even_mono_low)
  then have "(of_int (2 ^ 52) :: rat) \<le> of_int (round_half_even (x / double_ulp x))" by (simp only: of_int_le_iff)
  then have "of_int (2 ^ 52) * double_ulp x \<le> nearest x"
    unfolding nearest_def using double_ulp_pos [of x] by (intro mult_right_mono) simp_all
  moreover have "of_int (2 ^ 52) * double_ulp x = exp2 ?f" unfolding u two by simp
  ultimately have "exp2 ?f \<le> nearest x" by simp
  with k show ?thesis using exp2_le_iff by (blast intro: order_trans)
qed

text \<open>The overflow threshold of IEEE 754: half a unit above the largest double.\<close>

definition double_threshold :: rat where
  "double_threshold = exp2 1024 - exp2 970"

lemma nearest_overflow:
  assumes "0 < x"
  shows "2 ^ 1024 \<le> nearest x \<longleftrightarrow> double_threshold \<le> x"
proof -
  let ?f = "floor_log2 x" and ?u = "double_ulp x"
  have top: "(2 :: rat) ^ 1024 = exp2 1024" using exp2_power [of 1024] by (simp only: of_nat_numeral)
  consider "1023 < ?f" | "?f < 1023" | "?f = 1023" by linarith
  then show ?thesis
  proof cases
    case 1
    then have "exp2 1024 \<le> exp2 ?f" by simp
    then have "exp2 1024 \<le> x" using floor_log2_bounds(1) [OF assms] by (rule order_trans)
    moreover from this have "exp2 1024 \<le> nearest x" by (rule nearest_low) simp
    moreover have "double_threshold \<le> exp2 1024" by (simp add: double_threshold_def)
    ultimately show ?thesis unfolding top by linarith
  next
    case 2
    then have "exp2 (?f + 1) \<le> exp2 1023" by simp
    then have up: "x < exp2 1023" using floor_log2_bounds(2) [OF assms] by (rule less_le_trans [rotated])
    have u: "?u \<le> exp2 970"
      using 2 assms by (simp add: double_ulp_def)
    have dbl: "exp2 1024 = exp2 1023 + exp2 1023" "exp2 1023 = exp2 1022 + exp2 1022"
      using exp2_add [of 1 1023] exp2_add [of 1 1022] exp2_power [of 1] by simp_all
    have "exp2 970 < exp2 1022" "0 < exp2 1022" by simp_all
    moreover have "nearest x \<le> x + ?u / 2" using nearest_near [of x] unfolding abs_le_iff by linarith
    ultimately show ?thesis using up u unfolding top double_threshold_def dbl by linarith
  next
    case 3
    then have u: "?u = exp2 971" using assms by (simp add: double_ulp_def)
    have t: "double_threshold = (2 ^ 53 - 1/2) * exp2 971"
      using exp2_add [of 53 971] exp2_add [of 1 970] exp2_power [of 53] exp2_power [of 1]
      by (simp add: double_threshold_def left_diff_distrib)
    have m: "double_threshold \<le> x \<longleftrightarrow> 2 ^ 53 - 1/2 \<le> x / ?u"
      unfolding t u by (simp add: pos_le_divide_eq)
    have n: "2 ^ 1024 \<le> nearest x \<longleftrightarrow> (2 ^ 53 :: int) \<le> round_half_even (x / ?u)"
    proof -
      have "(2 :: rat) ^ 1024 = of_int (2 ^ 53) * ?u" unfolding u top using exp2_add [of 53 971] exp2_power [of 53] by simp
      then have "2 ^ 1024 \<le> nearest x \<longleftrightarrow> (of_int (2 ^ 53) :: rat) \<le> of_int (round_half_even (x / ?u))"
        using double_ulp_pos [of x] unfolding nearest_def by (simp only: mult_le_cancel_right_pos)
      then show ?thesis by (simp only: of_int_le_iff)
    qed
    show ?thesis unfolding m n using round_half_even_half_below [of "2 ^ 53" "x / ?u"] by simp
  qed
qed

text \<open>Below \<open>2^32\<close> rounding moves a value by at most \<open>2^-22\<close>.\<close>

lemma nearest_within:
  assumes "0 < x" "x < 2 ^ 32"
  shows "\<bar>nearest x - x\<bar> \<le> 1 / 2 ^ 22"
proof -
  have e: "exp2 32 = 2 ^ 32" using exp2_power [of 32] by simp
  have "floor_log2 x < 32" using assms by (intro floor_log2_less) (simp_all add: e)
  then have u: "double_ulp x \<le> exp2 (- 21)" using assms(1) by (simp add: double_ulp_def)
  have "exp2 (- 21) * exp2 21 = exp2 0" by (simp flip: exp2_add)
  then have "exp2 (- 21) = 1 / 2 ^ 21"
    using exp2_power [of 21] exp2_power [of 0] by (simp add: eq_divide_eq)
  with u nearest_near [of x] show ?thesis by simp
qed

lemma round_double_threshold:
  "0 < x \<Longrightarrow> round_double x = (if double_threshold \<le> x then PosInf else Fin (nearest x))"
  by (simp only: round_double_nearest nearest_overflow)

lemma double_threshold_value: "double_threshold = 2 ^ 1024 - 2 ^ 970"
  using exp2_power [of 1024] exp2_power [of 970] by (simp only: double_threshold_def of_nat_numeral)

end
