(* ===== verification/Linux_RS485.thy ===== *)
theory Linux_RS485
  imports Kernel Doubles
begin

section \<open>Kernel RS-485 on Linux (\<open>_linux/rs485.py\<close>)\<close>

text \<open>
  \<open>struct serial_rs485\<close> in its 32-byte layout (\<open>=IIIBBBBIIII\<close>), the encoding of a configuration
  into it, and the merge that keeps the flag bits a configuration cannot express. Delays are Python
  floats: their product with 1000 is rounded to a double, and converting an infinite or NaN one to an
  integer raises.
\<close>

definition TIOCGRS485 :: int where "TIOCGRS485 = 0x542E"
definition TIOCSRS485 :: int where "TIOCSRS485 = 0x542F"
definition SER_RS485_ENABLED :: int where "SER_RS485_ENABLED = 1"
definition SER_RS485_RTS_ON_SEND :: int where "SER_RS485_RTS_ON_SEND = 2"
definition SER_RS485_RTS_AFTER_SEND :: int where "SER_RS485_RTS_AFTER_SEND = 4"
definition SER_RS485_RX_DURING_TX :: int where "SER_RS485_RX_DURING_TX = 16"
definition SER_RS485_TERMINATE_BUS :: int where "SER_RS485_TERMINATE_BUS = 32"
definition RS485_SIZE :: nat where "RS485_SIZE = 32"
definition DELAY_MS_MAX :: int where "DELAY_MS_MAX = 0xFFFFFFFF"

lemmas rs485_flag_defs = SER_RS485_ENABLED_def SER_RS485_RTS_ON_SEND_def
  SER_RS485_RTS_AFTER_SEND_def SER_RS485_RX_DURING_TX_def SER_RS485_TERMINATE_BUS_def

record rs485_state =
  st_flags :: int
  st_before :: int
  st_after :: int
  st_addr_recv :: int
  st_addr_dest :: int

definition rs485_to_bytes :: "rs485_state \<Rightarrow> exn + bytes" where
  "rs485_to_bytes st =
     res_bind (pack_unsigned 4 (st_flags st)) (\<lambda>b1.
     res_bind (pack_unsigned 4 (st_before st)) (\<lambda>b2.
     res_bind (pack_unsigned 4 (st_after st)) (\<lambda>b3.
     res_bind (pack_unsigned 1 (st_addr_recv st)) (\<lambda>b4.
     res_bind (pack_unsigned 1 (st_addr_dest st)) (\<lambda>b5.
     Inr (b1 @ b2 @ b3 @ b4 @ b5 @ replicate 2 0 @ replicate 16 0))))))"

definition rs485_from_bytes :: "bytes \<Rightarrow> exn + rs485_state" where
  "rs485_from_bytes payload =
     (if length payload < RS485_SIZE then Inl (exn_msg ValueError)
      else Inr \<lparr>st_flags = field_at 0 4 payload, st_before = field_at 4 4 payload,
                st_after = field_at 8 4 payload, st_addr_recv = field_at 12 1 payload,
                st_addr_dest = field_at 13 1 payload\<rparr>)"

definition rs485_enabled :: "rs485_state \<Rightarrow> bool" where
  "rs485_enabled st \<longleftrightarrow> st_flags st AND SER_RS485_ENABLED \<noteq> 0"

text \<open>\<open>round(seconds * 1000)\<close>: the product is a double, so it may be rounded or overflow to infinity.\<close>

definition seconds_to_ms :: "pyfloat \<Rightarrow> exn + int" where
  "seconds_to_ms seconds =
     (if float_le seconds (Fin 0) then Inr 0
      else case float_scale seconds 1000 of
          Fin x \<Rightarrow>
            let ms = round_half_even x in
            if ms < 0 then Inr 0 else if DELAY_MS_MAX < ms then Inr DELAY_MS_MAX else Inr ms
        | NaN \<Rightarrow> Inl (exn_msg ValueError)
        | _ \<Rightarrow> Inl (exn_msg OverflowError))"

definition from_config :: "rs485_config \<Rightarrow> exn + rs485_state" where
  "from_config config =
     (let flags = (if rs_enabled config then SER_RS485_ENABLED else 0)
                OR (if rs_rts_on_send config then SER_RS485_RTS_ON_SEND else 0)
                OR (if rs_rts_after_send config then SER_RS485_RTS_AFTER_SEND else 0)
                OR (if rs_rx_during_tx config then SER_RS485_RX_DURING_TX else 0)
      in res_bind (seconds_to_ms (rs_delay_before_send config)) (\<lambda>before.
         res_bind (seconds_to_ms (rs_delay_after_send config)) (\<lambda>after.
         Inr \<lparr>st_flags = flags, st_before = before, st_after = after,
              st_addr_recv = 0, st_addr_dest = 0\<rparr>)))"

definition owned_mask :: int where
  "owned_mask = SER_RS485_ENABLED OR SER_RS485_RTS_ON_SEND OR SER_RS485_RTS_AFTER_SEND
     OR SER_RS485_RX_DURING_TX"

definition with_flags_from :: "rs485_state \<Rightarrow> rs485_config \<Rightarrow> exn + rs485_state" where
  "with_flags_from st config =
     res_bind (from_config config) (\<lambda>encoded.
     Inr \<lparr>st_flags = (st_flags st AND NOT owned_mask) OR (st_flags encoded AND owned_mask),
          st_before = st_before encoded, st_after = st_after encoded,
          st_addr_recv = st_addr_recv st, st_addr_dest = st_addr_dest st\<rparr>)"

definition read_rs485 :: "int \<Rightarrow> ('k kernel_scheme, exn, rs485_state) io" where
  "read_rs485 fd =
     io_bind (ioctl_bytes fd TIOCGRS485 (replicate RS485_SIZE 0)) (\<lambda>payload.
     io_lift (rs485_from_bytes payload))"

definition write_rs485 :: "int \<Rightarrow> rs485_state \<Rightarrow> ('k kernel_scheme, exn, unit) io" where
  "write_rs485 fd state =
     io_bind (io_lift (rs485_to_bytes state)) (\<lambda>payload.
     io_bind (ioctl_bytes fd TIOCSRS485 payload) (\<lambda>_. io_return ()))"

subsection \<open>The codec\<close>

definition rs485_fits :: "rs485_state \<Rightarrow> bool" where
  "rs485_fits st \<longleftrightarrow> fits_unsigned 4 (st_flags st) \<and> fits_unsigned 4 (st_before st)
     \<and> fits_unsigned 4 (st_after st) \<and> fits_unsigned 1 (st_addr_recv st) \<and> fits_unsigned 1 (st_addr_dest st)"

lemma rs485_to_bytes_Inr:
  "rs485_to_bytes st = Inr bs \<longleftrightarrow> rs485_fits st \<and>
     bs = le_bytes 4 (nat (st_flags st)) @ le_bytes 4 (nat (st_before st)) @ le_bytes 4 (nat (st_after st))
        @ le_bytes 1 (nat (st_addr_recv st)) @ le_bytes 1 (nat (st_addr_dest st)) @ replicate 18 0"
proof -
  have "replicate 2 0 @ replicate 16 (0 :: 8 word) = replicate 18 0"
    by (simp flip: replicate_add)
  then show ?thesis
    by (auto simp: rs485_to_bytes_def rs485_fits_def pack_unsigned_def res_bind_Inr_iff)
qed

lemma rs485_to_bytes_Inl: "rs485_to_bytes st = Inl e \<longleftrightarrow> \<not> rs485_fits st \<and> e = exn_msg StructError"
  by (auto simp: rs485_to_bytes_def rs485_fits_def pack_unsigned_def res_bind_Inl_iff)

lemma rs485_from_bytes_fits: "rs485_from_bytes bs = Inr st \<Longrightarrow> rs485_fits st"
  by (auto simp: rs485_from_bytes_def rs485_fits_def fits_field_at split: if_splits)

lemma rs485_from_to:
  assumes "rs485_to_bytes st = Inr bs"
  shows "rs485_from_bytes (bs @ extra) = Inr st"
proof -
  have rd: "int (le_val (le_bytes n (nat v))) = v" if "fits_unsigned n v" for n v
    using le_val_le_bytes_id [OF fits_unsigned_nat [OF that]] that by simp
  show ?thesis
    using assms
    by (auto simp: rs485_to_bytes_Inr rs485_from_bytes_def RS485_SIZE_def field_at_def rs485_fits_def rd
        simp del: le_val_le_bytes_id One_nat_def le_bytes.simps)
qed

subsection \<open>Delays and flags\<close>

lemma seconds_to_ms_positive:
  assumes "0 < x"
  shows "seconds_to_ms (Fin x) =
    (if double_threshold \<le> x * 1000 then Inl (exn_msg OverflowError)
     else Inr (min DELAY_MS_MAX (round_half_even (nearest (x * 1000)))))"
proof -
  have x: "\<not> float_le (Fin x) (Fin 0)" "0 < x * 1000" using assms by (simp_all add: float_le_def)
  have "0 \<le> nearest (x * 1000)" using x(2) by (rule nearest_nonneg)
  then have "0 \<le> round_half_even (nearest (x * 1000))" by (rule round_half_even_nonneg)
  with x show ?thesis
    by (simp add: seconds_to_ms_def round_double_threshold Let_def min_def)
qed

text \<open>The clamped milliseconds, by the size of the exact product.\<close>

lemma delay_ms_bounds:
  fixes y :: rat
  assumes "0 < y"
  defines "ms \<equiv> min DELAY_MS_MAX (round_half_even (nearest y))"
  shows "0 \<le> ms \<and> ms \<le> DELAY_MS_MAX
    \<and> (if of_int DELAY_MS_MAX \<le> y then ms = DELAY_MS_MAX else \<bar>of_int ms - y\<bar> \<le> 1/2 + 1 / 2 ^ 22)"
proof -
  let ?r = "round_half_even (nearest y)"
  have nn: "0 \<le> ?r" using nearest_nonneg [OF assms(1)] by (rule round_half_even_nonneg)
  have near: "\<bar>of_int ?r - nearest y\<bar> \<le> 1/2" by (rule round_half_even_near)
  have tiny: "1 / 2 ^ 22 < (1/2 :: rat)" by simp
  have big: "DELAY_MS_MAX \<le> ?r" if "of_int DELAY_MS_MAX \<le> y"
  proof (cases "y < 2 ^ 32")
    case True
    have "of_int DELAY_MS_MAX - 1 < (of_int ?r :: rat)"
      using abs_le_D2 [OF nearest_within [OF assms(1) True]] abs_le_D2 [OF near] that tiny by linarith
    then have "of_int (DELAY_MS_MAX - 1) < (of_int ?r :: rat)" by simp
    then show ?thesis by (simp only: of_int_less_iff)
  next
    case False
    have "exp2 32 \<le> nearest y" using False exp2_power [of 32] by (intro nearest_low) simp_all
    then have "of_int DELAY_MS_MAX \<le> nearest y" using exp2_power [of 32] by (simp add: DELAY_MS_MAX_def)
    then show ?thesis by (rule round_half_even_mono_low)
  qed
  have small: "?r \<le> DELAY_MS_MAX \<and> \<bar>of_int ?r - y\<bar> \<le> 1/2 + 1 / 2 ^ 22" if "\<not> of_int DELAY_MS_MAX \<le> y"
  proof
    from that have "y < 2 ^ 32" by (simp add: DELAY_MS_MAX_def)
    note within = nearest_within [OF assms(1) this]
    from within near show "\<bar>of_int ?r - y\<bar> \<le> 1/2 + 1 / 2 ^ 22" by linarith
    have "(of_int ?r :: rat) < of_int DELAY_MS_MAX + 1"
      using abs_le_D1 [OF within] abs_le_D1 [OF near] that tiny by linarith
    then have "(of_int ?r :: rat) < of_int (DELAY_MS_MAX + 1)" by simp
    then show "?r \<le> DELAY_MS_MAX" by (simp only: of_int_less_iff)
  qed
  from nn big small show ?thesis by (auto simp: ms_def min_def DELAY_MS_MAX_def)
qed

lemma seconds_to_ms_Inr_range: "seconds_to_ms s = Inr ms \<Longrightarrow> 0 \<le> ms \<and> ms \<le> DELAY_MS_MAX"
  by (cases s) (auto simp: seconds_to_ms_def Let_def DELAY_MS_MAX_def split: if_splits pyfloat.splits)

lemma owned_mask_value: "owned_mask = 23"
  by (simp add: owned_mask_def rs485_flag_defs)

lemma and_fits: "fits_unsigned n x \<Longrightarrow> 0 \<le> m \<Longrightarrow> fits_unsigned n (x AND m)"
  using AND_upper1 [of x m] by (auto simp: fits_unsigned_def intro: le_less_trans)

lemma from_config_Inr:
  "from_config config = Inr st \<longleftrightarrow>
     (\<exists>b a. seconds_to_ms (rs_delay_before_send config) = Inr b
        \<and> seconds_to_ms (rs_delay_after_send config) = Inr a
        \<and> st = \<lparr>st_flags = (if rs_enabled config then 1 else 0) OR (if rs_rts_on_send config then 2 else 0)
                OR (if rs_rts_after_send config then 4 else 0) OR (if rs_rx_during_tx config then 16 else 0),
              st_before = b, st_after = a, st_addr_recv = 0, st_addr_dest = 0\<rparr>)"
  by (auto simp: from_config_def Let_def res_bind_Inr_iff rs485_flag_defs)

definition flags_of_config :: "rs485_config \<Rightarrow> int" where
  "flags_of_config config =
     (if rs_enabled config then 1 else 0) OR (if rs_rts_on_send config then 2 else 0)
       OR (if rs_rts_after_send config then 4 else 0) OR (if rs_rx_during_tx config then 16 else 0)"

lemma flags_of_config_bits:
  "flags_of_config config AND 1 = (if rs_enabled config then 1 else 0)
   \<and> flags_of_config config AND 2 = (if rs_rts_on_send config then 2 else 0)
   \<and> flags_of_config config AND 4 = (if rs_rts_after_send config then 4 else 0)
   \<and> flags_of_config config AND 16 = (if rs_rx_during_tx config then 16 else 0)
   \<and> flags_of_config config AND NOT 23 = 0"
  by (simp add: flags_of_config_def)

lemma with_flags_from_Inr:
  "with_flags_from st config = Inr st' \<longleftrightarrow>
     (\<exists>b a. seconds_to_ms (rs_delay_before_send config) = Inr b
        \<and> seconds_to_ms (rs_delay_after_send config) = Inr a
        \<and> st' = st\<lparr>st_flags := set_field (st_flags st) 23 (flags_of_config config),
                   st_before := b, st_after := a\<rparr>)"
proof -
  have "flags_of_config config AND 23 = flags_of_config config"
    by (simp add: flags_of_config_def)
  then show ?thesis
    by (auto simp: with_flags_from_def res_bind_Inr_iff from_config_Inr owned_mask_value set_field_def
        flags_of_config_def [symmetric])
qed

lemma with_flags_from_fits:
  assumes fits: "rs485_fits st" and run: "with_flags_from st config = Inr st'"
  shows "rs485_fits st'"
proof -
  from run obtain b a where ms: "seconds_to_ms (rs_delay_before_send config) = Inr b"
      "seconds_to_ms (rs_delay_after_send config) = Inr a"
    and st': "st' = st\<lparr>st_flags := set_field (st_flags st) 23 (flags_of_config config), st_before := b, st_after := a\<rparr>"
    by (auto simp: with_flags_from_Inr)
  have f: "0 \<le> flags_of_config config" "flags_of_config config < 2 ^ 32"
    by (simp_all add: flags_of_config_def)
  have s: "0 \<le> st_flags st" "st_flags st < 2 ^ 32"
    using fits by (simp_all add: rs485_fits_def fits_unsigned_def)
  have c: "0 \<le> st_flags st AND NOT 23" "st_flags st AND NOT 23 < 2 ^ 32"
    using s AND_upper1 [of "st_flags st" "NOT 23"] by auto
  have "0 \<le> set_field (st_flags st) 23 (flags_of_config config)"
    "set_field (st_flags st) 23 (flags_of_config config) < 2 ^ 32"
    using c f OR_upper [of "st_flags st AND NOT 23" 32 "flags_of_config config"]
    by (simp_all add: set_field_def)
  then show ?thesis
    using fits ms [THEN seconds_to_ms_Inr_range] by (simp add: rs485_fits_def st' fits_unsigned_def DELAY_MS_MAX_def)
qed

text \<open>Applying an RS-485 configuration to a driver's state is a faithful merge: the four flags the
  configuration owns get its values, every other flag bit and both addresses keep the driver's, the
  delays are the configured ones in milliseconds, and the result always packs into the kernel
  structure, whose decoding (also of a longer future structure) gives the merged state back.\<close>

theorem rs485_merge_faithful:
  assumes fits: "rs485_fits st" and run: "with_flags_from st config = Inr st'"
  shows "(st_flags st' AND SER_RS485_ENABLED \<noteq> 0) = rs_enabled config
    \<and> (st_flags st' AND SER_RS485_RTS_ON_SEND \<noteq> 0) = rs_rts_on_send config
    \<and> (st_flags st' AND SER_RS485_RTS_AFTER_SEND \<noteq> 0) = rs_rts_after_send config
    \<and> (st_flags st' AND SER_RS485_RX_DURING_TX \<noteq> 0) = rs_rx_during_tx config
    \<and> st_flags st' AND NOT owned_mask = st_flags st AND NOT owned_mask
    \<and> st_addr_recv st' = st_addr_recv st \<and> st_addr_dest st' = st_addr_dest st
    \<and> seconds_to_ms (rs_delay_before_send config) = Inr (st_before st')
    \<and> seconds_to_ms (rs_delay_after_send config) = Inr (st_after st')
    \<and> (\<exists>bs. rs485_to_bytes st' = Inr bs \<and> length bs = RS485_SIZE
          \<and> rs485_from_bytes (bs @ extra) = Inr st')"
proof -
  let ?F = "set_field (st_flags st) 23 (flags_of_config config)"
  from run have st': "st_flags st' = ?F" "st_addr_recv st' = st_addr_recv st" "st_addr_dest st' = st_addr_dest st"
    "seconds_to_ms (rs_delay_before_send config) = Inr (st_before st')"
    "seconds_to_ms (rs_delay_after_send config) = Inr (st_after st')"
    by (auto simp: with_flags_from_Inr)
  note bits = flags_of_config_bits [of config]
  have within: "flags_of_config config AND NOT 23 = 0" using bits by blast
  have read: "?F AND 23 = flags_of_config config" by (rule set_field_read [OF within])
  have sub: "?F AND k = flags_of_config config AND k" if "23 AND k = k" for k :: int
    using read that by (metis and.assoc)
  have "fits_unsigned 4 (st_flags st')" using with_flags_from_fits [OF fits run] by (simp add: rs485_fits_def)
  obtain bs where "rs485_to_bytes st' = Inr bs"
    using with_flags_from_fits [OF fits run] by (auto simp: rs485_to_bytes_Inr)
  moreover from this have "length bs = RS485_SIZE" by (simp add: rs485_to_bytes_Inr RS485_SIZE_def)
  ultimately have codec: "\<exists>bs. rs485_to_bytes st' = Inr bs \<and> length bs = RS485_SIZE
      \<and> rs485_from_bytes (bs @ extra) = Inr st'"
    using rs485_from_to by blast
  show ?thesis
    using st' codec bits sub [of 1] sub [of 2] sub [of 4] sub [of 16] set_field_keep [OF within, of "st_flags st"]
    by (simp add: rs485_flag_defs owned_mask_value)
qed

theorem rs485_merge_faithful_witness:
  "\<exists>st'. with_flags_from \<lparr>st_flags = 0x22, st_before = 0, st_after = 0, st_addr_recv = 5, st_addr_dest = 6\<rparr>
       default_rs485_config = Inr st'
     \<and> st_flags st' AND NOT owned_mask = 0x22 AND NOT owned_mask"
proof -
  let ?st = "\<lparr>st_flags = 0x22, st_before = 0, st_after = 0, st_addr_recv = 5, st_addr_dest = 6\<rparr>"
  have "\<exists>st'. with_flags_from ?st default_rs485_config = Inr st'"
    by (simp add: with_flags_from_Inr default_rs485_config_def seconds_to_ms_def float_le_def)
  then obtain st' where *: "with_flags_from ?st default_rs485_config = Inr st'" ..
  have "rs485_fits ?st" by (simp add: rs485_fits_def fits_unsigned_def)
  from rs485_merge_faithful [OF this *] * show ?thesis by auto
qed

text \<open>C32: A finite delay converts to milliseconds within half a millisecond (and the rounding of the
  product to a double) of the exact ones, clamped to \<open>[0, 0xFFFFFFFF]\<close>: zero for one that is not
  positive, the maximum from it on. That holds only while the product with 1000 is a finite double:
  from \<open>2^1024 - 2^970\<close> on it overflows, and the conversion raises \<open>OverflowError\<close>, as for an infinite
  delay; for NaN it raises \<open>ValueError\<close>. All of these pass the validation of \<open>RS485Config\<close>; the
  exception is not a \<open>SerialError\<close>, and the delay is not clamped.\<close>

theorem rs485_delay_conversion:
  "(if x \<le> 0 then seconds_to_ms (Fin x) = Inr 0
    else if double_threshold \<le> x * 1000 then seconds_to_ms (Fin x) = Inl (exn_msg OverflowError)
    else \<exists>ms. seconds_to_ms (Fin x) = Inr ms \<and> 0 \<le> ms \<and> ms \<le> DELAY_MS_MAX
      \<and> (if of_int DELAY_MS_MAX \<le> x * 1000 then ms = DELAY_MS_MAX
         else \<bar>of_int ms - x * 1000\<bar> \<le> 1/2 + 1 / 2 ^ 22))
   \<and> list_all (\<lambda>(delay, e).
        rs485_post_init (default_rs485_config\<lparr>rs_delay_before_send := delay\<rparr>)
          = Inr (default_rs485_config\<lparr>rs_delay_before_send := delay\<rparr>)
        \<and> from_config (default_rs485_config\<lparr>rs_delay_before_send := delay\<rparr>) = Inl (exn_msg e)
        \<and> \<not> isinstance (exn_msg e) SerialError)
      [(Fin (10 ^ 306), OverflowError), (PosInf, OverflowError), (NaN, ValueError)]"
proof -
  have huge: "seconds_to_ms (Fin (10 ^ 306)) = Inl (exn_msg OverflowError)"
    by (subst seconds_to_ms_positive) (simp_all add: double_threshold_value)
  have "seconds_to_ms (Fin x) = Inr 0" if "x \<le> 0"
    using that by (auto simp: seconds_to_ms_def float_le_def)
  moreover have "\<exists>ms. seconds_to_ms (Fin x) = Inr ms \<and> 0 \<le> ms \<and> ms \<le> DELAY_MS_MAX
      \<and> (if of_int DELAY_MS_MAX \<le> x * 1000 then ms = DELAY_MS_MAX
         else \<bar>of_int ms - x * 1000\<bar> \<le> 1/2 + 1 / 2 ^ 22)"
    if "0 < x" "\<not> double_threshold \<le> x * 1000"
  proof -
    have "seconds_to_ms (Fin x) = Inr (min DELAY_MS_MAX (round_half_even (nearest (x * 1000))))"
      by (simp only: seconds_to_ms_positive [OF that(1)] that(2) if_False)
    moreover have "0 < x * 1000" using that(1) by simp
    ultimately show ?thesis using delay_ms_bounds by blast
  qed
  ultimately show ?thesis
    using seconds_to_ms_positive [of x] huge
    by (auto simp: rs485_post_init_def from_config_def float_le_def default_rs485_config_def
        seconds_to_ms_def [of PosInf] seconds_to_ms_def [of NaN] exn_msg_def isinstance_simps)
qed

end
