(* ===== verification/Linux_Backend.thy ===== *)
theory Linux_Backend
  imports Posix_Backend Linux_LowLatency Linux_RS485
begin

section \<open>The Linux backend (\<open>_linux/backend.py\<close>, ioctls of \<open>_linux/baudrate.py\<close>)\<close>

text \<open>
  \<open>LinuxBackend\<close> extends the POSIX record by the state it must give back: the serial flags, the FTDI
  timer and the RS-485 structure found before it touched them. \<open>open\<close>, \<open>configure\<close>, \<open>close\<close> and
  \<open>_apply_config_to_fd\<close> are overridden; everything else is inherited from theory \<open>Posix_Backend\<close>.
\<close>

record linux_backend = posix_backend +
  lb_saved_async_flags :: "int option"
  lb_ftdi_timer :: "ftdi_latency_timer option"
  lb_saved_rs485 :: "rs485_state option"

definition linux_init :: "os_env \<Rightarrow> log \<Rightarrow> linux_backend" where
  "linux_init env l = \<lparr>k_env = env, k_log = l, pb_fd = -1, pb_path = [], pb_config = None,
     lb_saved_async_flags = None, lb_ftdi_timer = None, lb_saved_rs485 = None\<rparr>"

subsection \<open>Custom baud rates\<close>

definition read_termios2 :: "int \<Rightarrow> ('k kernel_scheme, exn, termios2_attrs) io" where
  "read_termios2 fd =
     io_bind (ioctl_bytes fd TCGETS2 (replicate TERMIOS2_SIZE 0)) (\<lambda>buf. io_lift (termios2_unpack buf))"

definition write_termios2 :: "int \<Rightarrow> termios2_attrs \<Rightarrow> ('k kernel_scheme, exn, unit) io" where
  "write_termios2 fd attrs =
     io_bind (io_lift (termios2_pack attrs)) (\<lambda>p. io_bind (ioctl_bytes fd TCSETS2 p) (\<lambda>_. io_return ()))"

fun cc_byte :: "ccval \<Rightarrow> 8 word" where
  "cc_byte (CC_bytes []) = 0"
| "cc_byte (CC_bytes (b # bs)) = b"
| "cc_byte (CC_int v) = word_of_int (v AND 0xFF)"

definition cc_bytes :: "ccval list \<Rightarrow> bytes" where
  "cc_bytes cc = (let vs = map cc_byte (take NCCS2 cc) in vs @ replicate (NCCS2 - length vs) 0)"

definition project_termios2 :: "termios2_attrs \<Rightarrow> termios_attrs" where
  "project_termios2 t = \<lparr>ta_iflag = t2_iflag t, ta_oflag = t2_oflag t, ta_cflag = t2_cflag t,
     ta_lflag = t2_lflag t, ta_ispeed = 0, ta_ospeed = 0, ta_cc = map (CC_int \<circ> uint) (t2_cc t)\<rparr>"

definition linux_apply_custom_baud :: "termios_mod \<Rightarrow> int \<Rightarrow> serial_config \<Rightarrow> ('k kernel_scheme, exn, unit) io" where
  "linux_apply_custom_baud m fd config =
     io_bind (read_termios2 fd) (\<lambda>current.
     io_bind (io_lift (apply_builders m config (project_termios2 current))) (\<lambda>attrs.
     write_termios2 fd
       \<lparr>t2_iflag = ta_iflag attrs, t2_oflag = ta_oflag attrs, t2_cflag = mark_bother (ta_cflag attrs),
        t2_lflag = ta_lflag attrs, t2_line = t2_line current, t2_cc = cc_bytes (ta_cc attrs),
        t2_ispeed = cfg_baudrate config, t2_ospeed = cfg_baudrate config\<rparr>))"

definition linux_apply_config_to_fd :: "termios_mod \<Rightarrow> int \<Rightarrow> serial_config \<Rightarrow> 'k posix_op" where
  "linux_apply_config_to_fd m fd config =
     (if is_standard_baud m (cfg_baudrate config) then posix_apply_config_to_fd m fd config
      else linux_apply_custom_baud m fd config)"

subsection \<open>Policy\<close>

definition strerror_text :: "exn \<Rightarrow> string" where
  "strerror_text exc = (case exn_strerror exc of Some t \<Rightarrow> t | None \<Rightarrow> [])"

definition handle_unsupported :: "exn \<Rightarrow> unsupported_policy \<Rightarrow> string \<Rightarrow> ('k kernel_scheme, exn, unit) io" where
  "handle_unsupported exc policy feature =
     (case policy of
        RAISE \<Rightarrow> io_raise (Exn UnsupportedFeatureError (exn_errno exc)
                   (Some (feature @ '' is not supported on this device: '' @ strerror_text exc)) (exn_filename exc) None (Some exc))
      | WARN \<Rightarrow> warn_runtime (feature @ '' request ignored: '' @ strerror_text exc)
      | IGNORE \<Rightarrow> io_return ())"

subsection \<open>Low latency\<close>

definition linux_enable_low_latency :: "unsupported_policy \<Rightarrow> ('k linux_backend_scheme, exn, unit) io" where
  "linux_enable_low_latency policy =
     io_bind (io_get pb_fd) (\<lambda>fd.
     io_seq
       (io_try (io_bind (enable_low_latency fd) (\<lambda>v. io_modify (\<lambda>s. s\<lparr>lb_saved_async_flags := Some v\<rparr>)))
          (\<lambda>exc. if isinstance exc OSError
             then io_seq (handle_unsupported exc policy ''ASYNC_LOW_LATENCY'')
                    (io_modify (\<lambda>s. s\<lparr>lb_saved_async_flags := None\<rparr>))
             else io_raise exc))
       (io_bind (io_get pb_path) (\<lambda>path.
        io_try (io_bind (tune_ftdi_latency_timer path) (\<lambda>t. io_modify (\<lambda>s. s\<lparr>lb_ftdi_timer := t\<rparr>)))
          (\<lambda>exc. if isinstance exc OSError
             then io_seq (handle_unsupported exc policy ''FTDI latency_timer'')
                    (io_modify (\<lambda>s. s\<lparr>lb_ftdi_timer := None\<rparr>))
             else io_raise exc))))"

text \<open>The two halves of \<open>_restore_low_latency\<close>.\<close>

definition linux_restore_async :: "int \<Rightarrow> ('k linux_backend_scheme, exn, unit) io" where
  "linux_restore_async fd =
     io_bind (io_get lb_saved_async_flags) (\<lambda>sv. case sv of
       None \<Rightarrow> io_return ()
     | Some saved \<Rightarrow>
         io_seq (io_modify (\<lambda>s. s\<lparr>lb_saved_async_flags := None\<rparr>))
           (io_suppress (\<lambda>e. isinstance e OSError) (restore_serial_flags fd saved)))"

definition linux_restore_timer :: "('k linux_backend_scheme, exn, unit) io" where
  "linux_restore_timer =
     io_bind (io_get lb_ftdi_timer) (\<lambda>tm. case tm of
       None \<Rightarrow> io_return ()
     | Some timer \<Rightarrow>
         io_seq (io_modify (\<lambda>s. s\<lparr>lb_ftdi_timer := None\<rparr>))
           (io_suppress (\<lambda>e. isinstance e OSError) (restore_ftdi_latency_timer timer)))"

definition linux_restore_low_latency :: "int \<Rightarrow> ('k linux_backend_scheme, exn, unit) io" where
  "linux_restore_low_latency fd = io_seq (linux_restore_async fd) linux_restore_timer"

subsection \<open>RS-485\<close>

definition linux_apply_rs485 ::
    "rs485_config \<Rightarrow> unsupported_policy \<Rightarrow> ('k linux_backend_scheme, exn, unit) io" where
  "linux_apply_rs485 config policy =
     io_bind (io_get pb_fd) (\<lambda>fd.
     io_bind
       (io_try (io_bind (read_rs485 fd) (\<lambda>st. io_return (Some st)))
          (\<lambda>exc. if isinstance exc OSError
             then io_seq (handle_unsupported exc policy ''TIOCSRS485'') (io_return None)
             else io_raise exc))
       (\<lambda>r. case r of
          None \<Rightarrow> io_return ()
        | Some current \<Rightarrow>
            io_seq (io_modify (\<lambda>s. if lb_saved_rs485 s = None then s\<lparr>lb_saved_rs485 := Some current\<rparr> else s))
              (io_bind (io_lift (with_flags_from current config)) (\<lambda>merged.
               io_try (write_rs485 fd merged)
                 (\<lambda>exc. if isinstance exc OSError
                    then handle_unsupported exc policy ''TIOCSRS485'' else io_raise exc)))))"

definition linux_restore_rs485 :: "int \<Rightarrow> ('k linux_backend_scheme, exn, unit) io" where
  "linux_restore_rs485 fd =
     io_bind (io_get lb_saved_rs485) (\<lambda>sv. case sv of
       None \<Rightarrow> io_return ()
     | Some saved \<Rightarrow>
         io_seq (io_modify (\<lambda>s. s\<lparr>lb_saved_rs485 := None\<rparr>))
           (io_suppress (\<lambda>e. isinstance e OSError) (write_rs485 fd saved)))"

subsection \<open>Lifecycle\<close>

definition linux_close :: "('k linux_backend_scheme, exn, unit) io" where
  "linux_close =
     io_bind (io_get pb_fd) (\<lambda>fd.
     io_seq
       (io_when (0 \<le> fd) (io_seq (linux_restore_low_latency fd) (linux_restore_rs485 fd)))
       posix_close)"

definition linux_tune :: "serial_config \<Rightarrow> ('k linux_backend_scheme, exn, unit) io" where
  "linux_tune config =
     io_seq
       (io_when (cfg_low_latency config) (linux_enable_low_latency (cfg_unsupported_policy config)))
       (case cfg_rs485 config of None \<Rightarrow> io_return ()
        | Some r \<Rightarrow> linux_apply_rs485 r (cfg_unsupported_policy config))"

definition linux_open :: "termios_mod \<Rightarrow> string \<Rightarrow> serial_config \<Rightarrow> ('k linux_backend_scheme, exn, unit) io" where
  "linux_open m path config =
     io_seq (posix_open (linux_apply_config_to_fd m) path config)
       (io_on_error (linux_tune config)
          (io_suppress (\<lambda>e. isinstance e Exception) linux_close))"

definition linux_configure :: "termios_mod \<Rightarrow> serial_config \<Rightarrow> ('k linux_backend_scheme, exn, unit) io" where
  "linux_configure m config =
     io_seq (posix_configure (linux_apply_config_to_fd m) config)
       (case cfg_rs485 config of
          Some r \<Rightarrow> linux_apply_rs485 r (cfg_unsupported_policy config)
        | None \<Rightarrow>
            io_bind (io_get lb_saved_rs485) (\<lambda>sv. case sv of
              None \<Rightarrow> io_return ()
            | Some saved \<Rightarrow>
                io_bind (io_get pb_fd) (\<lambda>fd.
                io_seq (io_suppress (\<lambda>e. isinstance e OSError) (write_rs485 fd saved))
                  (io_modify (\<lambda>s. s\<lparr>lb_saved_rs485 := None\<rparr>)))))"

subsection \<open>Frames of the tuning steps\<close>

text \<open>
  Between \<open>open\<close> and \<open>close\<close> every tuning step leaves descriptor, path and configuration alone, opens
  and closes nothing, commits no line attributes, and only saves values that can be written back.
\<close>

definition linux_wf :: "'k linux_backend_scheme \<Rightarrow> bool" where
  "linux_wf s \<longleftrightarrow> pred_option fits_int (lb_saved_async_flags s) \<and> pred_option rs485_fits (lb_saved_rs485 s)"

definition tunes :: "'k linux_backend_scheme \<Rightarrow> 'k linux_backend_scheme \<Rightarrow> bool" where
  "tunes s s' \<longleftrightarrow> extends tuning s s' \<and> pb_fd s' = pb_fd s \<and> pb_path s' = pb_path s
     \<and> pb_config s' = pb_config s \<and> (linux_wf s \<longrightarrow> linux_wf s')"

interpretation tun: frame "tunes :: 'k linux_backend_scheme \<Rightarrow> 'k linux_backend_scheme \<Rightarrow> bool"
  by unfold_locales (auto simp: tunes_def intro: extends_trans)

lemma appends_tunes: "appends tuning s s' \<Longrightarrow> tunes s s'"
  by (auto simp: tunes_def appends_def extends_def linux_wf_def)

lemma tuning_rs485 [simp]: "tuning (Ev_ioctl f TIOCGRS485 p r1)" "tuning (Ev_ioctl f TIOCSRS485 p r2)"
  by (simp_all add: tuning_def TIOCGRS485_def TIOCSRS485_def TCSETS2_def)

lemma keeps_handle_unsupported: "keeps (appends tuning) (handle_unsupported exc policy feature)"
  unfolding handle_unsupported_def
  by (cases policy) (auto intro: app.keeps_control keeps_syscalls)

lemma keeps_rs485_io:
  "keeps (appends tuning) (read_rs485 fd)" "keeps (appends tuning) (write_rs485 fd st)"
  unfolding read_rs485_def write_rs485_def by (intro app.keeps_control keeps_syscalls; simp)+

lemmas keeps_tuning = keeps_handle_unsupported keeps_rs485_io keeps_low_latency
lemmas keeps_tuned = keeps_tuning [THEN keeps_weaken, OF appends_tunes]

lemma tunes_modify:
  "fits_int v \<Longrightarrow> tunes s (s\<lparr>lb_saved_async_flags := Some v\<rparr>)"
  "tunes s (s\<lparr>lb_saved_async_flags := None\<rparr>)" "tunes s (s\<lparr>lb_ftdi_timer := t\<rparr>)"
  "rs485_fits st \<Longrightarrow> tunes s (s\<lparr>lb_saved_rs485 := Some st\<rparr>)" "tunes s (s\<lparr>lb_saved_rs485 := None\<rparr>)"
  by (auto simp: tunes_def extends_def linux_wf_def)

lemma read_rs485_fits: "wp (read_rs485 fd) (\<lambda>st _. rs485_fits st) (\<lambda>_ _. True) s"
  unfolding read_rs485_def by (auto simp: wp_simps rs485_from_bytes_fits split: sum.splits)

lemma keeps_enable: "keeps tunes (linux_enable_low_latency policy)"
  unfolding linux_enable_low_latency_def
  by (intro tun.keeps_control keeps_tuned keeps_modify tunes_modify tun.keeps_bind_val
      [OF _ enable_low_latency_fits])

lemma keeps_apply_rs485: "keeps tunes (linux_apply_rs485 r policy)"
proof -
  have val: "wp (io_try (io_bind (read_rs485 fd) (\<lambda>st. io_return (Some st)))
          (\<lambda>exc. if isinstance exc OSError
             then io_seq (handle_unsupported exc policy ''TIOCSRS485'') (io_return None)
             else io_raise exc)) (\<lambda>x _. pred_option rs485_fits x) (\<lambda>_ _. True) s"
    for s :: "'k linux_backend_scheme" and fd
    unfolding wp_try wp_bind wp_if wp_seq wp_return wp_raise
    by (rule wp_mono [OF wp_conj [OF read_rs485_fits wp_True]]) simp_all
  have fits: "keeps tunes (io_modify (\<lambda>s :: 'k linux_backend_scheme.
      if lb_saved_rs485 s = None then s\<lparr>lb_saved_rs485 := Some st\<rparr> else s))" if "rs485_fits st" for st
    by (rule keeps_modify) (auto intro: tunes_modify that tun.R_refl)
  show ?thesis
    unfolding linux_apply_rs485_def
    by (intro tun.keeps_control tun.keeps_bind_val [OF _ val] fits keeps_tuned) auto
qed

lemma keeps_linux_tune: "keeps tunes (linux_tune config)"
  unfolding linux_tune_def by (intro tun.keeps_control keeps_enable keeps_apply_rs485)

subsection \<open>Giving the device back\<close>

definition rs485_restored :: "int \<Rightarrow> rs485_state \<Rightarrow> log \<Rightarrow> bool" where
  "rs485_restored fd st es \<longleftrightarrow>
     (case es of
        [Ev_ioctl f q (P_bytes bs) r] \<Rightarrow> f = fd \<and> q = TIOCSRS485 \<and> rs485_from_bytes bs = Inr st
      | _ \<Rightarrow> False)"

text \<open>The three restore attempts in their order, each present exactly when something was saved.\<close>

definition all_restored :: "'k linux_backend_scheme \<Rightarrow> log \<Rightarrow> bool" where
  "all_restored s es \<longleftrightarrow>
     (\<exists>e1 e2 e3. es = e1 @ e2 @ e3
        \<and> (case lb_saved_async_flags s of None \<Rightarrow> e1 = [] | Some v \<Rightarrow> flags_restored (pb_fd s) v e1)
        \<and> (case lb_ftdi_timer s of None \<Rightarrow> e2 = [] | Some t \<Rightarrow> timer_restored t e2)
        \<and> (case lb_saved_rs485 s of None \<Rightarrow> e3 = [] | Some st \<Rightarrow> rs485_restored (pb_fd s) st e3))"

lemma write_rs485_attempt:
  fixes s :: "'k kernel_scheme"
  assumes "rs485_fits st" "0 \<le> fd"
  shows "wp (write_rs485 fd st)
    (\<lambda>_ s'. \<exists>es. rs485_restored fd st es \<and> list_all tuning es \<and> s' = s\<lparr>k_log := k_log s @ es\<rparr>)
    (\<lambda>e s'. isinstance e OSError
       \<and> (\<exists>es. rs485_restored fd st es \<and> list_all tuning es \<and> s' = s\<lparr>k_log := k_log s @ es\<rparr>)) s"
proof -
  obtain bs where bs: "rs485_to_bytes st = Inr bs" using assms by (auto simp: rs485_to_bytes_Inr)
  then have dec: "rs485_from_bytes bs = Inr st" using rs485_from_to [of st bs "[]"] by simp
  let ?P = "\<lambda>s'. \<exists>es. rs485_restored fd st es \<and> list_all tuning es \<and> s' = s\<lparr>k_log := k_log s @ es\<rparr>"
  have one: "?P (s\<lparr>k_log := k_log s @ [Ev_ioctl fd TIOCSRS485 (P_bytes bs) r]\<rparr>)" for r
    by (rule exI [of _ "[Ev_ioctl fd TIOCSRS485 (P_bytes bs) r]"]) (simp add: rs485_restored_def dec)
  show ?thesis
    unfolding write_rs485_def using assms one by (auto simp: wp_simps bs)
qed

lemma suppress_attempt:
  assumes "wp m (\<lambda>_. P) (\<lambda>e s'. isinstance e OSError \<and> P s') s"
  shows "wp (io_suppress (\<lambda>e. isinstance e OSError) m) (\<lambda>_. P) (\<lambda>_ _. False) s"
  unfolding wp_suppress by (rule wp_mono [OF assms]) auto

lemma log_last [simp]:
  fixes s :: "'k linux_backend_scheme"
  shows "s\<lparr>k_log := l, lb_saved_async_flags := v\<rparr> = s\<lparr>lb_saved_async_flags := v, k_log := l\<rparr>"
    "s\<lparr>k_log := l, lb_ftdi_timer := t\<rparr> = s\<lparr>lb_ftdi_timer := t, k_log := l\<rparr>"
    "s\<lparr>k_log := l, lb_saved_rs485 := st\<rparr> = s\<lparr>lb_saved_rs485 := st, k_log := l\<rparr>"
  by simp_all

lemma restore_async_wp:
  fixes s :: "'k linux_backend_scheme"
  assumes "linux_wf s" "0 \<le> fd"
  shows "wp (linux_restore_async fd)
     (\<lambda>_ s'. \<exists>es. (case lb_saved_async_flags s of None \<Rightarrow> es = [] | Some v \<Rightarrow> flags_restored fd v es)
        \<and> list_all tuning es \<and> s' = s\<lparr>lb_saved_async_flags := None, k_log := k_log s @ es\<rparr>)
     (\<lambda>_ _. False) s"
proof (cases "lb_saved_async_flags s")
  case None
  then have "s = s\<lparr>lb_saved_async_flags := None\<rparr>" by simp
  with None show ?thesis by (simp add: linux_restore_async_def wp_bind wp_get wp_return)
next
  case (Some v)
  with assms have "fits_int v" by (simp add: linux_wf_def)
  from suppress_attempt [OF restore_serial_flags_attempt [OF this assms(2)], of "s\<lparr>lb_saved_async_flags := None\<rparr>"]
  show ?thesis
    using Some by (simp add: linux_restore_async_def wp_bind wp_get wp_seq wp_modify)
qed

lemma restore_timer_wp:
  fixes s :: "'k linux_backend_scheme"
  shows "wp linux_restore_timer
     (\<lambda>_ s'. \<exists>es. (case lb_ftdi_timer s of None \<Rightarrow> es = [] | Some t \<Rightarrow> timer_restored t es)
        \<and> list_all tuning es \<and> s' = s\<lparr>lb_ftdi_timer := None, k_log := k_log s @ es\<rparr>)
     (\<lambda>_ _. False) s"
proof (cases "lb_ftdi_timer s")
  case None
  then have "s = s\<lparr>lb_ftdi_timer := None\<rparr>" by simp
  with None show ?thesis by (simp add: linux_restore_timer_def wp_bind wp_get wp_return)
next
  case (Some t)
  from suppress_attempt [OF restore_timer_attempt [of t "s\<lparr>lb_ftdi_timer := None\<rparr>"]]
  show ?thesis
    using Some by (simp add: linux_restore_timer_def wp_bind wp_get wp_seq wp_modify)
qed

lemma restore_rs485_wp:
  fixes s :: "'k linux_backend_scheme"
  assumes "linux_wf s" "0 \<le> fd"
  shows "wp (linux_restore_rs485 fd)
     (\<lambda>_ s'. \<exists>es. (case lb_saved_rs485 s of None \<Rightarrow> es = [] | Some st \<Rightarrow> rs485_restored fd st es)
        \<and> list_all tuning es \<and> s' = s\<lparr>lb_saved_rs485 := None, k_log := k_log s @ es\<rparr>)
     (\<lambda>_ _. False) s"
proof (cases "lb_saved_rs485 s")
  case None
  then have "s = s\<lparr>lb_saved_rs485 := None\<rparr>" by simp
  with None show ?thesis by (simp add: linux_restore_rs485_def wp_bind wp_get wp_return)
next
  case (Some st)
  with assms have "rs485_fits st" by (simp add: linux_wf_def)
  from suppress_attempt [OF write_rs485_attempt [OF this assms(2)], of "s\<lparr>lb_saved_rs485 := None\<rparr>"]
  show ?thesis
    using Some by (simp add: linux_restore_rs485_def wp_bind wp_get wp_seq wp_modify)
qed

text \<open>The state \<open>close\<close> reaches just before the descriptor is closed.\<close>

lemma restore_all_wp:
  fixes s :: "'k linux_backend_scheme"
  assumes wf: "linux_wf s" and op: "0 \<le> pb_fd s"
  shows "wp (io_seq (linux_restore_low_latency (pb_fd s)) (linux_restore_rs485 (pb_fd s)))
     (\<lambda>_ s'. \<exists>es. all_restored s es \<and> list_all tuning es
        \<and> s' = s\<lparr>lb_saved_async_flags := None, lb_ftdi_timer := None, lb_saved_rs485 := None,
                 k_log := k_log s @ es\<rparr>)
     (\<lambda>_ _. False) s"
  unfolding linux_restore_low_latency_def wp_seq
proof (rule wp_mono [OF restore_async_wp [OF wf op]], elim exE conjE, goal_cases)
  case (1 x s1 e1)
  note one = 1
  have wf1: "linux_wf s1" using wf one by (simp add: linux_wf_def)
  show ?case
  proof (rule wp_mono [OF restore_timer_wp], elim exE conjE, goal_cases)
    case (1 x s2 e2)
    note two = 1
    have wf2: "linux_wf s2" using wf1 two by (simp add: linux_wf_def)
    show ?case
    proof (rule wp_mono [OF restore_rs485_wp [OF wf2 op]], elim exE conjE, goal_cases)
      case (1 x s3 e3)
      have "all_restored s (e1 @ e2 @ e3)"
        unfolding all_restored_def using one two 1 by (intro exI [of _ e1] exI [of _ e2] exI [of _ e3]) simp
      then show ?case
        using one two 1 by (intro exI [of _ "e1 @ e2 @ e3"]) simp
    qed
  qed simp_all
qed simp_all

lemma linux_close_run:
  fixes s :: "'k linux_backend_scheme"
  assumes wf: "linux_wf s" and op: "posix_is_open s"
  shows "\<exists>es r. all_restored s es \<and> list_all tuning es
    \<and> snd (linux_close s) = s\<lparr>lb_saved_async_flags := None, lb_ftdi_timer := None, lb_saved_rs485 := None,
        pb_fd := -1, k_log := k_log s @ es @ [Ev_close (pb_fd s) r]\<rparr>
    \<and> (case fst (linux_close s) of Inr _ \<Rightarrow> r = Inr () | Inl e \<Rightarrow> isinstance e OSError)"
proof -
  from op have op': "0 \<le> pb_fd s" by (simp add: posix_is_open_def)
  have "wp linux_close
     (\<lambda>_ s'. \<exists>es r. all_restored s es \<and> list_all tuning es \<and> r = Inr ()
        \<and> s' = s\<lparr>lb_saved_async_flags := None, lb_ftdi_timer := None, lb_saved_rs485 := None,
        pb_fd := -1, k_log := k_log s @ es @ [Ev_close (pb_fd s) r]\<rparr>)
     (\<lambda>e s'. \<exists>es r. all_restored s es \<and> list_all tuning es \<and> isinstance e OSError
        \<and> s' = s\<lparr>lb_saved_async_flags := None, lb_ftdi_timer := None, lb_saved_rs485 := None,
        pb_fd := -1, k_log := k_log s @ es @ [Ev_close (pb_fd s) r]\<rparr>) s"
    unfolding linux_close_def wp_bind wp_get wp_seq [where n = posix_close] wp_when if_P [OF op']
  proof (rule wp_mono [OF restore_all_wp [OF wf op']], elim exE conjE, goal_cases)
    case (1 x s1 es)
    then show ?case
      using op' by (auto simp: posix_close_def wp_simps intro!: exI [of _ es])
  qed simp_all
  then show ?thesis
    by (auto simp: wp_def split: prod.splits sum.splits)
qed

subsection \<open>The lifecycle invariant\<close>

definition linux_inv :: "int multiset \<Rightarrow> 'k linux_backend_scheme \<Rightarrow> bool" where
  "linux_inv base s \<longleftrightarrow> linux_wf s
     \<and> (posix_is_open s \<or> lb_saved_async_flags s = None \<and> lb_ftdi_timer s = None \<and> lb_saved_rs485 s = None)
     \<and> open_fds (k_log s) = base + (if posix_is_open s then {#pb_fd s#} else {#})"

lemma linux_apply_frame: "keeps (appends (on_fd fd)) (linux_apply_config_to_fd m fd config)"
  unfolding linux_apply_config_to_fd_def linux_apply_custom_baud_def read_termios2_def write_termios2_def
  by (intro app.keeps_control keeps_syscalls posix_apply_frame) simp_all

lemma tunes_fds: "tunes s s' \<Longrightarrow> open_fds (k_log s') = open_fds (k_log s)"
  unfolding tunes_def by (rule extends_fds) (auto elim: extends_mono simp: tuning_def)

lemma tunes_inv_open: "linux_inv base s \<Longrightarrow> posix_is_open s \<Longrightarrow> tunes s s' \<Longrightarrow> linux_inv base s' \<and> posix_is_open s'"
  using tunes_fds [of s s'] by (auto simp: linux_inv_def tunes_def posix_is_open_def)

lemma appends_inv:
  assumes "linux_inv base s" "appends (on_fd fd) s s'"
  shows "linux_inv base s'"
proof -
  have "open_fds (k_log s') = open_fds (k_log s)"
    using appends_fds appends_on_fd assms(2) by blast
  moreover obtain es where "s' = s\<lparr>k_log := k_log s @ es\<rparr>" using assms(2) by (auto simp: appends_def)
  ultimately show ?thesis using assms(1) by (auto simp: linux_inv_def linux_wf_def posix_is_open_def)
qed

lemma fold_tuning_fds: "list_all tuning es \<Longrightarrow> open_fds (l @ es) = open_fds l"
  by (simp add: open_fds_def) (rule fold_neutral, auto simp: list_all_iff tuning_def)

lemma linux_close_inv:
  assumes inv: "linux_inv base s"
  shows "wp linux_close (\<lambda>_ s'. linux_inv base s' \<and> \<not> posix_is_open s')
    (\<lambda>e s'. isinstance e OSError \<and> linux_inv base s' \<and> \<not> posix_is_open s') s"
proof (cases "posix_is_open s")
  case False
  then show ?thesis
    using inv by (simp add: linux_close_def posix_close_def wp_simps posix_is_open_def)
next
  case True
  from inv have wf: "linux_wf s" by (simp add: linux_inv_def)
  from linux_close_run [OF wf True] obtain es r where *: "list_all tuning es"
    "snd (linux_close s) = s\<lparr>lb_saved_async_flags := None, lb_ftdi_timer := None, lb_saved_rs485 := None,
        pb_fd := -1, k_log := k_log s @ es @ [Ev_close (pb_fd s) r]\<rparr>"
    "case fst (linux_close s) of Inr _ \<Rightarrow> r = Inr () | Inl e \<Rightarrow> isinstance e OSError"
    by blast
  have "open_fds (k_log s @ es @ [Ev_close (pb_fd s) r]) = open_fds (k_log s) - {#pb_fd s#}"
    using open_fds_snoc [of "k_log s @ es"] fold_tuning_fds [OF *(1)] by simp
  then have "linux_inv base (snd (linux_close s)) \<and> \<not> posix_is_open (snd (linux_close s))"
    using inv True by (simp add: *(2) linux_inv_def linux_wf_def posix_is_open_def)
  with *(3) show ?thesis by (auto simp: wp_def split: prod.splits sum.splits)
qed

lemma log_only_fields:
  fixes s :: "'k linux_backend_scheme"
  assumes "s' = s\<lparr>k_log := l\<rparr>"
  shows "pb_fd s' = pb_fd s" "lb_saved_async_flags s' = lb_saved_async_flags s"
    "lb_ftdi_timer s' = lb_ftdi_timer s" "lb_saved_rs485 s' = lb_saved_rs485 s"
  by (simp_all add: assms)

lemma linux_open_inv:
  fixes s :: "'k linux_backend_scheme"
  assumes inv: "linux_inv base s"
  shows "wp (linux_open m path config)
    (\<lambda>_ s'. linux_inv base s' \<and> posix_is_open s' \<and> pb_path s' = path \<and> pb_config s' = Some config)
    (\<lambda>e s'. linux_inv base s' \<and> posix_is_open s' = posix_is_open s) s"
  unfolding linux_open_def wp_seq
proof (rule wp_mono [OF posix_open_wp [OF linux_apply_frame]], elim conjE, goal_cases)
  case (1 x s1)
  then have op: "posix_is_open s1" "pb_path s1 = path" "pb_config s1 = Some config" and cl: "\<not> posix_is_open s"
    by simp_all
  have "lb_saved_async_flags s1 = lb_saved_async_flags s" "lb_ftdi_timer s1 = lb_ftdi_timer s"
    "lb_saved_rs485 s1 = lb_saved_rs485 s"
    using 1 by (metis (no_types) kernel.surjective linux_backend.select_convs linux_backend.surjective
        posix_backend.surjective kernel.update_convs(2) posix_backend.update_convs)+
  with 1 inv have inv1: "linux_inv base s1"
    by (simp add: linux_inv_def linux_wf_def)
  show ?case
    unfolding wp_on_error
  proof (rule keeps_wp_mono [OF keeps_linux_tune])
    show "tunes s1 s' \<Longrightarrow> linux_inv base s' \<and> posix_is_open s' \<and> pb_path s' = path \<and> pb_config s' = Some config" for s'
      using tunes_inv_open [OF inv1 op(1)] op by (auto simp: tunes_def)
  next
    fix e s' assume "tunes s1 s'"
    then have "linux_inv base s'" using tunes_inv_open [OF inv1 op(1)] by blast
    note closed = linux_close_inv [OF this]
    show "wp (io_suppress (\<lambda>e. isinstance e Exception) linux_close)
        (\<lambda>_ s'. linux_inv base s' \<and> posix_is_open s' = posix_is_open s)
        (\<lambda>e s'. linux_inv base s' \<and> posix_is_open s' = posix_is_open s) s'"
      unfolding wp_suppress by (rule wp_mono [OF closed]) (simp_all add: cl)
  qed
next
  case (2 e s1)
  then have eq: "s1 = s\<lparr>k_log := k_log s1\<rparr>" and fds: "open_fds (k_log s1) = open_fds (k_log s)"
    by blast+
  from log_only_fields [OF eq] fds show ?case
    using inv by (simp add: linux_inv_def linux_wf_def posix_is_open_def)
qed

lemma linux_apply_closed:
  "fd < 0 \<Longrightarrow> linux_apply_config_to_fd m fd config s = (Inl (exn_msg ValueError), s)"
  by (simp add: linux_apply_config_to_fd_def posix_apply_config_to_fd_def linux_apply_custom_baud_def
      read_termios2_def io_ctl_defs tcgetattr_def ioctl_bytes_def fildes_def)

lemma linux_configure_inv:
  fixes s :: "'k linux_backend_scheme"
  assumes inv: "linux_inv base s"
  shows "wp (linux_configure m config) (\<lambda>_. linux_inv base) (\<lambda>_. linux_inv base) s"
proof (cases "posix_is_open s")
  case False
  then have "posix_configure (linux_apply_config_to_fd m) config s = (Inl (exn_msg ValueError), s)"
    by (simp add: posix_configure_def io_ctl_defs linux_apply_closed posix_is_open_def)
  then show ?thesis using inv by (simp add: linux_configure_def wp_seq) (simp add: wp_def)
next
  case op: True
  let ?rest = "case cfg_rs485 config of
          Some r \<Rightarrow> linux_apply_rs485 r (cfg_unsupported_policy config)
        | None \<Rightarrow>
            io_bind (io_get lb_saved_rs485) (\<lambda>sv. case sv of
              None \<Rightarrow> io_return ()
            | Some saved \<Rightarrow>
                io_bind (io_get pb_fd) (\<lambda>fd.
                io_seq (io_suppress (\<lambda>e. isinstance e OSError) (write_rs485 fd saved))
                  (io_modify (\<lambda>s. s\<lparr>lb_saved_rs485 := None\<rparr>))))"
  have rest: "keeps tunes (?rest :: ('k linux_backend_scheme, exn, unit) io)"
    by (intro tun.keeps_control keeps_apply_rs485 keeps_tuned keeps_modify tunes_modify)
  show ?thesis
    unfolding linux_configure_def posix_configure_def wp_seq wp_bind wp_get
  proof (rule keeps_wp_mono [OF linux_apply_frame], goal_cases)
    case (1 x s1)
    from appends_inv [OF inv this] have i1: "linux_inv base s1" .
    have "posix_is_open s1" using 1 op by (auto simp: appends_def posix_is_open_def)
    then have i2: "linux_inv base (s1\<lparr>pb_config := Some config\<rparr>)" "posix_is_open (s1\<lparr>pb_config := Some config\<rparr>)"
      using i1 by (simp_all add: linux_inv_def linux_wf_def posix_is_open_def)
    show ?case
      unfolding wp_modify
      by (rule keeps_wp_mono [OF rest]) (use tunes_inv_open [OF i2] in blast)+
  next
    case (2 e s1)
    then show ?case using appends_inv [OF inv] by blast
  qed
qed

text \<open>Every public operation as a command; a caller may issue them in any order and survive any exception.\<close>

datatype linux_cmd =
    L_open string serial_config | L_close | L_configure serial_config
  | L_read nat | L_write bytes | L_reset_in | L_reset_out | L_break bool | L_drain
  | L_modem_lines | L_control_lines "bool option" "bool option" | L_in_waiting | L_out_waiting

primrec linux_step :: "termios_mod \<Rightarrow> linux_cmd \<Rightarrow> 'k linux_backend_scheme \<Rightarrow> 'k linux_backend_scheme" where
  "linux_step m (L_open p c) s = snd (linux_open m p c s)"
| "linux_step m L_close s = snd (linux_close s)"
| "linux_step m (L_configure c) s = snd (linux_configure m c s)"
| "linux_step m (L_read n) s = snd (posix_read_nonblocking n s)"
| "linux_step m (L_write d) s = snd (posix_write_nonblocking d s)"
| "linux_step m L_reset_in s = snd (posix_reset_input_buffer m s)"
| "linux_step m L_reset_out s = snd (posix_reset_output_buffer m s)"
| "linux_step m (L_break b) s = snd (posix_set_break m b s)"
| "linux_step m L_drain s = snd (posix_tcdrain_blocking s)"
| "linux_step m L_modem_lines s = snd (posix_modem_lines m s)"
| "linux_step m (L_control_lines r d) s = snd (posix_set_control_lines m r d s)"
| "linux_step m L_in_waiting s = snd (posix_input_waiting m s)"
| "linux_step m L_out_waiting s = snd (posix_output_waiting m s)"

lemma on_own_fd_inv:
  assumes "\<And>fd. keeps (appends (on_fd fd)) (f fd)" "linux_inv base s"
  shows "linux_inv base (snd (io_bind (io_get pb_fd) f s))"
  by (rule wp_snd, simp add: wp_bind wp_get, rule keeps_wp_mono [OF assms(1)])
    (rule appends_inv [OF assms(2)], assumption)+

lemma linux_step_inv:
  assumes inv: "linux_inv base s"
  shows "linux_inv base (linux_step m cmd s)"
proof (cases cmd)
  case (L_open p c)
  have "wp (linux_open m p c) (\<lambda>_. linux_inv base) (\<lambda>_. linux_inv base) s"
    by (rule wp_mono [OF linux_open_inv [OF inv]]) simp_all
  then show ?thesis using L_open wp_snd by fastforce
next
  case L_close
  have "wp linux_close (\<lambda>_. linux_inv base) (\<lambda>_. linux_inv base) s"
    by (rule wp_mono [OF linux_close_inv [OF inv]]) simp_all
  then show ?thesis using L_close wp_snd by fastforce
next
  case (L_configure c)
  then show ?thesis using wp_snd [OF linux_configure_inv [OF inv]] by simp
qed (simp_all add: posix_read_nonblocking_def posix_write_nonblocking_def posix_reset_input_buffer_def
    posix_reset_output_buffer_def posix_set_break_def posix_tcdrain_blocking_def posix_modem_lines_def
    posix_set_control_lines_def posix_input_waiting_def posix_output_waiting_def,
  (intro on_own_fd_inv inv keeps_ioctl_helpers keeps_syscalls; simp)+)

lemma linux_run_inv: "linux_inv base s \<Longrightarrow> linux_inv base (fold (linux_step m) cmds s)"
  by (induction cmds arbitrary: s) (simp_all add: linux_step_inv)

lemma linux_init_inv: "linux_inv (open_fds l) (linux_init env l)"
  by (simp add: linux_inv_def linux_wf_def linux_init_def posix_is_open_def)

subsection \<open>Properties\<close>

text \<open>C27: Whatever sequence of operations a program performs on a Linux port, whatever exceptions it
  survives and whatever the kernel answers, the process holds exactly one more descriptor than at the
  start while the backend is open and none more while it is closed; a closed backend has nothing
  left to restore; and what is saved for restoring always fits the kernel structure it came from.\<close>

theorem linux_lifecycle:
  "let s' = fold (linux_step m) cmds (linux_init env l) in
     open_fds (k_log s') = open_fds l + (if posix_is_open s' then {#pb_fd s'#} else {#})
     \<and> (posix_is_open s' \<or>
          lb_saved_async_flags s' = None \<and> lb_ftdi_timer s' = None \<and> lb_saved_rs485 s' = None)
     \<and> pred_option fits_int (lb_saved_async_flags s') \<and> pred_option rs485_fits (lb_saved_rs485 s')"
  using linux_run_inv [OF linux_init_inv] unfolding linux_inv_def linux_wf_def Let_def by blast

text \<open>Closing a Linux port gives the device back before releasing the descriptor: exactly when
  they were saved, the serial flags (into a structure otherwise as just read), the FTDI timer (in a text
  that reads back as the original value) and the RS-485 structure (in bytes that decode to the
  snapshot) are written, in this order, then the descriptor is closed; a failing restore does not
  stop the others or the close, and the only exception that can escape is the \<open>OSError\<close> of the close itself.\<close>

theorem linux_close_gives_back:
  assumes "linux_wf s" and "posix_is_open s"
  shows "\<exists>es r. all_restored s es \<and> list_all tuning es
    \<and> snd (linux_close s) = s\<lparr>lb_saved_async_flags := None, lb_ftdi_timer := None, lb_saved_rs485 := None,
        pb_fd := -1, k_log := k_log s @ es @ [Ev_close (pb_fd s) r]\<rparr>
    \<and> (case fst (linux_close s) of Inr _ \<Rightarrow> r = Inr () | Inl e \<Rightarrow> isinstance e OSError)"
  using assms by (rule linux_close_run)

theorem linux_close_gives_back_witness:
  "let s = (linux_init good_env [])\<lparr>pb_fd := 3, lb_saved_async_flags := Some 0x40\<rparr> in
     \<exists>es r. all_restored s es \<and> k_log (snd (linux_close s)) = es @ [Ev_close 3 r]"
  using linux_close_gives_back [of "(linux_init good_env [])\<lparr>pb_fd := 3, lb_saved_async_flags := Some 0x40\<rparr>"]
  by (auto simp: linux_wf_def linux_init_def posix_is_open_def fits_int_def Let_def)

text \<open>A failed \<open>open\<close> on Linux rolls back completely: if low-latency or RS-485 tuning (or anything
  before it) raises, the port is closed again, no descriptor is left, nothing saved is left unrestored,
  and on success the port is open on the requested path with the requested configuration.\<close>

theorem linux_open_rolls_back:
  assumes "linux_inv base s" and "\<not> posix_is_open s"
  shows "case linux_open m path config s of
      (Inr _, s') \<Rightarrow> posix_is_open s' \<and> pb_path s' = path \<and> pb_config s' = Some config
        \<and> open_fds (k_log s') = open_fds (k_log s) + {#pb_fd s'#}
    | (Inl e, s') \<Rightarrow> \<not> posix_is_open s' \<and> open_fds (k_log s') = open_fds (k_log s)
        \<and> lb_saved_async_flags s' = None \<and> lb_ftdi_timer s' = None \<and> lb_saved_rs485 s' = None"
proof -
  have base: "base = open_fds (k_log s)" using assms by (simp add: linux_inv_def)
  show ?thesis
    using linux_open_inv [OF assms(1), of m path config] assms(2) base
    by (auto simp: wp_def linux_inv_def split: prod.splits sum.splits)
qed

theorem linux_open_rolls_back_witness:
  "case linux_open linux_termios ''/dev/ttyUSB0'' default_config (linux_init good_env []) of
      (Inr _, s') \<Rightarrow> open_fds (k_log s') = {#pb_fd s'#}
    | (Inl e, s') \<Rightarrow> open_fds (k_log s') = {#}"
  using linux_open_rolls_back [OF linux_init_inv [of "[]" good_env], where m = linux_termios
      and path = "''/dev/ttyUSB0''" and config = default_config]
  by (simp add: linux_init_def posix_is_open_def split: prod.splits sum.splits)

text \<open>The RS-485 snapshot is taken when the driver's state has been read, not after the first successful
  apply: under a lenient policy a driver that then refuses the write still gets the snapshot written
  back by \<open>close\<close>.\<close>

lemma rs485_snapshot_before_apply:
  fixes s :: "'k linux_backend_scheme"
  assumes "read_rs485 (pb_fd s) s = (Inr current, s1)" and "lb_saved_rs485 s = None"
    and "with_flags_from current r = Inr merged"
    and "write_rs485 (pb_fd s) merged (s1\<lparr>lb_saved_rs485 := Some current\<rparr>) = (Inl e, s2)" and "isinstance e OSError"
  shows "linux_apply_rs485 r IGNORE s = (Inr (), s2) \<and> lb_saved_rs485 s2 = Some current"
proof -
  let ?s1 = "s1\<lparr>lb_saved_rs485 := Some current\<rparr>"
  have "appends tuning s (snd (read_rs485 (pb_fd s) s))" by (rule keeps_snd [OF keeps_rs485_io(1)])
  moreover have "appends tuning ?s1 (snd (write_rs485 (pb_fd s) merged ?s1))" by (rule keeps_snd [OF keeps_rs485_io(2)])
  ultimately have "appends tuning s s1" "appends tuning ?s1 s2" using assms(1,4) by simp_all
  then have "lb_saved_rs485 s1 = None" "lb_saved_rs485 s2 = Some current"
    using assms(2) by (auto simp: appends_def)
  with assms show ?thesis by (simp add: linux_apply_rs485_def io_ctl_defs handle_unsupported_def)
qed

end
