(* ===== verification/Linux_Config.thy ===== *)
theory Linux_Config
  imports Linux_Backend
begin

section \<open>What a Linux port is configured to\<close>

text \<open>
  The effect of \<open>LinuxBackend.configure\<close> on the device: which line attributes are committed, at
  which speed, what happens when a later step of the same call fails, what becomes of the RS-485
  snapshot, and which knobs a reconfiguration leaves alone.
\<close>

subsection \<open>Custom rates\<close>

lemma length_cc_bytes [simp]: "length (cc_bytes cc) = 19"
  by (simp add: cc_bytes_def Let_def NCCS2_def)

lemma mark_bother_and:
  assumes "M AND CBAUD = 0"
  shows "mark_bother x AND M = x AND M"
  using set_field_other [OF assms, of BOTHER x] by (simp add: mark_bother_eq BOTHER_def CBAUD_def)

definition cbaud_free :: "termios_mod \<Rightarrow> bool" where
  "cbaud_free m \<longleftrightarrow> owned_cflag m AND CBAUD = 0"

lemma cbaud_free_fields:
  "cbaud_free m \<Longrightarrow> CSIZE m AND CBAUD = 0 \<and> parity_mask m AND CBAUD = 0 \<and> CSTOPB m AND CBAUD = 0
     \<and> rts_cts_mask m AND CBAUD = 0 \<and> HUPCL m AND CBAUD = 0"
  by (simp add: cbaud_free_def owned_cflag_def or_and_zero_iff)

lemma decode_mark_bother:
  assumes "cbaud_free m" "ta_iflag b = ta_iflag a" "ta_cflag b = mark_bother (ta_cflag a)"
  shows "decode_line m b = decode_line m a"
proof -
  have c: "ta_cflag b AND CSIZE m = ta_cflag a AND CSIZE m" "ta_cflag b AND parity_mask m = ta_cflag a AND parity_mask m"
    "ta_cflag b AND CSTOPB m = ta_cflag a AND CSTOPB m" "ta_cflag b AND rts_cts_mask m = ta_cflag a AND rts_cts_mask m"
    "ta_cflag b AND HUPCL m = ta_cflag a AND HUPCL m"
    using cbaud_free_fields [OF assms(1)] assms(3) by (simp_all add: mark_bother_and)
  show ?thesis unfolding decode_line_def c assms(2) ..
qed

definition custom_committed ::
    "termios_mod \<Rightarrow> int \<Rightarrow> serial_config \<Rightarrow> 'k kernel_scheme \<Rightarrow> bool" where
  "custom_committed m fd config s \<longleftrightarrow>
     (\<exists>t. last_commit fd (k_log s) = Some (Via_termios2 t)
        \<and> t2_ispeed t = cfg_baudrate config \<and> t2_ospeed t = cfg_baudrate config
        \<and> t2_cflag t AND CBAUD = BOTHER
        \<and> decode_line m (project_termios2 t) = Some (line_of_config config))"

lemma custom_baud_wp:
  fixes s :: "'k kernel_scheme"
  assumes ok: "termios_ok m" and cb: "cbaud_free m"
  shows "wp (linux_apply_custom_baud m fd config)
    (\<lambda>_ s'. appends (on_fd fd) s s' \<and> custom_committed m fd config s')
    (\<lambda>e s'. appends (dull fd) s s') s"
proof -
  have reached: "custom_committed m fd config
      (s\<lparr>k_log := k_log s @ [ev, Ev_ioctl fd TCSETS2 (P_bytes p) (Inr r)]\<rparr>)"
    if "apply_builders m config a = Inr attrs"
      and "termios2_pack \<lparr>t2_iflag = ta_iflag attrs, t2_oflag = oflg, t2_cflag = mark_bother (ta_cflag attrs),
             t2_lflag = lflg, t2_line = ln, t2_cc = cc_bytes cc,
             t2_ispeed = cfg_baudrate config, t2_ospeed = cfg_baudrate config\<rparr> = Inr p"
    for a attrs oflg lflg ln cc p ev r
  proof -
    let ?t = "\<lparr>t2_iflag = ta_iflag attrs, t2_oflag = oflg, t2_cflag = mark_bother (ta_cflag attrs),
             t2_lflag = lflg, t2_line = ln, t2_cc = cc_bytes cc,
             t2_ispeed = cfg_baudrate config, t2_ospeed = cfg_baudrate config\<rparr>"
    have "termios2_unpack p = Inr ?t" by (rule termios2_unpack_pack [OF that(2)]) simp
    moreover have "decode_line m (project_termios2 ?t) = decode_line m attrs"
      by (rule decode_mark_bother [OF cb]) (simp_all add: project_termios2_def)
    ultimately show ?thesis
      using apply_builders_reads [OF ok that(1)] last_commit_snoc [of fd "k_log s @ [ev]"]
      by (auto simp: custom_committed_def commit_step_def mark_bother_slot)
  qed
  have q: "TCGETS2 \<noteq> TCSETS2" by (simp add: TCGETS2_def TCSETS2_def)
  have app: "appends (on_fd fd) s (s\<lparr>k_log := k_log s @ [Ev_ioctl fd TCGETS2 p r, Ev_ioctl fd TCSETS2 p' r']\<rparr>)" for p r p' r'
    by (auto simp: appends_def intro!: exI [of _ "[Ev_ioctl fd TCGETS2 p r, Ev_ioctl fd TCSETS2 p' r']"])
  have dull: "appends (dull fd) s (s\<lparr>k_log := k_log s @ [Ev_ioctl fd TCGETS2 p r, Ev_ioctl fd TCSETS2 p' (Inl e)]\<rparr>)" for p r p' e
    by (auto simp: appends_def dull_def q intro!: exI [of _ "[Ev_ioctl fd TCGETS2 p r, Ev_ioctl fd TCSETS2 p' (Inl e)]"])
  have dull1: "appends (dull fd) s (s\<lparr>k_log := k_log s @ [Ev_ioctl fd TCGETS2 p r]\<rparr>)" for p r
    by (auto simp: appends_def dull_def q intro!: exI [of _ "[Ev_ioctl fd TCGETS2 p r]"])
  show ?thesis
    unfolding linux_apply_custom_baud_def read_termios2_def write_termios2_def
    by (auto simp: wp_simps dull dull1 app reached split: sum.splits)
qed

definition linux_committed ::
    "termios_mod \<Rightarrow> int \<Rightarrow> serial_config \<Rightarrow> 'k posix_backend_scheme \<Rightarrow> bool" where
  "linux_committed m fd config s \<longleftrightarrow>
     (if is_standard_baud m (cfg_baudrate config)
      then line_committed m fd config (projr (baudrate_to_speed m (cfg_baudrate config))) s
      else custom_committed m fd config s)"

lemma linux_apply_wp:
  assumes ok: "termios_ok m" and cb: "cbaud_free m"
  shows "wp (linux_apply_config_to_fd m fd config)
    (\<lambda>_ s'. appends (on_fd fd) s s' \<and> linux_committed m fd config s')
    (\<lambda>e s'. appends (dull fd) s s') s"
proof (cases "is_standard_baud m (cfg_baudrate config)")
  case True
  show ?thesis
    unfolding linux_apply_config_to_fd_def if_P [OF True] posix_apply_commit
    by (rule wp_mono [OF commit_attrs_wp [OF ok]]) (auto simp: linux_committed_def True)
next
  case False
  show ?thesis
    unfolding linux_apply_config_to_fd_def if_not_P [OF False]
    by (rule wp_mono [OF custom_baud_wp [OF ok cb]]) (simp_all add: linux_committed_def False)
qed

subsection \<open>The outcomes of a reconfiguration\<close>

lemma extends_tuning_commit: "extends tuning s s' \<Longrightarrow> last_commit fd (k_log s') = last_commit fd (k_log s)"
  using last_commit_neutral by (auto simp: extends_def tuning_def list_all_iff)

lemma linux_committed_log: "k_log s' = k_log s \<Longrightarrow> linux_committed m fd config s' = linux_committed m fd config s"
  by (simp add: linux_committed_def line_committed_def custom_committed_def)

lemma tunes_committed: "tunes s s' \<Longrightarrow> linux_committed m fd config s' = linux_committed m fd config s"
  using extends_tuning_commit [of s s' fd]
  by (simp add: tunes_def linux_committed_def line_committed_def custom_committed_def)

lemma configure_rest:
  fixes s :: "'k linux_backend_scheme"
  assumes "linux_wf s" "posix_is_open s" "cfg_rs485 config = None"
  shows "wp (io_bind (io_get lb_saved_rs485) (\<lambda>sv. case sv of
              None \<Rightarrow> io_return ()
            | Some saved \<Rightarrow>
                io_bind (io_get pb_fd) (\<lambda>fd.
                io_seq (io_suppress (\<lambda>e. isinstance e OSError) (write_rs485 fd saved))
                  (io_modify (\<lambda>s. s\<lparr>lb_saved_rs485 := None\<rparr>)))))
     (\<lambda>_ s'. tunes s s') (\<lambda>_ _. False) s"
proof (cases "lb_saved_rs485 s")
  case None
  then show ?thesis by (simp add: wp_bind wp_get wp_return tun.R_refl)
next
  case (Some st)
  with assms have st: "rs485_fits st" "0 \<le> pb_fd s" by (simp_all add: linux_wf_def posix_is_open_def)
  have "tunes s (s\<lparr>lb_saved_rs485 := None, k_log := k_log s @ es\<rparr>)" if "list_all tuning es" for es
    using that by (auto simp: tunes_def extends_def linux_wf_def)
  then show ?thesis
    using Some by (auto simp: wp_bind wp_get wp_seq wp_modify
        intro!: wp_mono [OF suppress_attempt [OF write_rs485_attempt [OF st]]])
qed

text \<open>C28: Reconfiguring an open Linux port either commits exactly the requested line settings, at the
  standard speed constant or, for any other rate, as \<open>BOTHER\<close> with the integer rate in both speed
  fields, or raises. When it raises, one of two things holds: nothing was committed and the recorded
  configuration is the old one; or the RS-485 step failed after the line settings were committed and
  the new configuration was recorded.\<close>

theorem linux_configure_outcomes:
  assumes "termios_ok m" "cbaud_free m" "linux_wf s" "posix_is_open s"
  shows "case linux_configure m config s of
      (Inr _, s') \<Rightarrow> pb_config s' = Some config \<and> linux_committed m (pb_fd s) config s'
    | (Inl e, s') \<Rightarrow>
        (pb_config s' = pb_config s \<and> last_commit (pb_fd s) (k_log s') = last_commit (pb_fd s) (k_log s))
        \<or> (pb_config s' = Some config \<and> linux_committed m (pb_fd s) config s' \<and> cfg_rs485 config \<noteq> None)"
proof -
  let ?fd = "pb_fd s"
  have "wp (linux_configure m config)
    (\<lambda>_ s'. pb_config s' = Some config \<and> linux_committed m ?fd config s')
    (\<lambda>e s'. (pb_config s' = pb_config s \<and> last_commit ?fd (k_log s') = last_commit ?fd (k_log s))
        \<or> (pb_config s' = Some config \<and> linux_committed m ?fd config s' \<and> cfg_rs485 config \<noteq> None)) s"
    unfolding linux_configure_def posix_configure_def wp_seq wp_bind wp_get
  proof (rule wp_mono [OF linux_apply_wp [OF assms(1,2)]], goal_cases)
    case (1 x s1)
    let ?s1 = "s1\<lparr>pb_config := Some config\<rparr>"
    obtain es where s1: "s1 = s\<lparr>k_log := k_log s @ es\<rparr>" using 1 by (auto simp: appends_def)
    have wf: "linux_wf ?s1" "posix_is_open ?s1" using assms(3,4) by (simp_all add: s1 linux_wf_def posix_is_open_def)
    have com: "linux_committed m ?fd config ?s1"
      using 1 linux_committed_log [of ?s1 s1] by simp
    have after: "pb_config s' = Some config \<and> linux_committed m ?fd config s'" if "tunes ?s1 s'" for s'
      using com tunes_committed [OF that] that by (simp add: tunes_def)
    show ?case
    proof (cases "cfg_rs485 config")
      case (Some r)
      show ?thesis
        unfolding wp_modify Some option.case
        by (rule keeps_wp_mono [OF keeps_apply_rs485]) (use after Some in auto)
    next
      case None
      show ?thesis
        unfolding wp_modify None option.case
        by (rule wp_mono [OF configure_rest [OF wf None]]) (use after in auto)
    qed
  next
    case (2 e s1)
    then have "appends (dull ?fd) s s1" .
    then show ?case
      using appends_last_commit [OF appends_dull(2)] appends_fields by blast
  qed
  then show ?thesis by (simp add: wp_def split: prod.splits sum.splits)
qed

lemma linux_cbaud_free: "cbaud_free linux_termios"
  by (simp add: cbaud_free_def owned_cflag_def parity_mask_def CBAUD_def) (simp add: linux_termios_def)

theorem linux_configure_outcomes_witness:
  "let s = (linux_init good_env [])\<lparr>pb_fd := 3\<rparr>; config = default_config\<lparr>cfg_baudrate := 250000\<rparr> in
     case linux_configure linux_termios config s of
      (Inr _, s') \<Rightarrow> pb_config s' = Some config
    | (Inl e, s') \<Rightarrow> pb_config s' = None \<or> pb_config s' = Some config"
  using linux_configure_outcomes [OF linux_termios_ok linux_cbaud_free,
      of "(linux_init good_env [])\<lparr>pb_fd := 3\<rparr>" "default_config\<lparr>cfg_baudrate := 250000\<rparr>"]
  by (auto simp: linux_wf_def linux_init_def posix_is_open_def Let_def split: prod.splits sum.splits)

subsection \<open>The RS-485 snapshot\<close>

text \<open>Once taken, a snapshot is kept by every further RS-485 configuration.\<close>

definition keeps_snapshot :: "'k linux_backend_scheme \<Rightarrow> 'k linux_backend_scheme \<Rightarrow> bool" where
  "keeps_snapshot s s' \<longleftrightarrow> (\<forall>st. lb_saved_rs485 s = Some st \<longrightarrow> lb_saved_rs485 s' = Some st)"

interpretation snap: frame "keeps_snapshot :: 'k linux_backend_scheme \<Rightarrow> 'k linux_backend_scheme \<Rightarrow> bool"
  by unfold_locales (auto simp: keeps_snapshot_def)

lemma appends_snapshot: "appends P s s' \<Longrightarrow> keeps_snapshot s s'"
  by (auto simp: appends_def keeps_snapshot_def)

lemma keeps_snapshot_apply: "keeps keeps_snapshot (linux_apply_rs485 r policy)"
proof -
  have save: "keeps keeps_snapshot (io_modify (\<lambda>s :: 'k linux_backend_scheme.
      if lb_saved_rs485 s = None then s\<lparr>lb_saved_rs485 := Some st\<rparr> else s))" for st
    by (rule keeps_modify) (auto simp: keeps_snapshot_def)
  note sys = keeps_tuning [THEN keeps_weaken, OF appends_snapshot]
  show ?thesis
    unfolding linux_apply_rs485_def by (intro snap.keeps_control save sys)
qed

lemma keeps_snapshot_configure:
  assumes "cfg_rs485 config = Some r"
  shows "keeps keeps_snapshot (linux_configure m config)"
  unfolding linux_configure_def posix_configure_def assms option.case
  by (intro snap.keeps_control keeps_snapshot_apply keeps_modify
      keeps_weaken [OF linux_apply_frame appends_snapshot]) (auto simp: keeps_snapshot_def)

text \<open>The RS-485 snapshot to be restored is the first one taken: once the backend holds a
  snapshot, no sequence of further reconfigurations that keep RS-485 on replaces it, whatever they
  raise, so \<open>close\<close> restores the state found before the first write.\<close>

theorem rs485_first_snapshot_sticks:
  assumes "lb_saved_rs485 s = Some st" and "\<forall>c \<in> set cs. cfg_rs485 c \<noteq> None"
  shows "lb_saved_rs485 (fold (\<lambda>c s. snd (linux_configure m c s)) cs s) = Some st"
  using assms
proof (induction cs arbitrary: s)
  case Nil
  then show ?case by simp
next
  case (Cons c cs)
  then obtain r where "cfg_rs485 c = Some r" by auto
  from keeps_snapshot_configure [OF this]
  have "keeps_snapshot s (snd (linux_configure m c s))" by (rule keeps_snd)
  with Cons show ?case by (simp add: keeps_snapshot_def)
qed

theorem rs485_first_snapshot_sticks_witness:
  "let st = \<lparr>st_flags = 0, st_before = 0, st_after = 0, st_addr_recv = 0, st_addr_dest = 0\<rparr>;
       s = (linux_init good_env [])\<lparr>pb_fd := 3, lb_saved_rs485 := Some st\<rparr>;
       c = default_config\<lparr>cfg_rs485 := Some default_rs485_config\<rparr>
   in lb_saved_rs485 (fold (\<lambda>c s. snd (linux_configure linux_termios c s)) [c, c] s) = Some st"
  unfolding Let_def by (rule rs485_first_snapshot_sticks) simp_all

subsection \<open>Latency knobs are set at open only\<close>

definition touches_latency :: "event \<Rightarrow> bool" where
  "touches_latency e = (case e of
       Ev_ioctl f q p r \<Rightarrow> q = TIOCGSERIAL \<or> q = TIOCSSERIAL
     | Ev_write_text p t r \<Rightarrow> True | Ev_read_text p r \<Rightarrow> True | Ev_resolve p r \<Rightarrow> True
     | _ \<Rightarrow> False)"

lemma touches_latency_simps [simp]:
  "touches_latency (Ev_ioctl f q p r1) \<longleftrightarrow> q = TIOCGSERIAL \<or> q = TIOCSSERIAL"
  "\<not> touches_latency (Ev_tcgetattr f r2)" "\<not> touches_latency (Ev_tcsetattr f w a r3)"
  "\<not> touches_latency (Ev_warn t r4)"
  by (simp_all add: touches_latency_def)

definition untuned :: "'k linux_backend_scheme \<Rightarrow> 'k linux_backend_scheme \<Rightarrow> bool" where
  "untuned s s' \<longleftrightarrow> extends (\<lambda>e. \<not> touches_latency e) s s'
     \<and> lb_saved_async_flags s' = lb_saved_async_flags s \<and> lb_ftdi_timer s' = lb_ftdi_timer s"

interpretation unt: frame "untuned :: 'k linux_backend_scheme \<Rightarrow> 'k linux_backend_scheme \<Rightarrow> bool"
  by unfold_locales (auto simp: untuned_def intro: extends_trans)

lemma appends_untuned: "appends (\<lambda>e. \<not> touches_latency e) s s' \<Longrightarrow> untuned s s'"
  by (auto simp: appends_def untuned_def extends_def)

lemma quiet_syscalls:
  "keeps (appends (\<lambda>e. \<not> touches_latency e)) (read_rs485 fd)"
  "keeps (appends (\<lambda>e. \<not> touches_latency e)) (write_rs485 fd st)"
  "keeps (appends (\<lambda>e. \<not> touches_latency e)) (handle_unsupported exc policy feature)"
  "keeps (appends (\<lambda>e. \<not> touches_latency e)) (linux_apply_config_to_fd m fd config)"
proof -
  have q: "TIOCGRS485 \<noteq> TIOCGSERIAL" "TIOCGRS485 \<noteq> TIOCSSERIAL" "TIOCSRS485 \<noteq> TIOCGSERIAL"
    "TIOCSRS485 \<noteq> TIOCSSERIAL" "TCGETS2 \<noteq> TIOCGSERIAL" "TCGETS2 \<noteq> TIOCSSERIAL" "TCSETS2 \<noteq> TIOCGSERIAL"
    "TCSETS2 \<noteq> TIOCSSERIAL"
    by (simp_all add: TIOCGRS485_def TIOCSRS485_def TIOCGSERIAL_def TIOCSSERIAL_def TCGETS2_def TCSETS2_def)
  show "keeps (appends (\<lambda>e. \<not> touches_latency e)) (read_rs485 fd)"
    "keeps (appends (\<lambda>e. \<not> touches_latency e)) (write_rs485 fd st)"
    unfolding read_rs485_def write_rs485_def by (intro app.keeps_control keeps_syscalls; simp add: q)+
  show "keeps (appends (\<lambda>e. \<not> touches_latency e)) (handle_unsupported exc policy feature)"
    unfolding handle_unsupported_def by (cases policy) (auto intro: app.keeps_control keeps_syscalls)
  show "keeps (appends (\<lambda>e. \<not> touches_latency e)) (linux_apply_config_to_fd m fd config)"
    unfolding linux_apply_config_to_fd_def posix_apply_config_to_fd_def linux_apply_custom_baud_def
      read_termios2_def write_termios2_def Let_def
    by (intro app.keeps_control keeps_syscalls; simp add: q)
qed

text \<open>Reconfiguring a Linux port never touches the low-latency knobs, whatever \<open>low_latency\<close>
  says in the new configuration: no serial-flags ioctl and no access to the FTDI timer file is made,
  and the values saved for restoring are unchanged.\<close>

theorem linux_configure_leaves_latency:
  "let s' = snd (linux_configure m config s) in
     lb_saved_async_flags s' = lb_saved_async_flags s \<and> lb_ftdi_timer s' = lb_ftdi_timer s
     \<and> (\<exists>es. k_log s' = k_log s @ es \<and> list_all (\<lambda>e. \<not> touches_latency e) es)"
proof -
  note sys = quiet_syscalls [THEN keeps_weaken, OF appends_untuned]
  have upd: "untuned s (s\<lparr>pb_config := c\<rparr>)" "untuned s (s\<lparr>lb_saved_rs485 := st\<rparr>)"
    "untuned s (if lb_saved_rs485 s = None then s\<lparr>lb_saved_rs485 := st\<rparr> else s)"
    for s :: "'k linux_backend_scheme" and c st
    by (auto simp: untuned_def extends_def)
  have "keeps untuned (linux_apply_rs485 r policy)" for r policy
    unfolding linux_apply_rs485_def by (intro unt.keeps_control keeps_modify upd sys)
  then have "keeps untuned (linux_configure m config)"
    unfolding linux_configure_def posix_configure_def
    by (intro unt.keeps_control keeps_modify upd sys)
  then have "untuned s (snd (linux_configure m config s))" by (rule keeps_snd)
  then show ?thesis by (auto simp: untuned_def extends_def Let_def)
qed

end
