(* ===== verification/Darwin_Bsd.thy ===== *)
theory Darwin_Bsd
  imports Posix_Backend
begin

section \<open>The Darwin and BSD backends (\<open>_darwin/backend.py\<close>, \<open>_bsd/backend.py\<close>)\<close>

text \<open>
  Both subclasses inherit the POSIX operations, refuse (by policy) the two Linux-only features before
  touching the device, and differ in how a non-standard rate is committed: Darwin commits a
  placeholder speed and overrides it with the \<open>IOSSIOSPEED\<close> ioctl, the BSDs put the integer into the
  attributes.
\<close>

subsection \<open>Policy-routed rejection\<close>

definition reject_feature :: "string \<Rightarrow> string \<Rightarrow> unsupported_policy \<Rightarrow> ('k kernel_scheme, exn, unit) io" where
  "reject_feature platform feature policy =
     (case policy of
        RAISE \<Rightarrow> io_raise (exn_msg UnsupportedFeatureError)
      | WARN \<Rightarrow> warn_runtime (feature @ '' request ignored: not supported on '' @ platform)
      | IGNORE \<Rightarrow> io_return ())"

definition darwin_reject_feature :: "string \<Rightarrow> unsupported_policy \<Rightarrow> ('k kernel_scheme, exn, unit) io" where
  "darwin_reject_feature = reject_feature ''Darwin''"

definition bsd_reject_feature :: "string \<Rightarrow> unsupported_policy \<Rightarrow> ('k kernel_scheme, exn, unit) io" where
  "bsd_reject_feature = reject_feature ''BSD''"

definition reject_darwin_unsupported :: "serial_config \<Rightarrow> ('k kernel_scheme, exn, unit) io" where
  "reject_darwin_unsupported config =
     io_seq
       (io_when (cfg_rs485 config \<noteq> None) (darwin_reject_feature ''RS-485'' (cfg_unsupported_policy config)))
       (io_when (cfg_low_latency config) (darwin_reject_feature ''low_latency'' (cfg_unsupported_policy config)))"

definition reject_bsd_unsupported :: "serial_config \<Rightarrow> ('k kernel_scheme, exn, unit) io" where
  "reject_bsd_unsupported config =
     io_seq
       (io_when (cfg_rs485 config \<noteq> None) (bsd_reject_feature ''RS-485'' (cfg_unsupported_policy config)))
       (io_when (cfg_low_latency config) (bsd_reject_feature ''low_latency'' (cfg_unsupported_policy config)))"

subsection \<open>Darwin\<close>

definition set_iossiospeed :: "int \<Rightarrow> int \<Rightarrow> ('k kernel_scheme, exn, unit) io" where
  "set_iossiospeed fd rate =
     io_bind (io_lift (pack_unsigned 8 rate)) (\<lambda>p.
     io_bind (ioctl_bytes fd IOSSIOSPEED p) (\<lambda>_. io_return ()))"

definition darwin_apply_custom_baud :: "termios_mod \<Rightarrow> int \<Rightarrow> serial_config \<Rightarrow> 'k posix_op" where
  "darwin_apply_custom_baud m fd config =
     io_bind (tcgetattr fd) (\<lambda>lst.
     let current = attrs_from_list lst in
     io_bind (io_lift (apply_builders m config (current\<lparr>ta_ispeed := B9600 m, ta_ospeed := B9600 m\<rparr>)))
       (\<lambda>attrs. io_seq (tcsetattr fd (TCSANOW m) (attrs_to_list attrs))
                        (set_iossiospeed fd (cfg_baudrate config))))"

definition darwin_apply_config_to_fd :: "termios_mod \<Rightarrow> int \<Rightarrow> serial_config \<Rightarrow> 'k posix_op" where
  "darwin_apply_config_to_fd m fd config =
     (if is_standard_baud m (cfg_baudrate config) then posix_apply_config_to_fd m fd config
      else darwin_apply_custom_baud m fd config)"

definition darwin_open :: "termios_mod \<Rightarrow> string \<Rightarrow> serial_config \<Rightarrow> 'k posix_op" where
  "darwin_open m path config =
     io_seq (reject_darwin_unsupported config) (posix_open (darwin_apply_config_to_fd m) path config)"

definition darwin_configure :: "termios_mod \<Rightarrow> serial_config \<Rightarrow> 'k posix_op" where
  "darwin_configure m config =
     io_seq (reject_darwin_unsupported config) (posix_configure (darwin_apply_config_to_fd m) config)"

subsection \<open>BSD\<close>

definition bsd_apply_custom_baud :: "termios_mod \<Rightarrow> int \<Rightarrow> serial_config \<Rightarrow> 'k posix_op" where
  "bsd_apply_custom_baud m fd config =
     io_bind (tcgetattr fd) (\<lambda>lst.
     let current = attrs_from_list lst; rate = passthrough_rate (cfg_baudrate config) in
     io_bind (io_lift (apply_builders m config (current\<lparr>ta_ispeed := rate, ta_ospeed := rate\<rparr>)))
       (\<lambda>attrs. tcsetattr fd (TCSANOW m) (attrs_to_list attrs)))"

definition bsd_apply_config_to_fd :: "termios_mod \<Rightarrow> int \<Rightarrow> serial_config \<Rightarrow> 'k posix_op" where
  "bsd_apply_config_to_fd m fd config =
     (if is_standard_baud m (cfg_baudrate config) then posix_apply_config_to_fd m fd config
      else bsd_apply_custom_baud m fd config)"

definition bsd_open :: "termios_mod \<Rightarrow> string \<Rightarrow> serial_config \<Rightarrow> 'k posix_op" where
  "bsd_open m path config =
     io_seq (reject_bsd_unsupported config) (posix_open (bsd_apply_config_to_fd m) path config)"

definition bsd_configure :: "termios_mod \<Rightarrow> serial_config \<Rightarrow> 'k posix_op" where
  "bsd_configure m config =
     io_seq (reject_bsd_unsupported config) (posix_configure (bsd_apply_config_to_fd m) config)"

subsection \<open>Lemmas\<close>

lemma darwin_apply_frame: "keeps (appends (on_fd fd)) (darwin_apply_config_to_fd m fd config)"
  unfolding darwin_apply_config_to_fd_def darwin_apply_custom_baud_def set_iossiospeed_def Let_def
  by (intro app.keeps_control keeps_syscalls posix_apply_frame) simp_all

lemma bsd_custom_commit:
  "bsd_apply_custom_baud m fd config = commit_attrs m fd config (Inr (cfg_baudrate config))"
  by (simp add: bsd_apply_custom_baud_def commit_attrs_def passthrough_rate_def io_bind_def io_lift_def
      Let_def fun_eq_iff)

lemma bsd_apply_frame: "keeps (appends (on_fd fd)) (bsd_apply_config_to_fd m fd config)"
  unfolding bsd_apply_config_to_fd_def bsd_apply_custom_baud_def Let_def
  by (intro app.keeps_control keeps_syscalls posix_apply_frame) simp_all

definition wants_linux_only :: "serial_config \<Rightarrow> bool" where
  "wants_linux_only config \<longleftrightarrow> cfg_rs485 config \<noteq> None \<or> cfg_low_latency config"

lemmas reject_defs = reject_darwin_unsupported_def reject_bsd_unsupported_def
  darwin_reject_feature_def bsd_reject_feature_def reject_feature_def

lemma reject_raise:
  assumes "wants_linux_only config" "cfg_unsupported_policy config = RAISE"
  shows "reject_darwin_unsupported config s = (Inl (exn_msg UnsupportedFeatureError), s)"
    "reject_bsd_unsupported config s = (Inl (exn_msg UnsupportedFeatureError), s)"
  using assms by (auto simp: reject_defs io_ctl_defs wants_linux_only_def)

lemma reject_ignore:
  assumes "\<not> wants_linux_only config \<or> cfg_unsupported_policy config = IGNORE"
  shows "reject_darwin_unsupported config s = (Inr (), s)" "reject_bsd_unsupported config s = (Inr (), s)"
  using assms by (auto simp: reject_defs io_ctl_defs wants_linux_only_def)

lemma keeps_reject:
  "keeps (appends (\<lambda>e. \<exists>t r. e = Ev_warn t r)) (reject_darwin_unsupported config)"
  "keeps (appends (\<lambda>e. \<exists>t r. e = Ev_warn t r)) (reject_bsd_unsupported config)"
  unfolding reject_defs
  by (cases "cfg_unsupported_policy config"; auto intro!: app.keeps_control keeps_syscalls)+

text \<open>Darwin and the BSDs refuse the Linux-only features before touching the device: under the
  raise policy, asking for RS-485 or low latency makes \<open>open\<close> and \<open>configure\<close> raise
  \<open>UnsupportedFeatureError\<close> with no system call and no state change; without such a request, or under
  the ignore policy, they do exactly what the shared POSIX operation does.\<close>

theorem rejection_precedes_open:
  "(if wants_linux_only config \<and> cfg_unsupported_policy config = RAISE then
      darwin_open m path config s = (Inl (exn_msg UnsupportedFeatureError), s)
      \<and> darwin_configure m config s = (Inl (exn_msg UnsupportedFeatureError), s)
      \<and> bsd_open m path config s = (Inl (exn_msg UnsupportedFeatureError), s)
      \<and> bsd_configure m config s = (Inl (exn_msg UnsupportedFeatureError), s)
    else if wants_linux_only config \<and> cfg_unsupported_policy config = WARN then
      appends (\<lambda>e. \<exists>t r. e = Ev_warn t r) s (snd (reject_darwin_unsupported config s))
      \<and> appends (\<lambda>e. \<exists>t r. e = Ev_warn t r) s (snd (reject_bsd_unsupported config s))
    else
      darwin_open m path config s = posix_open (darwin_apply_config_to_fd m) path config s
      \<and> darwin_configure m config s = posix_configure (darwin_apply_config_to_fd m) config s
      \<and> bsd_open m path config s = posix_open (bsd_apply_config_to_fd m) path config s
      \<and> bsd_configure m config s = posix_configure (bsd_apply_config_to_fd m) config s)"
proof -
  consider "wants_linux_only config" "cfg_unsupported_policy config = RAISE"
    | "wants_linux_only config" "cfg_unsupported_policy config = WARN"
    | "\<not> wants_linux_only config \<or> cfg_unsupported_policy config = IGNORE"
    by (cases "cfg_unsupported_policy config") auto
  then show ?thesis
  proof cases
    case 1
    then show ?thesis
      by (simp add: darwin_open_def darwin_configure_def bsd_open_def bsd_configure_def io_seq_def
          io_bind_def reject_raise)
  next
    case 2
    then show ?thesis by (simp add: keeps_reject [THEN keeps_snd])
  next
    case 3
    then have *: "\<not> (wants_linux_only config \<and> cfg_unsupported_policy config = RAISE)"
      "\<not> (wants_linux_only config \<and> cfg_unsupported_policy config = WARN)" by auto
    show ?thesis
      unfolding if_not_P [OF *(1)] if_not_P [OF *(2)]
      by (simp add: darwin_open_def darwin_configure_def bsd_open_def bsd_configure_def io_seq_def
          io_bind_def reject_ignore [OF 3])
  qed
qed

text \<open>Reconfiguring through the BSD backend is atomic at every rate: on success the committed
  attributes decode to the requested line settings with the speed constant of a standard rate, or the
  integer itself for any other; on failure nothing was committed and the recorded configuration is
  the old one.\<close>

theorem bsd_configure_atomic:
  assumes "termios_ok m"
  shows "case bsd_configure m config s of
      (Inr _, s') \<Rightarrow> pb_config s' = Some config
        \<and> line_committed m (pb_fd s) config
            (if is_standard_baud m (cfg_baudrate config)
             then projr (baudrate_to_speed m (cfg_baudrate config)) else cfg_baudrate config) s'
    | (Inl e, s') \<Rightarrow> pb_config s' = pb_config s \<and> pb_fd s' = pb_fd s
        \<and> last_commit (pb_fd s) (k_log s') = last_commit (pb_fd s) (k_log s)"
proof -
  let ?rate = "if is_standard_baud m (cfg_baudrate config)
    then baudrate_to_speed m (cfg_baudrate config) else Inr (cfg_baudrate config)"
  let ?speed = "if is_standard_baud m (cfg_baudrate config)
    then projr (baudrate_to_speed m (cfg_baudrate config)) else cfg_baudrate config"
  have ap: "bsd_apply_config_to_fd m fd config = commit_attrs m fd config ?rate" for fd
    by (simp add: bsd_apply_config_to_fd_def posix_apply_commit bsd_custom_commit)
  have same: "pb_config s' = pb_config s \<and> pb_fd s' = pb_fd s
      \<and> last_commit (pb_fd s) (k_log s') = last_commit (pb_fd s) (k_log s)"
    if "appends (\<lambda>e. \<exists>t r. e = Ev_warn t r) s s1" "appends (dull (pb_fd s)) s1 s'" for s1 s'
  proof -
    have "appends (\<lambda>e. \<not> commits e) s s1"
      using that(1) by (rule appends_mono) (auto simp: commits_def)
    from appends_last_commit [OF this] appends_last_commit [OF appends_dull(2) [OF that(2)]]
      appends_fields [OF that(1)] appends_fields [OF that(2)]
    show ?thesis by simp
  qed
  have "wp (bsd_configure m config)
    (\<lambda>_ s'. pb_config s' = Some config \<and> line_committed m (pb_fd s) config ?speed s')
    (\<lambda>e s'. pb_config s' = pb_config s \<and> pb_fd s' = pb_fd s
       \<and> last_commit (pb_fd s) (k_log s') = last_commit (pb_fd s) (k_log s)) s"
    unfolding bsd_configure_def posix_configure_def ap wp_seq wp_bind wp_get
  proof (rule keeps_wp_mono [OF keeps_reject(2)], goal_cases)
    case (1 x s1)
    note fd = appends_fields [OF 1]
    have fd1: "pb_fd s1 = pb_fd s" using fd by blast
    show ?case unfolding fd1
    proof (rule wp_mono [OF commit_attrs_wp [OF assms]], goal_cases)
      case (1 y s2)
      then obtain v where "?rate = Inr v" "line_committed m (pb_fd s) config v s2" by blast
      then show ?case by (auto simp: wp_modify line_committed_def split: if_splits)
    next
      case (2 e s2)
      then show ?case using same [OF 1] by blast
    qed
  next
    case (2 e s1)
    from same [OF 2, of s1] show ?case by simp
  qed
  then show ?thesis by (simp add: wp_def split: prod.splits sum.splits)
qed

theorem bsd_configure_atomic_witness:
  "let s = good_backend\<lparr>pb_fd := 3\<rparr>; config = default_config\<lparr>cfg_baudrate := 250000\<rparr> in
   case bsd_configure linux_termios config s of
      (Inr _, s') \<Rightarrow> pb_config s' = Some config | (Inl e, s') \<Rightarrow> pb_config s' = None"
  using bsd_configure_atomic [OF linux_termios_ok, of "good_backend\<lparr>pb_fd := 3\<rparr>" "default_config\<lparr>cfg_baudrate := 250000\<rparr>"]
  by (auto simp: Let_def good_backend_def posix_init_def split: prod.splits sum.splits)

subsection \<open>The two-step commit on Darwin\<close>

text \<open>The calls of a run, and two of them: attributes accepted, and any use of the speed override.\<close>

definition calls_since :: "'k kernel_scheme \<Rightarrow> 'k kernel_scheme \<Rightarrow> event list" where
  "calls_since s s' = drop (length (k_log s)) (k_log s')"

fun attrs_accepted :: "int \<Rightarrow> event \<Rightarrow> bool" where
  "attrs_accepted fd (Ev_tcsetattr f w a r) \<longleftrightarrow> f = fd \<and> r = Inr ()"
| "attrs_accepted fd _ \<longleftrightarrow> False"

fun overrides_speed :: "event \<Rightarrow> bool" where
  "overrides_speed (Ev_ioctl f q p r) \<longleftrightarrow> q = IOSSIOSPEED"
| "overrides_speed _ \<longleftrightarrow> False"

text \<open>How the override ended, once the attributes were accepted.\<close>

definition override_failed :: "int \<Rightarrow> int \<Rightarrow> exn \<Rightarrow> 'k kernel_scheme \<Rightarrow> event list \<Rightarrow> bool" where
  "override_failed fd rate e s es \<longleftrightarrow>
     (case pack_unsigned 8 rate of
        Inl x \<Rightarrow> e = x \<and> \<not> list_ex overrides_speed es
      | Inr p \<Rightarrow> \<exists>err. last es = Ev_ioctl fd IOSSIOSPEED (P_bytes p) (Inl err) \<and> e = os_exn (k_env s) None err)"

definition override_done :: "int \<Rightarrow> int \<Rightarrow> event list \<Rightarrow> bool" where
  "override_done fd rate es \<longleftrightarrow>
     (\<exists>p r. pack_unsigned 8 rate = Inr p \<and> last es = Ev_ioctl fd IOSSIOSPEED (P_bytes p) (Inr r)
        \<and> list_ex (attrs_accepted fd) (butlast es))"

lemma calls_since_append [simp]: "calls_since s (s\<lparr>k_log := k_log s @ es\<rparr>) = es"
  by (simp add: calls_since_def)

lemma darwin_custom_wp:
  fixes s :: "'k posix_backend_scheme"
  assumes ok: "termios_ok m"
  shows "wp (darwin_apply_custom_baud m fd config)
    (\<lambda>_ s'. line_committed m fd config (B9600 m) s' \<and> override_done fd (cfg_baudrate config) (calls_since s s'))
    (\<lambda>e s'. if list_ex (attrs_accepted fd) (calls_since s s')
       then line_committed m fd config (B9600 m) s' \<and> override_failed fd (cfg_baudrate config) e s (calls_since s s')
       else last_commit fd (k_log s') = last_commit fd (k_log s) \<and> \<not> list_ex overrides_speed (calls_since s s')) s"
proof -
  have q: "IOSSIOSPEED \<noteq> TCSETS2" by (simp add: IOSSIOSPEED_def TCSETS2_def)
  have reached: "line_committed m fd config (B9600 m)
      (s\<lparr>k_log := k_log s @ [ev, Ev_tcsetattr fd (TCSANOW m) (attrs_to_list a') (Inr ())]\<rparr>)
    \<and> line_committed m fd config (B9600 m)
      (s\<lparr>k_log := k_log s @ [ev, Ev_tcsetattr fd (TCSANOW m) (attrs_to_list a') (Inr ()),
          Ev_ioctl fd IOSSIOSPEED p r]\<rparr>)"
    if "apply_builders m config a = Inr a'" "ta_ispeed a = B9600 m" "ta_ospeed a = B9600 m" for a a' ev p r
    using apply_builders_reads [OF ok that(1)] that last_commit_snoc [of fd "k_log s @ [ev]"]
      last_commit_snoc [of fd "k_log s @ [ev, Ev_tcsetattr fd (TCSANOW m) (attrs_to_list a') (Inr ())]"]
    by (auto simp: line_committed_def commit_step_def q)
  have got: "last_commit fd (k_log s @ [Ev_tcgetattr fd r]) = last_commit fd (k_log s)"
    "last_commit fd (k_log s @ [Ev_tcgetattr fd r, Ev_tcsetattr fd w a (Inl err)]) = last_commit fd (k_log s)"
    "commit_step fd (Ev_tcgetattr fd r) c = c" for r w a err c
    using last_commit_snoc [of fd "k_log s @ [Ev_tcgetattr fd r]" "Ev_tcsetattr fd w a (Inl err)"]
    by (simp_all add: commit_step_def)
  have same: "calls_since s s = []" by (simp add: calls_since_def)
  show ?thesis
    unfolding darwin_apply_custom_baud_def set_iossiospeed_def Let_def
    by (auto simp: wp_simps reached got same override_done_def override_failed_def split: sum.splits)
qed

text \<open>C29: A non-standard rate on Darwin is committed in two steps. When both succeed, the attributes
  decode to the requested line settings at the placeholder speed, and the last system call is the
  successful \<open>IOSSIOSPEED\<close> ioctl with the requested rate, after the accepted \<open>tcsetattr\<close>. When it raises,
  the outcome is decided by whether \<open>tcsetattr\<close> had been accepted: if not, nothing was committed and the
  override was not tried; if so, the override is what failed (the exception is the one of the rejected
  ioctl, the last call, or of a rate that does not fit its 64 bits), and the port is left with the new
  line settings at the placeholder rate.\<close>

theorem darwin_custom_baud_outcomes:
  assumes "termios_ok m"
  shows "case darwin_apply_custom_baud m fd config s of
      (Inr _, s') \<Rightarrow> line_committed m fd config (B9600 m) s'
        \<and> override_done fd (cfg_baudrate config) (calls_since s s')
    | (Inl e, s') \<Rightarrow>
        if list_ex (attrs_accepted fd) (calls_since s s')
        then line_committed m fd config (B9600 m) s'
          \<and> override_failed fd (cfg_baudrate config) e s (calls_since s s')
        else last_commit fd (k_log s') = last_commit fd (k_log s)
          \<and> \<not> list_ex overrides_speed (calls_since s s')"
  using darwin_custom_wp [OF assms, of fd config s] by (simp add: wp_def split: prod.splits sum.splits)

text \<open>A driver that rejects the override: the line stays at the placeholder speed.\<close>

definition rejecting_env :: os_env where
  "rejecting_env = good_env\<lparr>env_ioctl_bytes := (\<lambda>l fd r a. Inl (22, ''EINVAL''))\<rparr>"

theorem darwin_custom_baud_outcomes_witness:
  "\<exists>s'. darwin_apply_custom_baud linux_termios 3 (default_config\<lparr>cfg_baudrate := 250000\<rparr>)
       (posix_init rejecting_env []) = (Inl (os_exn rejecting_env None (22, ''EINVAL'')), s')
     \<and> line_committed linux_termios 3 (default_config\<lparr>cfg_baudrate := 250000\<rparr>) (B9600 linux_termios) s'"
proof -
  let ?c = "default_config\<lparr>cfg_baudrate := 250000\<rparr>" and ?s = "posix_init rejecting_env []"
  let ?run = "darwin_apply_custom_baud linux_termios 3 ?c ?s"
  let ?a = "sample_attrs\<lparr>ta_ispeed := B9600 linux_termios, ta_ospeed := B9600 linux_termios\<rparr>"
  have "\<exists>a'. apply_builders linux_termios ?c ?a = Inr a'"
    unfolding apply_builders_cases
    by (simp add: sample_attrs_def expressible_def default_config_def flow_none_def) (simp add: linux_termios_def)
  then obtain a' where built: "apply_builders linux_termios ?c ?a = Inr a'" ..
  have "pack_unsigned 8 250000 = Inr (le_bytes 8 250000)" by (simp add: pack_unsigned_def fits_unsigned_def)
  with built obtain s' where run: "?run = (Inl (os_exn rejecting_env None (22, ''EINVAL'')), s')"
    and accepted: "list_ex (attrs_accepted 3) (calls_since ?s s')"
    by (simp add: darwin_apply_custom_baud_def set_iossiospeed_def io_defs io_ctl_defs rejecting_env_def posix_init_def
        calls_since_def good_env_def default_config_def)
  from darwin_custom_baud_outcomes [OF linux_termios_ok, where fd = 3 and config = ?c and s = ?s] run accepted show ?thesis by simp
qed

end
