(* ===== verification/Backend_Protocol.thy ===== *)
theory Backend_Protocol
  imports Linux_Backend
begin

section \<open>The synchronous backend contract (\<open>_backend/protocol.py\<close>)\<close>

text \<open>
  \<open>SyncSerialBackend\<close> as a record of operations on a backend state, and what \<open>SerialPort\<close> relies on
  as the locale \<open>sync_backend_laws\<close>: reads and writes move a prefix of bytes and nothing else, the
  other operations move none, and \<open>close\<close> closes a backend in a good state (\<open>good\<close>) even when it
  raises. \<open>sent\<close> and \<open>received\<close> are the abstraction: the bytes a backend has accepted and delivered since it was created.
  The locale is interpreted here on the POSIX and Linux backends for every host and kernel, and in
  theory \<open>Mock_Backend\<close> on the mock.
\<close>

record 'b sync_backend =
  bk_path :: "'b \<Rightarrow> string"
  bk_is_open :: "'b \<Rightarrow> bool"
  bk_open :: "string \<Rightarrow> serial_config \<Rightarrow> ('b, exn, unit) io"
  bk_close :: "('b, exn, unit) io"
  bk_fileno :: "'b \<Rightarrow> int"
  bk_read :: "nat \<Rightarrow> ('b, exn, bytes) io"
  bk_write :: "bytes \<Rightarrow> ('b, exn, nat) io"
  bk_configure :: "serial_config \<Rightarrow> ('b, exn, unit) io"
  bk_reset_input_buffer :: "('b, exn, unit) io"
  bk_reset_output_buffer :: "('b, exn, unit) io"
  bk_set_break :: "bool \<Rightarrow> ('b, exn, unit) io"
  bk_tcdrain_blocking :: "('b, exn, unit) io"
  bk_modem_lines :: "('b, exn, modem_lines) io"
  bk_set_control_lines :: "bool option \<Rightarrow> bool option \<Rightarrow> ('b, exn, unit) io"
  bk_input_waiting :: "('b, exn, int) io"
  bk_output_waiting :: "('b, exn, int) io"

text \<open>An operation that neither accepts nor delivers bytes, and one that leaves the lifecycle alone.\<close>

definition moves_nothing :: "('b \<Rightarrow> bytes) \<Rightarrow> ('b \<Rightarrow> bytes) \<Rightarrow> 'b \<Rightarrow> 'b \<Rightarrow> bool" where
  "moves_nothing sent received b b' \<longleftrightarrow> sent b' = sent b \<and> received b' = received b"

definition lives_on :: "'b sync_backend \<Rightarrow> ('b \<Rightarrow> bool) \<Rightarrow> 'b \<Rightarrow> 'b \<Rightarrow> bool" where
  "lives_on vt good b b' \<longleftrightarrow> bk_is_open vt b' = bk_is_open vt b \<and> (good b \<longrightarrow> good b')"

definition steady :: "'b sync_backend \<Rightarrow> ('b \<Rightarrow> bytes) \<Rightarrow> ('b \<Rightarrow> bytes) \<Rightarrow> ('b \<Rightarrow> bool) \<Rightarrow> 'b \<Rightarrow> 'b \<Rightarrow> bool" where
  "steady vt sent received good b b' \<longleftrightarrow> moves_nothing sent received b b' \<and> lives_on vt good b b'"

locale sync_backend_laws =
  fixes vt :: "'b sync_backend"
    and sent :: "'b \<Rightarrow> bytes"
    and received :: "'b \<Rightarrow> bytes"
    and good :: "'b \<Rightarrow> bool"
  assumes write_law: "wp (bk_write vt data)
      (\<lambda>n b'. n \<le> length data \<and> sent b' = sent b @ take n data \<and> received b' = received b \<and> lives_on vt good b b')
      (\<lambda>_. steady vt sent received good b) b"
    and read_law: "wp (bk_read vt size')
      (\<lambda>bs b'. length bs \<le> size' \<and> received b' = received b @ bs \<and> sent b' = sent b \<and> lives_on vt good b b')
      (\<lambda>_. steady vt sent received good b) b"
    and set_break_law: "keeps (steady vt sent received good) (bk_set_break vt on)"
    and output_waiting_law: "keeps (steady vt sent received good) (bk_output_waiting vt)"
    and input_waiting_law: "keeps (steady vt sent received good) (bk_input_waiting vt)"
    and configure_law: "keeps (steady vt sent received good) (bk_configure vt config)"
    and reset_input_law: "keeps (steady vt sent received good) (bk_reset_input_buffer vt)"
    and reset_output_law: "keeps (steady vt sent received good) (bk_reset_output_buffer vt)"
    and tcdrain_law: "keeps (steady vt sent received good) (bk_tcdrain_blocking vt)"
    and modem_lines_law: "keeps (steady vt sent received good) (bk_modem_lines vt)"
    and control_lines_law: "keeps (steady vt sent received good) (bk_set_control_lines vt rts dtr)"
    and close_law: "good b \<Longrightarrow> wp (bk_close vt)
      (\<lambda>_ b'. \<not> bk_is_open vt b' \<and> good b' \<and> moves_nothing sent received b b')
      (\<lambda>_ b'. \<not> bk_is_open vt b' \<and> good b' \<and> moves_nothing sent received b b') b"

subsection \<open>The POSIX and Linux backends\<close>

definition posix_vt :: "termios_mod \<Rightarrow> 'k posix_backend_scheme sync_backend" where
  "posix_vt m = \<lparr>bk_path = pb_path, bk_is_open = posix_is_open,
     bk_open = posix_open (posix_apply_config_to_fd m), bk_close = posix_close,
     bk_fileno = pb_fd, bk_read = posix_read_nonblocking, bk_write = posix_write_nonblocking,
     bk_configure = posix_configure (posix_apply_config_to_fd m),
     bk_reset_input_buffer = posix_reset_input_buffer m,
     bk_reset_output_buffer = posix_reset_output_buffer m, bk_set_break = posix_set_break m,
     bk_tcdrain_blocking = posix_tcdrain_blocking, bk_modem_lines = posix_modem_lines m,
     bk_set_control_lines = posix_set_control_lines m, bk_input_waiting = posix_input_waiting m,
     bk_output_waiting = posix_output_waiting m\<rparr>"

definition linux_vt :: "termios_mod \<Rightarrow> 'k linux_backend_scheme sync_backend" where
  "linux_vt m = (posix_vt m)\<lparr>bk_open := linux_open m, bk_close := linux_close,
     bk_configure := linux_configure m\<rparr>"

text \<open>What a log says was written and read.\<close>

definition written_by :: "event \<Rightarrow> bytes" where
  "written_by e = (case e of Ev_write fd d r \<Rightarrow> (case r of Inr n \<Rightarrow> take n d | Inl _ \<Rightarrow> []) | _ \<Rightarrow> [])"

definition read_by :: "event \<Rightarrow> bytes" where
  "read_by e = (case e of Ev_readv fd n r \<Rightarrow> (case r of Inr bs \<Rightarrow> bs | Inl _ \<Rightarrow> []) | _ \<Rightarrow> [])"

definition log_sent :: "'k kernel_scheme \<Rightarrow> bytes" where
  "log_sent s = concat (map written_by (k_log s))"

definition log_received :: "'k kernel_scheme \<Rightarrow> bytes" where
  "log_received s = concat (map read_by (k_log s))"

lemma extends_moves_nothing:
  "extends (\<lambda>e. \<not> moves e) s s' \<Longrightarrow> moves_nothing log_sent log_received s s'"
proof -
  have "list_all (\<lambda>e. \<not> moves e) es \<Longrightarrow> concat (map written_by es) = [] \<and> concat (map read_by es) = []" for es
    by (induction es) (auto simp: moves_def written_by_def read_by_def split: event.splits)
  then show "extends (\<lambda>e. \<not> moves e) s s' \<Longrightarrow> ?thesis"
    by (auto simp: extends_def moves_nothing_def log_sent_def log_received_def)
qed

abbreviation quiet_event :: "event \<Rightarrow> bool" where
  "quiet_event e \<equiv> \<not> moves e"

lemma keeps_moves_nothing:
  "keeps (appends quiet_event) m \<Longrightarrow> keeps (moves_nothing log_sent log_received) m"
  by (erule keeps_weaken) (rule extends_moves_nothing, rule appends_extends)

lemma quiet_ioctls:
  "keeps (appends quiet_event) (ioctl_set_break m fd on)"
  "keeps (appends quiet_event) (ioctl_output_waiting m fd)"
  "keeps (appends quiet_event) (ioctl_input_waiting m fd)"
  "keeps (appends quiet_event) (ioctl_reset_input_buffer m fd)"
  "keeps (appends quiet_event) (ioctl_reset_output_buffer m fd)"
  "keeps (appends quiet_event) (ioctl_get_modem_lines m fd)"
  "keeps (appends quiet_event) (ioctl_set_control_lines m fd rts dtr)"
  "keeps (appends quiet_event) (tcdrain fd)"
  unfolding ioctl_helper_defs Let_def by (intro app.keeps_control keeps_require keeps_syscalls; simp)+

lemma quiet_applies:
  "keeps (appends quiet_event) (posix_apply_config_to_fd m fd config)"
  "keeps (appends quiet_event) (linux_apply_config_to_fd m fd config)"
  unfolding linux_apply_config_to_fd_def linux_apply_custom_baud_def read_termios2_def write_termios2_def
    posix_apply_config_to_fd_def
  by (intro app.keeps_control keeps_syscalls; simp)+

lemma quiet_calls:
  "keeps (appends quiet_event) (posix_set_break m on)"
  "keeps (appends quiet_event) (posix_output_waiting m)"
  "keeps (appends quiet_event) (posix_input_waiting m)"
  "keeps (appends quiet_event) (posix_reset_input_buffer m)"
  "keeps (appends quiet_event) (posix_reset_output_buffer m)"
  "keeps (appends quiet_event) posix_tcdrain_blocking"
  "keeps (appends quiet_event) (posix_modem_lines m)"
  "keeps (appends quiet_event) (posix_set_control_lines m rts dtr)"
  unfolding posix_set_break_def posix_output_waiting_def posix_input_waiting_def posix_reset_input_buffer_def
    posix_reset_output_buffer_def posix_tcdrain_blocking_def posix_modem_lines_def posix_set_control_lines_def
  by (intro app.keeps_control quiet_ioctls)+

subsection \<open>POSIX\<close>

abbreviation posix_steady :: "'k posix_backend_scheme \<Rightarrow> 'k posix_backend_scheme \<Rightarrow> bool" where
  "posix_steady s s' \<equiv> moves_nothing log_sent log_received s s' \<and> posix_is_open s' = posix_is_open s"

lemma appends_posix_steady: "appends quiet_event s s' \<Longrightarrow> posix_steady s s'"
  using extends_moves_nothing [OF appends_extends] by (auto simp: appends_def posix_is_open_def)

lemma posix_steady_posix_vt:
  "steady (posix_vt m) log_sent log_received (\<lambda>_. True) = posix_steady"
  by (auto simp: fun_eq_iff steady_def lives_on_def posix_vt_def)

interpretation pst: frame "posix_steady :: 'k posix_backend_scheme \<Rightarrow> 'k posix_backend_scheme \<Rightarrow> bool"
  by unfold_locales (auto simp: moves_nothing_def)

lemma keeps_posix_steady: "keeps (appends quiet_event) m \<Longrightarrow> keeps posix_steady m"
  by (erule keeps_weaken) (rule appends_posix_steady)

lemmas posix_steady_calls = quiet_calls [THEN keeps_posix_steady]

lemma posix_configure_steady:
  "keeps posix_steady (posix_configure (posix_apply_config_to_fd m) config)"
  unfolding posix_configure_def
  by (intro pst.keeps_control keeps_modify quiet_applies [THEN keeps_posix_steady])
    (simp_all add: moves_nothing_def log_sent_def log_received_def posix_is_open_def)

lemma posix_write_law:
  fixes b :: "'k posix_backend_scheme"
  shows "wp (posix_write_nonblocking data)
     (\<lambda>n b'. (n \<le> length data \<and> log_sent b' = log_sent b @ take n data \<and> log_received b' = log_received b)
        \<and> (\<exists>l. b' = b\<lparr>k_log := l\<rparr>))
     (\<lambda>_ b'. moves_nothing log_sent log_received b b' \<and> (\<exists>l. b' = b\<lparr>k_log := l\<rparr>)) b"
proof -
  have "b = b\<lparr>k_log := k_log b\<rparr>" by simp
  then show ?thesis
    by (auto simp: posix_write_nonblocking_def wp_simps log_sent_def log_received_def moves_nothing_def
        written_by_def read_by_def intro: exI [of _ "k_log b"])
qed

lemma posix_read_law:
  fixes b :: "'k posix_backend_scheme"
  shows "wp (posix_read_nonblocking n)
     (\<lambda>bs b'. (length bs \<le> n \<and> log_received b' = log_received b @ bs \<and> log_sent b' = log_sent b)
        \<and> (\<exists>l. b' = b\<lparr>k_log := l\<rparr>))
     (\<lambda>_ b'. moves_nothing log_sent log_received b b' \<and> (\<exists>l. b' = b\<lparr>k_log := l\<rparr>)) b"
proof -
  have "b = b\<lparr>k_log := k_log b\<rparr>" by simp
  then show ?thesis
    by (auto simp: posix_read_nonblocking_def wp_simps log_sent_def log_received_def moves_nothing_def
        written_by_def read_by_def intro: exI [of _ "k_log b"])
qed

lemma posix_close_law:
  "wp posix_close
     (\<lambda>_ b'. \<not> posix_is_open b' \<and> moves_nothing log_sent log_received b b')
     (\<lambda>_ b'. \<not> posix_is_open b' \<and> moves_nothing log_sent log_received b b') b"
  by (auto simp: posix_close_def wp_simps posix_is_open_def moves_nothing_def log_sent_def
      log_received_def written_by_def read_by_def)

lemma lives_on_posix: "lives_on (posix_vt m) (\<lambda>_. True) s (s\<lparr>k_log := l\<rparr>)"
  by (simp add: lives_on_def posix_vt_def posix_is_open_def)

interpretation posix: sync_backend_laws
  "posix_vt m :: 'k posix_backend_scheme sync_backend" log_sent log_received "\<lambda>_. True" for m
proof (unfold_locales, unfold posix_steady_posix_vt, goal_cases)
  case (1 data b)
  have "wp (posix_write_nonblocking data)
      (\<lambda>n b'. n \<le> length data \<and> log_sent b' = log_sent b @ take n data \<and> log_received b' = log_received b
         \<and> lives_on (posix_vt m) (\<lambda>_. True) b b') (\<lambda>_. posix_steady b) b"
    by (rule wp_mono [OF posix_write_law]) (auto simp: lives_on_posix posix_is_open_def)
  then show ?case by (simp add: posix_vt_def)
next
  case (2 size' b)
  have "wp (posix_read_nonblocking size')
      (\<lambda>bs b'. length bs \<le> size' \<and> log_received b' = log_received b @ bs \<and> log_sent b' = log_sent b
         \<and> lives_on (posix_vt m) (\<lambda>_. True) b b') (\<lambda>_. posix_steady b) b"
    by (rule wp_mono [OF posix_read_law]) (auto simp: lives_on_posix posix_is_open_def)
  then show ?case by (simp add: posix_vt_def)
qed (simp_all add: posix_vt_def posix_steady_calls posix_configure_steady posix_close_law)

subsection \<open>Linux\<close>

abbreviation linux_steady :: "'k linux_backend_scheme \<Rightarrow> 'k linux_backend_scheme \<Rightarrow> bool" where
  "linux_steady s s' \<equiv> moves_nothing log_sent log_received s s' \<and> posix_is_open s' = posix_is_open s
     \<and> (linux_wf s \<longrightarrow> linux_wf s')"

lemma linux_steady_linux_vt:
  "steady (linux_vt m) log_sent log_received linux_wf = linux_steady"
  by (auto simp: fun_eq_iff steady_def lives_on_def linux_vt_def posix_vt_def)

interpretation lst: frame "linux_steady :: 'k linux_backend_scheme \<Rightarrow> 'k linux_backend_scheme \<Rightarrow> bool"
  by unfold_locales (auto simp: moves_nothing_def)

lemma appends_linux_steady:
  fixes s s' :: "'k linux_backend_scheme"
  shows "appends quiet_event s s' \<Longrightarrow> linux_steady s s'"
  using appends_posix_steady [of s s'] by (auto simp: appends_def linux_wf_def)

lemma tunes_linux_steady: "tunes s s' \<Longrightarrow> linux_steady s s'"
proof -
  assume "tunes s s'"
  then have "extends quiet_event s s'" and "pb_fd s' = pb_fd s" "linux_wf s \<longrightarrow> linux_wf s'"
    by (auto simp: tunes_def tuning_def elim!: extends_mono)
  then show ?thesis using extends_moves_nothing by (auto simp: posix_is_open_def)
qed

lemma keeps_linux_steady:
  "keeps (appends quiet_event) m \<Longrightarrow> keeps linux_steady m"
  "keeps tunes m \<Longrightarrow> keeps linux_steady m"
  "keeps (appends tuning) m \<Longrightarrow> keeps linux_steady m"
  by (erule keeps_weaken, metis appends_linux_steady, erule keeps_weaken, metis tunes_linux_steady,
      erule keeps_weaken, metis appends_tunes tunes_linux_steady)

lemmas linux_steady_calls = quiet_calls [THEN keeps_linux_steady(1)]

lemma linux_configure_steady: "keeps linux_steady (linux_configure m config)"
  unfolding linux_configure_def posix_configure_def
  by (intro lst.keeps_control keeps_modify quiet_applies [THEN keeps_linux_steady(1)]
      keeps_apply_rs485 [THEN keeps_linux_steady(2)] keeps_rs485_io [THEN keeps_linux_steady(3)])
    (simp_all add: moves_nothing_def log_sent_def log_received_def posix_is_open_def linux_wf_def)

lemma quiet_restores:
  "keeps (appends quiet_event) (restore_serial_flags fd v)"
  "keeps (appends quiet_event) (restore_ftdi_latency_timer t)"
  "keeps (appends quiet_event) (write_rs485 fd st)"
  unfolding restore_serial_flags_def write_serial_flags_def restore_ftdi_latency_timer_def
    write_latency_timer_def write_rs485_def
  by (intro app.keeps_control keeps_syscalls; simp)+

interpretation quiet: frame
  "moves_nothing log_sent log_received :: 'k kernel_scheme \<Rightarrow> 'k kernel_scheme \<Rightarrow> bool"
  by unfold_locales (auto simp: moves_nothing_def)

lemma linux_close_quiet: "keeps (moves_nothing log_sent log_received)
    (io_seq (linux_restore_low_latency fd) (linux_restore_rs485 fd) :: ('k linux_backend_scheme, exn, unit) io)"
  unfolding linux_restore_low_latency_def linux_restore_async_def linux_restore_timer_def linux_restore_rs485_def
  by (intro quiet.keeps_control quiet_restores [THEN keeps_moves_nothing] keeps_modify)
    (simp_all add: moves_nothing_def log_sent_def log_received_def)

lemma linux_close_law:
  fixes b :: "'k linux_backend_scheme"
  assumes wf: "linux_wf b"
  shows "wp linux_close
     (\<lambda>_ b'. \<not> posix_is_open b' \<and> linux_wf b' \<and> moves_nothing log_sent log_received b b')
     (\<lambda>_ b'. \<not> posix_is_open b' \<and> linux_wf b' \<and> moves_nothing log_sent log_received b b') b"
proof (cases "posix_is_open b")
  case False
  then show ?thesis
    using wf by (simp add: linux_close_def posix_close_def wp_simps posix_is_open_def moves_nothing_def)
next
  case True
  from linux_close_run [OF wf True]
  have "\<not> posix_is_open (snd (linux_close b)) \<and> linux_wf (snd (linux_close b))"
    by (auto simp: posix_is_open_def linux_wf_def)
  moreover have "keeps (moves_nothing log_sent log_received) (linux_close :: ('k linux_backend_scheme, exn, unit) io)"
    unfolding linux_close_def posix_close_def
    by (intro quiet.keeps_control linux_close_quiet keeps_modify keeps_moves_nothing keeps_syscalls)
      (simp_all add: moves_nothing_def log_sent_def log_received_def)
  then have "moves_nothing log_sent log_received b (snd (linux_close b))" by (rule keeps_snd)
  ultimately show ?thesis by (auto simp: wp_def split: prod.splits sum.splits)
qed

lemma lives_on_linux: "lives_on (linux_vt m) linux_wf s (s\<lparr>k_log := l\<rparr>)"
  by (simp add: lives_on_def linux_vt_def posix_vt_def posix_is_open_def linux_wf_def)

interpretation linux: sync_backend_laws
  "linux_vt m :: 'k linux_backend_scheme sync_backend" log_sent log_received linux_wf for m
proof (unfold_locales, unfold linux_steady_linux_vt, goal_cases)
  case (1 data b)
  have "wp (posix_write_nonblocking data)
      (\<lambda>n b'. n \<le> length data \<and> log_sent b' = log_sent b @ take n data \<and> log_received b' = log_received b
         \<and> lives_on (linux_vt m) linux_wf b b') (\<lambda>_. linux_steady b) b"
    by (rule wp_mono [OF posix_write_law]) (auto simp: lives_on_linux posix_is_open_def linux_wf_def)
  then show ?case by (simp add: linux_vt_def posix_vt_def)
next
  case (2 size' b)
  have "wp (posix_read_nonblocking size')
      (\<lambda>bs b'. length bs \<le> size' \<and> log_received b' = log_received b @ bs \<and> log_sent b' = log_sent b
         \<and> lives_on (linux_vt m) linux_wf b b') (\<lambda>_. linux_steady b) b"
    by (rule wp_mono [OF posix_read_law]) (auto simp: lives_on_linux posix_is_open_def linux_wf_def)
  then show ?case by (simp add: linux_vt_def posix_vt_def)
qed (simp_all add: linux_vt_def posix_vt_def linux_steady_calls linux_configure_steady linux_close_law)

end
