(* ===== verification/Stream.thy ===== *)
theory Stream
  imports Backend_Protocol
begin

section \<open>The async port over a synchronous backend (\<open>stream.py\<close>, \<open>_PosixSerialPort\<close>)\<close>

text \<open>
  A coroutine runs without interruption from one \<open>await\<close> to the next. Each public method is
  therefore a \<open>start\<close> function, from the call to the first \<open>await\<close> (or to its end), and a \<open>resume\<close>
  function, from the \<open>await\<close> at program counter \<open>pc\<close> to the next one. The scheduler wakes an
  \<open>await\<close> normally (\<open>W_ready\<close>, also spuriously) or by raising in it (\<open>W_throw\<close>: a cancellation, or
  the \<open>ClosedResourceError\<close> of \<open>notify_closing\<close>). AnyIO is not part of the package: which waits are
  woken, when and how is decided by the environment of a run, and a lock is granted by it.

  A \<open>ResourceGuard\<close> is a flag: entering a busy one raises \<open>BusyResourceError\<close>, and leaving the
  \<open>with\<close> block, normally or not, clears it. On this variant the bodies under the two locks contain
  no \<open>await\<close>, so a lock is only observable as the wait for it.
\<close>

subsection \<open>State, waits and operations\<close>

record 'b port =
  p_backend :: 'b
  p_config :: serial_config
  p_closed :: bool
  p_recv_busy :: bool
  p_send_busy :: bool

definition new_port :: "'b \<Rightarrow> serial_config \<Rightarrow> 'b port" where
  "new_port b c = \<lparr>p_backend = b, p_config = c, p_closed = False, p_recv_busy = False, p_send_busy = False\<rparr>"

datatype await = A_readable int | A_writable int | A_sleep pyfloat | A_thread | A_lock

datatype pc =
    At_receive nat int
  | At_receive_into nat int
  | At_available "int option" int
  | At_available_again nat int
  | At_send bytes nat int
  | At_drain int
  | At_drain_exact
  | At_break
  | At_configure serial_config
  | At_close

datatype outcome = V_unit | V_bytes bytes | V_into bytes | V_int int | V_modem modem_lines

datatype progress = Return outcome | Park pc await

datatype wake = W_ready | W_throw exn

datatype op =
    Op_receive int | Op_receive_into nat | Op_receive_available "int option"
  | Op_send bytes | Op_send_eof | Op_aclose | Op_configure serial_config
  | Op_reset_input_buffer | Op_reset_output_buffer | Op_drain | Op_drain_exact
  | Op_send_break pyfloat | Op_modem_lines | Op_set_control_lines "bool option" "bool option"
  | Op_input_waiting | Op_output_waiting

type_synonym ('b, 'a) port_io = "('b port, exn, 'a) io"

definition MAX_DRAIN_INTERVAL :: rat where "MAX_DRAIN_INTERVAL = 1/20"
definition MIN_DRAIN_INTERVAL :: rat where "MIN_DRAIN_INTERVAL = 1/1000"

subsection \<open>Shared pieces\<close>

definition on_backend :: "('b, exn, 'a) io \<Rightarrow> ('b, 'a) port_io" where
  "on_backend m = (\<lambda>p. case m (p_backend p) of (r, b) \<Rightarrow> (r, p\<lparr>p_backend := b\<rparr>))"

definition port_is_open :: "'b sync_backend \<Rightarrow> 'b port \<Rightarrow> bool" where
  "port_is_open vt p \<longleftrightarrow> \<not> p_closed p \<and> bk_is_open vt (p_backend p)"

definition closed_error :: "'b sync_backend \<Rightarrow> 'b port \<Rightarrow> exn" where
  "closed_error vt p = exn_os SerialClosedError (Some EBADF) (Some ''serial port is closed'')
     (Some (bk_path vt (p_backend p)))"

definition eof_error :: "'b sync_backend \<Rightarrow> 'b port \<Rightarrow> exn" where
  "eof_error vt p = exn_os SerialDisconnectedError (Some EIO)
     (Some ''device returned EOF after readiness'') (Some (bk_path vt (p_backend p)))"

definition raise_if_closed :: "'b sync_backend \<Rightarrow> ('b, unit) port_io" where
  "raise_if_closed vt =
     io_bind (io_get p_closed) (\<lambda>c. if c then io_bind (io_get (closed_error vt)) io_raise else io_return ())"

text \<open>\<open>except OSError as exc: raise errno_to_exception(exc, context, path)\<close>.\<close>

definition translating :: "'b sync_backend \<Rightarrow> string \<Rightarrow> ('b, 'a) port_io \<Rightarrow> ('b, 'a) port_io" where
  "translating vt ctx m =
     io_try m (\<lambda>e. io_bind (io_get (\<lambda>p. bk_path vt (p_backend p))) (\<lambda>path.
       if isinstance e OSError then io_raise (errno_to_exception e ctx (Some path)) else io_raise e))"

definition transient :: "exn \<Rightarrow> bool" where
  "transient e \<longleftrightarrow> isinstance e BlockingIOError \<or> isinstance e InterruptedError"

text \<open>One non-blocking transfer: \<open>None\<close> when it has to be retried.\<close>

definition attempt :: "'b sync_backend \<Rightarrow> ('b, exn, 'a) io \<Rightarrow> ('b, 'a option) port_io" where
  "attempt vt m =
     io_try (io_bind (on_backend m) (\<lambda>x. io_return (Some x)))
       (\<lambda>e. if transient e then io_return None
            else translating vt ''io'' (io_raise e))"

text \<open>Leaving a guarded block: the flag is cleared unless the coroutine parked inside the block.\<close>

definition leave_recv :: "('b, progress) port_io \<Rightarrow> ('b, progress) port_io" where
  "leave_recv m = (\<lambda>p. case m p of
     (Inr (Park pc a), p') \<Rightarrow> (Inr (Park pc a), p') | (r, p') \<Rightarrow> (r, p'\<lparr>p_recv_busy := False\<rparr>))"

definition leave_send :: "('b, progress) port_io \<Rightarrow> ('b, progress) port_io" where
  "leave_send m = (\<lambda>p. case m p of
     (Inr (Park pc a), p') \<Rightarrow> (Inr (Park pc a), p') | (r, p') \<Rightarrow> (r, p'\<lparr>p_send_busy := False\<rparr>))"

definition enter_recv :: "('b, progress) port_io \<Rightarrow> ('b, progress) port_io" where
  "enter_recv m = io_bind (io_get p_recv_busy) (\<lambda>busy.
     if busy then io_raise (exn_msg BusyResourceError)
     else io_seq (io_modify (\<lambda>p. p\<lparr>p_recv_busy := True\<rparr>)) (leave_recv m))"

definition enter_send :: "('b, progress) port_io \<Rightarrow> ('b, progress) port_io" where
  "enter_send m = io_bind (io_get p_send_busy) (\<lambda>busy.
     if busy then io_raise (exn_msg BusyResourceError)
     else io_seq (io_modify (\<lambda>p. p\<lparr>p_send_busy := True\<rparr>)) (leave_send m))"

definition port_fileno :: "'b sync_backend \<Rightarrow> ('b, int) port_io" where
  "port_fileno vt = io_get (\<lambda>p. bk_fileno vt (p_backend p))"

subsection \<open>Reading\<close>

definition read_step :: "'b sync_backend \<Rightarrow> nat \<Rightarrow> (bytes \<Rightarrow> outcome) \<Rightarrow> pc \<Rightarrow> int \<Rightarrow> ('b, progress) port_io" where
  "read_step vt size' wrap again fd =
     io_bind (attempt vt (bk_read vt size')) (\<lambda>r. case r of
       None \<Rightarrow> io_return (Park again (A_readable fd))
     | Some bs \<Rightarrow>
         if bs = [] then io_bind (io_get (eof_error vt)) io_raise
         else io_return (Return (wrap bs)))"

definition start_receive :: "'b sync_backend \<Rightarrow> int \<Rightarrow> ('b, progress) port_io" where
  "start_receive vt max_bytes =
     (if max_bytes \<le> 0 then io_raise (exn_msg ValueError)
      else enter_recv (io_seq (raise_if_closed vt)
        (io_bind (port_fileno vt) (\<lambda>fd. io_return (Park (At_receive (nat max_bytes) fd) (A_readable fd))))))"

definition start_receive_into :: "'b sync_backend \<Rightarrow> nat \<Rightarrow> ('b, progress) port_io" where
  "start_receive_into vt len =
     (if len = 0 then io_raise (exn_msg ValueError)
      else enter_recv (io_seq (raise_if_closed vt)
        (io_bind (port_fileno vt) (\<lambda>fd. io_return (Park (At_receive_into len fd) (A_readable fd))))))"

definition start_receive_available :: "'b sync_backend \<Rightarrow> int option \<Rightarrow> ('b, progress) port_io" where
  "start_receive_available vt limit =
     enter_recv (io_seq (raise_if_closed vt)
       (io_bind (port_fileno vt) (\<lambda>fd. io_return (Park (At_available limit fd) (A_readable fd)))))"

definition available_size :: "int \<Rightarrow> int \<Rightarrow> int option \<Rightarrow> int" where
  "available_size waiting chunk limit =
     (let sz = (if 0 < waiting then waiting else chunk)
      in case limit of None \<Rightarrow> sz | Some l \<Rightarrow> min sz l)"

definition available_step :: "'b sync_backend \<Rightarrow> int option \<Rightarrow> int \<Rightarrow> ('b, progress) port_io" where
  "available_step vt limit fd =
     io_bind (on_backend (bk_input_waiting vt)) (\<lambda>waiting.
     io_bind (io_get (\<lambda>p. cfg_read_chunk_size (p_config p))) (\<lambda>chunk.
     let sz = available_size waiting chunk limit in
     if sz \<le> 0 then io_return (Return (V_bytes []))
     else read_step vt (nat sz) V_bytes (At_available_again (nat sz) fd) fd))"

subsection \<open>Writing\<close>

definition send_step :: "'b sync_backend \<Rightarrow> bytes \<Rightarrow> nat \<Rightarrow> int \<Rightarrow> ('b, progress) port_io" where
  "send_step vt data offset fd =
     io_bind (attempt vt (bk_write vt (drop offset data))) (\<lambda>r.
     let offset' = (case r of None \<Rightarrow> offset | Some written \<Rightarrow> offset + written) in
     if offset' < length data then io_return (Park (At_send data offset' fd) (A_writable fd))
     else io_return (Return V_unit))"

definition start_send :: "'b sync_backend \<Rightarrow> bytes \<Rightarrow> ('b, progress) port_io" where
  "start_send vt data =
     (if data = [] then io_seq (raise_if_closed vt) (io_return (Return V_unit))
      else enter_send (io_seq (raise_if_closed vt)
        (io_bind (port_fileno vt) (\<lambda>fd. io_return (Park (At_send data 0 fd) (A_writable fd))))))"

subsection \<open>Draining and break\<close>

definition drain_wait :: "int \<Rightarrow> int \<Rightarrow> rat" where
  "drain_wait pending bps = min (max (of_int pending / of_int bps) MIN_DRAIN_INTERVAL) MAX_DRAIN_INTERVAL"

definition drain_poll :: "'b sync_backend \<Rightarrow> int \<Rightarrow> ('b, progress) port_io" where
  "drain_poll vt bps =
     io_seq (raise_if_closed vt)
       (io_bind (translating vt ''ioctl'' (on_backend (bk_output_waiting vt))) (\<lambda>pending.
        if pending \<le> 0 then io_return (Return V_unit)
        else io_return (Park (At_drain bps) (A_sleep (Fin (drain_wait pending bps))))))"

definition start_drain :: "'b sync_backend \<Rightarrow> ('b, progress) port_io" where
  "start_drain vt =
     enter_send (io_seq (raise_if_closed vt)
       (io_bind (io_get (\<lambda>p. max (cfg_baudrate (p_config p) div 10) 1)) (drain_poll vt)))"

definition start_drain_exact :: "'b sync_backend \<Rightarrow> ('b, progress) port_io" where
  "start_drain_exact vt =
     enter_send (io_seq (raise_if_closed vt) (io_return (Park At_drain_exact A_thread)))"

definition start_send_break :: "'b sync_backend \<Rightarrow> pyfloat \<Rightarrow> ('b, progress) port_io" where
  "start_send_break vt duration =
     (if \<not> float_le (Fin 0) duration then io_raise (exn_msg ValueError)
      else enter_send (io_seq (raise_if_closed vt)
        (io_seq (translating vt ''ioctl'' (on_backend (bk_set_break vt True)))
          (io_return (Park At_break (A_sleep duration))))))"

text \<open>The \<open>finally\<close> block: an \<open>OSError\<close> of the de-assertion is suppressed, any other replaces the outcome.\<close>

definition break_finally :: "'b sync_backend \<Rightarrow> wake \<Rightarrow> ('b, progress) port_io" where
  "break_finally vt w =
     io_finally (case w of W_ready \<Rightarrow> io_return (Return V_unit) | W_throw e \<Rightarrow> io_raise e)
       (io_suppress (\<lambda>e. isinstance e OSError) (on_backend (bk_set_break vt False)))"

subsection \<open>Control plane and closing\<close>

definition configure_body :: "'b sync_backend \<Rightarrow> serial_config \<Rightarrow> ('b, progress) port_io" where
  "configure_body vt config =
     io_seq (raise_if_closed vt)
       (io_seq (translating vt ''ioctl'' (on_backend (bk_configure vt config)))
         (io_seq (io_modify (\<lambda>p. p\<lparr>p_config := config\<rparr>)) (io_return (Return V_unit))))"

text \<open>\<open>notify_closing\<close> only wakes waiters, which the environment of a run does.\<close>

definition close_body :: "'b sync_backend \<Rightarrow> ('b, progress) port_io" where
  "close_body vt =
     io_bind (io_get p_closed) (\<lambda>closed.
     if closed then io_return (Return V_unit)
     else io_seq (io_modify (\<lambda>p. p\<lparr>p_closed := True\<rparr>))
       (io_seq (on_backend (bk_close vt)) (io_return (Return V_unit))))"

definition control_call :: "'b sync_backend \<Rightarrow> ('b, exn, 'a) io \<Rightarrow> ('a \<Rightarrow> outcome) \<Rightarrow> ('b, progress) port_io" where
  "control_call vt m wrap =
     io_seq (raise_if_closed vt)
       (io_bind (translating vt ''ioctl'' (on_backend m)) (\<lambda>x. io_return (Return (wrap x))))"

definition waiting_call :: "'b sync_backend \<Rightarrow> ('b, exn, int) io \<Rightarrow> ('b, progress) port_io" where
  "waiting_call vt m =
     io_seq (raise_if_closed vt) (io_bind (on_backend m) (\<lambda>n. io_return (Return (V_int n))))"

definition start_send_eof :: "'b sync_backend \<Rightarrow> ('b, progress) port_io" where
  [simp]: "start_send_eof vt =
     io_bind (io_get p_closed) (\<lambda>c. if c then io_return (Return V_unit) else start_drain vt)"

subsection \<open>Calls and resumptions\<close>

fun start :: "'b sync_backend \<Rightarrow> op \<Rightarrow> ('b, progress) port_io" where
  "start vt (Op_receive n) = start_receive vt n"
| "start vt (Op_receive_into n) = start_receive_into vt n"
| "start vt (Op_receive_available l) = start_receive_available vt l"
| "start vt (Op_send d) = start_send vt d"
| "start vt Op_send_eof = start_send_eof vt"
| "start vt Op_aclose = io_return (Park At_close A_lock)"
| "start vt (Op_configure c) = io_return (Park (At_configure c) A_lock)"
| "start vt Op_reset_input_buffer = control_call vt (bk_reset_input_buffer vt) (\<lambda>_. V_unit)"
| "start vt Op_reset_output_buffer = control_call vt (bk_reset_output_buffer vt) (\<lambda>_. V_unit)"
| "start vt Op_drain = start_drain vt"
| "start vt Op_drain_exact = start_drain_exact vt"
| "start vt (Op_send_break d) = start_send_break vt d"
| "start vt Op_modem_lines = control_call vt (bk_modem_lines vt) V_modem"
| "start vt (Op_set_control_lines r d) = control_call vt (bk_set_control_lines vt r d) (\<lambda>_. V_unit)"
| "start vt Op_input_waiting = waiting_call vt (bk_input_waiting vt)"
| "start vt Op_output_waiting = waiting_call vt (bk_output_waiting vt)"

fun resume :: "'b sync_backend \<Rightarrow> pc \<Rightarrow> wake \<Rightarrow> ('b, progress) port_io" where
  "resume vt (At_receive n fd) W_ready =
     leave_recv (io_seq (raise_if_closed vt) (read_step vt n V_bytes (At_receive n fd) fd))"
| "resume vt (At_receive n fd) (W_throw e) = leave_recv (io_raise e)"
| "resume vt (At_receive_into n fd) W_ready =
     leave_recv (io_seq (raise_if_closed vt) (read_step vt n V_into (At_receive_into n fd) fd))"
| "resume vt (At_receive_into n fd) (W_throw e) = leave_recv (io_raise e)"
| "resume vt (At_available l fd) W_ready =
     leave_recv (io_seq (raise_if_closed vt) (available_step vt l fd))"
| "resume vt (At_available l fd) (W_throw e) = leave_recv (io_raise e)"
| "resume vt (At_available_again n fd) W_ready =
     leave_recv (io_seq (raise_if_closed vt) (read_step vt n V_bytes (At_available_again n fd) fd))"
| "resume vt (At_available_again n fd) (W_throw e) = leave_recv (io_raise e)"
| "resume vt (At_send d k fd) W_ready =
     leave_send (io_seq (raise_if_closed vt) (send_step vt d k fd))"
| "resume vt (At_send d k fd) (W_throw e) = leave_send (io_raise e)"
| "resume vt (At_drain bps) W_ready = leave_send (drain_poll vt bps)"
| "resume vt (At_drain bps) (W_throw e) = leave_send (io_raise e)"
| "resume vt At_drain_exact W_ready =
     leave_send (io_seq (on_backend (bk_tcdrain_blocking vt)) (io_return (Return V_unit)))"
| "resume vt At_drain_exact (W_throw e) = leave_send (io_raise e)"
| "resume vt At_break w = leave_send (break_finally vt w)"
| "resume vt (At_configure c) W_ready = configure_body vt c"
| "resume vt (At_configure c) (W_throw e) = io_raise e"
| "resume vt At_close W_ready = close_body vt"
| "resume vt At_close (W_throw e) = io_raise e"

end
