(* ===== verification/Port_System.thy ===== *)
theory Port_System
  imports Stream
begin

section \<open>A port shared by concurrent tasks\<close>

text \<open>
  The transition system of one port: any task may call any operation, any parked task may be woken
  (or thrown into), and the environment may change the backend as long as it moves none of the
  port's bytes and leaves its lifecycle alone. A parked call remembers the operation and what had been sent
  and received when it was made. The lemmas are proved once for every backend that satisfies
  \<open>sync_backend_laws\<close>.
\<close>

subsection \<open>The transition system\<close>

record call =
  t_op :: op
  t_pc :: pc
  t_sent :: bytes
  t_received :: bytes

datatype label = Called op "exn + progress" | Woken call wake "exn + progress" | Background

type_synonym 'b system = "'b port \<times> call list"

fun parked_at :: "call \<Rightarrow> exn + progress \<Rightarrow> call list" where
  "parked_at t (Inr (Park pc a)) = [t\<lparr>t_pc := pc\<rparr>]"
| "parked_at t (Inr (Return v)) = []"
| "parked_at t (Inl e) = []"

inductive port_step for vt :: "'b sync_backend" and sent received :: "'b \<Rightarrow> bytes" and good :: "'b \<Rightarrow> bool" where
  call: "start vt op p = (r, p') \<Longrightarrow>
    port_step vt sent received good (p, ts) (Called op r)
      (p', ts @ parked_at \<lparr>t_op = op, t_pc = At_close, t_sent = sent (p_backend p),
                           t_received = received (p_backend p)\<rparr> r)"
| wake: "resume vt (t_pc t) w p = (r, p') \<Longrightarrow>
    port_step vt sent received good (p, ts @ t # us) (Woken t w r) (p', ts @ parked_at t r @ us)"
| background: "steady vt sent received good (p_backend p) b \<Longrightarrow>
    port_step vt sent received good (p, ts) Background (p\<lparr>p_backend := b\<rparr>, ts)"

inductive port_reachable for vt :: "'b sync_backend" and sent received :: "'b \<Rightarrow> bytes" and good :: "'b \<Rightarrow> bool" where
  opened: "good b \<Longrightarrow> bk_is_open vt b \<Longrightarrow> port_reachable vt sent received good (new_port b c, [])"
| step: "port_reachable vt sent received good s \<Longrightarrow> port_step vt sent received good s l s' \<Longrightarrow>
    port_reachable vt sent received good s'"

inductive_cases port_stepE: "port_step vt sent received good s l s'"
inductive_cases woken_stepE: "port_step vt sent received good s (Woken t w r) s'"

subsection \<open>Guards\<close>

fun receiving :: "pc \<Rightarrow> bool" where
  "receiving (At_receive n fd) = True"
| "receiving (At_receive_into n fd) = True"
| "receiving (At_available l fd) = True"
| "receiving (At_available_again n fd) = True"
| "receiving _ = False"

fun sending :: "pc \<Rightarrow> bool" where
  "sending (At_send d k fd) = True"
| "sending (At_drain bps) = True"
| "sending At_drain_exact = True"
| "sending At_break = True"
| "sending _ = False"

fun parks :: "(pc \<Rightarrow> bool) \<Rightarrow> exn + progress \<Rightarrow> bool" where
  "parks P (Inr (Park pc a)) = P pc"
| "parks P (Inr (Return v)) = False"
| "parks P (Inl e) = False"

text \<open>A body that leaves both flags alone and parks, if at all, at a counter satisfying \<open>P\<close>.\<close>

definition same_guards :: "'b port \<Rightarrow> 'b port \<Rightarrow> bool" where
  "same_guards p p' \<longleftrightarrow> p_recv_busy p' = p_recv_busy p \<and> p_send_busy p' = p_send_busy p"

definition parks_only :: "(pc \<Rightarrow> bool) \<Rightarrow> ('b, progress) port_io \<Rightarrow> bool" where
  "parks_only P m \<longleftrightarrow> (\<forall>p. wp m (\<lambda>g _. case g of Park pc a \<Rightarrow> P pc | Return v \<Rightarrow> True) (\<lambda>_ _. True) p)"

interpretation grd: frame "same_guards :: 'b port \<Rightarrow> 'b port \<Rightarrow> bool"
  by unfold_locales (auto simp: same_guards_def)

lemma wp_on_backend [wp_simps]:
  "wp (on_backend m) Q E p =
     wp m (\<lambda>x b. Q x (p\<lparr>p_backend := b\<rparr>)) (\<lambda>e b. E e (p\<lparr>p_backend := b\<rparr>)) (p_backend p)"
  by (simp add: wp_def on_backend_def split: prod.split sum.split)

lemma keeps_on_backend: "keeps R m \<Longrightarrow> (\<And>p b. R (p_backend p) b \<Longrightarrow> R' p (p\<lparr>p_backend := b\<rparr>)) \<Longrightarrow> keeps R' (on_backend m)"
  by (rule keepsI, unfold wp_on_backend, erule keeps_wp_mono) simp_all

lemma guards_on_backend: "keeps same_guards (on_backend m)"
  by (rule keeps_on_backend [where R = "\<lambda>_ _. True"]) (simp_all add: keeps_def same_guards_def)

lemma keeps_wake:
  "keeps R m \<Longrightarrow> (\<And>e. keeps R (h e)) \<Longrightarrow> keeps R (case w of W_ready \<Rightarrow> m | W_throw e \<Rightarrow> h e)"
  by (cases w) simp_all

lemmas step_defs = raise_if_closed_def port_fileno_def read_step_def available_step_def send_step_def
  drain_poll_def break_finally_def configure_body_def close_body_def control_call_def waiting_call_def
  translating_def attempt_def Let_def

lemma guards_bodies:
  "keeps same_guards (raise_if_closed vt)"
  "keeps same_guards (read_step vt n wrap again fd)"
  "keeps same_guards (available_step vt l fd)"
  "keeps same_guards (send_step vt d k fd)"
  "keeps same_guards (drain_poll vt bps)"
  "keeps same_guards (break_finally vt w)"
  "keeps same_guards (configure_body vt c)"
  "keeps same_guards (close_body vt)"
  "keeps same_guards (control_call vt m f)"
  "keeps same_guards (waiting_call vt m')"
  unfolding step_defs
  by (intro grd.keeps_control guards_on_backend keeps_modify keeps_wake; simp add: same_guards_def)+

text \<open>What a call, or a resumption at \<open>pc\<close>, does to the flags.\<close>

definition guard_call :: "'b port \<Rightarrow> exn + progress \<Rightarrow> 'b port \<Rightarrow> bool" where
  "guard_call p r p' \<longleftrightarrow>
     p_recv_busy p' = (p_recv_busy p \<or> parks receiving r) \<and> (parks receiving r \<longrightarrow> \<not> p_recv_busy p)
   \<and> p_send_busy p' = (p_send_busy p \<or> parks sending r) \<and> (parks sending r \<longrightarrow> \<not> p_send_busy p)"

definition guard_resume :: "pc \<Rightarrow> 'b port \<Rightarrow> exn + progress \<Rightarrow> 'b port \<Rightarrow> bool" where
  "guard_resume pc p r p' \<longleftrightarrow>
     p_recv_busy p' = (if receiving pc then parks receiving r else p_recv_busy p) \<and> (parks receiving r \<longrightarrow> receiving pc)
   \<and> p_send_busy p' = (if sending pc then parks sending r else p_send_busy p) \<and> (parks sending r \<longrightarrow> sending pc)"

lemma not_both: "receiving pc \<Longrightarrow> \<not> sending pc"
  by (cases pc) simp_all

lemma parks_not_both: "parks receiving r \<Longrightarrow> \<not> parks sending r"
  by (cases "(receiving, r)" rule: parks.cases) (auto dest: not_both)

lemma guards_run: "keeps same_guards m \<Longrightarrow> m p = (r, p') \<Longrightarrow> p_recv_busy p' = p_recv_busy p \<and> p_send_busy p' = p_send_busy p"
  using keeps_snd [of same_guards m p] by (simp add: same_guards_def)

lemma parks_run: "parks_only P m \<Longrightarrow> m p = (r, p') \<Longrightarrow> parks Q r \<Longrightarrow> parks P r"
  by (cases r; cases "(Q, r)" rule: parks.cases) (auto simp: parks_only_def wp_def dest!: spec [of _ p])

lemma parks_split: "(\<exists>pc a. r = Inr (Park pc a) \<and> parks P r = P pc) \<or> (\<forall>Q. \<not> parks Q r) \<and> (\<forall>pc a. r \<noteq> Inr (Park pc a))"
  by (cases "(P, r)" rule: parks.cases) auto

lemma leave_recv_spec:
  assumes "keeps same_guards m" "parks_only receiving m" "leave_recv m p = (r, p')" "p_recv_busy p"
  shows "p_recv_busy p' = parks receiving r \<and> p_send_busy p' = p_send_busy p \<and> \<not> parks sending r"
proof -
  obtain p0 where run: "m p = (r, p0)"
    and p': "p' = (if parks receiving r then p0 else p0\<lparr>p_recv_busy := False\<rparr>)"
    using assms(3) parks_run [OF assms(2), of p _ _ "\<lambda>_. True"]
    by (fastforce simp: leave_recv_def split: prod.splits sum.splits progress.splits)
  have "parks sending r \<Longrightarrow> False"
    using parks_run [OF assms(2) run] parks_not_both by blast
  with guards_run [OF assms(1) run] p' assms(4) show ?thesis by auto
qed

lemma leave_send_spec:
  assumes "keeps same_guards m" "parks_only sending m" "leave_send m p = (r, p')" "p_send_busy p"
  shows "p_send_busy p' = parks sending r \<and> p_recv_busy p' = p_recv_busy p \<and> \<not> parks receiving r"
proof -
  obtain p0 where run: "m p = (r, p0)"
    and p': "p' = (if parks sending r then p0 else p0\<lparr>p_send_busy := False\<rparr>)"
    using assms(3) parks_run [OF assms(2), of p _ _ "\<lambda>_. True"]
    by (fastforce simp: leave_send_def split: prod.splits sum.splits progress.splits)
  have "parks receiving r \<Longrightarrow> False"
    using parks_run [OF assms(2) run] parks_not_both by blast
  with guards_run [OF assms(1) run] p' assms(4) show ?thesis by auto
qed

lemma enter_recv_spec:
  assumes "keeps same_guards m" "parks_only receiving m" "enter_recv m p = (r, p')"
  shows "guard_call p r p'"
proof (cases "p_recv_busy p")
  case True
  with assms(3) show ?thesis by (auto simp: enter_recv_def io_ctl_defs guard_call_def)
next
  case False
  with assms(3) have "leave_recv m (p\<lparr>p_recv_busy := True\<rparr>) = (r, p')"
    by (simp add: enter_recv_def io_ctl_defs)
  from leave_recv_spec [OF assms(1,2) this] False show ?thesis by (simp add: guard_call_def)
qed

lemma enter_send_spec:
  assumes "keeps same_guards m" "parks_only sending m" "enter_send m p = (r, p')"
  shows "guard_call p r p'"
proof (cases "p_send_busy p")
  case True
  with assms(3) show ?thesis by (auto simp: enter_send_def io_ctl_defs guard_call_def)
next
  case False
  with assms(3) have "leave_send m (p\<lparr>p_send_busy := True\<rparr>) = (r, p')"
    by (simp add: enter_send_def io_ctl_defs)
  from leave_send_spec [OF assms(1,2) this] False show ?thesis by (simp add: guard_call_def)
qed

lemma wp_wake [wp_simps]:
  "wp (case w of W_ready \<Rightarrow> m | W_throw e \<Rightarrow> h e) Q E s = (case w of W_ready \<Rightarrow> wp m Q E s | W_throw e \<Rightarrow> wp (h e) Q E s)"
  by (cases w) simp_all

lemma wp_const [simp]: "wp m (\<lambda>_ _. C) (\<lambda>_ _. C) s = C"
  by (simp add: wp_def split: prod.split sum.split)

lemma parks_onlyI: "(\<And>p. wp m (\<lambda>g _. case g of Park pc a \<Rightarrow> P pc | Return v \<Rightarrow> True) (\<lambda>_ _. True) p) \<Longrightarrow> parks_only P m"
  by (simp add: parks_only_def)

text \<open>Structural rules for \<open>parks_only\<close>: only the last step of a body can park.\<close>

lemma parks_only_bind:
  assumes "\<And>x. parks_only P (f x)"
  shows "parks_only P (io_bind m f)"
  unfolding parks_only_def wp_bind
proof (rule allI, rule wp_mono [OF wp_True])
  show "wp (f x) (\<lambda>g _. case g of Return v \<Rightarrow> True | Park pc a \<Rightarrow> P pc) (\<lambda>_ _. True) p" for x p
    using assms [of x] by (simp add: parks_only_def)
qed simp

lemma parks_only_rules:
  "parks_only P (io_raise e)"
  "parks_only P (io_return (Return v))"
  "P pc \<Longrightarrow> parks_only P (io_return (Park pc a))"
  "parks_only P m1 \<Longrightarrow> parks_only P (io_seq m2 m1)"
  "parks_only P m1 \<Longrightarrow> parks_only P m3 \<Longrightarrow> parks_only P (if b then m1 else m3)"
  "parks_only P m1 \<Longrightarrow> (\<And>y. parks_only P (h y)) \<Longrightarrow> parks_only P (case x of None \<Rightarrow> m1 | Some y \<Rightarrow> h y)"
  by (simp_all add: parks_only_bind io_seq_def split: option.split) (simp_all add: parks_only_def wp_simps)

lemma parks_only_break: "parks_only P (break_finally vt w)"
  by (cases w) (simp_all add: parks_only_def break_finally_def wp_simps)

lemma parks_only_bodies:
  "receiving pc \<Longrightarrow> parks_only receiving (read_step vt n wrap pc fd)"
  "parks_only receiving (available_step vt l fd)"
  "parks_only sending (send_step vt d k fd)"
  "parks_only sending (drain_poll vt bps)"
  "parks_only P (control_call vt m f)"
  "parks_only P (waiting_call vt m')"
  "parks_only P (configure_body vt c)"
  "parks_only P (close_body vt)"
  unfolding read_step_def available_step_def send_step_def drain_poll_def control_call_def waiting_call_def
    configure_body_def close_body_def Let_def
  by (intro parks_only_rules parks_only_bind; simp)+

text \<open>A whole method that respects the guards.\<close>

definition guarded :: "('b, progress) port_io \<Rightarrow> bool" where
  "guarded m \<longleftrightarrow> (\<forall>p r p'. m p = (r, p') \<longrightarrow> guard_call p r p')"

lemma guarded_plain:
  assumes "keeps same_guards m" "parks_only (\<lambda>pc. \<not> receiving pc \<and> \<not> sending pc) m"
  shows "guarded m"
  unfolding guarded_def
proof (intro allI impI)
  fix p r p' assume run: "m p = (r, p')"
  have "\<not> parks receiving r" "\<not> parks sending r"
    using parks_run [OF assms(2) run] by (cases "(receiving, r)" rule: parks.cases; auto)+
  with guards_run [OF assms(1) run] show "guard_call p r p'" by (simp add: guard_call_def)
qed

lemma guarded_rules:
  "keeps same_guards m \<Longrightarrow> parks_only receiving m \<Longrightarrow> guarded (enter_recv m)"
  "keeps same_guards m \<Longrightarrow> parks_only sending m \<Longrightarrow> guarded (enter_send m)"
  "guarded m \<Longrightarrow> guarded m' \<Longrightarrow> guarded (if b then m else m')"
  by (auto simp: guarded_def intro: enter_recv_spec enter_send_spec)

lemma guarded_get: "(\<And>x. guarded (f x)) \<Longrightarrow> guarded (io_bind (io_get g) f)"
  by (simp add: guarded_def io_bind_def io_get_def)

lemmas plain_rules = grd.keeps_control guards_bodies guards_on_backend parks_only_rules parks_only_bind parks_only_bodies

lemma guarded_raise: "guarded (io_raise e)"
  by (rule guarded_plain) (intro plain_rules)+

lemmas guard_rules = guarded_rules guarded_raise plain_rules

lemma guarded_starts:
  "guarded (start_receive vt n)" "guarded (start_receive_into vt k)" "guarded (start_receive_available vt l)"
  "guarded (start_drain vt)" "guarded (start_drain_exact vt)" "guarded (start_send_break vt f)"
  unfolding start_receive_def start_receive_into_def start_receive_available_def start_drain_def
    start_drain_exact_def start_send_break_def port_fileno_def translating_def
  by (intro guard_rules; simp)+

lemma guarded_start_send: "guarded (start_send vt d)"
proof (cases "d = []")
  case True
  show ?thesis
    unfolding start_send_def if_P [OF True] by (rule guarded_plain) (intro plain_rules)+
next
  case False
  show ?thesis
    unfolding start_send_def if_not_P [OF False] port_fileno_def by (intro guard_rules) simp
qed

lemmas starts = start_receive_def start_receive_into_def start_receive_available_def start_send_def
  start_drain_def start_drain_exact_def start_send_break_def start_send_eof_def

lemma start_guards: "guarded (start vt op)"
proof (cases op)
  case Op_send_eof
  have "guarded (io_return (Return v))" for v by (rule guarded_plain) (intro plain_rules)+
  then show ?thesis
    unfolding Op_send_eof start.simps start_send_eof_def by (intro guarded_get guarded_rules guarded_starts)
qed (simp_all add: guarded_starts guarded_start_send, (rule guarded_plain; intro plain_rules; simp)+)

lemma resume_guards:
  assumes "resume vt pc w p = (r, p')"
    and "receiving pc \<Longrightarrow> p_recv_busy p" and "sending pc \<Longrightarrow> p_send_busy p"
  shows "guard_resume pc p r p'"
proof -
  consider (r) m where "receiving pc" "resume vt pc w = leave_recv m" "keeps same_guards m" "parks_only receiving m"
    | (s) m where "sending pc" "resume vt pc w = leave_send m" "keeps same_guards m" "parks_only sending m"
    | (n) "\<not> receiving pc" "\<not> sending pc" "guarded (resume vt pc w)" "\<forall>P. parks_only P (resume vt pc w)"
  proof (cases pc)
    case At_break
    have "keeps same_guards (break_finally vt w)" "parks_only sending (break_finally vt w)"
      by (rule guards_bodies parks_only_break)+
    then show ?thesis using s [of "break_finally vt w"] At_break by simp
  next
    case (At_configure c)
    have "guarded (resume vt pc w)" "\<forall>P. parks_only P (resume vt pc w)"
      unfolding At_configure by (cases w; simp; intro allI plain_rules guarded_plain)+
    with n At_configure show ?thesis by simp
  next
    case At_close
    have "guarded (resume vt pc w)" "\<forall>P. parks_only P (resume vt pc w)"
      unfolding At_close by (cases w; simp; intro allI plain_rules guarded_plain)+
    with n At_close show ?thesis by simp
  next
    case (At_send d k fd)
    have "\<exists>m. resume vt pc w = leave_send m \<and> keeps same_guards m \<and> parks_only sending m"
      unfolding At_send by (cases w; simp; intro exI conjI, rule refl, (intro plain_rules; simp)+)
    then show ?thesis using s At_send by auto
  next
    case (At_drain bps)
    have "\<exists>m. resume vt pc w = leave_send m \<and> keeps same_guards m \<and> parks_only sending m"
      unfolding At_drain by (cases w; simp; intro exI conjI, rule refl, (intro plain_rules; simp)+)
    then show ?thesis using s At_drain by auto
  next
    case At_drain_exact
    have "\<exists>m. resume vt pc w = leave_send m \<and> keeps same_guards m \<and> parks_only sending m"
      unfolding At_drain_exact by (cases w; simp; intro exI conjI, rule refl, (intro plain_rules; simp)+)
    then show ?thesis using s At_drain_exact by auto
  qed (cases w; simp; rule r, simp, simp, (intro plain_rules; simp)+)+
  then show ?thesis
  proof cases
    case r
    with leave_recv_spec [of m p r p'] assms show ?thesis
      by (auto simp: guard_resume_def dest: not_both)
  next
    case s
    with leave_send_spec [of m p r p'] assms show ?thesis
      by (auto simp: guard_resume_def dest: not_both)
  next
    case n
    have "parks P r \<Longrightarrow> parks (\<lambda>_. False) r" for P
      by (rule parks_run [OF n(4) [THEN spec] assms(1)])
    then have np: "\<not> parks P r" for P using parks_split [of r "\<lambda>_. False"] by metis
    have "guard_call p r p'" using n(3) assms(1) by (simp add: guarded_def)
    with n(1,2) np show ?thesis by (simp add: guard_resume_def guard_call_def)
  qed
qed

subsection \<open>Relations that every call keeps\<close>

text \<open>
  \<open>R\<close> relates a port before and after anything that neither transfers bytes nor closes the backend. A
  call, up to its first \<open>await\<close>, keeps it; a resumption keeps it unless it stands at a read, a
  write or the close, where that step has to be shown to keep it.
\<close>

locale port_frame = frame R for R :: "'b port \<Rightarrow> 'b port \<Rightarrow> bool" +
  fixes vt :: "'b sync_backend"
  assumes recv_flag: "R p (p\<lparr>p_recv_busy := x\<rparr>)"
    and send_flag: "R p (p\<lparr>p_send_busy := x\<rparr>)"
    and config_field: "R p (p\<lparr>p_config := c\<rparr>)"
    and set_break: "keeps R (on_backend (bk_set_break vt on))"
    and output_waiting: "keeps R (on_backend (bk_output_waiting vt))"
    and input_waiting: "keeps R (on_backend (bk_input_waiting vt))"
    and configure: "keeps R (on_backend (bk_configure vt c))"
    and reset_input: "keeps R (on_backend (bk_reset_input_buffer vt))"
    and reset_output: "keeps R (on_backend (bk_reset_output_buffer vt))"
    and tcdrain: "keeps R (on_backend (bk_tcdrain_blocking vt))"
    and modem_lines: "keeps R (on_backend (bk_modem_lines vt))"
    and control_lines: "keeps R (on_backend (bk_set_control_lines vt rts dtr))"
begin

lemmas quiet_ops = set_break output_waiting input_waiting configure reset_input reset_output tcdrain
  modem_lines control_lines

lemma keeps_leave:
  assumes "keeps R m"
  shows "keeps R (leave_recv m)" "keeps R (leave_send m)"
proof -
  have "R p (snd (leave_recv m p))" for p
    using keeps_snd [OF assms, of p] recv_flag R_trans
    by (auto simp: leave_recv_def split: prod.splits sum.splits progress.splits)
  moreover have "R p (snd (leave_send m p))" for p
    using keeps_snd [OF assms, of p] send_flag R_trans
    by (auto simp: leave_send_def split: prod.splits sum.splits progress.splits)
  ultimately show "keeps R (leave_recv m)" "keeps R (leave_send m)"
    by (auto simp: keeps_def wp_def split: prod.splits sum.splits) (metis snd_conv)+
qed

lemma keeps_enter:
  assumes "keeps R m"
  shows "keeps R (enter_recv m)" "keeps R (enter_send m)"
  unfolding enter_recv_def enter_send_def
  by (intro keeps_control keeps_modify keeps_leave assms recv_flag send_flag)+

lemma keeps_bodies:
  "keeps R (raise_if_closed vt)"
  "keeps R (drain_poll vt bps)"
  "keeps R (break_finally vt w)"
  "keeps R (configure_body vt c)"
  "keeps R (on_backend m) \<Longrightarrow> keeps R (control_call vt m f)"
  "keeps R (on_backend m') \<Longrightarrow> keeps R (waiting_call vt m')"
  "keeps R (on_backend (bk_read vt n)) \<Longrightarrow> keeps R (read_step vt n wrap pc fd)"
  "(\<And>n. keeps R (on_backend (bk_read vt n))) \<Longrightarrow> keeps R (available_step vt l fd)"
  "(\<And>d. keeps R (on_backend (bk_write vt d))) \<Longrightarrow> keeps R (send_step vt d k fd)"
  unfolding step_defs by (intro keeps_control keeps_modify keeps_wake quiet_ops config_field; simp)+

lemma keeps_start: "keeps R (start vt op)"
  by (cases op; simp only: start.simps starts port_fileno_def translating_def;
      intro keeps_control keeps_enter keeps_bodies quiet_ops)

lemma keeps_resume:
  assumes "\<And>n. receiving pc \<Longrightarrow> keeps R (on_backend (bk_read vt n))"
    and "\<And>d d' k fd. pc = At_send d' k fd \<Longrightarrow> keeps R (on_backend (bk_write vt d))"
    and "pc = At_close \<Longrightarrow> keeps R (close_body vt)"
  shows "keeps R (resume vt pc w)"
  using assms
  by (cases pc; cases w; simp only: resume.simps receiving.simps;
      intro keeps_control keeps_leave keeps_bodies quiet_ops; simp)

end

end
