(* ===== verification/Port_Invariants.thy ===== *)
theory Port_Invariants
  imports Port_System
begin

section \<open>What holds of every reachable port\<close>

text \<open>
  Guards exclude concurrent readers and concurrent writers, the closed flag mirrors the backend, and
  every parked call knows exactly what it has transferred so far. The lemmas hold for every backend
  that satisfies \<open>sync_backend_laws\<close>; theory \<open>Port_Claims\<close> instantiates them.
\<close>

subsection \<open>At most one reader and one writer\<close>

definition count_pc :: "(pc \<Rightarrow> bool) \<Rightarrow> call list \<Rightarrow> nat" where
  "count_pc P ts = length (filter (\<lambda>t. P (t_pc t)) ts)"

fun guards_ok :: "'b system \<Rightarrow> bool" where
  "guards_ok (p, ts) \<longleftrightarrow> count_pc receiving ts = of_bool (p_recv_busy p)
     \<and> count_pc sending ts = of_bool (p_send_busy p)"

lemma count_pc_simps [simp]:
  "count_pc P [] = 0" "count_pc P (t # ts) = of_bool (P (t_pc t)) + count_pc P ts"
  "count_pc P (ts @ us) = count_pc P ts + count_pc P us"
  by (simp_all add: count_pc_def)

lemma count_parked [simp]: "count_pc P (parked_at t r) = of_bool (parks P r)"
  by (cases "(t, r)" rule: parked_at.cases) simp_all

lemma guards_step:
  assumes "port_step vt sent received good s l s'" "guards_ok s"
  shows "guards_ok s'"
  using assms(1)
proof cases
  case (call op p r p' ts)
  then have "guard_call p r p'" using start_guards [of vt op] by (simp add: guarded_def)
  with call assms(2) show ?thesis by (auto simp: guard_call_def)
next
  case (wake t w p r p' ts us)
  have "receiving (t_pc t) \<Longrightarrow> p_recv_busy p" "sending (t_pc t) \<Longrightarrow> p_send_busy p"
    using wake assms(2) by (auto simp: of_bool_def split: if_splits)
  then have "guard_resume (t_pc t) p r p'" by (rule resume_guards [OF wake(4)])
  with wake assms(2) show ?thesis
    by (auto simp: guard_resume_def of_bool_def split: if_splits dest: not_both)
next
  case (background p b ts)
  with assms(2) show ?thesis by simp
qed

lemma guards_reachable: "port_reachable vt sent received good s \<Longrightarrow> guards_ok s"
proof (induction rule: port_reachable.induct)
  case (opened b c)
  then show ?case by (simp add: new_port_def)
next
  case (step s l s')
  then show ?case using guards_step by blast
qed

subsection \<open>Frames of the laws\<close>

definition alive :: "'b sync_backend \<Rightarrow> ('b \<Rightarrow> bool) \<Rightarrow> 'b port \<Rightarrow> 'b port \<Rightarrow> bool" where
  "alive vt good p p' \<longleftrightarrow> p_closed p' = p_closed p \<and> lives_on vt good (p_backend p) (p_backend p')"

context sync_backend_laws
begin

lemmas steady_laws = set_break_law output_waiting_law input_waiting_law configure_law reset_input_law
  reset_output_law tcdrain_law modem_lines_law control_lines_law

lemma lift_steady:
  assumes "keeps (steady vt sent received good) m"
    and "\<And>p b. steady vt sent received good (p_backend p) b \<Longrightarrow> R p (p\<lparr>p_backend := b\<rparr>)"
  shows "keeps R (on_backend m)"
  by (rule keeps_on_backend [where R = "steady vt sent received good"]) (use assms in simp_all)

end

sublocale sync_backend_laws \<subseteq> snt: port_frame "\<lambda>p p'. sent (p_backend p') = sent (p_backend p)" vt
  by (unfold_locales; (rule lift_steady, rule steady_laws)?; simp add: steady_def moves_nothing_def)

sublocale sync_backend_laws \<subseteq> rcv: port_frame "\<lambda>p p'. received (p_backend p') = received (p_backend p)" vt
  by (unfold_locales; (rule lift_steady, rule steady_laws)?; simp add: steady_def moves_nothing_def)

sublocale sync_backend_laws \<subseteq> alv: port_frame "alive vt good" vt
  by (unfold_locales; (rule lift_steady, rule steady_laws)?; simp add: steady_def alive_def lives_on_def)

subsection \<open>Closed means closed\<close>

definition lifecycle_ok :: "'b sync_backend \<Rightarrow> ('b \<Rightarrow> bool) \<Rightarrow> 'b port \<Rightarrow> bool" where
  "lifecycle_ok vt good p \<longleftrightarrow> good (p_backend p) \<and> (p_closed p \<longleftrightarrow> \<not> bk_is_open vt (p_backend p))"

lemma alive_lifecycle: "alive vt good p p' \<Longrightarrow> lifecycle_ok vt good p \<Longrightarrow> lifecycle_ok vt good p'"
  by (auto simp: alive_def lives_on_def lifecycle_ok_def)

context sync_backend_laws
begin

lemma read_keeps:
  "keeps (\<lambda>p p'. sent (p_backend p') = sent (p_backend p)) (on_backend (bk_read vt n))"
  "keeps (alive vt good) (on_backend (bk_read vt n))"
  by (rule keepsI, unfold wp_on_backend, rule wp_mono [OF read_law];
      simp add: steady_def moves_nothing_def alive_def lives_on_def)+

lemma write_keeps:
  "keeps (\<lambda>p p'. received (p_backend p') = received (p_backend p)) (on_backend (bk_write vt d))"
  "keeps (alive vt good) (on_backend (bk_write vt d))"
  by (rule keepsI, unfold wp_on_backend, rule wp_mono [OF write_law];
      simp add: steady_def moves_nothing_def alive_def lives_on_def)+

lemma close_body_wp:
  assumes "good (p_backend p)"
  shows "wp (close_body vt)
    (\<lambda>g p'. g = Return V_unit \<and> p_closed p' \<and> (p_closed p \<longrightarrow> p' = p)
       \<and> (\<not> p_closed p \<longrightarrow> \<not> bk_is_open vt (p_backend p')) \<and> good (p_backend p')
       \<and> moves_nothing sent received (p_backend p) (p_backend p'))
    (\<lambda>e p'. p_closed p' \<and> \<not> p_closed p \<and> \<not> bk_is_open vt (p_backend p') \<and> good (p_backend p')
       \<and> moves_nothing sent received (p_backend p) (p_backend p')) p"
proof -
  have c: "wp (bk_close vt)
      (\<lambda>_ b'. \<not> bk_is_open vt b' \<and> good b' \<and> moves_nothing sent received (p_backend p) b')
      (\<lambda>_ b'. \<not> bk_is_open vt b' \<and> good b' \<and> moves_nothing sent received (p_backend p) b') (p_backend p)"
    by (rule close_law [OF assms])
  show ?thesis
  proof (cases "p_closed p")
    case True
    then show ?thesis using assms by (simp add: close_body_def wp_simps moves_nothing_def)
  next
    case False
    have *: "p_backend (p\<lparr>p_closed := True\<rparr>) = p_backend p" by simp
    show ?thesis
      unfolding close_body_def wp_bind wp_get wp_if if_not_P [OF False] wp_seq wp_modify wp_on_backend * wp_return
      by (rule wp_mono [OF c]) (simp_all add: False)
  qed
qed

lemma lifecycle_resume:
  assumes "lifecycle_ok vt good p" "resume vt pc w p = (r, p')"
  shows "lifecycle_ok vt good p' \<and> (p_closed p \<longrightarrow> p_closed p')"
proof (cases "pc = At_close \<and> w = W_ready")
  case True
  with assms(2) have run: "close_body vt p = (r, p')" by simp
  from assms(1) have "good (p_backend p)" by (simp add: lifecycle_ok_def)
  from close_body_wp [OF this] run assms(1) show ?thesis
    by (cases r) (auto simp: wp_def lifecycle_ok_def)
next
  case False
  have "alive vt good p (snd (resume vt pc w p))"
  proof (cases "pc = At_close")
    case True
    with False show ?thesis by (cases w) (simp_all add: io_raise_def alv.R_refl)
  next
    case ne: False
    have "keeps (alive vt good) (resume vt pc w)"
      by (rule alv.keeps_resume) (simp_all add: read_keeps write_keeps ne)
    then show ?thesis by (rule keeps_snd)
  qed
  with assms show ?thesis using alive_lifecycle by (auto simp: alive_def)
qed

lemma lifecycle_step:
  assumes "port_step vt sent received good s l s'" "lifecycle_ok vt good (fst s)"
  shows "lifecycle_ok vt good (fst s') \<and> (p_closed (fst s) \<longrightarrow> p_closed (fst s'))"
  using assms(1)
proof cases
  case (call op p r p' ts)
  with keeps_snd [OF alv.keeps_start, of p op] have "alive vt good p p'" by simp
  with call assms(2) show ?thesis using alive_lifecycle by (auto simp: alive_def)
next
  case (wake t w p r p' ts us)
  with lifecycle_resume assms(2) show ?thesis by auto
next
  case (background p b ts)
  then have "alive vt good p (p\<lparr>p_backend := b\<rparr>)" by (simp add: alive_def steady_def)
  from alive_lifecycle [OF this] background assms(2) show ?thesis by simp
qed

lemma lifecycle_reachable: "port_reachable vt sent received good s \<Longrightarrow> lifecycle_ok vt good (fst s)"
proof (induction rule: port_reachable.induct)
  case (opened b c)
  then show ?case by (simp add: new_port_def lifecycle_ok_def)
next
  case (step s l s')
  then show ?case using lifecycle_step by blast
qed

end

subsection \<open>What a call has transferred so far\<close>

text \<open>A parked call is at a program counter of its own operation, and what it has moved since it was made is known.\<close>

fun call_at :: "op \<Rightarrow> pc \<Rightarrow> bool" where
  "call_at op (At_receive n fd) \<longleftrightarrow> op = Op_receive (int n) \<and> 0 < n"
| "call_at op (At_receive_into n fd) \<longleftrightarrow> op = Op_receive_into n \<and> 0 < n"
| "call_at op (At_available l fd) \<longleftrightarrow> op = Op_receive_available l"
| "call_at op (At_available_again n fd) \<longleftrightarrow>
     (\<exists>l. op = Op_receive_available l \<and> 0 < n \<and> (\<forall>k. l = Some k \<longrightarrow> int n \<le> k))"
| "call_at op (At_send d k fd) \<longleftrightarrow> op = Op_send d \<and> k < length d"
| "call_at op (At_drain bps) \<longleftrightarrow> op \<in> {Op_drain, Op_send_eof} \<and> 0 < bps"
| "call_at op At_drain_exact \<longleftrightarrow> op = Op_drain_exact"
| "call_at op At_break \<longleftrightarrow> (\<exists>f. op = Op_send_break f)"
| "call_at op (At_configure c) \<longleftrightarrow> op = Op_configure c"
| "call_at op At_close \<longleftrightarrow> op = Op_aclose"

definition call_ok :: "('b \<Rightarrow> bytes) \<Rightarrow> ('b \<Rightarrow> bytes) \<Rightarrow> 'b port \<Rightarrow> call \<Rightarrow> bool" where
  "call_ok sent received p t \<longleftrightarrow> call_at (t_op t) (t_pc t)
     \<and> (receiving (t_pc t) \<longrightarrow> received (p_backend p) = t_received t)
     \<and> (\<forall>d k fd. t_pc t = At_send d k fd \<longrightarrow> sent (p_backend p) = t_sent t @ take k d)"

text \<open>What the outcome of a call says about the bytes of its operation.\<close>

definition sent_exactly :: "('b \<Rightarrow> bytes) \<Rightarrow> bytes \<Rightarrow> bytes \<Rightarrow> exn + progress \<Rightarrow> 'b port \<Rightarrow> bool" where
  "sent_exactly sent base d r p' \<longleftrightarrow>
     (case r of
        Inr (Return v) \<Rightarrow> v = V_unit \<and> sent (p_backend p') = base @ d
      | Inr (Park pc a) \<Rightarrow> \<exists>k fd. pc = At_send d k fd \<and> a = A_writable fd \<and> k < length d \<and> sent (p_backend p') = base @ take k d
      | Inl e \<Rightarrow> \<exists>k<length d. sent (p_backend p') = base @ take k d)"

definition received_exactly :: "('b \<Rightarrow> bytes) \<Rightarrow> bytes \<Rightarrow> nat \<Rightarrow> (bytes \<Rightarrow> outcome) \<Rightarrow> pc \<Rightarrow> exn + progress \<Rightarrow> 'b port \<Rightarrow> bool" where
  "received_exactly received base n wrap again r p' \<longleftrightarrow>
     (case r of
        Inr (Return v) \<Rightarrow> \<exists>bs. v = wrap bs \<and> bs \<noteq> [] \<and> length bs \<le> n \<and> received (p_backend p') = base @ bs
      | Inr (Park pc a) \<Rightarrow> pc = again \<and> received (p_backend p') = base
      | Inl e \<Rightarrow> received (p_backend p') = base)"

lemma leave_run:
  "leave_recv m p = (r, p') \<Longrightarrow> \<exists>p0. m p = (r, p0) \<and> p_backend p' = p_backend p0 \<and> p_config p' = p_config p0"
  "leave_send m p = (r, p') \<Longrightarrow> \<exists>p0. m p = (r, p0) \<and> p_backend p' = p_backend p0 \<and> p_config p' = p_config p0"
  by (auto simp: leave_recv_def leave_send_def split: prod.splits sum.splits progress.splits)

text \<open>A property of the outcome that only looks at the backend and the configuration.\<close>

definition data_only :: "(exn + progress \<Rightarrow> 'b port \<Rightarrow> bool) \<Rightarrow> bool" where
  "data_only X \<longleftrightarrow> (\<forall>r p p'. p_backend p' = p_backend p \<longrightarrow> p_config p' = p_config p \<longrightarrow> X r p \<longrightarrow> X r p')"

lemma data_only_exactly: "data_only (sent_exactly sent base d)" "data_only (received_exactly received base n wrap again)"
  by (auto simp: data_only_def sent_exactly_def received_exactly_def split: sum.splits progress.splits)

lemma raise_if_closed_run:
  "io_seq (raise_if_closed vt) m p = (if p_closed p then (Inl (closed_error vt p), p) else m p)"
  by (simp add: raise_if_closed_def io_ctl_defs)

lemma wp_run: "wp m (\<lambda>x. P (Inr x)) (\<lambda>e. P (Inl e)) p \<Longrightarrow> m p = (r, p') \<Longrightarrow> P r p'"
  by (cases r) (simp_all add: wp_def)

context sync_backend_laws
begin

lemma send_step_exact:
  assumes "k < length d" "sent (p_backend p) = base @ take k d"
  shows "wp (send_step vt d k fd) (\<lambda>g. sent_exactly sent base d (Inr g)) (\<lambda>e. sent_exactly sent base d (Inl e)) p"
  unfolding send_step_def attempt_def translating_def wp_bind wp_try wp_on_backend wp_return wp_if wp_raise wp_get
proof (rule wp_mono [OF write_law], goal_cases)
  case (1 n b')
  then have "sent b' = base @ take (k + n) d" using assms(2) by (simp add: take_add)
  then show ?case using 1 assms(1) by (simp add: sent_exactly_def Let_def wp_simps)
next
  case (2 e b')
  then have "sent b' = base @ take k d" using assms(2) by (simp add: steady_def moves_nothing_def)
  then show ?case using assms(1) by (auto simp: sent_exactly_def Let_def wp_simps)
qed

lemma read_step_exact:
  assumes "received (p_backend p) = base"
  shows "wp (read_step vt n wrap again fd) (\<lambda>g. received_exactly received base n wrap again (Inr g))
           (\<lambda>e. received_exactly received base n wrap again (Inl e)) p"
  unfolding read_step_def attempt_def translating_def wp_bind wp_try wp_on_backend wp_return wp_if wp_raise wp_get
proof (rule wp_mono [OF read_law], goal_cases)
  case (1 bs b')
  then show ?case using assms by (simp add: received_exactly_def wp_simps)
next
  case (2 e b')
  then show ?case using assms by (simp add: received_exactly_def wp_simps steady_def moves_nothing_def)
qed

end

text \<open>Where a call parks first.\<close>

lemma parks_only_leave:
  "parks_only P m \<Longrightarrow> parks_only P (leave_recv m)" "parks_only P m \<Longrightarrow> parks_only P (leave_send m)"
  by (auto simp: parks_only_def wp_def leave_recv_def leave_send_def
        split: prod.splits sum.splits progress.splits)

lemma parks_only_enter:
  "parks_only P m \<Longrightarrow> parks_only P (enter_recv m)" "parks_only P m \<Longrightarrow> parks_only P (enter_send m)"
  unfolding enter_recv_def enter_send_def by (intro parks_only_rules parks_only_bind parks_only_leave; assumption)+

lemma parks_only_run: "parks_only P m \<Longrightarrow> m p = (Inr (Park pc a), p') \<Longrightarrow> P pc"
  by (auto simp: parks_only_def wp_def dest: spec [of _ p])

definition first_at :: "op \<Rightarrow> pc \<Rightarrow> bool" where
  "first_at op pc \<longleftrightarrow> call_at op pc \<and> (\<forall>d k fd. pc = At_send d k fd \<longrightarrow> k = 0)"

lemma parks_only_drain: "P (At_drain bps) \<Longrightarrow> parks_only P (drain_poll vt bps)"
  unfolding drain_poll_def by (intro parks_only_rules parks_only_bind)

lemma parks_only_start_drain:
  fixes vt :: "'b sync_backend"
  assumes P: "\<And>bps. 0 < bps \<Longrightarrow> P (At_drain bps)"
  shows "parks_only P (start_drain vt)"
proof -
  have "parks_only P (io_bind (io_get (\<lambda>p :: 'b port. max (cfg_baudrate (p_config p) div 10) 1)) (drain_poll vt))"
    unfolding parks_only_def wp_bind wp_get
  proof
    fix p :: "'b port"
    have "parks_only P (drain_poll vt (max (cfg_baudrate (p_config p) div 10) 1))"
      by (rule parks_only_drain) (simp add: P)
    then show "wp (drain_poll vt (max (cfg_baudrate (p_config p) div 10) 1))
        (\<lambda>g _. case g of Return v \<Rightarrow> True | Park pc a \<Rightarrow> P pc) (\<lambda>_ _. True) p"
      by (simp add: parks_only_def)
  qed
  then show "parks_only P (start_drain vt)"
    unfolding start_drain_def by (intro parks_only_enter parks_only_rules)
qed

lemma start_parks: "parks_only (first_at op) (start vt op)"
proof (cases op)
  case (Op_receive n)
  then show ?thesis
    by (cases "n \<le> 0") (simp_all add: start_receive_def port_fileno_def parks_only_rules parks_only_bind
        parks_only_enter first_at_def)
next
  case (Op_receive_into n)
  then show ?thesis
    by (cases n) (simp_all add: start_receive_into_def port_fileno_def parks_only_rules parks_only_bind
        parks_only_enter first_at_def)
next
  case (Op_receive_available l)
  then show ?thesis
    by (simp add: start_receive_available_def port_fileno_def parks_only_rules parks_only_bind
        parks_only_enter first_at_def)
next
  case (Op_send d)
  then show ?thesis
    by (cases d) (simp_all add: start_send_def port_fileno_def parks_only_rules parks_only_bind
        parks_only_enter first_at_def)
next
  case Op_send_eof
  then show ?thesis
    by (simp add: parks_only_start_drain parks_only_rules parks_only_bind first_at_def)
next
  case Op_drain
  then show ?thesis
    by (simp add: parks_only_start_drain parks_only_rules parks_only_bind first_at_def)
next
  case Op_drain_exact
  then show ?thesis
    by (simp add: start_drain_exact_def parks_only_rules parks_only_enter first_at_def)
next
  case (Op_send_break f)
  then show ?thesis
    by (simp add: start_send_break_def parks_only_rules parks_only_enter first_at_def)
qed (simp_all add: parks_only_rules parks_only_bodies first_at_def)

text \<open>The outcome of a resumed \<open>receive_available\<close>.\<close>

definition available_fits :: "int option \<Rightarrow> serial_config \<Rightarrow> bytes \<Rightarrow> bool" where
  "available_fits l c bs \<longleftrightarrow> (\<forall>k. l = Some k \<longrightarrow> int (length bs) \<le> max k 0)
     \<and> (bs = [] \<longrightarrow> (\<exists>k\<le>0. l = Some k) \<or> cfg_read_chunk_size c \<le> 0)"

definition available_exactly ::
    "('b \<Rightarrow> bytes) \<Rightarrow> bytes \<Rightarrow> int option \<Rightarrow> exn + progress \<Rightarrow> 'b port \<Rightarrow> bool" where
  "available_exactly received base l r p' \<longleftrightarrow>
     (case r of
        Inr (Return v) \<Rightarrow> \<exists>bs. v = V_bytes bs \<and> received (p_backend p') = base @ bs
          \<and> available_fits l (p_config p') bs
      | Inr (Park pc a) \<Rightarrow> \<exists>n fd. pc = At_available_again n fd \<and> 0 < n \<and> (\<forall>k. l = Some k \<longrightarrow> int n \<le> k)
          \<and> received (p_backend p') = base
      | Inl e \<Rightarrow> received (p_backend p') = base)"

lemma data_only_available: "data_only (available_exactly received base l)"
  by (auto simp: data_only_def available_exactly_def split: sum.splits progress.splits)

lemma exactly_available:
  assumes "received_exactly received base n V_bytes (At_available_again n fd) r p'"
    and "0 < n" "\<And>k. l = Some k \<Longrightarrow> int n \<le> k"
  shows "available_exactly received base l r p'"
proof (cases r)
  case (Inl e)
  with assms(1) show ?thesis by (simp add: received_exactly_def available_exactly_def)
next
  case (Inr g)
  with assms show ?thesis
    by (cases g) (fastforce simp: received_exactly_def available_exactly_def available_fits_def)+
qed

lemma available_size_bounds:
  "0 < available_size w c l \<Longrightarrow> l = Some k \<Longrightarrow> available_size w c l \<le> k"
  "available_size w c l \<le> 0 \<Longrightarrow> (\<exists>k\<le>0. l = Some k) \<or> c \<le> 0"
  by (auto simp: available_size_def Let_def min_def split: option.splits if_splits)

context sync_backend_laws
begin

lemma available_step_exact:
  assumes "received (p_backend p) = base"
  shows "wp (available_step vt l fd) (\<lambda>g. available_exactly received base l (Inr g))
           (\<lambda>e. available_exactly received base l (Inl e)) p"
  unfolding available_step_def wp_bind wp_on_backend wp_get
proof (rule wp_mono [OF keeps_wp [OF input_waiting_law]], goal_cases)
  case (1 w b')
  let ?p = "p\<lparr>p_backend := b'\<rparr>" and ?n = "available_size w (cfg_read_chunk_size (p_config p)) l"
  from 1 assms have r: "received (p_backend ?p) = base" by (simp add: steady_def moves_nothing_def)
  show ?case
  proof (cases "?n \<le> 0")
    case True
    then show ?thesis
      using r available_size_bounds(2) [OF True]
      by (auto simp: Let_def wp_simps available_exactly_def available_fits_def)
  next
    case False
    have "wp (read_step vt (nat ?n) V_bytes (At_available_again (nat ?n) fd) fd)
        (\<lambda>g. available_exactly received base l (Inr g)) (\<lambda>e. available_exactly received base l (Inl e)) ?p"
      by (rule wp_mono [OF read_step_exact [OF r]]; erule exactly_available)
        (use False available_size_bounds(1) in auto)
    with False show ?thesis by (simp add: Let_def)
  qed
next
  case (2 e b')
  with assms show ?case by (simp add: available_exactly_def steady_def moves_nothing_def)
qed

end

subsection \<open>Every parked call is right about itself\<close>

fun calls_ok :: "('b \<Rightarrow> bytes) \<Rightarrow> ('b \<Rightarrow> bytes) \<Rightarrow> 'b system \<Rightarrow> bool" where
  "calls_ok sent received (p, ts) \<longleftrightarrow> (\<forall>t\<in>set ts. call_ok sent received p t)"

text \<open>The outcome a resumed call must have, by where it was parked.\<close>

fun resume_exact :: "('b \<Rightarrow> bytes) \<Rightarrow> ('b \<Rightarrow> bytes) \<Rightarrow> call \<Rightarrow> pc \<Rightarrow> exn + progress \<Rightarrow> 'b port \<Rightarrow> bool" where
  "resume_exact sent received t (At_send d k fd) r p' = sent_exactly sent (t_sent t) d r p'"
| "resume_exact sent received t (At_receive n fd) r p' =
     received_exactly received (t_received t) n V_bytes (At_receive n fd) r p'"
| "resume_exact sent received t (At_receive_into n fd) r p' =
     received_exactly received (t_received t) n V_into (At_receive_into n fd) r p'"
| "resume_exact sent received t (At_available l fd) r p' = available_exactly received (t_received t) l r p'"
| "resume_exact sent received t (At_available_again n fd) r p' =
     received_exactly received (t_received t) n V_bytes (At_available_again n fd) r p'"
| "resume_exact sent received t (At_drain bps) r p' = (\<forall>pc a. r = Inr (Park pc a) \<longrightarrow> pc = At_drain bps)"
| "resume_exact sent received t _ r p' = (\<forall>pc a. r \<noteq> Inr (Park pc a))"

context sync_backend_laws
begin

lemma resumed_body:
  assumes "m (io_seq (raise_if_closed vt) body) p = (r, p')" and "m = leave_recv \<or> m = leave_send"
    and "wp body (\<lambda>g. X (Inr g)) (\<lambda>e. X (Inl e)) p" and "\<And>e. X (Inl e) p" and "data_only X"
  shows "X r p'"
proof -
  from assms(1,2) obtain p0 where run: "io_seq (raise_if_closed vt) body p = (r, p0)"
    and eq: "p_backend p' = p_backend p0" "p_config p' = p_config p0"
    using leave_run by blast
  have "X r p0"
    using run wp_run [where P = X, OF assms(3)] assms(4) by (auto simp: raise_if_closed_run split: if_splits)
  with eq assms(5) show ?thesis by (simp add: data_only_def)
qed

lemma resumed_throw:
  assumes "m (io_raise e) p = (r, p')" and "m = leave_recv \<or> m = leave_send" and "X (Inl e) p" "data_only X"
  shows "X r p'"
  using assms leave_run [of "io_raise e" p r p'] by (auto simp: io_raise_def data_only_def)

lemma resumed:
  assumes ok: "call_ok sent received p t" and run: "resume vt (t_pc t) w p = (r, p')"
  shows "resume_exact sent received t (t_pc t) r p'"
proof -
  have thrown: "received_exactly received base n wrap again (Inl e) p"
    if "received (p_backend p) = base" for base n wrap again e using that by (simp add: received_exactly_def)
  show ?thesis
  proof (cases "t_pc t")
    case (At_send d k fd)
    then have k: "k < length d" "sent (p_backend p) = t_sent t @ take k d"
      using ok by (auto simp: call_ok_def)
    then have "sent_exactly sent (t_sent t) d (Inl e) p" for e by (auto simp: sent_exactly_def)
    with run At_send show ?thesis
      by (cases w) (auto intro: resumed_body [OF _ disjI2 [OF refl] send_step_exact [OF k]]
          resumed_throw [where m = leave_send] data_only_exactly)
  next
    case (At_receive n fd)
    then have k: "received (p_backend p) = t_received t" using ok by (simp add: call_ok_def)
    with run At_receive thrown [OF k] show ?thesis
      by (cases w) (auto intro: resumed_body [OF _ disjI1 [OF refl] read_step_exact [OF k]]
          resumed_throw [where m = leave_recv] data_only_exactly)
  next
    case (At_receive_into n fd)
    then have k: "received (p_backend p) = t_received t" using ok by (simp add: call_ok_def)
    with run At_receive_into thrown [OF k] show ?thesis
      by (cases w) (auto intro: resumed_body [OF _ disjI1 [OF refl] read_step_exact [OF k]]
          resumed_throw [where m = leave_recv] data_only_exactly)
  next
    case (At_available_again n fd)
    then have k: "received (p_backend p) = t_received t" using ok by (simp add: call_ok_def)
    with run At_available_again thrown [OF k] show ?thesis
      by (cases w) (auto intro: resumed_body [OF _ disjI1 [OF refl] read_step_exact [OF k]]
          resumed_throw [where m = leave_recv] data_only_exactly)
  next
    case (At_available l fd)
    then have k: "received (p_backend p) = t_received t" using ok by (simp add: call_ok_def)
    then have "available_exactly received (t_received t) l (Inl e) p" for e by (simp add: available_exactly_def)
    with run At_available show ?thesis
      by (cases w) (auto intro: resumed_body [OF _ disjI1 [OF refl] available_step_exact [OF k]]
          resumed_throw [where m = leave_recv] data_only_available)
  next
    case (At_drain bps)
    have "parks_only (\<lambda>pc. pc = At_drain bps) (resume vt (At_drain bps) w)"
      by (cases w) (simp_all add: parks_only_leave parks_only_drain parks_only_rules)
    from parks_only_run [OF this] run At_drain show ?thesis by auto
  next
    case At_drain_exact
    have "parks_only (\<lambda>_. False) (resume vt At_drain_exact w)"
      by (cases w) (simp_all add: parks_only_leave parks_only_rules)
    from parks_only_run [OF this] run At_drain_exact show ?thesis by auto
  next
    case At_break
    have "parks_only (\<lambda>_. False) (resume vt At_break w)"
      by (simp add: parks_only_leave parks_only_break)
    from parks_only_run [OF this] run At_break show ?thesis by auto
  next
    case (At_configure c)
    have "parks_only (\<lambda>_. False) (resume vt (At_configure c) w)"
      by (cases w) (simp_all add: parks_only_bodies parks_only_rules)
    from parks_only_run [OF this] run At_configure show ?thesis by auto
  next
    case At_close
    have "parks_only (\<lambda>_. False) (resume vt At_close w)"
      by (cases w) (simp_all add: parks_only_bodies parks_only_rules)
    from parks_only_run [OF this] run At_close show ?thesis by auto
  qed
qed

lemma parked_call_ok:
  assumes "resume_exact sent received t (t_pc t) r p'" "call_ok sent received p t" "t' \<in> set (parked_at t r)"
  shows "call_ok sent received p' t'"
proof -
  from assms(3) obtain pc a where r: "r = Inr (Park pc a)" and t': "t' = t\<lparr>t_pc := pc\<rparr>"
    by (cases "(t, r)" rule: parked_at.cases) auto
  show ?thesis
    using assms(1,2) unfolding r t'
    by (cases "t_pc t") (auto simp: call_ok_def sent_exactly_def received_exactly_def available_exactly_def)
qed

lemma start_same_data:
  assumes "start vt op p = (r, p')"
  shows "sent (p_backend p') = sent (p_backend p)" "received (p_backend p') = received (p_backend p)"
  using keeps_snd [OF snt.keeps_start, where s = p] keeps_snd [OF rcv.keeps_start, where s = p] assms
  by (metis snd_conv)+

lemma resume_same_data:
  assumes good: "good (p_backend p)" and run: "resume vt pc w p = (r, p')"
  shows "(\<And>d k fd. pc \<noteq> At_send d k fd) \<Longrightarrow> sent (p_backend p') = sent (p_backend p)"
    and "\<not> receiving pc \<Longrightarrow> received (p_backend p') = received (p_backend p)"
proof -
  have close: "sent (p_backend p') = sent (p_backend p) \<and> received (p_backend p') = received (p_backend p)"
    if "pc = At_close"
  proof (cases w)
    case W_ready
    with run that have "close_body vt p = (r, p')" by simp
    with close_body_wp [OF good] show ?thesis by (cases r) (auto simp: wp_def moves_nothing_def)
  next
    case (W_throw e)
    with run that show ?thesis by (simp add: io_raise_def)
  qed
  show "sent (p_backend p') = sent (p_backend p)" if "\<And>d k fd. pc \<noteq> At_send d k fd"
  proof (cases "pc = At_close")
    case False
    have "keeps (\<lambda>p p'. sent (p_backend p') = sent (p_backend p)) (resume vt pc w)"
      by (rule snt.keeps_resume) (simp_all add: read_keeps that False)
    from keeps_snd [OF this, of p] run show ?thesis by simp
  qed (use close in simp)
  show "received (p_backend p') = received (p_backend p)" if "\<not> receiving pc"
  proof (cases "pc = At_close")
    case False
    have "keeps (\<lambda>p p'. received (p_backend p') = received (p_backend p)) (resume vt pc w)"
      by (rule rcv.keeps_resume) (simp_all add: write_keeps that False)
    from keeps_snd [OF this, of p] run show ?thesis by simp
  qed (use close in simp)
qed

lemma calls_step:
  assumes "port_step vt sent received good s l s'" "guards_ok s" "calls_ok sent received s"
    and "good (p_backend (fst s))"
  shows "calls_ok sent received s'"
  using assms(1)
proof cases
  case (call op p r p' ts)
  note same = start_same_data [OF call(4)]
  let ?t = "\<lparr>t_op = op, t_pc = At_close, t_sent = sent (p_backend p), t_received = received (p_backend p)\<rparr>"
  have "call_ok sent received p' t'" if t': "t' \<in> set (parked_at ?t r)" for t'
  proof -
    from t' obtain pc a where r: "r = Inr (Park pc a)" and t': "t' = ?t\<lparr>t_pc := pc\<rparr>"
      by (cases "(?t, r)" rule: parked_at.cases) auto
    have "first_at op pc" by (rule parks_only_run [OF start_parks]) (use call r in simp)
    then show ?thesis using same by (auto simp: t' call_ok_def first_at_def)
  qed
  with call assms(3) same show ?thesis by (auto simp: call_ok_def)
next
  case (background p b ts)
  with assms(3) show ?thesis by (auto simp: call_ok_def steady_def moves_nothing_def)
next
  case (wake t w p r p' ts us)
  have ok: "call_ok sent received p t" using wake assms(3) by simp
  have "call_ok sent received p' t'" if t': "t' \<in> set (parked_at t r)" for t'
    by (rule parked_call_ok [OF resumed [OF ok wake(4)] ok t'])
  moreover have "call_ok sent received p' t'" if t': "t' \<in> set ts \<union> set us" for t'
  proof -
    from t' wake assms(3) have ok': "call_ok sent received p t'" by auto
    have one: "\<not> P (t_pc t)" if "P (t_pc t')" "count_pc P (ts @ t # us) \<le> 1" for P
    proof
      assume "P (t_pc t)"
      with that(2) have "count_pc P ts = 0" "count_pc P us = 0" by simp_all
      with that(1) t' show False by (auto simp: count_pc_def filter_empty_conv)
    qed
    have "count_pc receiving (ts @ t # us) \<le> 1" "count_pc sending (ts @ t # us) \<le> 1"
      using wake assms(2) by simp_all
    note excl = one [OF _ this(1)] one [OF _ this(2)]
    have good: "good (p_backend p)" using wake assms(4) by simp
    have "received (p_backend p') = received (p_backend p)" if "receiving (t_pc t')"
      by (rule resume_same_data(2) [OF good wake(4) excl(1) [OF that]])
    moreover have "sent (p_backend p') = sent (p_backend p)" if "t_pc t' = At_send d k fd" for d k fd
      by (rule resume_same_data(1) [OF good wake(4)]) (use excl(2) that in auto)
    ultimately show ?thesis using ok' by (auto simp: call_ok_def)
  qed
  ultimately show ?thesis using wake by auto
qed

lemma calls_reachable: "port_reachable vt sent received good s \<Longrightarrow> calls_ok sent received s"
proof (induction rule: port_reachable.induct)
  case (opened b c)
  then show ?case by simp
next
  case (step s l s')
  then show ?case
    using calls_step guards_reachable lifecycle_reachable by (metis lifecycle_ok_def)
qed

end

end
