(* ===== verification/Port_Claims.thy ===== *)
theory Port_Claims
  imports Port_Invariants
begin

section \<open>The async port on the Linux backend\<close>

text \<open>
  The invariants of theory \<open>Port_Invariants\<close>, instantiated at the Linux backend for every host and
  kernel, and the laws of single operations that hold for every backend.
\<close>

abbreviation linux_reachable :: "termios_mod \<Rightarrow> 'k linux_backend_scheme system \<Rightarrow> bool" where
  "linux_reachable m \<equiv> port_reachable (linux_vt m) log_sent log_received linux_wf"

abbreviation linux_port_step ::
    "termios_mod \<Rightarrow> 'k linux_backend_scheme system \<Rightarrow> label \<Rightarrow> 'k linux_backend_scheme system \<Rightarrow> bool" where
  "linux_port_step m \<equiv> port_step (linux_vt m) log_sent log_received linux_wf"

text \<open>A call that wakes and, if it is at a read or a write, its operation.\<close>

lemma woken_ok:
  assumes "linux_reachable m s" "linux_port_step m s (Woken t w r) s'"
  obtains p p' where "fst s = p" "fst s' = p'" "call_ok log_sent log_received p t"
    "resume (linux_vt m) (t_pc t) w p = (r, p')"
  using assms(2)
proof cases
  case (wake p p' ts us)
  with linux.calls_reachable [OF assms(1)] have "call_ok log_sent log_received p t" by simp
  with wake that show ?thesis by simp
qed

lemma send_pc: "call_at (Op_send d) pc \<Longrightarrow> \<exists>k fd. pc = At_send d k fd \<and> k < length d"
  by (cases pc) auto

subsection \<open>A concrete run\<close>

definition demo_port :: "linux_backend port" where
  "demo_port = new_port ((linux_init good_env [])\<lparr>pb_fd := 3\<rparr>) default_config"

definition demo_call :: "op \<Rightarrow> pc \<Rightarrow> call" where
  "demo_call op pc = \<lparr>t_op = op, t_pc = pc, t_sent = [], t_received = []\<rparr>"

lemma demo_reachable: "linux_reachable m (demo_port, [])"
  unfolding demo_port_def
  by (rule port_reachable.opened) (simp_all add: linux_init_def linux_wf_def linux_vt_def posix_vt_def posix_is_open_def)

lemma demo_data: "log_sent (p_backend demo_port) = []" "log_received (p_backend demo_port) = []"
  by (simp_all add: demo_port_def new_port_def linux_init_def log_sent_def log_received_def)

lemma demo_parked:
  assumes "start (linux_vt m) op demo_port = (Inr (Park pc a), p)"
  shows "linux_reachable m (p, [demo_call op pc])"
  using port_reachable.step [OF demo_reachable port_step.call [OF assms]] by (simp add: demo_call_def demo_data)

lemma demo_woken:
  assumes "resume (linux_vt m) pc w p = (r, p')"
  shows "linux_port_step m (p, [demo_call op pc]) (Woken (demo_call op pc) w r)
    (p', parked_at (demo_call op pc) r)"
  using port_step.wake [of "linux_vt m" "demo_call op pc" w p r p' log_sent log_received linux_wf "[]" "[]"] assms
  by (simp add: demo_call_def)

lemmas demo_defs = demo_port_def new_port_def linux_init_def good_env_def linux_vt_def posix_vt_def
  start_send_def enter_send_def leave_send_def raise_if_closed_def port_fileno_def send_step_def attempt_def
  on_backend_def posix_write_nonblocking_def os_write_def sys_call_def io_ctl_defs
  start_receive_def enter_recv_def leave_recv_def read_step_def posix_read_nonblocking_def os_readv_def

lemma demo_send:
  "\<exists>p. start (linux_vt m) (Op_send [1, 2, 3]) demo_port = (Inr (Park (At_send [1, 2, 3] 0 3) (A_writable 3)), p)
     \<and> (\<exists>p'. resume (linux_vt m) (At_send [1, 2, 3] 0 3) W_ready p = (Inr (Return V_unit), p'))"
  by (simp add: demo_defs Let_def)

lemma demo_receive:
  "\<exists>p. start (linux_vt m) (Op_receive 2) demo_port = (Inr (Park (At_receive 2 3) (A_readable 3)), p)
     \<and> (\<exists>p'. resume (linux_vt m) (At_receive 2 3) W_ready p = (Inr (Return (V_bytes [1, 2])), p'))"
  by (simp add: demo_defs Let_def)

subsection \<open>Data\<close>

text \<open>C1: A \<open>send\<close> is exact under any interleaving: whatever other calls, closes, cancellations and
  reconfigurations happen between its \<open>await\<close>s, when it returns the bytes accepted by the kernel
  since it was called are exactly the data, once and in order; while it waits, and when it raises or
  is cancelled, they are a proper prefix of it.\<close>

theorem linux_send_exact:
  assumes "linux_reachable m s" and "linux_port_step m s (Woken t w r) s'" and "t_op t = Op_send d"
  shows "case r of
      Inr (Return v) \<Rightarrow> v = V_unit \<and> log_sent (p_backend (fst s')) = t_sent t @ d
    | Inr (Park pc a) \<Rightarrow> \<exists>k<length d. log_sent (p_backend (fst s')) = t_sent t @ take k d
    | Inl e \<Rightarrow> \<exists>k<length d. log_sent (p_backend (fst s')) = t_sent t @ take k d"
proof (rule woken_ok [OF assms(1,2)])
  fix p p' assume p: "fst s = p" "fst s' = p'" and ok: "call_ok log_sent log_received p t"
    and run: "resume (linux_vt m) (t_pc t) w p = (r, p')"
  from ok assms(3) have "call_at (Op_send d) (t_pc t)" by (simp add: call_ok_def)
  then obtain k fd where "t_pc t = At_send d k fd" using send_pc by blast
  with linux.resumed [OF ok run] p show ?thesis
    by (auto simp: sent_exactly_def split: sum.splits progress.splits)
qed

theorem linux_send_exact_witness:
  "let t = demo_call (Op_send [1, 2, 3]) (At_send [1, 2, 3] 0 3) in
   \<exists>p p' :: linux_backend port. linux_reachable linux_termios (p, [t])
     \<and> linux_port_step linux_termios (p, [t]) (Woken t W_ready (Inr (Return V_unit))) (p', [])
     \<and> log_sent (p_backend p') = [1, 2, 3]"
proof -
  obtain p p' where "start (linux_vt linux_termios) (Op_send [1, 2, 3]) demo_port
      = (Inr (Park (At_send [1, 2, 3] 0 3) (A_writable 3)), p)"
    "resume (linux_vt linux_termios) (At_send [1, 2, 3] 0 3) W_ready p = (Inr (Return V_unit), p')"
    using demo_send by blast
  note * = demo_parked [OF this(1)] demo_woken [OF this(2), of "Op_send [1, 2, 3]"]
  have "log_sent (p_backend p') = [1, 2, 3]"
    using linux_send_exact [OF *, of "[1, 2, 3]"] by (simp add: demo_call_def)
  with * [unfolded parked_at.simps] show ?thesis unfolding Let_def by blast
qed

text \<open>What a read may return.\<close>

fun read_reply :: "op \<Rightarrow> serial_config \<Rightarrow> bytes \<Rightarrow> outcome option" where
  "read_reply (Op_receive n) c bs = (if bs \<noteq> [] \<and> int (length bs) \<le> n then Some (V_bytes bs) else None)"
| "read_reply (Op_receive_into n) c bs = (if bs \<noteq> [] \<and> length bs \<le> n then Some (V_into bs) else None)"
| "read_reply (Op_receive_available l) c bs =
     (if available_fits l c bs then Some (V_bytes bs) else None)"
| "read_reply _ c bs = None"

definition is_read :: "op \<Rightarrow> bool" where
  "is_read op \<longleftrightarrow> (\<exists>n. op = Op_receive n) \<or> (\<exists>k. op = Op_receive_into k) \<or> (\<exists>l. op = Op_receive_available l)"

definition read_result ::
    "('b \<Rightarrow> bytes) \<Rightarrow> bytes \<Rightarrow> op \<Rightarrow> exn + progress \<Rightarrow> 'b port \<Rightarrow> bool" where
  "read_result received base op r p' \<longleftrightarrow>
     (case r of
        Inr (Return v) \<Rightarrow> \<exists>bs. read_reply op (p_config p') bs = Some v \<and> received (p_backend p') = base @ bs
      | Inr (Park pc a) \<Rightarrow> received (p_backend p') = base
      | Inl e \<Rightarrow> received (p_backend p') = base)"

lemma exactly_read_result:
  assumes "received_exactly received base n wrap again r p'"
    and "\<And>bs. bs \<noteq> [] \<Longrightarrow> length bs \<le> n \<Longrightarrow> read_reply op (p_config p') bs = Some (wrap bs)"
  shows "read_result received base op r p'"
  using assms by (auto simp: received_exactly_def read_result_def split: sum.splits progress.splits)

lemma available_read_result:
  assumes "available_exactly received base l r p'"
  shows "read_result received base (Op_receive_available l) r p'"
  using assms
  by (cases r) (auto simp: available_exactly_def read_result_def split: progress.splits)

lemma read_outcome:
  assumes at: "call_at (t_op t) (t_pc t)" and op: "is_read (t_op t)"
    and exact: "resume_exact sent received t (t_pc t) r p'"
  shows "read_result received (t_received t) (t_op t) r p'"
proof (cases "t_pc t")
  case (At_available_again n fd)
  with at obtain l where l: "t_op t = Op_receive_available l" "0 < n" "\<forall>k. l = Some k \<longrightarrow> int n \<le> k" by auto
  with At_available_again exact have "available_exactly received (t_received t) l r p'"
    using exactly_available [of received "t_received t" n fd r p' l] by simp
  with l show ?thesis by (simp add: available_read_result)
next
  case (At_available l fd)
  with at exact show ?thesis by (simp add: available_read_result)
next
  case (At_receive n fd)
  with at have op: "t_op t = Op_receive (int n)" by simp
  from exact At_receive show ?thesis
    unfolding op by (auto elim!: exactly_read_result)
next
  case (At_receive_into n fd)
  with at have op: "t_op t = Op_receive_into n" by simp
  from exact At_receive_into show ?thesis
    unfolding op by (auto elim!: exactly_read_result)
qed (use at op in \<open>auto simp: is_read_def\<close>)

text \<open>C2: A read is exact under any interleaving: what \<open>receive\<close>, \<open>receive_into\<close> or
  \<open>receive_available\<close> returns is what the kernel delivered to the port since it was called, in order,
  within the requested size and not empty (an end of file raises instead; \<open>receive_available\<close>
  returns nothing only for a limit that is not positive, the chunk size of a validated configuration
  being positive). A read that still waits, raises or is cancelled has consumed nothing.\<close>

theorem linux_receive_exact:
  assumes "linux_reachable m s" and "linux_port_step m s (Woken t w r) s'" and "is_read (t_op t)"
  shows "case r of
      Inr (Return v) \<Rightarrow> \<exists>bs. read_reply (t_op t) (p_config (fst s')) bs = Some v
        \<and> log_received (p_backend (fst s')) = t_received t @ bs
    | Inr (Park pc a) \<Rightarrow> log_received (p_backend (fst s')) = t_received t
    | Inl e \<Rightarrow> log_received (p_backend (fst s')) = t_received t"
proof (rule woken_ok [OF assms(1,2)])
  fix p p' assume p: "fst s' = p'" and ok: "call_ok log_sent log_received p t"
    and run: "resume (linux_vt m) (t_pc t) w p = (r, p')"
  from ok have at: "call_at (t_op t) (t_pc t)" by (simp add: call_ok_def)
  show ?thesis
    using read_outcome [OF at assms(3) linux.resumed [OF ok run]] unfolding p read_result_def .
qed

theorem linux_receive_exact_witness:
  "let t = demo_call (Op_receive 2) (At_receive 2 3) in
   \<exists>p p' :: linux_backend port. linux_reachable linux_termios (p, [t])
     \<and> linux_port_step linux_termios (p, [t]) (Woken t W_ready (Inr (Return (V_bytes [1, 2])))) (p', [])
     \<and> log_received (p_backend p') = [1, 2]"
proof -
  obtain p p' where "start (linux_vt linux_termios) (Op_receive 2) demo_port
      = (Inr (Park (At_receive 2 3) (A_readable 3)), p)"
    "resume (linux_vt linux_termios) (At_receive 2 3) W_ready p = (Inr (Return (V_bytes [1, 2])), p')"
    using demo_receive by blast
  note * = demo_parked [OF this(1)] demo_woken [OF this(2), of "Op_receive 2"]
  have "is_read (Op_receive 2)" by (simp add: is_read_def)
  with linux_receive_exact [OF *] have "log_received (p_backend p') = [1, 2]"
    by (simp add: demo_call_def split: if_splits)
  with * [unfolded parked_at.simps] show ?thesis unfolding Let_def by blast
qed

subsection \<open>Guards\<close>

text \<open>C4: The guards make the port full duplex and no more, for every backend: at most one call
  waits in a read and at most one in a write, drain or break; while one reads, another read raises
  \<open>BusyResourceError\<close> without touching the port, and likewise for writes; a send on an open port whose
  write side is free starts, whether or not a call is reading.\<close>

theorem port_guards_exclusive:
  assumes "port_reachable vt sent received good (p, ts)"
  shows "count_pc receiving ts \<le> 1 \<and> count_pc sending ts \<le> 1
   \<and> (0 < count_pc receiving ts \<and> 0 < n \<longrightarrow> start vt (Op_receive n) p = (Inl (exn_msg BusyResourceError), p))
   \<and> (0 < count_pc sending ts \<and> d \<noteq> [] \<longrightarrow> start vt (Op_send d) p = (Inl (exn_msg BusyResourceError), p))
   \<and> (count_pc sending ts = 0 \<and> \<not> p_closed p \<and> d \<noteq> []
       \<longrightarrow> (\<exists>fd p'. start vt (Op_send d) p = (Inr (Park (At_send d 0 fd) (A_writable fd)), p')))"
proof -
  from guards_reachable [OF assms] have "count_pc receiving ts = of_bool (p_recv_busy p)"
    "count_pc sending ts = of_bool (p_send_busy p)" by simp_all
  then show ?thesis
    by (auto simp: start_receive_def enter_recv_def start_send_def enter_send_def leave_send_def
        raise_if_closed_def port_fileno_def io_ctl_defs split: if_splits)
qed

theorem port_guards_exclusive_witness:
  "\<exists>p :: linux_backend port. linux_reachable linux_termios (p, [demo_call (Op_receive 2) (At_receive 2 3)])
     \<and> start (linux_vt linux_termios) (Op_receive 5) p = (Inl (exn_msg BusyResourceError), p)"
proof -
  obtain p where "start (linux_vt linux_termios) (Op_receive 2) demo_port
      = (Inr (Park (At_receive 2 3) (A_readable 3)), p)"
    using demo_receive by blast
  from demo_parked [OF this] port_guards_exclusive [OF demo_parked [OF this], of 5]
  show ?thesis by (auto simp: demo_call_def)
qed

subsection \<open>Closing\<close>

text \<open>C5: The closed flag of a Linux port never lies: in every reachable state the port is marked
  closed exactly when its backend holds no descriptor, and no step of any call reopens it.\<close>

theorem linux_port_lifecycle:
  assumes "linux_reachable m (p, ts)"
  shows "(p_closed p \<longleftrightarrow> \<not> posix_is_open (p_backend p)) \<and> port_is_open (linux_vt m) p = (\<not> p_closed p)
    \<and> (linux_port_step m (p, ts) l (p', ts') \<longrightarrow> p_closed p \<longrightarrow> p_closed p' \<and> \<not> posix_is_open (p_backend p'))"
proof -
  have open_eq: "bk_is_open (linux_vt m) = posix_is_open" by (simp add: linux_vt_def posix_vt_def)
  note ok = linux.lifecycle_reachable [OF assms]
  have "p_closed p' \<and> lifecycle_ok (linux_vt m) linux_wf p'"
    if "linux_port_step m (p, ts) l (p', ts')" "p_closed p"
    using linux.lifecycle_step [OF that(1) ok] that(2) by simp
  with ok show ?thesis by (auto simp: lifecycle_ok_def open_eq port_is_open_def)
qed

theorem linux_port_lifecycle_witness:
  "\<not> p_closed demo_port \<and> posix_is_open (p_backend demo_port) \<and> port_is_open (linux_vt linux_termios) demo_port"
  using linux_port_lifecycle [OF demo_reachable, of linux_termios] by (simp add: demo_port_def new_port_def)

lemma closed_error_flags [simp]:
  "closed_error vt (p\<lparr>p_recv_busy := x\<rparr>) = closed_error vt p"
  "closed_error vt (p\<lparr>p_send_busy := x\<rparr>) = closed_error vt p"
  by (simp_all add: closed_error_def)

lemma closed_error_is_closed: "isinstance (closed_error vt p) ClosedResourceError"
  by (simp add: closed_error_def exn_os_def isinstance_def superclasses.simps bases_def)

lemma closed_seq: "p_closed p \<Longrightarrow> io_seq (raise_if_closed vt) m p = (Inl (closed_error vt p), p)"
  by (simp add: raise_if_closed_run)

lemma closed_enter:
  assumes "p_closed p"
  shows "enter_recv (io_seq (raise_if_closed vt) m) p =
      (if p_recv_busy p then (Inl (exn_msg BusyResourceError), p)
       else (Inl (closed_error vt p), p\<lparr>p_recv_busy := False\<rparr>))"
    "enter_send (io_seq (raise_if_closed vt) m) p =
      (if p_send_busy p then (Inl (exn_msg BusyResourceError), p)
       else (Inl (closed_error vt p), p\<lparr>p_send_busy := False\<rparr>))"
  using assms by (simp_all add: enter_recv_def enter_send_def leave_recv_def leave_send_def
      raise_if_closed_def io_ctl_defs)

lemma start_closed:
  assumes "p_closed p"
  shows "(\<exists>e. fst (start vt op p) = Inl e \<and> e \<in> {closed_error vt p, exn_msg ValueError, exn_msg BusyResourceError}
        \<and> p_backend (snd (start vt op p)) = p_backend p)
    \<or> op = Op_send_eof \<and> start vt op p = (Inr (Return V_unit), p)
    \<or> (op = Op_aclose \<or> (\<exists>c. op = Op_configure c)) \<and> (\<exists>pc. start vt op p = (Inr (Park pc A_lock), p))"
proof (cases op)
  case Op_send_eof
  with assms show ?thesis by (simp add: io_bind_def io_get_def io_return_def)
next
  case Op_aclose
  then show ?thesis by (simp add: io_return_def)
next
  case (Op_configure c)
  then show ?thesis by (simp add: io_return_def)
qed (use assms in \<open>simp_all add: starts closed_enter control_call_def waiting_call_def closed_seq io_raise_def\<close>)

text \<open>C6: A closed port refuses: no operation reaches the backend. Every call raises
  \<open>SerialClosedError\<close> (an AnyIO \<open>ClosedResourceError\<close>) unless its argument or a guard is refused first;
  \<open>send_eof\<close> returns, \<open>aclose\<close> and \<open>configure\<close> queue at their lock. A call that was waiting when the port was closed
  raises \<open>SerialClosedError\<close> at its next wake-up, except for the pending de-assertion of a BREAK and
  a drain already handed to a worker thread.\<close>

theorem closed_port_refuses:
  assumes "p_closed p"
  shows "(case start vt op p of
        (Inr (Return v), p') \<Rightarrow> op = Op_send_eof \<and> p' = p
      | (Inr (Park pc a), p') \<Rightarrow> p' = p \<and> a = A_lock \<and> (op = Op_aclose \<or> (\<exists>c. op = Op_configure c))
      | (Inl e, p') \<Rightarrow> p_backend p' = p_backend p \<and> (e = closed_error vt p \<and> isinstance e ClosedResourceError
           \<or> e = exn_msg ValueError \<or> e = exn_msg BusyResourceError))
    \<and> (pc \<notin> {At_break, At_drain_exact, At_close} \<longrightarrow>
        (\<exists>p'. resume vt pc W_ready p = (Inl (closed_error vt p), p') \<and> p_backend p' = p_backend p))"
proof -
  have "case start vt op p of
        (Inr (Return v), p') \<Rightarrow> op = Op_send_eof \<and> p' = p
      | (Inr (Park pc a), p') \<Rightarrow> p' = p \<and> a = A_lock \<and> (op = Op_aclose \<or> (\<exists>c. op = Op_configure c))
      | (Inl e, p') \<Rightarrow> p_backend p' = p_backend p \<and> (e = closed_error vt p \<and> isinstance e ClosedResourceError
           \<or> e = exn_msg ValueError \<or> e = exn_msg BusyResourceError)"
    using start_closed [OF assms, of vt op] closed_error_is_closed [of vt p]
    by (auto split: prod.splits sum.splits progress.splits)
  moreover have "pc \<notin> {At_break, At_drain_exact, At_close} \<longrightarrow>
        (\<exists>p'. resume vt pc W_ready p = (Inl (closed_error vt p), p') \<and> p_backend p' = p_backend p)"
    using assms by (cases pc) (simp_all add: leave_recv_def leave_send_def closed_seq configure_body_def drain_poll_def)
  ultimately show ?thesis by blast
qed

definition closed_demo_port :: "linux_backend port" where
  "closed_demo_port = demo_port\<lparr>p_closed := True\<rparr>"

theorem closed_port_refuses_witness:
  "\<exists>p'. resume (linux_vt linux_termios) (At_receive 4 3) W_ready closed_demo_port
      = (Inl (closed_error (linux_vt linux_termios) closed_demo_port), p')"
  using closed_port_refuses [of closed_demo_port "linux_vt linux_termios" Op_drain "At_receive 4 3"]
  by (auto simp: closed_demo_port_def)

text \<open>\<open>aclose\<close> on a Linux port, from any reachable state. Once it holds its lock the port ends
  up closed and without a descriptor even when the operating system's \<open>close\<close> fails, no byte moves,
  and a second \<open>aclose\<close> does nothing; but a cancellation delivered while it waits for the lock
  raises with the port exactly as it was, hence still open if it was open: the shield only covers
  the body.\<close>

theorem linux_aclose_outcomes:
  assumes "linux_reachable m (p, ts)" and "resume (linux_vt m) At_close w p = (r, p')"
  shows "case w of
      W_ready \<Rightarrow> p_closed p' \<and> \<not> posix_is_open (p_backend p')
        \<and> moves_nothing log_sent log_received (p_backend p) (p_backend p')
        \<and> (p_closed p \<longrightarrow> r = Inr (Return V_unit) \<and> p' = p)
    | W_throw e \<Rightarrow> r = Inl e \<and> p' = p"
proof (cases w)
  case W_ready
  note ok = linux.lifecycle_reachable [OF assms(1)]
  have ok': "lifecycle_ok (linux_vt m) linux_wf p'"
    using linux.lifecycle_resume [of m p At_close w r p'] ok assms(2) by simp
  have eq: "bk_is_open (linux_vt m) = posix_is_open" by (simp add: linux_vt_def posix_vt_def)
  from ok have wf: "linux_wf (p_backend p)" by (simp add: lifecycle_ok_def)
  from linux.close_body_wp [OF wf, of m] assms(2) W_ready
  have "p_closed p' \<and> moves_nothing log_sent log_received (p_backend p) (p_backend p')
      \<and> (p_closed p \<longrightarrow> r = Inr (Return V_unit) \<and> p' = p)"
    by (cases r) (auto simp: wp_def)
  with ok' W_ready show ?thesis by (simp add: lifecycle_ok_def eq)
next
  case (W_throw e)
  with assms(2) show ?thesis by (simp add: io_raise_def)
qed

theorem linux_aclose_outcomes_witness:
  "(\<exists>r p'. resume (linux_vt linux_termios) At_close W_ready demo_port = (r, p') \<and> p_closed p' \<and> \<not> posix_is_open (p_backend p'))
   \<and> resume (linux_vt linux_termios) At_close (W_throw (exn_msg CancelledError)) demo_port
      = (Inl (exn_msg CancelledError), demo_port)"
proof
  obtain r p' where run: "resume (linux_vt linux_termios) At_close W_ready demo_port = (r, p')" by fastforce
  from linux_aclose_outcomes [OF demo_reachable run] run
  show "\<exists>r p'. resume (linux_vt linux_termios) At_close W_ready demo_port = (r, p') \<and> p_closed p' \<and> \<not> posix_is_open (p_backend p')"
    by auto
  obtain r p' where run: "resume (linux_vt linux_termios) At_close (W_throw (exn_msg CancelledError)) demo_port = (r, p')"
    by fastforce
  from linux_aclose_outcomes [OF demo_reachable run] run
  show "resume (linux_vt linux_termios) At_close (W_throw (exn_msg CancelledError)) demo_port
      = (Inl (exn_msg CancelledError), demo_port)" by simp
qed

subsection \<open>Draining, breaking, configuring\<close>

text \<open>A drain returns only when the driver reports an empty output queue, and otherwise sleeps:
  never less than 1 ms nor more than 50 ms, and in between exactly the time the pending bytes take
  at the configured rate. It transfers nothing and releases the write guard when it ends.\<close>

theorem drain_poll_outcomes:
  assumes "\<not> p_closed p" and "bk_output_waiting vt (p_backend p) = (Inr pending, b)" and "0 < bps"
  shows "resume vt (At_drain bps) W_ready p =
      (if pending \<le> 0 then (Inr (Return V_unit), p\<lparr>p_backend := b, p_send_busy := False\<rparr>)
       else (Inr (Park (At_drain bps) (A_sleep (Fin (drain_wait pending bps)))), p\<lparr>p_backend := b\<rparr>))
    \<and> 1 / 1000 \<le> drain_wait pending bps \<and> drain_wait pending bps \<le> 1 / 20
    \<and> (bps \<le> 1000 * pending \<and> 20 * pending \<le> bps \<longrightarrow> drain_wait pending bps * of_int bps = of_int pending)"
proof -
  have "drain_wait pending bps * of_int bps = of_int pending" if "bps \<le> 1000 * pending" "20 * pending \<le> bps"
  proof -
    have b: "0 < (of_int bps :: rat)" using assms(3) by simp
    have "(of_int bps :: rat) \<le> of_int (1000 * pending)" "(of_int (20 * pending) :: rat) \<le> of_int bps"
      using that by (simp_all only: of_int_le_iff)
    then have "1 / 1000 \<le> (of_int pending / of_int bps :: rat)" "(of_int pending / of_int bps :: rat) \<le> 1 / 20"
      using b by (simp_all add: pos_le_divide_eq pos_divide_le_eq)
    then show ?thesis
      using b by (simp add: drain_wait_def MIN_DRAIN_INTERVAL_def MAX_DRAIN_INTERVAL_def)
  qed
  moreover have "1 / 1000 \<le> drain_wait pending bps"
    by (simp add: drain_wait_def MIN_DRAIN_INTERVAL_def MAX_DRAIN_INTERVAL_def le_max_iff_disj)
  moreover have "drain_wait pending bps \<le> 1 / 20"
    unfolding drain_wait_def MAX_DRAIN_INTERVAL_def by (rule min.cobounded2)
  ultimately show ?thesis
    using assms by (simp add: leave_send_def drain_poll_def raise_if_closed_def translating_def on_backend_def io_ctl_defs)
qed

theorem drain_poll_outcomes_witness:
  "\<exists>p' :: linux_backend port. resume (linux_vt linux_termios) (At_drain 960) W_ready demo_port = (Inr (Return V_unit), p')"
proof -
  have "fst (bk_output_waiting (linux_vt linux_termios) (p_backend demo_port)) = Inr 0"
    by code_simp
  then have "bk_output_waiting (linux_vt linux_termios) (p_backend demo_port) =
      (Inr 0, snd (bk_output_waiting (linux_vt linux_termios) (p_backend demo_port)))"
    by (simp add: prod_eq_iff)
  from drain_poll_outcomes [OF _ this, of 960] show ?thesis
    by (auto simp: demo_port_def new_port_def)
qed

text \<open>However a \<open>send_break\<close> ends - the sleep over, a cancellation, any exception thrown into
  it - the BREAK is de-asserted at the backend exactly once and the write guard released; an
  \<open>OSError\<close> of the de-assertion is suppressed, so the caller sees the original outcome, but an
  exception of another class replaces it.\<close>

theorem send_break_deasserts:
  assumes "bk_set_break vt False (p_backend p) = (q, b)"
  shows "resume vt At_break w p =
    ((case q of
        Inr _ \<Rightarrow> (case w of W_ready \<Rightarrow> Inr (Return V_unit) | W_throw e \<Rightarrow> Inl e)
      | Inl e' \<Rightarrow> if isinstance e' OSError then (case w of W_ready \<Rightarrow> Inr (Return V_unit) | W_throw e \<Rightarrow> Inl e)
                  else Inl e'),
     p\<lparr>p_backend := b, p_send_busy := False\<rparr>)"
  using assms by (cases w; cases q) (simp_all add: leave_send_def break_finally_def on_backend_def io_ctl_defs)

theorem send_break_deasserts_witness:
  "\<exists>p'. resume (linux_vt linux_termios) At_break (W_throw (exn_msg CancelledError)) demo_port = (Inl (exn_msg CancelledError), p')"
proof -
  have "fst (bk_set_break (linux_vt linux_termios) False (p_backend demo_port)) = Inr ()"
    by code_simp
  then have "bk_set_break (linux_vt linux_termios) False (p_backend demo_port) =
      (Inr (), snd (bk_set_break (linux_vt linux_termios) False (p_backend demo_port)))"
    by (simp add: prod_eq_iff)
  from send_break_deasserts [OF this, of "W_throw (exn_msg CancelledError)"] show ?thesis by simp
qed

text \<open>C21: Closing a Linux port during a \<open>send_break\<close> loses both the de-assertion and the original
  exception: the descriptor is gone, so the ioctl is refused with a \<open>ValueError\<close>, which is not an
  \<open>OSError\<close>; nothing reaches the driver and the \<open>ValueError\<close> replaces the cancellation or return.\<close>

theorem linux_break_after_close:
  assumes "linux_reachable m (p, ts)" and "p_closed p" and "break_request m False = Some req"
  shows "\<exists>p'. resume (linux_vt m) At_break w p = (Inl (exn_msg ValueError), p') \<and> p_backend p' = p_backend p"
proof -
  from linux.lifecycle_reachable [OF assms(1)] assms(2) have fd: "pb_fd (p_backend p) < 0"
    by (simp add: lifecycle_ok_def linux_vt_def posix_vt_def posix_is_open_def)
  have "\<not> isinstance (exn_msg ValueError) OSError" by (simp add: isinstance_simps exn_msg_def)
  with fd assms(3) show ?thesis
    by (cases w) (simp_all add: linux_vt_def posix_vt_def posix_set_break_def ioctl_set_break_def require_req_def
        ioctl_int_def fildes_def leave_send_def break_finally_def on_backend_def io_ctl_defs)
qed

lemma demo_closed_reachable:
  "\<exists>p :: linux_backend port. linux_reachable m (p, []) \<and> p_closed p"
proof -
  have "start (linux_vt m) Op_aclose demo_port = (Inr (Park At_close A_lock), demo_port)" by (simp add: io_return_def)
  note parked = demo_parked [OF this]
  obtain r p where run: "resume (linux_vt m) At_close W_ready demo_port = (r, p)" by fastforce
  have "parked_at (demo_call Op_aclose At_close) r = []"
    using run by (cases "(demo_call Op_aclose At_close, r)" rule: parked_at.cases)
      (auto simp: close_body_def io_ctl_defs on_backend_def demo_port_def new_port_def split: prod.splits sum.splits)
  with port_reachable.step [OF parked demo_woken [OF run, of Op_aclose]]
  have "linux_reachable m (p, [])" by simp
  moreover have "p_closed p"
    using run by (auto simp: close_body_def io_ctl_defs on_backend_def demo_port_def new_port_def split: prod.splits sum.splits)
  ultimately show ?thesis by blast
qed

theorem linux_break_after_close_witness:
  "\<exists>p p' :: linux_backend port. linux_reachable linux_termios (p, []) \<and> p_closed p
     \<and> resume (linux_vt linux_termios) At_break (W_throw (exn_msg CancelledError)) p = (Inl (exn_msg ValueError), p')"
proof -
  obtain p :: "linux_backend port" where p: "linux_reachable linux_termios (p, [])" "p_closed p"
    using demo_closed_reachable by blast
  have "break_request linux_termios False = Some (the (break_request linux_termios False))" by code_simp
  from linux_break_after_close [OF p this] p show ?thesis by blast
qed

text \<open>Under the configure lock the mirrored configuration changes exactly when the backend accepts
  the new one. A rejection leaves it alone and is raised through \<open>errno_to_exception\<close> in context
  \<open>ioctl\<close>, except that an exception that is not an \<open>OSError\<close> (such as \<open>termios.error\<close>) is raised as it is.\<close>

theorem configure_mirrors:
  assumes "\<not> p_closed p" and "bk_configure vt c (p_backend p) = (q, b)"
  shows "resume vt (At_configure c) W_ready p =
    (case q of
       Inr _ \<Rightarrow> (Inr (Return V_unit), p\<lparr>p_backend := b, p_config := c\<rparr>)
     | Inl e \<Rightarrow> (Inl (if isinstance e OSError then errno_to_exception e ''ioctl'' (Some (bk_path vt b)) else e),
                 p\<lparr>p_backend := b\<rparr>))"
  using assms by (cases q) (simp_all add: configure_body_def raise_if_closed_def translating_def on_backend_def io_ctl_defs)

theorem configure_mirrors_witness:
  "\<exists>r p'. resume (linux_vt linux_termios) (At_configure default_config) W_ready demo_port = (r, p') \<and> p_config p' = default_config"
proof -
  obtain q b where "bk_configure (linux_vt linux_termios) default_config (p_backend demo_port) = (q, b)" by fastforce
  from configure_mirrors [OF _ this] show ?thesis
    by (cases q) (auto simp: demo_port_def new_port_def)
qed

subsection \<open>Progress\<close>

text \<open>Waking a call normally, at most \<open>n\<close> times, until it no longer waits.\<close>

fun wake_up_to :: "'b sync_backend \<Rightarrow> nat \<Rightarrow> (exn + progress) \<times> 'b port \<Rightarrow> (exn + progress) \<times> 'b port" where
  "wake_up_to vt (Suc n) (Inr (Park pc a), p) = wake_up_to vt n (resume vt pc W_ready p)"
| "wake_up_to vt n x = x"

lemma wake_up_to_done [simp]: "wake_up_to vt n (Inr (Return v), p) = (Inr (Return v), p)"
  by (cases n) simp_all

definition accepts_bytes :: "os_env \<Rightarrow> bool" where
  "accepts_bytes env \<longleftrightarrow> (\<forall>l fd d. d \<noteq> [] \<longrightarrow> (\<exists>n>0. env_write env l fd d = Inr n))"

lemma resume_send_accepting:
  assumes "accepts_bytes (k_env (p_backend p))" "k < length d" "\<not> p_closed p"
  shows "\<exists>n>0. \<exists>p'. resume (linux_vt m) (At_send d k fd) W_ready p =
       ((if k + n < length d then Inr (Park (At_send d (k + n) fd) (A_writable fd)) else Inr (Return V_unit)), p')
     \<and> log_sent (p_backend p') = log_sent (p_backend p) @ take n (drop k d)
     \<and> k_env (p_backend p') = k_env (p_backend p) \<and> p_closed p' = p_closed p"
proof -
  let ?b = "p_backend p"
  from assms(1,2) obtain n where n: "0 < n" "env_write (k_env ?b) (k_log ?b) (pb_fd ?b) (drop k d) = Inr n"
    unfolding accepts_bytes_def by (metis drop_eq_Nil linorder_not_less)
  let ?n = "min (length (drop k d)) n"
  have n0: "0 < ?n" using n(1) assms(2) by simp
  have "posix_write_nonblocking (drop k d) ?b =
      (Inr ?n, ?b\<lparr>k_log := k_log ?b @ [Ev_write (pb_fd ?b) (drop k d) (Inr ?n)]\<rparr>)"
    by (simp add: posix_write_nonblocking_def os_write_def sys_call_def n(2) io_ctl_defs)
  with n0 show ?thesis
    using assms(3)
    by (intro exI [of _ ?n]) (simp add: linux_vt_def posix_vt_def leave_send_def raise_if_closed_def send_step_def attempt_def on_backend_def
        io_ctl_defs Let_def log_sent_def written_by_def)
qed

lemma wake_send:
  assumes "accepts_bytes (k_env (p_backend p))" "k < length d" "\<not> p_closed p" "length d - k \<le> n"
  shows "\<exists>p'. wake_up_to (linux_vt m) n (Inr (Park (At_send d k fd) a), p) = (Inr (Return V_unit), p')
     \<and> log_sent (p_backend p') = log_sent (p_backend p) @ drop k d"
  using assms
proof (induction n arbitrary: k p a)
  case 0
  then show ?case by simp
next
  case (Suc n)
  from resume_send_accepting [OF Suc.prems(1-3), of m fd] obtain i p1 where i: "0 < i"
    and run: "resume (linux_vt m) (At_send d k fd) W_ready p =
       ((if k + i < length d then Inr (Park (At_send d (k + i) fd) (A_writable fd)) else Inr (Return V_unit)), p1)"
    and p1: "log_sent (p_backend p1) = log_sent (p_backend p) @ take i (drop k d)"
      "k_env (p_backend p1) = k_env (p_backend p)" "p_closed p1 = p_closed p"
    by blast
  show ?case
  proof (cases "k + i < length d")
    case True
    have split: "take i (drop k d) @ drop (k + i) d = drop k d"
      by (metis append_take_drop_id drop_drop add.commute)
    have "\<exists>p'. wake_up_to (linux_vt m) n (Inr (Park (At_send d (k + i) fd) (A_writable fd)), p1) = (Inr (Return V_unit), p')
       \<and> log_sent (p_backend p') = log_sent (p_backend p1) @ drop (k + i) d"
      by (rule Suc.IH) (use Suc.prems i p1 True in auto)
    with run True p1(1) split show ?thesis by (simp del: resume.simps)
  next
    case False
    with run p1(1) show ?thesis by (simp del: resume.simps)
  qed
qed

text \<open>C22: A \<open>send\<close> terminates: on an open Linux port with its write side free, over a kernel that
  accepts at least one byte per write, waking it \<open>length d\<close> times is enough for it to return, and all of
  \<open>d\<close> has then been accepted.\<close>

theorem linux_send_terminates:
  assumes "accepts_bytes (k_env (p_backend p))" and "\<not> p_closed p" and "\<not> p_send_busy p"
  shows "\<exists>p'. wake_up_to (linux_vt m) (length d) (start (linux_vt m) (Op_send d) p) = (Inr (Return V_unit), p')
     \<and> log_sent (p_backend p') = log_sent (p_backend p) @ d"
proof (cases "d = []")
  case True
  with assms show ?thesis by (simp add: start_send_def raise_if_closed_run io_return_def)
next
  case False
  let ?fd = "bk_fileno (linux_vt m) (p_backend p)"
  have "start (linux_vt m) (Op_send d) p =
      (Inr (Park (At_send d 0 ?fd) (A_writable ?fd)), p\<lparr>p_send_busy := True\<rparr>)"
    using False assms by (simp add: start_send_def enter_send_def leave_send_def raise_if_closed_def port_fileno_def io_ctl_defs)
  with wake_send [of "p\<lparr>p_send_busy := True\<rparr>" 0 d "length d" m ?fd "A_writable ?fd"] False assms
  show ?thesis by (simp del: start.simps)
qed

theorem linux_send_terminates_witness:
  "\<exists>p'. wake_up_to (linux_vt linux_termios) 3 (start (linux_vt linux_termios) (Op_send [7, 8, 9]) demo_port)
       = (Inr (Return V_unit), p') \<and> log_sent (p_backend p') = [7, 8, 9]"
proof -
  have "accepts_bytes (k_env (p_backend demo_port))"
    by (simp add: accepts_bytes_def demo_port_def new_port_def linux_init_def good_env_def)
  from linux_send_terminates [OF this, of linux_termios "[7, 8, 9]"] show ?thesis
    by (simp add: demo_data) (simp add: demo_port_def new_port_def eval_nat_numeral)
qed

end
