(* ===== verification/Mock_Backend.thy ===== *)
theory Mock_Backend
  imports Port_Invariants
begin

section \<open>The in-memory pair (\<open>_mock/backend.py\<close>, \<open>testing.py\<close>)\<close>

text \<open>
  Two \<open>MockBackend\<close>s linked by a \<open>socketpair\<close>. The state is the pair as one side sees it (\<open>mp_local\<close>,
  \<open>mp_peer\<close>); the other side is the same state flipped. A socket is its queue of unread bytes and
  whether it is closed; the operating system is \<open>mp_room\<close>, how much it accepts given what is in flight,
  and its value of \<open>EAGAIN\<close>. \<open>ms_accepted\<close>, \<open>ms_delivered\<close> and \<open>ms_consumed\<close> are history variables: what the side
  handed to the socket, returned to its reader, and took from its queue (returned or discarded).
\<close>

subsection \<open>State\<close>

record fault_plan =
  fp_eagain_reads :: int
  fp_eagain_writes :: int
  fp_eintr_reads :: int
  fp_eintr_writes :: int
  fp_short_write_max :: "int option"
  fp_disconnected :: bool
  fp_raise_eio_on_read :: bool
  fp_parity_errors :: int

definition no_faults :: fault_plan where
  "no_faults = \<lparr>fp_eagain_reads = 0, fp_eagain_writes = 0, fp_eintr_reads = 0, fp_eintr_writes = 0,
     fp_short_write_max = None, fp_disconnected = False, fp_raise_eio_on_read = False, fp_parity_errors = 0\<rparr>"

record mock_state =
  ms_path :: string
  ms_is_open :: bool
  ms_config :: "serial_config option"
  ms_rts :: bool
  ms_dtr :: bool
  ms_faults :: fault_plan
  ms_break :: bool
  ms_fileno :: int
  ms_unread :: bytes
  ms_accepted :: bytes
  ms_delivered :: bytes
  ms_consumed :: bytes

record mock_pair =
  mp_local :: mock_state
  mp_peer :: mock_state
  mp_room :: "bytes \<Rightarrow> nat"
  mp_eagain :: int

definition new_mock_state :: "string \<Rightarrow> int \<Rightarrow> mock_state" where
  "new_mock_state path fd = \<lparr>ms_path = path, ms_is_open = False, ms_config = None, ms_rts = False,
     ms_dtr = False, ms_faults = no_faults, ms_break = False, ms_fileno = fd, ms_unread = [],
     ms_accepted = [], ms_delivered = [], ms_consumed = []\<rparr>"

definition mock_pair_of :: "string \<Rightarrow> string \<Rightarrow> int \<Rightarrow> int \<Rightarrow> (bytes \<Rightarrow> nat) \<Rightarrow> int \<Rightarrow> mock_pair" where
  "mock_pair_of path_a path_b fd_a fd_b room eagain =
     \<lparr>mp_local = new_mock_state path_a fd_a, mp_peer = new_mock_state path_b fd_b, mp_room = room, mp_eagain = eagain\<rparr>"

definition flip :: "mock_pair \<Rightarrow> mock_pair" where
  "flip s = s\<lparr>mp_local := mp_peer s, mp_peer := mp_local s\<rparr>"

type_synonym 'a mock_io = "(mock_pair, exn, 'a) io"

definition local :: "(mock_state \<Rightarrow> mock_state) \<Rightarrow> unit mock_io" where
  "local f = io_modify (\<lambda>s. s\<lparr>mp_local := f (mp_local s)\<rparr>)"

definition faults :: "(fault_plan \<Rightarrow> fault_plan) \<Rightarrow> unit mock_io" where
  "faults f = local (\<lambda>m. m\<lparr>ms_faults := f (ms_faults m)\<rparr>)"

subsection \<open>The socket\<close>

definition bad_fd :: exn where
  "bad_fd = exn_os OSError (Some EBADF) (Some ''Bad file descriptor'') None"

definition would_block :: "mock_pair \<Rightarrow> exn" where
  "would_block s = exn_os BlockingIOError (Some (mp_eagain s)) (Some ''Resource temporarily unavailable'') None"

text \<open>\<open>sock.recv\<close> takes bytes off the local queue; with \<open>MSG_PEEK\<close> it only looks.\<close>

definition sock_peek :: "nat \<Rightarrow> bytes mock_io" where
  "sock_peek n = (\<lambda>s.
     (if ms_fileno (mp_local s) < 0 then Inl bad_fd
      else if ms_unread (mp_local s) \<noteq> [] then Inr (take n (ms_unread (mp_local s)))
      else if ms_fileno (mp_peer s) < 0 then Inr []
      else Inl (would_block s), s))"

definition sock_recv :: "nat \<Rightarrow> bytes mock_io" where
  "sock_recv n = io_bind (sock_peek n) (\<lambda>bs.
     io_seq (local (\<lambda>m. m\<lparr>ms_unread := drop (length bs) (ms_unread m), ms_consumed := ms_consumed m @ bs\<rparr>))
       (io_return bs))"

definition sock_send :: "bytes \<Rightarrow> nat mock_io" where
  "sock_send data = (\<lambda>s.
     let n = min (length data) (mp_room s (ms_unread (mp_peer s))) in
     if ms_fileno (mp_local s) < 0 then (Inl bad_fd, s)
     else if ms_fileno (mp_peer s) < 0 then (Inl (exn_os BrokenPipeError (Some EPIPE) (Some ''Broken pipe'') None), s)
     else if n = 0 then (Inl (would_block s), s)
     else (Inr n, s\<lparr>mp_peer := (mp_peer s)\<lparr>ms_unread := ms_unread (mp_peer s) @ take n data\<rparr>,
                    mp_local := (mp_local s)\<lparr>ms_accepted := ms_accepted (mp_local s) @ take n data\<rparr>\<rparr>))"

subsection \<open>Lifecycle\<close>

definition mock_open :: "string \<Rightarrow> serial_config \<Rightarrow> unit mock_io" where
  "mock_open path config =
     io_bind (io_get (\<lambda>s. ms_is_open (mp_local s))) (\<lambda>already.
     if already then io_raise (exn_msg RuntimeError)
     else local (\<lambda>m. m\<lparr>ms_path := (if path \<noteq> [] then path else ms_path m), ms_config := Some config, ms_is_open := True\<rparr>))"

definition mock_close :: "unit mock_io" where
  "mock_close =
     io_seq (local (\<lambda>m. m\<lparr>ms_is_open := False\<rparr>))
       (io_bind (io_get (\<lambda>s. ms_fileno (mp_local s))) (\<lambda>fd.
        io_when (fd \<noteq> -1) (local (\<lambda>m. m\<lparr>ms_fileno := -1\<rparr>))))"

subsection \<open>Hot path\<close>

definition injected :: "exc_class \<Rightarrow> int \<Rightarrow> 'a mock_io" where
  "injected c err = io_raise (exn_os c (Some err) (Some ''mock'') None)"

definition mock_read_nonblocking :: "nat \<Rightarrow> bytes mock_io" where
  "mock_read_nonblocking size' =
     io_bind (io_get (\<lambda>s. (ms_faults (mp_local s), mp_eagain s))) (\<lambda>(f, eagain).
     if fp_raise_eio_on_read f then
       io_seq (faults (\<lambda>f. f\<lparr>fp_raise_eio_on_read := False\<rparr>)) (injected OSError EIO)
     else if 0 < fp_parity_errors f then
       io_seq (faults (\<lambda>f. f\<lparr>fp_parity_errors := fp_parity_errors f - 1\<rparr>)) (injected OSError EIO)
     else if fp_disconnected f then io_return []
     else if 0 < fp_eintr_reads f then
       io_seq (faults (\<lambda>f. f\<lparr>fp_eintr_reads := fp_eintr_reads f - 1\<rparr>)) (injected InterruptedError EINTR)
     else if 0 < fp_eagain_reads f then
       io_seq (faults (\<lambda>f. f\<lparr>fp_eagain_reads := fp_eagain_reads f - 1\<rparr>)) (injected BlockingIOError eagain)
     else io_bind (sock_recv size') (\<lambda>bs.
       io_seq (local (\<lambda>m. m\<lparr>ms_delivered := ms_delivered m @ bs\<rparr>)) (io_return bs)))"

text \<open>\<open>data[:k]\<close>, where a negative bound counts from the end.\<close>

definition slice_to :: "int \<Rightarrow> 'a list \<Rightarrow> 'a list" where
  "slice_to k xs = (if 0 \<le> k then take (nat k) xs else take (length xs - nat (- k)) xs)"

definition mock_write_nonblocking :: "bytes \<Rightarrow> nat mock_io" where
  "mock_write_nonblocking data =
     io_bind (io_get (\<lambda>s. (ms_faults (mp_local s), mp_eagain s))) (\<lambda>(f, eagain).
     if fp_disconnected f then injected BrokenPipeError EPIPE
     else if 0 < fp_eintr_writes f then
       io_seq (faults (\<lambda>f. f\<lparr>fp_eintr_writes := fp_eintr_writes f - 1\<rparr>)) (injected InterruptedError EINTR)
     else if 0 < fp_eagain_writes f then
       io_seq (faults (\<lambda>f. f\<lparr>fp_eagain_writes := fp_eagain_writes f - 1\<rparr>)) (injected BlockingIOError eagain)
     else
       let view = (case fp_short_write_max f of None \<Rightarrow> data | Some k \<Rightarrow> slice_to k data) in
       if length view = 0 then io_return 0 else sock_send view)"

subsection \<open>Control plane\<close>

definition mock_configure :: "serial_config \<Rightarrow> unit mock_io" where
  "mock_configure config = local (\<lambda>m. m\<lparr>ms_config := Some config\<rparr>)"

text \<open>The loop of \<open>reset_input_buffer\<close>: \<open>recv(4096)\<close> until it returns nothing or raises.\<close>

function mock_drain :: "mock_pair \<Rightarrow> (exn + unit) \<times> mock_pair" where
  "mock_drain s = (case sock_recv 4096 s of
     (Inl e, s') \<Rightarrow> (Inl e, s')
   | (Inr bs, s') \<Rightarrow> if bs = [] then (Inr (), s') else mock_drain s')"
  by pat_completeness auto

lemma sock_recv_shrinks:
  "sock_recv n s = (Inr bs, s') \<Longrightarrow> 0 < n \<Longrightarrow> bs \<noteq> [] \<Longrightarrow>
   length (ms_unread (mp_local s')) < length (ms_unread (mp_local s))"
  by (auto simp: sock_recv_def sock_peek_def local_def io_ctl_defs split: if_splits)

termination mock_drain
  by (relation "measure (\<lambda>s. length (ms_unread (mp_local s)))") (auto dest: sock_recv_shrinks [OF sym])

declare mock_drain.simps [simp del]

definition mock_reset_input_buffer :: "unit mock_io" where
  "mock_reset_input_buffer =
     io_try mock_drain (\<lambda>e. if isinstance e BlockingIOError then io_return () else io_raise e)"

definition mock_reset_output_buffer :: "unit mock_io" where
  "mock_reset_output_buffer = io_return ()"

definition mock_set_break :: "bool \<Rightarrow> unit mock_io" where
  "mock_set_break on = local (\<lambda>m. m\<lparr>ms_break := on\<rparr>)"

definition mock_tcdrain_blocking :: "unit mock_io" where
  "mock_tcdrain_blocking = io_return ()"

definition mock_modem_lines :: "modem_lines mock_io" where
  "mock_modem_lines = io_get (\<lambda>s. \<lparr>ml_cts = ms_rts (mp_peer s), ml_dsr = ms_dtr (mp_peer s), ml_ri = False,
     ml_cd = ms_dtr (mp_peer s)\<rparr>)"

definition mock_set_control_lines :: "bool option \<Rightarrow> bool option \<Rightarrow> unit mock_io" where
  "mock_set_control_lines rts dtr =
     io_seq (case rts of None \<Rightarrow> io_return () | Some v \<Rightarrow> local (\<lambda>m. m\<lparr>ms_rts := v\<rparr>))
            (case dtr of None \<Rightarrow> io_return () | Some v \<Rightarrow> local (\<lambda>m. m\<lparr>ms_dtr := v\<rparr>))"

definition mock_input_waiting :: "int mock_io" where
  "mock_input_waiting =
     io_try (io_bind (sock_peek 65536) (\<lambda>bs. io_return (int (length bs))))
       (\<lambda>e. if isinstance e BlockingIOError then io_return 0 else io_raise e)"

definition mock_output_waiting :: "int mock_io" where
  "mock_output_waiting = io_return 0"

definition mock_vt :: "mock_pair sync_backend" where
  "mock_vt = \<lparr>bk_path = ms_path \<circ> mp_local, bk_is_open = ms_is_open \<circ> mp_local, bk_open = mock_open,
     bk_close = mock_close, bk_fileno = ms_fileno \<circ> mp_local, bk_read = mock_read_nonblocking,
     bk_write = mock_write_nonblocking, bk_configure = mock_configure,
     bk_reset_input_buffer = mock_reset_input_buffer, bk_reset_output_buffer = mock_reset_output_buffer,
     bk_set_break = mock_set_break, bk_tcdrain_blocking = mock_tcdrain_blocking,
     bk_modem_lines = mock_modem_lines, bk_set_control_lines = mock_set_control_lines,
     bk_input_waiting = mock_input_waiting, bk_output_waiting = mock_output_waiting\<rparr>"

subsection \<open>The backend contract\<close>

abbreviation accepted :: "mock_pair \<Rightarrow> bytes" where "accepted s \<equiv> ms_accepted (mp_local s)"
abbreviation delivered :: "mock_pair \<Rightarrow> bytes" where "delivered s \<equiv> ms_delivered (mp_local s)"

text \<open>What every operation but the transfers and the close leaves alone.\<close>

definition mock_steady :: "mock_pair \<Rightarrow> mock_pair \<Rightarrow> bool" where
  "mock_steady s s' \<longleftrightarrow> accepted s' = accepted s \<and> delivered s' = delivered s
     \<and> ms_is_open (mp_local s') = ms_is_open (mp_local s)"

interpretation mck: frame mock_steady
  by unfold_locales (auto simp: mock_steady_def)

lemma wp_local [wp_simps]: "wp (local f) Q E s = Q () (s\<lparr>mp_local := f (mp_local s)\<rparr>)"
  by (simp add: local_def wp_simps)

lemma wp_sock_peek [wp_simps]:
  "wp (sock_peek n) Q E s =
     (if ms_fileno (mp_local s) < 0 then E bad_fd s
      else if ms_unread (mp_local s) \<noteq> [] then Q (take n (ms_unread (mp_local s))) s
      else if ms_fileno (mp_peer s) < 0 then Q [] s else E (would_block s) s)"
  by (simp add: wp_def sock_peek_def)

lemma wp_sock_recv:
  "wp (sock_recv n) (\<lambda>bs s'. length bs \<le> n \<and> mock_steady s s') (\<lambda>e. mock_steady s) s"
  by (simp add: sock_recv_def wp_simps mock_steady_def)

lemma steady_local:
  "(\<And>m. ms_accepted (f m) = ms_accepted m \<and> ms_delivered (f m) = ms_delivered m \<and> ms_is_open (f m) = ms_is_open m) \<Longrightarrow>
   keeps mock_steady (local f)"
  by (rule keepsI) (simp add: wp_simps mock_steady_def)

lemma mock_drain_steady: "mock_steady s (snd (mock_drain s))"
proof (induction s rule: mock_drain.induct)
  case (1 s)
  obtain r s' where run: "sock_recv 4096 s = (r, s')" by fastforce
  have st: "mock_steady s s'" using wp_sock_recv [of 4096 s] run by (cases r) (auto simp: wp_def)
  show ?case
  proof (cases r)
    case (Inl e)
    with run st show ?thesis by (simp add: mock_drain.simps [of s])
  next
    case (Inr bs)
    have "bs \<noteq> [] \<Longrightarrow> mock_steady s' (snd (mock_drain s'))" using 1 run Inr by simp
    with run st Inr show ?thesis
      by (cases "bs = []") (auto simp: mock_drain.simps [of s] intro: mck.R_trans)
  qed
qed

lemma keeps_mock_drain: "keeps mock_steady mock_drain"
proof (rule keepsI)
  fix s show "wp mock_drain (\<lambda>_. mock_steady s) (\<lambda>_. mock_steady s) s"
    using mock_drain_steady [of s] by (cases "mock_drain s") (auto simp: wp_def split: sum.split)
qed

lemma keeps_sock_peek: "keeps mock_steady (sock_peek n)"
  by (rule keepsI) (simp add: wp_simps mck.R_refl)

lemmas mock_quiet = mck.keeps_control keeps_mock_drain keeps_sock_peek

lemma mock_steady_vt: "steady mock_vt accepted delivered (\<lambda>_. True) = mock_steady"
  by (auto simp: fun_eq_iff steady_def moves_nothing_def lives_on_def mock_vt_def mock_steady_def)

lemma mock_read_law:
  "wp (mock_read_nonblocking n)
     (\<lambda>bs s'. length bs \<le> n \<and> delivered s' = delivered s @ bs \<and> accepted s' = accepted s
        \<and> ms_is_open (mp_local s') = ms_is_open (mp_local s))
     (\<lambda>e. mock_steady s) s"
  by (auto simp: mock_read_nonblocking_def wp_simps faults_def injected_def sock_recv_def mock_steady_def Let_def)

lemma wp_sock_send:
  "wp (sock_send data)
     (\<lambda>n s'. n \<le> length data \<and> accepted s' = accepted s @ take n data \<and> delivered s' = delivered s
        \<and> ms_is_open (mp_local s') = ms_is_open (mp_local s))
     (\<lambda>e s'. s' = s) s"
  by (simp add: wp_def sock_send_def Let_def)

lemma slice_to_take: "\<exists>i. slice_to k xs = take i xs"
  by (auto simp: slice_to_def)

lemma mock_write_law:
  "wp (mock_write_nonblocking data)
     (\<lambda>n s'. n \<le> length data \<and> accepted s' = accepted s @ take n data \<and> delivered s' = delivered s
        \<and> ms_is_open (mp_local s') = ms_is_open (mp_local s))
     (\<lambda>e. mock_steady s) s"
proof -
  have send: "wp (sock_send (take i data))
     (\<lambda>n s'. n \<le> length data \<and> accepted s' = accepted s @ take n data \<and> delivered s' = delivered s
        \<and> ms_is_open (mp_local s') = ms_is_open (mp_local s)) (\<lambda>e. mock_steady s) s" for i
    by (rule wp_mono [OF wp_sock_send]) (auto simp: min.absorb1 mck.R_refl)
  have "\<exists>i. (case fp_short_write_max (ms_faults (mp_local s)) of None \<Rightarrow> data | Some k \<Rightarrow> slice_to k data) = take i data"
    using slice_to_take by (cases "fp_short_write_max (ms_faults (mp_local s))") (auto intro: exI [of _ "length data"])
  then obtain i where "(case fp_short_write_max (ms_faults (mp_local s)) of None \<Rightarrow> data | Some k \<Rightarrow> slice_to k data) = take i data"
    by blast
  with send [of i] show ?thesis
    by (auto simp: mock_write_nonblocking_def wp_simps faults_def injected_def mock_steady_def Let_def)
qed

interpretation mock: sync_backend_laws mock_vt accepted delivered "\<lambda>_. True"
proof (unfold_locales, unfold mock_steady_vt, goal_cases)
  case (1 data b)
  show ?case using mock_write_law [of data b] by (simp add: mock_vt_def lives_on_def)
next
  case (2 n b)
  show ?case using mock_read_law [of n b] by (simp add: mock_vt_def lives_on_def)
next
  case (12 b)
  show ?case by (simp add: mock_vt_def mock_close_def wp_simps moves_nothing_def)
qed (unfold mock_vt_def sync_backend.simps mock_set_break_def mock_output_waiting_def mock_input_waiting_def
    mock_configure_def mock_reset_input_buffer_def mock_reset_output_buffer_def mock_tcdrain_blocking_def
    mock_modem_lines_def mock_set_control_lines_def, (intro mock_quiet steady_local; simp)+)

subsection \<open>Nothing is lost between the two sides\<close>

datatype side = Side_A | Side_B

datatype mock_cmd =
    MC_open string serial_config | MC_close | MC_read nat | MC_write bytes | MC_configure serial_config
  | MC_reset_in | MC_reset_out | MC_break bool | MC_drain | MC_modem | MC_lines "bool option" "bool option"
  | MC_in_waiting | MC_out_waiting | MC_faults fault_plan

primrec mock_cmd_step :: "mock_cmd \<Rightarrow> mock_pair \<Rightarrow> mock_pair" where
  "mock_cmd_step (MC_open p c) s = snd (mock_open p c s)"
| "mock_cmd_step MC_close s = snd (mock_close s)"
| "mock_cmd_step (MC_read n) s = snd (mock_read_nonblocking n s)"
| "mock_cmd_step (MC_write d) s = snd (mock_write_nonblocking d s)"
| "mock_cmd_step (MC_configure c) s = snd (mock_configure c s)"
| "mock_cmd_step MC_reset_in s = snd (mock_reset_input_buffer s)"
| "mock_cmd_step MC_reset_out s = snd (mock_reset_output_buffer s)"
| "mock_cmd_step (MC_break b) s = snd (mock_set_break b s)"
| "mock_cmd_step MC_drain s = snd (mock_tcdrain_blocking s)"
| "mock_cmd_step MC_modem s = snd (mock_modem_lines s)"
| "mock_cmd_step (MC_lines r d) s = snd (mock_set_control_lines r d s)"
| "mock_cmd_step MC_in_waiting s = snd (mock_input_waiting s)"
| "mock_cmd_step MC_out_waiting s = snd (mock_output_waiting s)"
| "mock_cmd_step (MC_faults f) s = snd (faults (\<lambda>_. f) s)"

fun pair_step :: "side \<times> mock_cmd \<Rightarrow> mock_pair \<Rightarrow> mock_pair" where
  "pair_step (Side_A, c) s = mock_cmd_step c s"
| "pair_step (Side_B, c) s = flip (mock_cmd_step c (flip s))"

definition conserved :: "mock_pair \<Rightarrow> bool" where
  "conserved s \<longleftrightarrow> ms_accepted (mp_local s) = ms_consumed (mp_peer s) @ ms_unread (mp_peer s)
     \<and> ms_accepted (mp_peer s) = ms_consumed (mp_local s) @ ms_unread (mp_local s)"

text \<open>A step of the local side: conservation is kept and the peer's reader sees nothing of it.\<close>

definition conserves :: "mock_pair \<Rightarrow> mock_pair \<Rightarrow> bool" where
  "conserves s s' \<longleftrightarrow> (conserved s \<longrightarrow> conserved s')
     \<and> ms_consumed (mp_peer s') = ms_consumed (mp_peer s) \<and> ms_delivered (mp_peer s') = ms_delivered (mp_peer s)"

text \<open>\<open>in_step\<close>: the local reader got everything that left the local queue.\<close>

definition in_step :: "mock_state \<Rightarrow> bool" where
  "in_step m \<longleftrightarrow> ms_delivered m = ms_consumed m"

definition tracks :: "mock_pair \<Rightarrow> mock_pair \<Rightarrow> bool" where
  "tracks s s' \<longleftrightarrow> conserves s s' \<and> (in_step (mp_local s) \<longrightarrow> in_step (mp_local s'))"

interpretation con: frame conserves
  by unfold_locales (auto simp: conserves_def)

interpretation trk: frame tracks
  by unfold_locales (auto simp: tracks_def conserves_def)

lemma flip_flip [simp]: "flip (flip s) = s" "mp_local (flip s) = mp_peer s" "mp_peer (flip s) = mp_local s"
  by (simp_all add: flip_def)

lemma conserved_flip [simp]: "conserved (flip s) = conserved s"
  by (auto simp: conserved_def)

lemma tracks_local:
  "(\<And>m. ms_accepted (f m) = ms_accepted m \<and> ms_delivered (f m) = ms_delivered m
      \<and> ms_consumed (f m) = ms_consumed m \<and> ms_unread (f m) = ms_unread m) \<Longrightarrow> keeps tracks (local f)"
  by (rule keepsI) (simp add: wp_simps tracks_def conserves_def conserved_def in_step_def)

lemma tracks_sock_peek: "keeps tracks (sock_peek n)"
  by (rule keepsI) (simp add: wp_simps trk.R_refl)

lemma tracks_sock_send: "keeps tracks (sock_send d)"
  by (rule keepsI) (simp add: wp_def sock_send_def Let_def tracks_def conserves_def conserved_def in_step_def)

lemma conserves_sock_recv: "conserves s (snd (sock_recv n s))"
proof -
  have "wp (sock_recv n) (\<lambda>_. conserves s) (\<lambda>_. conserves s) s"
    by (auto simp: sock_recv_def wp_simps conserves_def conserved_def min_def)
  then show ?thesis by (rule wp_snd)
qed

lemma conserves_mock_drain: "conserves s (snd (mock_drain s))"
proof (induction s rule: mock_drain.induct)
  case (1 s)
  obtain r s' where run: "sock_recv 4096 s = (r, s')" by fastforce
  have st: "conserves s s'" using conserves_sock_recv [of s 4096] run by simp
  show ?case
  proof (cases r)
    case (Inl e)
    with run st show ?thesis by (simp add: mock_drain.simps [of s])
  next
    case (Inr bs)
    have "bs \<noteq> [] \<Longrightarrow> conserves s' (snd (mock_drain s'))" using 1 run Inr by simp
    with run st Inr show ?thesis
      by (cases "bs = []") (auto simp: mock_drain.simps [of s] intro: con.R_trans)
  qed
qed

lemma conserves_reset: "conserves s (snd (mock_reset_input_buffer s))"
  using conserves_mock_drain [of s]
  by (auto simp: mock_reset_input_buffer_def io_ctl_defs split: prod.splits sum.splits)

lemma tracks_read: "keeps tracks (mock_read_nonblocking n)"
  by (rule keepsI) (auto simp: mock_read_nonblocking_def wp_simps faults_def injected_def sock_recv_def Let_def
      tracks_def conserves_def conserved_def in_step_def min_def)

lemmas tracking = trk.keeps_control tracks_local tracks_sock_peek tracks_sock_send

lemma tracks_ops:
  "keeps tracks (mock_open p c)" "keeps tracks mock_close" "keeps tracks (mock_write_nonblocking d)"
  "keeps tracks (mock_configure c)" "keeps tracks mock_reset_output_buffer" "keeps tracks (mock_set_break b)"
  "keeps tracks mock_tcdrain_blocking" "keeps tracks mock_modem_lines" "keeps tracks (mock_set_control_lines r d')"
  "keeps tracks mock_input_waiting" "keeps tracks mock_output_waiting" "keeps tracks (faults f)"
proof -
  show "keeps tracks (mock_write_nonblocking d)"
    unfolding mock_write_nonblocking_def Let_def case_prod_beta faults_def injected_def
    by (intro tracking; simp)
qed (unfold mock_open_def mock_close_def mock_configure_def mock_reset_output_buffer_def mock_set_break_def
    mock_tcdrain_blocking_def mock_modem_lines_def mock_set_control_lines_def mock_input_waiting_def
    mock_output_waiting_def faults_def, (intro tracking; simp)+)

lemma cmd_tracks: "c \<noteq> MC_reset_in \<Longrightarrow> tracks s (mock_cmd_step c s)"
  by (cases c) (simp_all add: tracks_ops [THEN keeps_snd] tracks_read [THEN keeps_snd])

lemma cmd_conserves: "conserves s (mock_cmd_step c s)"
  using cmd_tracks [of c s] conserves_reset [of s] by (cases "c = MC_reset_in") (simp_all add: tracks_def)

text \<open>The facts of a run, for the reader on either side.\<close>

definition pair_ok :: "bool \<Rightarrow> bool \<Rightarrow> mock_pair \<Rightarrow> bool" where
  "pair_ok ra rb s \<longleftrightarrow> conserved s \<and> (ra \<or> in_step (mp_local s)) \<and> (rb \<or> in_step (mp_peer s))"

lemma pair_ok_flip: "pair_ok ra rb (flip s) = pair_ok rb ra s"
  by (auto simp: pair_ok_def)

lemma pair_ok_cmd: "pair_ok ra rb s \<Longrightarrow> pair_ok (ra \<or> c = MC_reset_in) rb (mock_cmd_step c s)"
  using cmd_tracks [of c s] cmd_conserves [of s c]
  by (auto simp: pair_ok_def tracks_def conserves_def in_step_def)

lemma pair_ok_step: "pair_ok ra rb s \<Longrightarrow>
    pair_ok (ra \<or> x = (Side_A, MC_reset_in)) (rb \<or> x = (Side_B, MC_reset_in)) (pair_step x s)"
  using pair_ok_cmd [of ra rb s "snd x"] pair_ok_cmd [of rb ra "flip s" "snd x"]
  by (cases "(x, s)" rule: pair_step.cases) (auto simp: pair_ok_flip)

lemma pair_ok_run: "pair_ok ra rb s \<Longrightarrow>
    pair_ok (ra \<or> (Side_A, MC_reset_in) \<in> set cs) (rb \<or> (Side_B, MC_reset_in) \<in> set cs) (fold pair_step cs s)"
proof (induction cs arbitrary: ra rb s)
  case Nil
  then show ?case by simp
next
  case (Cons x cs)
  from Cons.IH [OF pair_ok_step [OF Cons.prems, of x]] show ?case
    by (simp add: disj_assoc eq_commute [of x "(Side_A, MC_reset_in)"] eq_commute [of x "(Side_B, MC_reset_in)"])
qed

text \<open>The mock pair is a reliable duplex pipe: after any sequence of operations by both sides, with any
  faults injected and any buffer sizes, the bytes one side had accepted are exactly those the other
  side took from its queue followed by those still queued. Unless that side ever discarded its
  input, what its reads returned is therefore a prefix of what was written: nothing is lost,
  duplicated or reordered.\<close>

theorem mock_pair_delivers:
  assumes "s = fold pair_step cmds (mock_pair_of a b fa fb room e)"
  shows "conserved s
    \<and> ((Side_B, MC_reset_in) \<notin> set cmds \<longrightarrow>
        ms_accepted (mp_local s) = ms_delivered (mp_peer s) @ ms_unread (mp_peer s))
    \<and> ((Side_A, MC_reset_in) \<notin> set cmds \<longrightarrow>
        ms_accepted (mp_peer s) = ms_delivered (mp_local s) @ ms_unread (mp_local s))"
proof -
  have "pair_ok False False (mock_pair_of a b fa fb room e)"
    by (simp add: pair_ok_def conserved_def in_step_def mock_pair_of_def new_mock_state_def)
  from pair_ok_run [OF this, of cmds] assms show ?thesis
    by (auto simp: pair_ok_def conserved_def in_step_def)
qed

definition demo_pair_run :: "(side \<times> mock_cmd) list" where
  "demo_pair_run = [(Side_A, MC_faults (no_faults\<lparr>fp_short_write_max := Some 2\<rparr>)), (Side_A, MC_write [1, 2, 3]),
     (Side_A, MC_write [3, 4]), (Side_B, MC_read 3)]"

theorem mock_pair_delivers_witness:
  "let s = fold pair_step demo_pair_run (mock_pair_of ''a'' ''b'' 5 6 (\<lambda>q. 1024 - length q) 11) in
     ms_accepted (mp_local s) = [1, 2, 3, 4] \<and> ms_delivered (mp_peer s) = [1, 2, 3] \<and> ms_unread (mp_peer s) = [4]"
proof -
  let ?s = "fold pair_step demo_pair_run (mock_pair_of ''a'' ''b'' 5 6 (\<lambda>q. 1024 - length q) 11)"
  have "ms_delivered (mp_peer ?s) = [1, 2, 3]" "ms_unread (mp_peer ?s) = [4]" by code_simp+
  moreover have "(Side_B, MC_reset_in) \<notin> set demo_pair_run" by (simp add: demo_pair_run_def)
  ultimately show ?thesis
    using mock_pair_delivers [OF refl, of demo_pair_run "''a''" "''b''" 5 6 "\<lambda>q. 1024 - length q" 11]
    unfolding Let_def by auto
qed

subsection \<open>Ports over the pair (\<open>testing.py\<close>)\<close>

text \<open>\<open>serial_port_pair\<close>: both mocks opened and each wrapped in a port; the two ports share the pair.\<close>

definition serial_port_pair :: "serial_config option \<Rightarrow> serial_config option \<Rightarrow> string \<Rightarrow> string \<Rightarrow>
    mock_pair \<Rightarrow> exn + mock_pair port \<times> mock_pair port" where
  "serial_port_pair config_a config_b path_a path_b s =
     (let cfg_a = (case config_a of Some c \<Rightarrow> c | None \<Rightarrow> default_config);
          cfg_b = (case config_b of Some c \<Rightarrow> c | None \<Rightarrow> default_config)
      in case mock_open path_a cfg_a s of
           (Inl e, _) \<Rightarrow> Inl e
         | (Inr _, s1) \<Rightarrow>
             (case mock_open path_b cfg_b (flip s1) of
                (Inl e, _) \<Rightarrow> Inl e
              | (Inr _, s2) \<Rightarrow> Inr (new_port (flip s2) cfg_a, new_port s2 cfg_b)))"

lemma serial_port_pair_opens:
  assumes "serial_port_pair ca cb pa pb (mock_pair_of pa pb fa fb room e) = Inr (p, q)"
  shows "port_is_open mock_vt p \<and> port_is_open mock_vt q \<and> p_backend q = flip (p_backend p)
    \<and> p_config p = (case ca of Some c \<Rightarrow> c | None \<Rightarrow> default_config)
    \<and> ms_config (mp_local (p_backend p)) = Some (p_config p)
    \<and> ms_config (mp_local (p_backend q)) = Some (p_config q)"
  using assms
  by (auto simp: serial_port_pair_def Let_def mock_open_def local_def io_ctl_defs mock_pair_of_def
      new_mock_state_def port_is_open_def mock_vt_def new_port_def split: option.splits)

end
