(* ===== verification/Discovery.thy ===== *)
theory Discovery
  imports Strings Exceptions "HOL-Library.List_Lexorder" "HOL-Library.Char_ord"
begin

section \<open>Port discovery (\<open>discovery.py\<close>, \<open>_backend/selector.py\<close>)\<close>

text \<open>
  What the platform enumerators share: the \<open>PortInfo\<close> record, hexadecimal parsing and printing with
  their round trip, the \<open>hwid\<close> text, the canonical name of a port, the filters of
  \<open>find_serial_port\<close>, and the three dispatches on \<open>sys.platform\<close>. The filesystem behind
  \<open>os.path.exists\<close> and \<open>os.path.realpath\<close> and the enumerators themselves are arguments here; the
  platform theories supply them. Text is ASCII.
\<close>

record port_info =
  pi_device :: string
  pi_name :: "string option"
  pi_description :: "string option"
  pi_hwid :: "string option"
  pi_vid :: "int option"
  pi_pid :: "int option"
  pi_serial_number :: "string option"
  pi_manufacturer :: "string option"
  pi_product :: "string option"
  pi_location :: "string option"
  pi_interface :: "string option"

text \<open>\<open>PortInfo(device=d, name=n)\<close>: every other field is its default.\<close>

definition bare_port :: "string \<Rightarrow> string option \<Rightarrow> port_info" where
  "bare_port d n = \<lparr>pi_device = d, pi_name = n, pi_description = None, pi_hwid = None, pi_vid = None,
     pi_pid = None, pi_serial_number = None, pi_manufacturer = None, pi_product = None,
     pi_location = None, pi_interface = None\<rparr>"

text \<open>\<open>if s:\<close> for an optional string, and \<open>s or None\<close> for a string.\<close>

definition truthy :: "string option \<Rightarrow> bool" where
  "truthy s \<longleftrightarrow> s \<noteq> None \<and> s \<noteq> Some []"

definition nonempty :: "string \<Rightarrow> string option" where
  "nonempty s = (if s = [] then None else Some s)"

lemma nonempty_simps [simp]: "nonempty [] = None" "s \<noteq> [] \<Longrightarrow> nonempty s = Some s"
  "truthy (nonempty s) \<longleftrightarrow> s \<noteq> []"
  by (simp_all add: nonempty_def truthy_def)

subsection \<open>Hexadecimal text: \<open>int(s, 16)\<close> and \<open>f"{n:04X}"\<close>\<close>

definition hex_digit :: "bool \<Rightarrow> nat \<Rightarrow> char" where
  "hex_digit upper d = (if d < 10 then char_of (48 + d) else char_of ((if upper then 55 else 87) + d))"

definition hex_value :: "char \<Rightarrow> nat option" where
  "hex_value c =
     (let k = of_char c :: nat in
      if 48 \<le> k \<and> k \<le> 57 then Some (k - 48)
      else if 65 \<le> k \<and> k \<le> 70 then Some (k - 55)
      else if 97 \<le> k \<and> k \<le> 102 then Some (k - 87)
      else None)"

definition is_hex :: "char \<Rightarrow> bool" where
  "is_hex c \<longleftrightarrow> hex_value c \<noteq> None"

fun hex_of_nat :: "bool \<Rightarrow> nat \<Rightarrow> string" where
  "hex_of_nat upper n =
     (if n < 16 then [hex_digit upper n] else hex_of_nat upper (n div 16) @ [hex_digit upper (n mod 16)])"

declare hex_of_nat.simps [simp del]

definition zero_fill :: "nat \<Rightarrow> string \<Rightarrow> string" where
  "zero_fill w s = replicate (w - length s) (CHR ''0'') @ s"

text \<open>The format \<open>0wX\<close> (or \<open>0wx\<close>): zeros go between the sign and the digits, up to the total width.\<close>

definition format_hex :: "bool \<Rightarrow> nat \<Rightarrow> int \<Rightarrow> string" where
  "format_hex upper w n =
     (if n < 0 then CHR ''-'' # zero_fill (w - 1) (hex_of_nat upper (nat (- n)))
      else zero_fill w (hex_of_nat upper (nat n)))"

definition nat_of_hex :: "string \<Rightarrow> nat" where
  "nat_of_hex = foldl (\<lambda>n c. 16 * n + the (hex_value c)) 0"

text \<open>
  \<open>int(s, 16)\<close>: white space stripped, an optional sign, an optional \<open>0x\<close> that one underscore may
  follow, then groups of hexadecimal digits separated by single underscores.
\<close>

definition hex_groups :: "string \<Rightarrow> nat option" where
  "hex_groups s =
     (let gs = split_on (CHR ''_'') s in
      if list_all (\<lambda>g. g \<noteq> [] \<and> list_all is_hex g) gs then Some (nat_of_hex (concat gs)) else None)"

definition hex_body :: "string \<Rightarrow> nat option" where
  "hex_body s =
     (if starts_with ''0x'' s \<or> starts_with ''0X'' s then
        hex_groups (if starts_with ''_'' (drop 2 s) then drop 3 s else drop 2 s)
      else hex_groups s)"

definition py_int_hex :: "string \<Rightarrow> int option" where
  "py_int_hex s =
     (case strip s of
        [] \<Rightarrow> None
      | c # cs \<Rightarrow>
          if c = CHR ''-'' then map_option (\<lambda>n. - int n) (hex_body cs)
          else if c = CHR ''+'' then map_option int (hex_body cs)
          else map_option int (hex_body (c # cs)))"

lemma hex_value_digit [simp]: "d < 16 \<Longrightarrow> hex_value (hex_digit up d) = Some d"
  by (auto simp: hex_value_def hex_digit_def Let_def)

lemma is_hex_digit [simp]: "d < 16 \<Longrightarrow> is_hex (hex_digit up d)"
  by (simp add: is_hex_def)

lemma hex_of_nat_hex: "list_all is_hex (hex_of_nat up n)"
proof (induction up n rule: hex_of_nat.induct)
  case (1 up n)
  then show ?case by (subst hex_of_nat.simps) simp
qed

lemma hex_of_nat_nonempty [simp]: "hex_of_nat up n \<noteq> []"
  by (subst hex_of_nat.simps) simp

lemma nat_of_hex_of_nat [simp]: "nat_of_hex (hex_of_nat up n) = n"
proof (induction up n rule: hex_of_nat.induct)
  case (1 up n)
  show ?case
  proof (cases "n < 16")
    case True
    then show ?thesis by (subst hex_of_nat.simps) (simp add: nat_of_hex_def)
  next
    case False
    then have "nat_of_hex (hex_of_nat up (n div 16)) = n div 16" using 1 by simp
    with False show ?thesis by (subst hex_of_nat.simps) (simp add: nat_of_hex_def)
  qed
qed

lemma nat_of_hex_zeros [simp]: "nat_of_hex (replicate k (CHR ''0'') @ s) = nat_of_hex s"
  by (induction k) (simp_all add: nat_of_hex_def hex_value_def)

lemma zero_fill_hex: "list_all is_hex (zero_fill w (hex_of_nat up n))"
proof -
  have "is_hex (CHR ''0'')" by (simp add: is_hex_def hex_value_def)
  then show ?thesis using hex_of_nat_hex [of up n] by (auto simp: zero_fill_def list_all_iff)
qed

lemma zero_fill_nonempty [simp]: "zero_fill w (hex_of_nat up n) \<noteq> []"
  by (simp add: zero_fill_def)

lemma nat_of_hex_zero_fill [simp]: "nat_of_hex (zero_fill w (hex_of_nat up n)) = n"
  by (simp add: zero_fill_def)

lemma is_hex_plain:
  assumes "is_hex c"
  shows "\<not> is_space c" "c \<noteq> CHR ''_''" "c \<noteq> CHR ''-''" "c \<noteq> CHR ''+''" "c \<noteq> CHR ''x''" "c \<noteq> CHR ''X''"
    "c \<noteq> CHR '':''" "c \<noteq> CHR '' ''"
  using assms by (auto simp: is_hex_def hex_value_def is_space_def Let_def split: if_splits)

lemma not_is_hex [simp]: "\<not> is_hex (CHR ''_'')" "\<not> is_hex (CHR ''x'')" "\<not> is_hex (CHR ''X'')"
  "\<not> is_hex (CHR '':'')" "\<not> is_hex (CHR '' '')" "\<not> is_hex (CHR ''-'')"
  by (simp_all add: is_hex_def hex_value_def)

lemma hex_free: "list_all is_hex s \<Longrightarrow> \<not> is_hex c \<Longrightarrow> c \<notin> set s"
  by (auto simp: list_all_iff)

lemma hex_body_digits:
  assumes "list_all is_hex s" "s \<noteq> []"
  shows "hex_body s = Some (nat_of_hex s)"
proof -
  have ns: "CHR ''_'' \<notin> set s" "CHR ''x'' \<notin> set s" "CHR ''X'' \<notin> set s"
    using assms(1) by (simp_all add: hex_free)
  have "\<not> starts_with [CHR ''0'', d] s" if "d \<notin> set s" for d
    using that by (cases s; cases "tl s") (auto simp: starts_with_def)
  then have "hex_body s = hex_groups s" using ns by (simp add: hex_body_def)
  then show ?thesis using assms ns by (simp add: hex_groups_def split_on_none)
qed

text \<open>What the package prints it reads back.\<close>

lemma py_int_format_hex [simp]: "py_int_hex (format_hex up w n) = Some n"
proof -
  let ?d = "\<lambda>w. zero_fill w (hex_of_nat up (nat \<bar>n\<bar>))"
  have body: "hex_body (?d w) = Some (nat \<bar>n\<bar>)" for w
    by (simp add: hex_body_digits zero_fill_hex)
  have ends: "is_hex (hd (?d w))" "is_hex (last (?d w))" for w
    using zero_fill_hex [of w up "nat \<bar>n\<bar>"] by (simp_all add: list_all_iff)
  have eq: "format_hex up w n = (if n < 0 then CHR ''-'' # ?d (w - 1) else ?d w)"
    by (simp add: format_hex_def)
  have s: "strip (format_hex up w n) = format_hex up w n"
    by (rule strip_id) (use ends [THEN is_hex_plain(1)] in \<open>auto simp: eq is_space_def\<close>)
  show ?thesis
  proof (cases "n < 0")
    case True
    then show ?thesis using body [of "w - 1"] s by (simp add: py_int_hex_def eq)
  next
    case False
    then obtain c cs where d: "?d w = c # cs" by (cases "?d w") auto
    then have "is_hex c" using ends(1) [of w] by simp
    then show ?thesis using False body [of w] s d is_hex_plain [of c] by (simp add: py_int_hex_def eq)
  qed
qed

text \<open>\<open>_parse_hex\<close>: a \<open>ValueError\<close> of \<open>int\<close> becomes \<open>None\<close>.\<close>

definition parse_hex :: "string option \<Rightarrow> int option" where
  "parse_hex v = Option.bind v py_int_hex"

subsection \<open>The \<open>hwid\<close> text\<close>

definition join_space :: "string list \<Rightarrow> string" where
  "join_space ps = concat (case ps of [] \<Rightarrow> [] | p # qs \<Rightarrow> p # map (\<lambda>q. CHR '' '' # q) qs)"

definition hwid_text :: "int option \<Rightarrow> int option \<Rightarrow> string option \<Rightarrow> string option \<Rightarrow> string option" where
  "hwid_text vid pid serial location =
     (case (vid, pid) of
        (Some v, Some p) \<Rightarrow>
          Some (join_space
            ([''USB VID:PID='' @ format_hex True 4 v @ '':'' @ format_hex True 4 p]
             @ (if truthy serial then [''SER='' @ the serial] else [])
             @ (if truthy location then [''LOCATION='' @ the location] else [])))
      | _ \<Rightarrow> None)"

text \<open>Reading the two numbers back, as a consumer of pySerial-style \<open>hwid\<close> strings does.\<close>

definition hwid_ids :: "string \<Rightarrow> int option \<times> int option" where
  "hwid_ids h =
     (let rest = drop 12 h; v = takeWhile (\<lambda>c. c \<noteq> CHR '':'') rest;
          p = takeWhile (\<lambda>c. c \<noteq> CHR '' '') (drop (Suc (length v)) rest)
      in (py_int_hex v, py_int_hex p))"

lemma format_hex_free: "CHR '':'' \<notin> set (format_hex up w n)" "CHR '' '' \<notin> set (format_hex up w n)"
  by (simp_all add: format_hex_def hex_free [OF zero_fill_hex])

lemma takeWhile_upto: "c \<notin> set xs \<Longrightarrow> takeWhile (\<lambda>x. x \<noteq> c) (xs @ c # ys) = xs"
  by (subst takeWhile_append2) auto

lemma takeWhile_all: "c \<notin> set xs \<Longrightarrow> takeWhile (\<lambda>x. x \<noteq> c) xs = xs"
  by (auto simp: takeWhile_eq_all_conv)

lemma hwid_text_reads:
  "map_option hwid_ids (hwid_text vid pid serial location) =
     (if vid = None \<or> pid = None then None else Some (vid, pid))"
proof (cases "vid = None \<or> pid = None")
  case True
  then show ?thesis by (auto simp: hwid_text_def split: option.split)
next
  case False
  then obtain v p where vp: "vid = Some v" "pid = Some p" by auto
  let ?v = "format_hex True 4 v" and ?p = "format_hex True 4 p"
  obtain tail where
    h: "hwid_text vid pid serial location = Some (''USB VID:PID='' @ ?v @ CHR '':'' # ?p @ tail)"
    and tail: "tail = [] \<or> (\<exists>t. tail = CHR '' '' # t)"
    by (auto simp: hwid_text_def vp join_space_def)
  have "takeWhile (\<lambda>c. c \<noteq> CHR '' '') (?p @ tail) = ?p"
    using tail format_hex_free(2) [of True 4 p] by (auto simp: takeWhile_upto takeWhile_all)
  then have "hwid_ids (''USB VID:PID='' @ ?v @ CHR '':'' # ?p @ tail) = (Some v, Some p)"
    by (simp add: hwid_ids_def takeWhile_upto format_hex_free)
  then show ?thesis unfolding h using vp by simp
qed

text \<open>Reading a \<open>hwid\<close> string back gives exactly the vendor and product numbers it was made
  from, whatever serial number and location follow and also for numbers wider than four digits; no
  string is made when either number is missing.\<close>

theorem hwid_text_roundtrip:
  "map_option hwid_ids (hwid_text vid pid serial location) =
     (if vid = None \<or> pid = None then None else Some (vid, pid))"
  by (rule hwid_text_reads)

subsection \<open>Canonical port names\<close>

definition BACKSLASH :: char where "BACKSLASH = CHR 0x5C"

definition WINDOWS_DEVICE_PREFIXES :: "string list" where
  "WINDOWS_DEVICE_PREFIXES =
     [[BACKSLASH, BACKSLASH, CHR ''.'', BACKSLASH], [BACKSLASH, BACKSLASH, CHR ''?'', BACKSLASH]]"

definition has_device_prefix :: "string \<Rightarrow> bool" where
  "has_device_prefix s \<longleftrightarrow> list_ex (\<lambda>p. starts_with p s) WINDOWS_DEVICE_PREFIXES"

lemma has_device_prefix_length: "has_device_prefix s \<Longrightarrow> 4 \<le> length s"
  by (auto simp: has_device_prefix_def WINDOWS_DEVICE_PREFIXES_def starts_with_def take_Cons'
      split: if_splits dest!: arg_cong [of _ _ length])

function strip_device_prefixes :: "string \<Rightarrow> string" where
  "strip_device_prefixes s = (if has_device_prefix s then strip_device_prefixes (drop 4 s) else s)"
  by pat_completeness auto
termination strip_device_prefixes
  by (relation "measure length") (auto dest: has_device_prefix_length)

declare strip_device_prefixes.simps [simp del]

definition upper_char :: "char \<Rightarrow> char" where
  "upper_char c = (let k = of_char c :: nat in if 97 \<le> k \<and> k \<le> 122 then char_of (k - 32) else c)"

definition upper :: "string \<Rightarrow> string" where
  "upper = map upper_char"

definition canonical_port_name ::
  "(string \<Rightarrow> bool) \<Rightarrow> (string \<Rightarrow> string) \<Rightarrow> string \<Rightarrow> string \<Rightarrow> string" where
  "canonical_port_name exists realpath platform path =
     (if platform = ''win32'' then upper (strip_device_prefixes path)
      else if exists path then realpath path
      else path)"

lemma upper_char_upper_char [simp]: "upper_char (upper_char c) = upper_char c"
  by (auto simp: upper_char_def Let_def)

lemma upper_upper [simp]: "upper (upper s) = upper s"
  by (simp add: upper_def)

lemma upper_char_special:
  "upper_char c = BACKSLASH \<longleftrightarrow> c = BACKSLASH" "upper_char c = CHR ''.'' \<longleftrightarrow> c = CHR ''.''"
  "upper_char c = CHR ''?'' \<longleftrightarrow> c = CHR ''?''"
proof -
  have neq: "of_char (upper_char c) = of_char c \<or> 65 \<le> (of_char (upper_char c) :: nat) \<and>
      (of_char (upper_char c) :: nat) \<le> 90 \<and> 97 \<le> (of_char c :: nat) \<and> (of_char c :: nat) \<le> 122"
    by (auto simp: upper_char_def Let_def)
  have "upper_char c = d \<longleftrightarrow> c = d" if "(of_char d :: nat) \<notin> {65..90} \<union> {97..122}" for d
    using neq that by (metis Un_iff atLeastAtMost_iff of_char_eq_iff)
  then show "upper_char c = BACKSLASH \<longleftrightarrow> c = BACKSLASH" "upper_char c = CHR ''.'' \<longleftrightarrow> c = CHR ''.''"
    "upper_char c = CHR ''?'' \<longleftrightarrow> c = CHR ''?''"
    by (simp_all add: BACKSLASH_def)
qed

lemma has_device_prefix_upper [simp]: "has_device_prefix (upper s) = has_device_prefix s"
  by (auto simp: has_device_prefix_def WINDOWS_DEVICE_PREFIXES_def starts_with_def upper_def take_map
      upper_char_special map_eq_Cons_conv)

lemma strip_device_prefixes_upper: "strip_device_prefixes (upper s) = upper (strip_device_prefixes s)"
proof (induction s rule: strip_device_prefixes.induct)
  case (1 s)
  have "drop 4 (upper s) = upper (drop 4 s)" by (simp add: upper_def drop_map)
  then show ?case using 1 by (subst (1 2) strip_device_prefixes.simps) simp
qed

lemma strip_device_prefixes_clean: "\<not> has_device_prefix (strip_device_prefixes s)"
proof (induction s rule: strip_device_prefixes.induct)
  case (1 s)
  then show ?case by (subst strip_device_prefixes.simps) simp
qed

lemma strip_device_prefixes_idem [simp]:
  "strip_device_prefixes (strip_device_prefixes s) = strip_device_prefixes s"
  by (subst strip_device_prefixes.simps) (simp add: strip_device_prefixes_clean)

lemma strip_device_prefixes_prefix:
  assumes "p \<in> set WINDOWS_DEVICE_PREFIXES"
  shows "strip_device_prefixes (p @ s) = strip_device_prefixes s"
proof -
  have "has_device_prefix (p @ s)" "drop 4 (p @ s) = s"
    using assms by (auto simp: has_device_prefix_def starts_with_def WINDOWS_DEVICE_PREFIXES_def)
  then show ?thesis by (subst strip_device_prefixes.simps) simp
qed

text \<open>On Windows every spelling of a port has one canonical name: any number of device prefixes
  in front and any letter case give the same name, which carries no prefix, is all upper case and is
  canonical itself.\<close>

theorem windows_canonical_name:
  "let canon = canonical_port_name exists realpath ''win32'' in
     (\<forall>ps. list_all (\<lambda>p. List.member WINDOWS_DEVICE_PREFIXES p) ps \<longrightarrow> canon (concat ps @ upper s) = canon s)
     \<and> canon (canon s) = canon s \<and> \<not> has_device_prefix (canon s) \<and> upper (canon s) = canon s"
proof -
  have "strip_device_prefixes (concat ps @ upper s) = upper (strip_device_prefixes s)"
    if "list_all (\<lambda>p. p \<in> set WINDOWS_DEVICE_PREFIXES) ps" for ps
    using that
    by (induction ps) (simp_all add: strip_device_prefixes_upper strip_device_prefixes_prefix)
  then show ?thesis
    by (simp add: canonical_port_name_def Let_def strip_device_prefixes_upper
        strip_device_prefixes_clean)
qed

text \<open>The witness runs it on mixed prefixes and letter cases.\<close>

lemma windows_canonical_name_witness:
  "canonical_port_name (\<lambda>_. False) id ''win32''
     (concat [WINDOWS_DEVICE_PREFIXES ! 0, WINDOWS_DEVICE_PREFIXES ! 1] @ upper ''com8'') = ''COM8''"
proof -
  have "list_all (\<lambda>p. List.member WINDOWS_DEVICE_PREFIXES p) [WINDOWS_DEVICE_PREFIXES ! 0, WINDOWS_DEVICE_PREFIXES ! 1]"
    by (simp add: WINDOWS_DEVICE_PREFIXES_def)
  moreover have "canonical_port_name (\<lambda>_. False) id ''win32'' ''com8'' = ''COM8''" by code_simp
  ultimately show ?thesis
    using windows_canonical_name [of "\<lambda>_. False" id "''com8''"] by (simp only: Let_def)
qed

subsection \<open>Filters\<close>

definition port_matches ::
  "(string \<Rightarrow> string) \<Rightarrow> int option \<Rightarrow> int option \<Rightarrow> string option \<Rightarrow> string option \<Rightarrow> port_info \<Rightarrow> bool"
where
  "port_matches canon vid pid serial wanted p \<longleftrightarrow>
     (vid = None \<or> pi_vid p = vid) \<and> (pid = None \<or> pi_pid p = pid)
     \<and> (serial = None \<or> pi_serial_number p = serial)
     \<and> (wanted = None \<or> Some (canon (pi_device p)) = wanted)"

subsection \<open>Dispatch on the platform\<close>

datatype discovery_backend = Native | Pyudev | Pyserial

datatype family = LinuxFamily | DarwinFamily | BsdFamily | WindowsFamily

datatype enumerator = NativeEnumerator family | PyudevEnumerator | PyserialEnumerator

definition is_bsd_name :: "string \<Rightarrow> bool" where
  "is_bsd_name platform \<longleftrightarrow> contains ''bsd'' platform \<or> starts_with ''dragonfly'' platform"

definition select_discovery :: "discovery_backend \<Rightarrow> string \<Rightarrow> exn + enumerator" where
  "select_discovery backend platform =
     (if backend = Pyserial then Inr PyserialEnumerator
      else if backend = Pyudev then Inr PyudevEnumerator
      else if starts_with ''linux'' platform then Inr (NativeEnumerator LinuxFamily)
      else if platform = ''darwin'' then Inr (NativeEnumerator DarwinFamily)
      else if is_bsd_name platform then Inr (NativeEnumerator BsdFamily)
      else if platform = ''win32'' then Inr (NativeEnumerator WindowsFamily)
      else Inl (exn_msg UnsupportedPlatformError))"

definition select_backend :: "string \<Rightarrow> exn + family" where
  "select_backend platform =
     (if starts_with ''linux'' platform then Inr LinuxFamily
      else if platform = ''darwin'' then Inr DarwinFamily
      else if is_bsd_name platform then Inr BsdFamily
      else if platform = ''win32'' then Inr WindowsFamily
      else Inl (exn_msg UnsupportedPlatformError))"

definition platform_port_info_resolver :: "string \<Rightarrow> family option" where
  "platform_port_info_resolver platform =
     (if starts_with ''linux'' platform then Some LinuxFamily
      else if platform = ''darwin'' then Some DarwinFamily
      else if is_bsd_name platform then Some BsdFamily
      else if platform = ''win32'' then Some WindowsFamily
      else None)"

text \<open>\<open>_resolve_port_info_for_path\<close>: discovery trouble never stops an open.\<close>

definition resolve_port_info_for_path ::
  "(family \<Rightarrow> string \<Rightarrow> exn + port_info option) \<Rightarrow> string \<Rightarrow> string \<Rightarrow> exn + port_info option" where
  "resolve_port_info_for_path resolver platform path =
     (case platform_port_info_resolver platform of
        None \<Rightarrow> Inr None
      | Some f \<Rightarrow>
          (case resolver f path of
             Inl e \<Rightarrow> if isinstance e OSError then Inr None else Inl e
           | Inr r \<Rightarrow> Inr r))"

definition list_serial_ports ::
  "(enumerator \<Rightarrow> exn + port_info list) \<Rightarrow> string \<Rightarrow> discovery_backend \<Rightarrow> exn + port_info list" where
  "list_serial_ports run platform backend = res_bind (select_discovery backend platform) run"

definition find_serial_port ::
  "(string \<Rightarrow> string) \<Rightarrow> (enumerator \<Rightarrow> exn + port_info list) \<Rightarrow> string \<Rightarrow> discovery_backend \<Rightarrow>
   int option \<Rightarrow> int option \<Rightarrow> string option \<Rightarrow> string option \<Rightarrow> exn + port_info option" where
  "find_serial_port canon run platform backend vid pid serial device =
     res_bind (select_discovery backend platform) (\<lambda>enumerate_fn.
       let wanted = map_option canon device in
       res_bind (run enumerate_fn) (\<lambda>ps. Inr (find (port_matches canon vid pid serial wanted) ps)))"

text \<open>The three dispatches on the platform name agree: native discovery, the backend and the
  \<open>port_info\<close> resolver are chosen for the same platforms and belong to the same family, and the
  platforms without one are refused by the first two with \<open>UnsupportedPlatformError\<close> and skipped by the
  third.\<close>

theorem platform_dispatch_agrees:
  "select_discovery Native platform = map_sum id NativeEnumerator (select_backend platform)
   \<and> platform_port_info_resolver platform =
      (case select_backend platform of Inl _ \<Rightarrow> None | Inr f \<Rightarrow> Some f)
   \<and> (\<forall>e. select_backend platform = Inl e \<longrightarrow> exn_class e = UnsupportedPlatformError \<and> isinstance e SerialError)
   \<and> (\<forall>run e. platform_port_info_resolver platform = None
        \<longrightarrow> list_serial_ports run platform Native = Inl (exn_msg UnsupportedPlatformError))"
  by (auto simp: select_discovery_def select_backend_def platform_port_info_resolver_def exn_msg_def
      isinstance_simps list_serial_ports_def)

text \<open>The dispatch refuses a platform no backend is written for.\<close>

lemma platform_dispatch_agrees_witness:
  "exn_class (exn_msg UnsupportedPlatformError) = UnsupportedPlatformError
   \<and> list_serial_ports (\<lambda>_. Inr []) ''sunos5'' Native = Inl (exn_msg UnsupportedPlatformError)"
proof -
  have "select_backend ''sunos5'' = Inl (exn_msg UnsupportedPlatformError)"
    "platform_port_info_resolver ''sunos5'' = None" by code_simp+
  then show ?thesis using platform_dispatch_agrees [of "''sunos5''"] by simp
qed

text \<open>What the caller of \<open>find_serial_port\<close> asks for.\<close>

definition satisfies ::
  "(string \<Rightarrow> string) \<Rightarrow> int option \<Rightarrow> int option \<Rightarrow> string option \<Rightarrow> string option \<Rightarrow> port_info \<Rightarrow> bool"
where
  "satisfies canon vid pid serial device p \<longleftrightarrow>
     (\<forall>v. vid = Some v \<longrightarrow> pi_vid p = Some v) \<and> (\<forall>v. pid = Some v \<longrightarrow> pi_pid p = Some v)
     \<and> (\<forall>t. serial = Some t \<longrightarrow> pi_serial_number p = Some t)
     \<and> (\<forall>d. device = Some d \<longrightarrow> canon (pi_device p) = canon d)"

lemma port_matches_satisfies:
  "port_matches canon vid pid serial (map_option canon device) p = satisfies canon vid pid serial device p"
  by (cases vid; cases pid; cases serial; cases device) (auto simp: port_matches_def satisfies_def)

lemma find_append_first: "filter P before = [] \<Longrightarrow> P p \<Longrightarrow> find P (before @ p # after) = Some p"
  by (induction before) (auto split: if_splits)

lemma find_Some_first:
  "find P ps = Some p \<longleftrightarrow> (\<exists>before after. ps = before @ p # after \<and> P p \<and> filter P before = [])"
proof
  show "find P ps = Some p \<Longrightarrow> \<exists>before after. ps = before @ p # after \<and> P p \<and> filter P before = []"
  proof (induction ps)
    case (Cons q qs)
    show ?case
    proof (cases "P q")
      case True
      with Cons.prems show ?thesis by (intro exI [of _ "[]"] exI [of _ qs]) simp
    next
      case False
      with Cons obtain before after where "qs = before @ p # after" "P p" "filter P before = []" by auto
      with False show ?thesis by (intro exI [of _ "q # before"] exI [of _ after]) simp
    qed
  qed simp
qed (auto simp: find_append_first)

lemma find_None_filter: "find P ps = None \<longleftrightarrow> filter P ps = []"
  by (auto simp: find_None_iff filter_empty_conv)

lemma find_serial_port_alt:
  "find_serial_port canon run platform backend vid pid serial device =
     res_bind (list_serial_ports run platform backend)
       (\<lambda>ps. Inr (find (satisfies canon vid pid serial device) ps))"
  by (simp add: find_serial_port_def list_serial_ports_def res_bind_def port_matches_satisfies [abs_def]
      split: sum.split)

text \<open>\<open>find_serial_port\<close> returns the first port of \<open>list_serial_ports\<close>, in its order, that agrees
  with every given filter, the device filter up to canonical names; it returns \<open>None\<close> exactly when
  no listed port does, and raises exactly what listing raises.\<close>

theorem find_serial_port_first:
  "find_serial_port canon run platform backend vid pid serial device = r \<longleftrightarrow>
     (case r of
        Inl e \<Rightarrow> list_serial_ports run platform backend = Inl e
      | Inr None \<Rightarrow> \<exists>ps. list_serial_ports run platform backend = Inr ps
          \<and> filter (satisfies canon vid pid serial device) ps = []
      | Inr (Some p) \<Rightarrow> \<exists>before after.
          list_serial_ports run platform backend = Inr (before @ p # after)
          \<and> satisfies canon vid pid serial device p
          \<and> filter (satisfies canon vid pid serial device) before = [])"
proof (cases r)
  case (Inl e)
  then show ?thesis by (auto simp: find_serial_port_alt res_bind_Inl_iff)
next
  case (Inr q)
  then show ?thesis
  proof (cases q)
    case None
    with Inr show ?thesis by (auto simp: find_serial_port_alt res_bind_Inr_iff find_None_filter)
  next
    case (Some p)
    with Inr show ?thesis by (auto simp: find_serial_port_alt res_bind_Inr_iff find_Some_first)
  qed
qed

definition demo_ports :: "port_info list" where
  "demo_ports = [(bare_port ''/dev/ttyS0'' None), (bare_port ''/dev/ttyUSB0'' None)\<lparr>pi_vid := Some 1027\<rparr>]"

lemma find_serial_port_first_witness:
  "find_serial_port id (\<lambda>_. Inr demo_ports) ''linux'' Native (Some 1027) None None None =
     Inr (Some (demo_ports ! 1))"
  by (subst find_serial_port_first)
    (auto simp: list_serial_ports_def select_discovery_def starts_with_def demo_ports_def bare_port_def
      satisfies_def Cons_eq_append_conv)

end
