(* ===== verification/Linux_Discovery.thy ===== *)
theory Linux_Discovery
  imports Discovery "HOL-Library.Sublist"
begin

section \<open>Sysfs discovery (\<open>_linux/discovery.py\<close>)\<close>

text \<open>
  The walk of \<open>/sys/class/tty\<close>. A resolved path is the list of its components, the root being \<open>[]\<close>;
  \<open>parent\<close> is \<open>butlast\<close>, and the parent of the root is the root. The filesystem is a record of the
  queries the walk makes. A query that can raise returns the exception, so a device unplugged
  between two queries is a filesystem whose answers disagree, and the theorems cover it.
\<close>

type_synonym fs_path = "string list"

record filesystem =
  fs_is_dir :: "fs_path \<Rightarrow> bool"
  fs_is_file :: "fs_path \<Rightarrow> bool"
  fs_exists :: "fs_path \<Rightarrow> bool"
  fs_resolve :: "fs_path \<Rightarrow> exn + fs_path"
  fs_read_text :: "fs_path \<Rightarrow> exn + string"
  fs_iterdir :: "fs_path \<Rightarrow> exn + string list"

definition path_str :: "fs_path \<Rightarrow> string" where
  "path_str p = (if p = [] then ''/'' else concat (map (\<lambda>c. CHR ''/'' # c) p))"

record usb_info =
  usb_vid :: "int option"
  usb_pid :: "int option"
  usb_serial_number :: "string option"
  usb_manufacturer :: "string option"
  usb_product :: "string option"
  usb_location :: "string option"
  usb_interface :: "string option"

definition no_usb :: usb_info where
  "no_usb = \<lparr>usb_vid = None, usb_pid = None, usb_serial_number = None, usb_manufacturer = None,
     usb_product = None, usb_location = None, usb_interface = None\<rparr>"

definition DEFAULT_SYS_ROOT :: fs_path where
  "DEFAULT_SYS_ROOT = [''sys'', ''class'', ''tty'']"

definition DEFAULT_DEV_ROOT :: fs_path where
  "DEFAULT_DEV_ROOT = [''dev'']"

definition linux_format_hwid :: "usb_info \<Rightarrow> string option" where
  "linux_format_hwid u = hwid_text (usb_vid u) (usb_pid u) (usb_serial_number u) (usb_location u)"

text \<open>\<open>_read_text\<close>: stripped, with \<open>None\<close> for an empty text and for an \<open>OSError\<close>.\<close>

definition read_text :: "filesystem \<Rightarrow> fs_path \<Rightarrow> exn + string option" where
  "read_text fs p =
     (case fs_read_text fs p of
        Inl e \<Rightarrow> if isinstance e OSError then Inr None else Inl e
      | Inr t \<Rightarrow> Inr (nonempty (strip t)))"

text \<open>\<open>_find_usb_device\<close>: climb while \<open>cur != cur.parent\<close>.\<close>

function find_usb_device :: "filesystem \<Rightarrow> fs_path \<Rightarrow> fs_path option" where
  "find_usb_device fs cur =
     (if cur = [] then None
      else if fs_is_file fs (cur @ [''idVendor'']) then Some cur
      else find_usb_device fs (butlast cur))"
  by pat_completeness auto
termination find_usb_device
  by (relation "measure (\<lambda>(fs, cur). length cur)") auto

declare find_usb_device.simps [simp del]

definition linux_resolve_usb :: "filesystem \<Rightarrow> fs_path \<Rightarrow> exn + usb_info" where
  "linux_resolve_usb fs target =
     res_bind (read_text fs (target @ [''interface''])) (\<lambda>interface.
     case find_usb_device fs target of
       None \<Rightarrow> Inr (no_usb\<lparr>usb_interface := interface\<rparr>)
     | Some dev \<Rightarrow>
         res_bind (read_text fs (dev @ [''idVendor''])) (\<lambda>vid.
         res_bind (read_text fs (dev @ [''idProduct''])) (\<lambda>pid.
         res_bind (read_text fs (dev @ [''serial''])) (\<lambda>serial.
         res_bind (read_text fs (dev @ [''manufacturer''])) (\<lambda>manufacturer.
         res_bind (read_text fs (dev @ [''product''])) (\<lambda>product.
         Inr \<lparr>usb_vid = parse_hex vid, usb_pid = parse_hex pid, usb_serial_number = serial,
              usb_manufacturer = manufacturer, usb_product = product,
              usb_location = Some (last dev), usb_interface = interface\<rparr>))))))"

definition linux_resolve_entry :: "filesystem \<Rightarrow> fs_path \<Rightarrow> fs_path \<Rightarrow> exn + port_info option" where
  "linux_resolve_entry fs dev_root entry =
     (let device_link = entry @ [''device''] in
      if \<not> fs_exists fs device_link then Inr None
      else case fs_resolve fs device_link of
        Inl e \<Rightarrow> if isinstance e OSError then Inr None else Inl e
      | Inr target \<Rightarrow>
          if List.member target ''virtual'' then Inr None
          else
            let name = last entry in
            res_bind (linux_resolve_usb fs target) (\<lambda>usb.
            Inr (Some \<lparr>pi_device = path_str (dev_root @ [name]), pi_name = Some name,
              pi_description = usb_product usb, pi_hwid = linux_format_hwid usb,
              pi_vid = usb_vid usb, pi_pid = usb_pid usb, pi_serial_number = usb_serial_number usb,
              pi_manufacturer = usb_manufacturer usb, pi_product = usb_product usb,
              pi_location = usb_location usb, pi_interface = usb_interface usb\<rparr>)))"

definition linux_resolve_port_info ::
  "filesystem \<Rightarrow> fs_path \<Rightarrow> fs_path \<Rightarrow> string \<Rightarrow> exn + port_info option" where
  "linux_resolve_port_info fs sys_root dev_root path =
     (let name = path_name path in
      if name = [] then Inr None
      else
        let entry = sys_root @ [name] in
        if \<not> fs_is_dir fs entry then Inr None
        else linux_resolve_entry fs dev_root entry)"

text \<open>The loop of \<open>enumerate_ports\<close>: append what resolves, skip the rest, stop at the first raise.\<close>

fun collect_ports :: "('a \<Rightarrow> exn + 'b option) \<Rightarrow> 'a list \<Rightarrow> exn + 'b list" where
  "collect_ports resolve [] = Inr []"
| "collect_ports resolve (x # xs) =
     res_bind (resolve x) (\<lambda>info.
     res_bind (collect_ports resolve xs) (\<lambda>ports.
     Inr (case info of None \<Rightarrow> ports | Some p \<Rightarrow> p # ports)))"

definition linux_enumerate_ports :: "filesystem \<Rightarrow> fs_path \<Rightarrow> fs_path \<Rightarrow> exn + port_info list" where
  "linux_enumerate_ports fs sys_root dev_root =
     (if \<not> fs_is_dir fs sys_root then Inr []
      else res_bind (fs_iterdir fs sys_root) (\<lambda>names.
        collect_ports (\<lambda>n. linux_resolve_entry fs dev_root (sys_root @ [n])) (sort names)))"

subsection \<open>What the kernel's filesystem promises\<close>

text \<open>A directory lists each of its subdirectories, every entry once and under a name that is a path
  component; an object with something below it is a directory.\<close>

definition component_name :: "string \<Rightarrow> bool" where
  "component_name n \<longleftrightarrow> n \<noteq> [] \<and> n \<noteq> ''.'' \<and> CHR ''/'' \<notin> set n"

definition lists_directory :: "filesystem \<Rightarrow> fs_path \<Rightarrow> bool" where
  "lists_directory fs d \<longleftrightarrow>
     (\<forall>names. fs_iterdir fs d = Inr names \<longrightarrow> distinct names \<and> list_all component_name names)
     \<and> (\<forall>n. fs_exists fs (d @ [n, ''device'']) \<longrightarrow> fs_is_dir fs (d @ [n]))
     \<and> (\<forall>n. fs_is_dir fs (d @ [n]) \<longrightarrow>
          fs_is_dir fs d \<and> (\<forall>names. fs_iterdir fs d = Inr names \<and> component_name n \<longrightarrow> n \<in> set names))"

text \<open>Every failing query fails with an \<open>OSError\<close>.\<close>

definition fails_as_os :: "filesystem \<Rightarrow> bool" where
  "fails_as_os fs \<longleftrightarrow>
     (\<forall>p e. fs_resolve fs p = Inl e \<longrightarrow> isinstance e OSError)
     \<and> (\<forall>p e. fs_read_text fs p = Inl e \<longrightarrow> isinstance e OSError)"

subsection \<open>Paths\<close>

lemma split_on_append:
  "c \<notin> set xs \<Longrightarrow> split_on c (xs @ c # ys) = xs # split_on c ys"
  by (induction xs) auto

lemma split_on_nonempty [simp]: "split_on c xs \<noteq> []"
  by (cases xs) auto

lemma split_on_slash_concat:
  "list_all (\<lambda>n. CHR ''/'' \<notin> set n) p \<Longrightarrow>
     split_on (CHR ''/'') (concat (map (\<lambda>c. CHR ''/'' # c) p)) = [] # p"
proof (induction p)
  case (Cons a p)
  then show ?case
    by (cases p) (simp_all add: split_on_none split_on_append)
qed simp

lemma path_name_path_str:
  assumes "list_all component_name p" "component_name n"
  shows "path_name (path_str (p @ [n])) = n"
proof -
  have slash: "list_all (\<lambda>n. CHR ''/'' \<notin> set n) (p @ [n])"
    using assms by (auto simp: component_name_def list_all_iff)
  have "filter (\<lambda>x. x \<noteq> [] \<and> x \<noteq> ''.'') (p @ [n]) = p @ [n]"
    using assms by (auto simp: component_name_def list_all_iff filter_id_conv)
  then have "path_parts (path_str (p @ [n])) = p @ [n]"
    using split_on_slash_concat [OF slash] by (simp add: path_parts_def path_str_def)
  then show ?thesis by (simp add: path_name_def)
qed

lemma append_le_append [simp]: "(xs :: string) @ a \<le> xs @ b \<longleftrightarrow> a \<le> b" "xs @ a < xs @ b \<longleftrightarrow> a < b"
  by (induction xs) auto

lemma path_str_append: "path_str (p @ [n]) = concat (map (\<lambda>c. CHR ''/'' # c) p) @ CHR ''/'' # n"
  by (simp add: path_str_def)

lemma split_on_pieces: "x \<in> set (split_on c s) \<Longrightarrow> c \<notin> set x"
proof (induction c s arbitrary: x rule: split_on.induct)
  case (2 c y ys)
  show ?case
  proof (cases "y = c")
    case False
    with 2 have "\<And>x. x \<in> set (split_on c ys) \<Longrightarrow> c \<notin> set x" by simp
    then have "c \<notin> set (hd (split_on c ys))" "\<And>x. x \<in> set (tl (split_on c ys)) \<Longrightarrow> c \<notin> set x"
      by (auto dest: list.set_sel(2) [rotated])
    with 2 False show ?thesis by auto
  qed (use 2 in auto)
qed simp

lemma component_path_name: "path_name p = [] \<or> component_name (path_name p)"
proof (cases "path_parts p = []")
  case False
  then have "last (path_parts p) \<in> set (path_parts p)" by simp
  then show ?thesis
    using split_on_pieces [of _ "CHR ''/''" p] False
    by (auto simp: path_name_def component_name_def path_parts_def simp del: last_in_set)
qed (simp add: path_name_def)

subsection \<open>The walk\<close>

lemma collect_ports_Inr:
  "collect_ports f xs = Inr ys \<Longrightarrow>
     (\<forall>x\<in>set xs. \<exists>r. f x = Inr r) \<and> set ys = {p. \<exists>x\<in>set xs. f x = Inr (Some p)}"
proof (induction xs arbitrary: ys)
  case (Cons x xs)
  then obtain r zs where "f x = Inr r" "collect_ports f xs = Inr zs"
    "ys = (case r of None \<Rightarrow> zs | Some p \<Rightarrow> p # zs)"
    by (auto simp: res_bind_Inr_iff)
  with Cons.IH [of zs] show ?case by (auto split: option.splits)
qed simp

lemma collect_ports_total: "(\<And>x. x \<in> set xs \<Longrightarrow> \<exists>r. f x = Inr r) \<Longrightarrow> \<exists>ys. collect_ports f xs = Inr ys"
proof (induction xs)
  case (Cons x xs)
  then obtain r ys where "f x = Inr r" "collect_ports f xs = Inr ys" by (metis list.set_intros)
  then show ?case by simp
qed simp

text \<open>When what resolves carries its name, the ports come out in the order of the names.\<close>

lemma collect_ports_keys:
  assumes "collect_ports f xs = Inr ys" "\<And>x p. f x = Inr (Some p) \<Longrightarrow> key p = g x"
  shows "map key ys = map g (filter (\<lambda>x. \<exists>p. f x = Inr (Some p)) xs)"
  using assms(1)
proof (induction xs arbitrary: ys)
  case (Cons x xs)
  then obtain r zs where "f x = Inr r" "collect_ports f xs = Inr zs"
    "ys = (case r of None \<Rightarrow> zs | Some p \<Rightarrow> p # zs)"
    by (auto simp: res_bind_Inr_iff)
  with Cons.IH [of zs] assms(2) [of x] show ?case by (auto split: option.splits)
qed simp

lemma linux_resolve_entry_device:
  "linux_resolve_entry fs dev entry = Inr (Some p) \<Longrightarrow>
     pi_device p = path_str (dev @ [last entry]) \<and> fs_exists fs (entry @ [''device''])
     \<and> (\<exists>target. fs_resolve fs (entry @ [''device'']) = Inr target \<and> ''virtual'' \<notin> set target)"
  by (auto simp: linux_resolve_entry_def Let_def res_bind_Inr_iff split: if_splits sum.splits)

lemma linux_enumerate_Inr:
  "linux_enumerate_ports fs sys dev = Inr ps \<longleftrightarrow>
     (\<not> fs_is_dir fs sys \<and> ps = []) \<or> (fs_is_dir fs sys \<and> (\<exists>names. fs_iterdir fs sys = Inr names
        \<and> collect_ports (\<lambda>n. linux_resolve_entry fs dev (sys @ [n])) (sort names) = Inr ps))"
  by (auto simp: linux_enumerate_ports_def res_bind_Inr_iff)

lemma linux_enumerate_set:
  assumes "lists_directory fs sys" "linux_enumerate_ports fs sys dev = Inr ps"
  shows "p \<in> set ps \<longleftrightarrow> (\<exists>n. component_name n \<and> fs_is_dir fs (sys @ [n])
    \<and> linux_resolve_entry fs dev (sys @ [n]) = Inr (Some p))"
proof (cases "fs_is_dir fs sys")
  case False
  then show ?thesis using assms by (auto simp: linux_enumerate_Inr lists_directory_def)
next
  case True
  then obtain names where n: "fs_iterdir fs sys = Inr names"
    "collect_ports (\<lambda>n. linux_resolve_entry fs dev (sys @ [n])) (sort names) = Inr ps"
    using assms(2) by (auto simp: linux_enumerate_Inr)
  have "p \<in> set ps \<longleftrightarrow> (\<exists>n\<in>set names. linux_resolve_entry fs dev (sys @ [n]) = Inr (Some p))"
    using collect_ports_Inr [OF n(2)] by auto
  moreover have "linux_resolve_entry fs dev (sys @ [m]) = Inr (Some p) \<Longrightarrow>
      m \<in> set names \<longleftrightarrow> component_name m \<and> fs_is_dir fs (sys @ [m])" for m
    using assms(1) n(1) linux_resolve_entry_device [of fs dev "sys @ [m]" p]
    by (auto simp: lists_directory_def list_all_iff)
  ultimately show ?thesis by blast
qed

definition demo_target :: fs_path where
  "demo_target = [''sys'', ''devices'', ''usb1'', ''1-1'', ''1-1:1.0'', ''ttyUSB0'']"

definition demo_fs :: filesystem where
  "demo_fs =
     \<lparr>fs_is_dir = (\<lambda>p. p = DEFAULT_SYS_ROOT \<or> p = DEFAULT_SYS_ROOT @ [''ttyUSB0''] \<or> p = DEFAULT_SYS_ROOT @ [''console'']),
      fs_is_file = (\<lambda>p. p = take 4 demo_target @ [''idVendor'']),
      fs_exists = (\<lambda>p. p = DEFAULT_SYS_ROOT @ [''ttyUSB0'', ''device'']),
      fs_resolve = (\<lambda>p. Inr demo_target),
      fs_read_text = (\<lambda>p. if p = take 4 demo_target @ [''idVendor''] then Inr (''0403'' @ [CHR 0x0A])
        else if p = take 4 demo_target @ [''idProduct''] then Inr (''0042'' @ [CHR 0x0A])
        else Inl (exn_os FileNotFoundError (Some ENOENT) None None)),
      fs_iterdir = (\<lambda>p. Inr [''ttyUSB0'', ''console''])\<rparr>"

definition demo_usb_port :: port_info where
  "demo_usb_port = (bare_port ''/dev/ttyUSB0'' (Some ''ttyUSB0''))
     \<lparr>pi_hwid := Some ''USB VID:PID=0403:0042 LOCATION=1-1'', pi_vid := Some 1027, pi_pid := Some 66,
      pi_location := Some ''1-1''\<rparr>"

lemma demo_sort: "sort [''ttyUSB0'', ''console''] = [''console'', ''ttyUSB0'']"
  by (simp add: less_char_def less_eq_char_def)

lemma demo_entries:
  "linux_resolve_entry demo_fs DEFAULT_DEV_ROOT (DEFAULT_SYS_ROOT @ [''console'']) = Inr None"
  "linux_resolve_entry demo_fs DEFAULT_DEV_ROOT (DEFAULT_SYS_ROOT @ [''ttyUSB0'']) = Inr (Some demo_usb_port)"
  by code_simp+

lemma demo_enumerate:
  "linux_enumerate_ports demo_fs DEFAULT_SYS_ROOT DEFAULT_DEV_ROOT = Inr [demo_usb_port]"
proof -
  have "fs_iterdir demo_fs p = Inr [''ttyUSB0'', ''console'']" for p by (simp add: demo_fs_def)
  moreover have "fs_is_dir demo_fs DEFAULT_SYS_ROOT" by (simp add: demo_fs_def)
  ultimately show ?thesis
    by (simp only: linux_enumerate_ports_def if_False if_True not_True_eq_False res_bind_simps demo_sort
        collect_ports.simps demo_entries option.case)
qed

lemma demo_lists: "lists_directory demo_fs DEFAULT_SYS_ROOT"
  by (auto simp: lists_directory_def demo_fs_def DEFAULT_SYS_ROOT_def component_name_def)

lemma linux_lookup:
  assumes "lists_directory fs sys_root" "list_all component_name dev_root"
    and "linux_enumerate_ports fs sys_root dev_root = Inr ports"
  shows "set ports = {p. \<exists>path. linux_resolve_port_info fs sys_root dev_root path = Inr (Some p)}
    \<and> list_all (\<lambda>p. linux_resolve_port_info fs sys_root dev_root (pi_device p) = Inr (Some p)) ports"
proof -
  note enum = linux_enumerate_set [OF assms(1,3)]
  have lookup: "linux_resolve_port_info fs sys_root dev_root path = Inr (Some p) \<longleftrightarrow>
      component_name (path_name path) \<and> fs_is_dir fs (sys_root @ [path_name path])
      \<and> linux_resolve_entry fs dev_root (sys_root @ [path_name path]) = Inr (Some p)" for path p
    using component_path_name [of path]
    by (auto simp: linux_resolve_port_info_def Let_def component_name_def)
  have found: "linux_resolve_port_info fs sys_root dev_root (pi_device p) = Inr (Some p)" if "p \<in> set ports" for p
  proof -
    obtain n where n: "component_name n" "fs_is_dir fs (sys_root @ [n])"
      "linux_resolve_entry fs dev_root (sys_root @ [n]) = Inr (Some p)"
      using \<open>p \<in> set ports\<close> enum by blast
    then have "path_name (pi_device p) = n"
      using linux_resolve_entry_device [OF n(3)] path_name_path_str [OF assms(2)] by simp
    with n show ?thesis by (simp add: lookup)
  qed
  have "p \<in> set ports \<longleftrightarrow> (\<exists>path. linux_resolve_port_info fs sys_root dev_root path = Inr (Some p))" for p
    using found [of p] enum [of p] lookup by blast
  then show ?thesis using found by (auto simp: list_all_iff)
qed

text \<open>On a tree whose directories list what is in them, the single lookup that opening a port
  uses and the full walk find the same ports: a port is enumerated exactly when resolving some path
  gives it, and resolving the device path of an enumerated port gives that port back, field for
  field.\<close>

theorem linux_lookup_agrees:
  assumes "lists_directory fs sys_root" "list_all component_name dev_root"
    and "linux_enumerate_ports fs sys_root dev_root = Inr ports"
  shows "set ports = {p. \<exists>path. linux_resolve_port_info fs sys_root dev_root path = Inr (Some p)}
    \<and> list_all (\<lambda>p. linux_resolve_port_info fs sys_root dev_root (pi_device p) = Inr (Some p)) ports"
  by (rule linux_lookup [OF assms])

text \<open>The witness is a tree with one USB adapter and the console.\<close>

lemma linux_lookup_agrees_witness:
  "linux_resolve_port_info demo_fs DEFAULT_SYS_ROOT DEFAULT_DEV_ROOT ''/dev/ttyUSB0'' = Inr (Some demo_usb_port)"
proof -
  have "list_all component_name DEFAULT_DEV_ROOT" by (simp add: DEFAULT_DEV_ROOT_def component_name_def)
  from linux_lookup_agrees [OF demo_lists this demo_enumerate] show ?thesis
    by (simp add: demo_usb_port_def bare_port_def)
qed

subsection \<open>The USB ancestor, the order, and failures\<close>

lemma find_usb_device_Some:
  "find_usb_device fs p = Some d \<Longrightarrow>
     prefix d p \<and> d \<noteq> [] \<and> fs_is_file fs (d @ [''idVendor''])
     \<and> (\<forall>q. prefix q p \<and> length d < length q \<longrightarrow> \<not> fs_is_file fs (q @ [''idVendor'']))"
proof (induction fs p rule: find_usb_device.induct)
  case (1 fs cur)
  show ?case
  proof (cases "cur = [] \<or> fs_is_file fs (cur @ [''idVendor''])")
    case True
    with "1.prems" have "d = cur" "cur \<noteq> []" "fs_is_file fs (cur @ [''idVendor''])"
      by (auto simp: find_usb_device.simps [of fs cur] split: if_splits)
    then show ?thesis by (auto dest: prefix_length_le)
  next
    case False
    with 1 have d: "prefix d (butlast cur)" "d \<noteq> []" "fs_is_file fs (d @ [''idVendor''])"
      "\<And>q. prefix q (butlast cur) \<Longrightarrow> length d < length q \<Longrightarrow> \<not> fs_is_file fs (q @ [''idVendor''])"
      by (auto simp: find_usb_device.simps [of fs cur])
    moreover have "prefix q cur \<longleftrightarrow> q = cur \<or> prefix q (butlast cur)" for q
      using False prefix_snoc [of q "butlast cur" "last cur"] by simp
    ultimately show ?thesis using False by auto
  qed
qed

lemma find_usb_device_None:
  "find_usb_device fs p = None \<longleftrightarrow> (\<forall>q. prefix q p \<and> q \<noteq> [] \<longrightarrow> \<not> fs_is_file fs (q @ [''idVendor'']))"
proof (induction fs p rule: find_usb_device.induct)
  case (1 fs cur)
  have "prefix q cur \<longleftrightarrow> q = cur \<or> prefix q (butlast cur)" if "cur \<noteq> []" for q
    using that prefix_snoc [of q "butlast cur" "last cur"] by simp
  then show ?case
    using 1 by (cases "cur = []") (auto simp: find_usb_device.simps [of fs cur] find_usb_device.simps [of fs "[]"])
qed

text \<open>The climb to the USB device ends, at the nearest ancestor of the interface directory (itself
  included, the filesystem root excluded) that has an \<open>idVendor\<close> file, and gives nothing exactly when
  no ancestor has one.\<close>

theorem find_usb_device_nearest:
  "case find_usb_device fs start of
     None \<Rightarrow> \<forall>q. prefix q start \<and> q \<noteq> [] \<longrightarrow> \<not> fs_is_file fs (q @ [''idVendor''])
   | Some d \<Rightarrow> prefix d start \<and> d \<noteq> [] \<and> fs_is_file fs (d @ [''idVendor''])
       \<and> (\<forall>q. prefix q start \<and> length d < length q \<longrightarrow> \<not> fs_is_file fs (q @ [''idVendor'']))"
  using find_usb_device_Some [of fs start] find_usb_device_None [of fs start]
  by (auto split: option.split)

text \<open>On the demonstration tree the device is two levels above the interface.\<close>

lemma find_usb_device_nearest_witness:
  "find_usb_device demo_fs demo_target = Some (take 4 demo_target)
   \<and> \<not> fs_is_file demo_fs (demo_target @ [''idVendor''])"
proof -
  have d: "find_usb_device demo_fs demo_target = Some (take 4 demo_target)" by code_simp
  have "length (take 4 demo_target) < length demo_target" by (simp add: demo_target_def)
  then show ?thesis using find_usb_device_nearest [where fs = demo_fs and start = demo_target] by (simp add: d)
qed

lemma linux_enumerate_devices:
  assumes "linux_enumerate_ports fs sys_root dev_root = Inr ports"
  obtains ns where "sorted ns" "map pi_device ports = map (\<lambda>n. path_str (dev_root @ [n])) ns"
    "lists_directory fs sys_root \<Longrightarrow> distinct ns"
proof (cases "fs_is_dir fs sys_root")
  case False
  then show ?thesis using assms that [of "[]"] by (auto simp: linux_enumerate_Inr)
next
  case True
  then obtain names where n: "fs_iterdir fs sys_root = Inr names"
    "collect_ports (\<lambda>n. linux_resolve_entry fs dev_root (sys_root @ [n])) (sort names) = Inr ports"
    using assms by (auto simp: linux_enumerate_Inr)
  have "pi_device p = path_str (dev_root @ [m])"
    if "linux_resolve_entry fs dev_root (sys_root @ [m]) = Inr (Some p)" for m p
    using linux_resolve_entry_device [OF that] by simp
  from collect_ports_keys [OF n(2), of pi_device "\<lambda>n. path_str (dev_root @ [n])", OF this]
  show ?thesis
    using n(1) by (intro that) (auto simp: lists_directory_def intro: sorted_wrt_filter)
qed

text \<open>The walk lists the ports in strictly increasing order of their device paths, so no device
  twice, and none of them is backed by a device under a \<open>virtual\<close> directory.\<close>

theorem linux_enumerate_sorted:
  assumes "lists_directory fs sys_root" and "linux_enumerate_ports fs sys_root dev_root = Inr ports"
  shows "sorted_wrt (<) (map pi_device ports)
    \<and> (\<forall>p\<in>set ports. \<exists>n target. pi_name p = Some n
         \<and> fs_resolve fs (sys_root @ [n, ''device'']) = Inr target \<and> ''virtual'' \<notin> set target)"
proof
  obtain ns where ns: "sorted ns" "map pi_device ports = map (\<lambda>n. path_str (dev_root @ [n])) ns"
    "distinct ns"
    using linux_enumerate_devices [OF assms(2)] assms(1) by blast
  have "sorted_wrt (<) ns" using ns(1,3) by (simp add: strict_sorted_iff)
  then show "sorted_wrt (<) (map pi_device ports)"
    by (simp add: ns(2) sorted_wrt_map path_str_append)
  show "\<forall>p\<in>set ports. \<exists>n target. pi_name p = Some n
         \<and> fs_resolve fs (sys_root @ [n, ''device'']) = Inr target \<and> ''virtual'' \<notin> set target"
    by (auto simp: linux_enumerate_set [OF assms] linux_resolve_entry_def Let_def res_bind_Inr_iff
        split: if_splits sum.splits)
qed

lemma linux_enumerate_sorted_witness:
  "\<exists>target. fs_resolve demo_fs (DEFAULT_SYS_ROOT @ [''ttyUSB0'', ''device'']) = Inr target
     \<and> ''virtual'' \<notin> set target"
  using linux_enumerate_sorted [OF demo_lists demo_enumerate] by (simp add: demo_usb_port_def bare_port_def)

lemma read_text_total: "fails_as_os fs \<Longrightarrow> \<exists>t. read_text fs p = Inr t"
  by (auto simp: read_text_def fails_as_os_def split: sum.split)

lemma linux_resolve_usb_total: "fails_as_os fs \<Longrightarrow> \<exists>u. linux_resolve_usb fs target = Inr u"
proof -
  assume os: "fails_as_os fs"
  obtain t where "\<And>p. read_text fs p = Inr (t p)" using read_text_total [OF os] by metis
  then show ?thesis by (auto simp: linux_resolve_usb_def split: option.split)
qed

lemma linux_resolve_entry_total: "fails_as_os fs \<Longrightarrow> \<exists>r. linux_resolve_entry fs dev_root entry = Inr r"
proof -
  assume os: "fails_as_os fs"
  obtain u where "\<And>t. linux_resolve_usb fs t = Inr (u t)" using linux_resolve_usb_total [OF os] by metis
  then show ?thesis
    using os by (auto simp: linux_resolve_entry_def Let_def fails_as_os_def split: sum.split)
qed

lemma linux_resolve_port_info_total:
  "fails_as_os fs \<Longrightarrow> \<exists>r. linux_resolve_port_info fs sys_root dev_root path = Inr r"
  using linux_resolve_entry_total by (auto simp: linux_resolve_port_info_def Let_def)

text \<open>A device that disappears mid-walk, or an unreadable attribute, never aborts discovery: if
  every failing query fails with an \<open>OSError\<close>, resolving a path returns, enumerating returns unless
  listing the class directory itself fails, and then with that error; an attribute that fails to read
  is reported as missing.\<close>

theorem linux_discovery_total:
  assumes "fails_as_os fs"
  shows "(\<exists>r. linux_resolve_port_info fs sys_root dev_root path = Inr r)
    \<and> (\<forall>e. linux_enumerate_ports fs sys_root dev_root = Inl e \<longrightarrow> fs_iterdir fs sys_root = Inl e)
    \<and> (\<forall>e p. fs_read_text fs p = Inl e \<longrightarrow> read_text fs p = Inr None)"
proof (intro conjI allI impI)
  note total = linux_resolve_entry_total [OF assms]
  show "\<exists>r. linux_resolve_port_info fs sys_root dev_root path = Inr r"
    by (rule linux_resolve_port_info_total [OF assms])
  show "fs_iterdir fs sys_root = Inl e" if "linux_enumerate_ports fs sys_root dev_root = Inl e" for e
  proof (cases "fs_iterdir fs sys_root")
    case (Inr names)
    obtain ys where "collect_ports (\<lambda>n. linux_resolve_entry fs dev_root (sys_root @ [n])) (sort names) = Inr ys"
      using collect_ports_total [of "sort names"
          "\<lambda>n. linux_resolve_entry fs dev_root (sys_root @ [n])", OF total] by blast
    then show ?thesis using that Inr by (simp add: linux_enumerate_ports_def split: if_splits)
  qed (use that in \<open>simp add: linux_enumerate_ports_def split: if_splits\<close>)
  show "read_text fs p = Inr None" if "fs_read_text fs p = Inl e" for e p
    using assms that by (auto simp: read_text_def fails_as_os_def)
qed

lemma linux_discovery_total_witness:
  "read_text demo_fs [''sys'', ''nowhere''] = Inr None"
proof -
  have "fails_as_os demo_fs" by (simp add: fails_as_os_def demo_fs_def isinstance_simps exn_os_def)
  moreover have "fs_read_text demo_fs [''sys'', ''nowhere''] = Inl (exn_os FileNotFoundError (Some ENOENT) None None)"
    by (simp add: demo_fs_def demo_target_def)
  ultimately show ?thesis using linux_discovery_total [of demo_fs] by blast
qed

end
