(* ===== verification/Bsd_Discovery.thy ===== *)
theory Bsd_Discovery
  imports Linux_Discovery
begin

section \<open>Device-node discovery (\<open>_bsd/discovery.py\<close>)\<close>

text \<open>
  The scan of \<open>/dev\<close> by name patterns. The names in the directory are an argument, in the order
  the kernel lists them; a directory that cannot be read lists nothing, as \<open>Path.glob\<close> has it. Glob
  patterns are matched as \<open>fnmatchcase\<close> does for literal characters, \<open>*\<close> and \<open>?\<close>; the patterns of
  the source use nothing else.
\<close>

definition FREEBSD_PATTERNS :: "string list" where
  "FREEBSD_PATTERNS = [''cuaU*'', ''cuau*'', ''cuad*'', ''ttyU*'', ''ttyu*'']"

definition OPENBSD_PATTERNS :: "string list" where
  "OPENBSD_PATTERNS = [''cuaU*'', ''cua0*'', ''cua1*'']"

definition NETBSD_PATTERNS :: "string list" where
  "NETBSD_PATTERNS = [''dtyU*'', ''dty0*'', ''ttyU*'']"

definition DRAGONFLY_PATTERNS :: "string list" where
  "DRAGONFLY_PATTERNS = [''cuaU*'', ''cuau*'']"

definition patterns_for_platform :: "string \<Rightarrow> string list" where
  "patterns_for_platform platform =
     (if starts_with ''freebsd'' platform then FREEBSD_PATTERNS
      else if starts_with ''openbsd'' platform then OPENBSD_PATTERNS
      else if starts_with ''netbsd'' platform then NETBSD_PATTERNS
      else if starts_with ''dragonfly'' platform then DRAGONFLY_PATTERNS
      else [])"

fun glob_match :: "string \<Rightarrow> string \<Rightarrow> bool" where
  "glob_match [] s = (s = [])"
| "glob_match (p # ps) s =
     (if p = CHR ''*'' then list_ex (glob_match ps) (suffixes s)
      else case s of [] \<Rightarrow> False | c # cs \<Rightarrow> (p = c \<or> p = CHR ''?'') \<and> glob_match ps cs)"

definition fnmatch_basename :: "string \<Rightarrow> string \<Rightarrow> bool" where
  "fnmatch_basename name pattern = glob_match pattern name"

text \<open>\<open>str(Path(path))\<close> and \<open>Path(path).match(pattern)\<close> for an absolute pattern. POSIX keeps exactly two leading slashes apart.\<close>

definition path_root :: "string \<Rightarrow> string" where
  "path_root p = (if starts_with ''//'' p \<and> \<not> starts_with ''///'' p then ''//''
     else if starts_with ''/'' p then ''/'' else [])"

definition slash_join :: "string list \<Rightarrow> string" where
  "slash_join ps = concat (case ps of [] \<Rightarrow> [] | p # qs \<Rightarrow> p # map (\<lambda>q. CHR ''/'' # q) qs)"

definition normal_path :: "string \<Rightarrow> string" where
  "normal_path p =
     (if path_root p = [] \<and> path_parts p = [] then ''.'' else path_root p @ slash_join (path_parts p))"

definition path_match :: "string \<Rightarrow> fs_path \<Rightarrow> bool" where
  "path_match p pattern \<longleftrightarrow> path_root p = ''/'' \<and> list_all2 glob_match pattern (path_parts p)"

text \<open>One round of the two loops: skip a device already seen, append the others.\<close>

definition bsd_visit :: "fs_path \<Rightarrow> string \<Rightarrow> string list \<times> port_info list \<Rightarrow> string list \<times> port_info list" where
  "bsd_visit dev_root node acc =
     (case acc of (seen, ports) \<Rightarrow>
        let device = path_str (dev_root @ [node]) in
        if List.member seen device then (seen, ports)
        else (device # seen, ports @ [bare_port device (Some node)]))"

definition bsd_enumerate_ports :: "bool \<Rightarrow> string list \<Rightarrow> fs_path \<Rightarrow> string \<Rightarrow> port_info list" where
  "bsd_enumerate_ports root_is_dir names dev_root platform =
     (let patterns = patterns_for_platform platform in
      if patterns = [] \<or> \<not> root_is_dir then []
      else
        let nodes = concat (map (\<lambda>pattern. filter (\<lambda>n. fnmatch_basename n pattern) names) patterns);
            ports = snd (fold (bsd_visit dev_root) nodes ([], []))
        in sort_key pi_device ports)"

definition bsd_resolve_port_info :: "fs_path \<Rightarrow> string \<Rightarrow> string \<Rightarrow> port_info option" where
  "bsd_resolve_port_info dev_root platform path =
     (let patterns = patterns_for_platform platform; name = path_name path in
      if patterns = [] then None
      else if list_ex (\<lambda>pattern. path_match path (dev_root @ [pattern]) \<or> fnmatch_basename name pattern) patterns
        then Some (bare_port (normal_path path) (Some name))
      else None)"

subsection \<open>The loops\<close>

lemma bsd_visit_eq:
  "bsd_visit dev n (seen, ports) =
     (if path_str (dev @ [n]) \<in> set seen then (seen, ports)
      else (path_str (dev @ [n]) # seen, ports @ [bare_port (path_str (dev @ [n])) (Some n)]))"
  by (simp add: bsd_visit_def Let_def)

lemma pi_device_bare [simp]: "pi_device (bare_port d n) = d"
  by (simp add: bare_port_def)

lemma bsd_visits:
  "fold (bsd_visit dev) nodes ([], []) = (seen, ports) \<Longrightarrow>
     set seen = (\<lambda>n. path_str (dev @ [n])) ` set nodes \<and> seen = rev (map pi_device ports) \<and> distinct seen
     \<and> list_all (\<lambda>p. \<exists>n\<in>set nodes. p = bare_port (path_str (dev @ [n])) (Some n)) ports"
proof (induction nodes arbitrary: seen ports rule: rev_induct)
  case (snoc n nodes)
  obtain seen' ports' where f: "fold (bsd_visit dev) nodes ([], []) = (seen', ports')" by fastforce
  then have "bsd_visit dev n (seen', ports') = (seen, ports)" using snoc.prems by simp
  then show ?case
    using snoc.IH [OF f] unfolding bsd_visit_eq by (auto simp: list_all_iff split: if_splits)
qed simp

lemma bsd_enumerated:
  assumes "p \<in> set (bsd_enumerate_ports b names dev platform)"
  obtains n pattern where "n \<in> set names" "pattern \<in> set (patterns_for_platform platform)"
    "glob_match pattern n" "p = bare_port (path_str (dev @ [n])) (Some n)"
proof -
  let ?nodes = "concat (map (\<lambda>pattern. filter (\<lambda>n. fnmatch_basename n pattern) names) (patterns_for_platform platform))"
  obtain seen ports where f: "fold (bsd_visit dev) ?nodes ([], []) = (seen, ports)" by fastforce
  have "p \<in> set ports" using assms f by (simp add: bsd_enumerate_ports_def Let_def split: if_splits)
  then obtain n where "n \<in> set ?nodes" "p = bare_port (path_str (dev @ [n])) (Some n)"
    using bsd_visits [OF f] unfolding list_all_iff by blast
  then show thesis using that by (auto simp: fnmatch_basename_def)
qed

text \<open>On a platform with patterns, the BSD scan lists exactly the device paths of the directory
  entries that match one of them, each once although the patterns are tried one after another, in
  strictly increasing order, and with the entry's name and no other metadata.\<close>

theorem bsd_enumerate_exact:
  assumes "patterns_for_platform platform \<noteq> []"
  shows "let ports = bsd_enumerate_ports True names dev_root platform in
    sorted_wrt (<) (map pi_device ports)
    \<and> set (map pi_device ports) = {path_str (dev_root @ [n]) | n. n \<in> set names
         \<and> (\<exists>pattern\<in>set (patterns_for_platform platform). glob_match pattern n)}
    \<and> (\<forall>p\<in>set ports. \<exists>n. p = bare_port (path_str (dev_root @ [n])) (Some n))"
proof -
  let ?nodes = "concat (map (\<lambda>pattern. filter (\<lambda>n. fnmatch_basename n pattern) names) (patterns_for_platform platform))"
  obtain seen found where f: "fold (bsd_visit dev_root) ?nodes ([], []) = (seen, found)" by fastforce
  let ?ports = "bsd_enumerate_ports True names dev_root platform"
  have e: "?ports = sort_key pi_device found"
    using assms f by (simp add: bsd_enumerate_ports_def Let_def)
  note v = bsd_visits [OF f]
  have "distinct (map pi_device found)" using v by (metis distinct_rev)
  then have "sorted_wrt (<) (map pi_device ?ports)"
    by (simp add: e strict_sorted_iff distinct_map)
  moreover have "set (map pi_device ?ports) = (\<lambda>n. path_str (dev_root @ [n])) ` set ?nodes"
  proof -
    have "set (map pi_device ?ports) = set seen" using v by (simp only: e set_map set_sort set_rev)
    also have "set seen = (\<lambda>n. path_str (dev_root @ [n])) ` set ?nodes" using v by (rule conjunct1)
    finally show ?thesis .
  qed
  moreover have "\<exists>n. p = bare_port (path_str (dev_root @ [n])) (Some n)" if "p \<in> set ?ports" for p
    using that by (blast elim: bsd_enumerated)
  ultimately show ?thesis by (auto simp: fnmatch_basename_def Let_def)
qed

text \<open>The witness has two adapters, the dial-in alias of one of them, and a file that is no port.\<close>

lemma bsd_enumerate_exact_witness:
  "set (map pi_device (bsd_enumerate_ports True [''ttyU0'', ''cuaU1'', ''null'', ''cuaU0''] [''dev''] ''freebsd14'')) =
     {''/dev/cuaU0'', ''/dev/cuaU1'', ''/dev/ttyU0''}"
proof -
  have p: "patterns_for_platform ''freebsd14'' = FREEBSD_PATTERNS" by code_simp
  have m: "list_ex (\<lambda>pattern. glob_match pattern ''ttyU0'') FREEBSD_PATTERNS"
    "list_ex (\<lambda>pattern. glob_match pattern ''cuaU0'') FREEBSD_PATTERNS"
    "list_ex (\<lambda>pattern. glob_match pattern ''cuaU1'') FREEBSD_PATTERNS"
    "\<not> list_ex (\<lambda>pattern. glob_match pattern ''null'') FREEBSD_PATTERNS"
    by code_simp+
  have "patterns_for_platform ''freebsd14'' \<noteq> []" by (simp add: p FREEBSD_PATTERNS_def)
  from bsd_enumerate_exact [OF this, where names = "[''ttyU0'', ''cuaU1'', ''null'', ''cuaU0'']" and dev_root = "[''dev'']"]
  have "set (map pi_device (bsd_enumerate_ports True [''ttyU0'', ''cuaU1'', ''null'', ''cuaU0''] [''dev''] ''freebsd14'')) =
      {path_str [''dev'', n] | n. n \<in> set [''ttyU0'', ''cuaU1'', ''null'', ''cuaU0'']
        \<and> list_ex (\<lambda>pattern. glob_match pattern n) FREEBSD_PATTERNS}"
    by (simp add: p list_ex_iff Let_def)
  also have "\<dots> = {''/dev/cuaU0'', ''/dev/cuaU1'', ''/dev/ttyU0''}"
    using m by (auto simp: path_str_def)
  finally show ?thesis .
qed

lemma normal_path_path_str:
  assumes "list_all component_name p" "p \<noteq> []"
  shows "normal_path (path_str p) = path_str p"
proof -
  have parts: "path_parts (path_str p) = p"
  proof -
    have "list_all (\<lambda>n. CHR ''/'' \<notin> set n) p" "filter (\<lambda>x. x \<noteq> [] \<and> x \<noteq> ''.'') p = p"
      using assms by (auto simp: component_name_def list_all_iff filter_id_conv)
    with assms show ?thesis using split_on_slash_concat [of p] by (simp add: path_parts_def path_str_def)
  qed
  obtain n q where p: "p = n # q" using assms(2) by (cases p) auto
  obtain c cs where n: "n = c # cs" "c \<noteq> CHR ''/''" using assms(1) p by (cases n) (auto simp: component_name_def)
  have "path_root (path_str p) = ''/''" by (simp add: path_root_def path_str_def p n starts_with_def)
  moreover have "path_str p = CHR ''/'' # slash_join p" by (simp add: path_str_def slash_join_def p)
  ultimately show ?thesis using assms(2) parts by (simp add: normal_path_def)
qed

text \<open>Opening a port the BSD scan listed finds the same metadata again: resolving the device path
  of every listed port gives that port.\<close>

theorem bsd_lookup_agrees:
  assumes "list_all component_name dev_root" "list_all component_name names"
    and "p \<in> set (bsd_enumerate_ports root_is_dir names dev_root platform)"
  shows "bsd_resolve_port_info dev_root platform (pi_device p) = Some p"
proof -
  from assms(3) obtain n pattern where n: "n \<in> set names" "pattern \<in> set (patterns_for_platform platform)"
    "glob_match pattern n" "p = bare_port (path_str (dev_root @ [n])) (Some n)"
    by (rule bsd_enumerated)
  then have c: "component_name n" using assms(2) by (simp add: list_all_iff)
  have "path_name (path_str (dev_root @ [n])) = n"
    using path_name_path_str [OF assms(1) c] .
  moreover have "normal_path (path_str (dev_root @ [n])) = path_str (dev_root @ [n])"
    using normal_path_path_str [of "dev_root @ [n]"] assms(1) c by simp
  moreover have "patterns_for_platform platform \<noteq> []" using n(2) by auto
  ultimately show ?thesis
    using n by (auto simp: bsd_resolve_port_info_def Let_def fnmatch_basename_def list_ex_iff)
qed

lemma bsd_lookup_agrees_witness:
  "bsd_resolve_port_info [''dev''] ''netbsd10'' ''/dev/dtyU0'' = Some (bare_port ''/dev/dtyU0'' (Some ''dtyU0''))"
proof -
  have "bsd_enumerate_ports True [''dtyU0''] [''dev''] ''netbsd10'' = [bare_port ''/dev/dtyU0'' (Some ''dtyU0'')]"
    by code_simp
  then show ?thesis
    using bsd_lookup_agrees [of "[''dev'']" "[''dtyU0'']" "bare_port ''/dev/dtyU0'' (Some ''dtyU0'')" True "''netbsd10''"]
    by (simp add: component_name_def)
qed

end
