(* ===== verification/Extra_Discovery.thy ===== *)
theory Extra_Discovery
  imports Linux_Discovery
begin

section \<open>Discovery through pySerial and pyudev (\<open>_discovery/pyserial.py\<close>, \<open>_discovery/pyudev.py\<close>)\<close>

text \<open>
  The two enumerators that wrap a third-party package. What the package returns is an argument: the
  list of pySerial's records, and pyudev's devices with their attributes and property mapping, whose
  \<open>get\<close> may raise. Whether the package imports is a flag. An attribute an object lacks is \<open>None\<close>, as
  \<open>getattr\<close> with a default gives it.
\<close>

subsection \<open>pySerial\<close>

record list_port_info =
  lp_device :: string
  lp_name :: "string option"
  lp_description :: "string option"
  lp_hwid :: "string option"
  lp_vid :: "int option"
  lp_pid :: "int option"
  lp_serial_number :: "string option"
  lp_manufacturer :: "string option"
  lp_product :: "string option"
  lp_location :: "string option"
  lp_interface :: "string option"

definition PYSERIAL_PLACEHOLDER :: string where
  "PYSERIAL_PLACEHOLDER = ''n/a''"

definition pyserial_normalize :: "string option \<Rightarrow> string option" where
  "pyserial_normalize value =
     (case value of None \<Rightarrow> None
      | Some v \<Rightarrow> let t = strip v in
          if t = [] \<or> t = PYSERIAL_PLACEHOLDER then None else Some t)"

definition pyserial_to_port_info :: "list_port_info \<Rightarrow> port_info" where
  "pyserial_to_port_info p =
     \<lparr>pi_device = lp_device p, pi_name = pyserial_normalize (lp_name p),
      pi_description = pyserial_normalize (lp_description p), pi_hwid = pyserial_normalize (lp_hwid p),
      pi_vid = lp_vid p, pi_pid = lp_pid p,
      pi_serial_number = pyserial_normalize (lp_serial_number p),
      pi_manufacturer = pyserial_normalize (lp_manufacturer p),
      pi_product = pyserial_normalize (lp_product p), pi_location = pyserial_normalize (lp_location p),
      pi_interface = pyserial_normalize (lp_interface p)\<rparr>"

definition pyserial_enumerate_ports :: "bool \<Rightarrow> list_port_info list \<Rightarrow> exn + port_info list" where
  "pyserial_enumerate_ports installed comports =
     (if \<not> installed then Inl (exn_msg ImportError) else Inr (map pyserial_to_port_info comports))"

subsection \<open>pyudev\<close>

record udev_device =
  ud_device_node :: "string option"
  ud_sys_path :: "string option"
  ud_sys_name :: "string option"
  ud_properties :: "(string \<Rightarrow> exn + string option) option"

definition pyudev_prop :: "udev_device \<Rightarrow> string \<Rightarrow> exn + string option" where
  "pyudev_prop d key =
     (case ud_properties d of
        None \<Rightarrow> Inr None
      | Some get \<Rightarrow>
          (case get key of
             Inl e \<Rightarrow> if isinstance e KeyError \<or> isinstance e AttributeError then Inr None else Inl e
           | Inr None \<Rightarrow> Inr None
           | Inr (Some v) \<Rightarrow> Inr (nonempty (strip v))))"

text \<open>\<open>_prop(d, a) or _prop(d, b)\<close>: the second key is read only if the first gives nothing.\<close>

definition pyudev_prop_or :: "udev_device \<Rightarrow> string \<Rightarrow> string \<Rightarrow> exn + string option" where
  "pyudev_prop_or d a b =
     res_bind (pyudev_prop d a) (\<lambda>v. if truthy v then Inr v else pyudev_prop d b)"

definition pyudev_device_to_port_info :: "udev_device \<Rightarrow> exn + port_info option" where
  "pyudev_device_to_port_info d =
     (if \<not> truthy (ud_device_node d) then Inr None
      else if contains ''/devices/virtual/'' (case ud_sys_path d of None \<Rightarrow> [] | Some p \<Rightarrow> p) then Inr None
      else
        res_bind (pyudev_prop d ''ID_VENDOR_ID'') (\<lambda>v.
        res_bind (pyudev_prop d ''ID_MODEL_ID'') (\<lambda>p.
        res_bind (pyudev_prop d ''ID_SERIAL_SHORT'') (\<lambda>serial_number.
        res_bind (pyudev_prop_or d ''ID_VENDOR_FROM_DATABASE'' ''ID_VENDOR'') (\<lambda>manufacturer.
        res_bind (pyudev_prop_or d ''ID_MODEL_FROM_DATABASE'' ''ID_MODEL'') (\<lambda>product.
        res_bind (pyudev_prop d ''ID_PATH'') (\<lambda>location.
        res_bind (pyudev_prop d ''ID_USB_INTERFACE_NUM'') (\<lambda>interface.
        let vid = parse_hex v; pid = parse_hex p in
        Inr (Some \<lparr>pi_device = the (ud_device_node d), pi_name = ud_sys_name d, pi_description = product,
          pi_hwid = hwid_text vid pid serial_number location, pi_vid = vid, pi_pid = pid,
          pi_serial_number = serial_number, pi_manufacturer = manufacturer, pi_product = product,
          pi_location = location, pi_interface = interface\<rparr>)))))))))"

definition pyudev_enumerate_ports :: "string \<Rightarrow> bool \<Rightarrow> udev_device list \<Rightarrow> exn + port_info list" where
  "pyudev_enumerate_ports platform installed devices =
     (if \<not> starts_with ''linux'' platform then Inl (exn_msg UnsupportedPlatformError)
      else if \<not> installed then Inl (exn_msg ImportError)
      else res_bind (collect_ports pyudev_device_to_port_info devices) (\<lambda>ports. Inr (sort_key pi_device ports)))"

subsection \<open>What they promise\<close>

text \<open>No text field is empty, blank-padded or pySerial's placeholder.\<close>

definition clean_text :: "string option \<Rightarrow> bool" where
  "clean_text v \<longleftrightarrow> (\<forall>t. v = Some t \<longrightarrow> t \<noteq> [] \<and> t \<noteq> ''n/a'' \<and> strip t = t)"

lemma strip_strip [simp]: "strip (strip s) = strip s"
proof (cases "strip s = []")
  case True
  moreover have "strip [] = []" by (simp add: strip_def)
  ultimately show ?thesis by simp
next
  case False
  let ?t = "dropWhile is_space s"
  have "?t \<noteq> []" using False unfolding strip_def by (metis dropWhile.simps(1) rev.simps(1))
  then have hd: "\<not> is_space (hd ?t)" by (metis hd_dropWhile dropWhile_eq_Nil_conv)
  have r: "dropWhile is_space (rev ?t) \<noteq> []" using False by (simp add: strip_def)
  then have last: "\<not> is_space (last (strip s))"
    unfolding strip_def last_rev by (metis hd_dropWhile dropWhile_eq_Nil_conv)
  obtain b where "rev ?t = b @ dropWhile is_space (rev ?t)" by (metis takeWhile_dropWhile_id)
  then have "?t = strip s @ rev b" unfolding strip_def by (metis rev_append rev_rev_ident)
  then have "hd (strip s) = hd ?t" using False by (metis hd_append2)
  with hd last False show ?thesis by (intro strip_id) simp_all
qed

lemma pyserial_normalize_clean: "clean_text (pyserial_normalize v)"
  by (auto simp: clean_text_def pyserial_normalize_def PYSERIAL_PLACEHOLDER_def Let_def split: option.splits if_splits)

text \<open>Through pySerial every listed port keeps its place, its device and its numbers, and each of
  its text fields is either missing or a non-empty text without surrounding blanks that is not
  pySerial's placeholder; without the package listing raises \<open>ImportError\<close>.\<close>

theorem pyserial_ports_clean:
  "case pyserial_enumerate_ports installed comports of
     Inl e \<Rightarrow> \<not> installed \<and> exn_class e = ImportError
   | Inr ports \<Rightarrow> installed
       \<and> map (\<lambda>p. (pi_device p, pi_vid p, pi_pid p)) ports = map (\<lambda>p. (lp_device p, lp_vid p, lp_pid p)) comports
       \<and> list_all (\<lambda>p. list_all clean_text [pi_name p, pi_description p, pi_hwid p, pi_serial_number p,
            pi_manufacturer p, pi_product p, pi_location p, pi_interface p]) ports"
  by (simp add: pyserial_enumerate_ports_def pyserial_to_port_info_def pyserial_normalize_clean
      exn_msg_def list_all_iff)

lemma pyudev_prop_stripped:
  "pyudev_prop d key = Inr v \<Longrightarrow> v \<noteq> Some []"
  by (auto simp: pyudev_prop_def nonempty_def split: option.splits sum.splits if_splits)

lemma pyudev_device_Some:
  "pyudev_device_to_port_info d = Inr (Some p) \<Longrightarrow>
     ud_device_node d = Some (pi_device p) \<and> pi_device p \<noteq> []
     \<and> (\<forall>path. ud_sys_path d = Some path \<longrightarrow> \<not> contains ''/devices/virtual/'' path)
     \<and> pi_hwid p = hwid_text (pi_vid p) (pi_pid p) (pi_serial_number p) (pi_location p)
     \<and> pi_serial_number p \<noteq> Some []"
  by (auto simp: pyudev_device_to_port_info_def Let_def res_bind_Inr_iff truthy_def
      dest: pyudev_prop_stripped split: if_splits option.splits)

text \<open>Through pyudev the ports come out sorted by device path, one for each device that has a
  device node and is not under \<open>/devices/virtual/\<close>, and the \<open>hwid\<close> text agrees with the vendor and
  product numbers; off Linux, or without the package, listing raises the two documented errors.\<close>

theorem pyudev_ports_sorted:
  "case pyudev_enumerate_ports platform installed devices of
     Inl e \<Rightarrow>
       if \<not> starts_with ''linux'' platform then exn_class e = UnsupportedPlatformError
       else if \<not> installed then exn_class e = ImportError
       else collect_ports pyudev_device_to_port_info devices = Inl e
   | Inr ports \<Rightarrow> starts_with ''linux'' platform \<and> installed \<and> sorted (map pi_device ports)
       \<and> set ports = {p. \<exists>d\<in>set devices. pyudev_device_to_port_info d = Inr (Some p)
            \<and> ud_device_node d = Some (pi_device p)
            \<and> (\<forall>path. ud_sys_path d = Some path \<longrightarrow> \<not> contains ''/devices/virtual/'' path)}
       \<and> (\<forall>p\<in>set ports. map_option hwid_ids (pi_hwid p) =
            (if pi_vid p = None \<or> pi_pid p = None then None else Some (pi_vid p, pi_pid p)))"
proof (cases "starts_with ''linux'' platform \<and> installed")
  case False
  then show ?thesis by (auto simp: pyudev_enumerate_ports_def exn_msg_def)
next
  case True
  show ?thesis
  proof (cases "collect_ports pyudev_device_to_port_info devices")
    case (Inl e)
    with True show ?thesis by (simp add: pyudev_enumerate_ports_def)
  next
    case (Inr ys)
    have s: "set ys = {p. \<exists>d\<in>set devices. pyudev_device_to_port_info d = Inr (Some p)}"
      using collect_ports_Inr [OF Inr] by simp
    have h: "map_option hwid_ids (pi_hwid p) =
        (if pi_vid p = None \<or> pi_pid p = None then None else Some (pi_vid p, pi_pid p))"
      if "pyudev_device_to_port_info d = Inr (Some p)" for d p
      using pyudev_device_Some [OF that] hwid_text_reads by metis
    have d: "ud_device_node d = Some (pi_device p)
        \<and> (\<forall>path. ud_sys_path d = Some path \<longrightarrow> \<not> contains ''/devices/virtual/'' path)"
      if "pyudev_device_to_port_info d = Inr (Some p)" for d p
      using pyudev_device_Some [OF that] by simp
    have "pyudev_enumerate_ports platform installed devices = Inr (sort_key pi_device ys)"
      using True Inr by (simp add: pyudev_enumerate_ports_def)
    then show ?thesis using True s d h by (simp only: sum.case set_sort sorted_sort_key) blast
  qed
qed

definition demo_udev :: "udev_device list" where
  "demo_udev =
     [\<lparr>ud_device_node = Some ''/dev/ttyUSB0'', ud_sys_path = Some ''/sys/devices/usb1'', ud_sys_name = Some ''ttyUSB0'',
       ud_properties = Some (\<lambda>k. if k = ''ID_VENDOR_ID'' then Inr (Some ''0403'') else Inl (exn_msg KeyError))\<rparr>,
      \<lparr>ud_device_node = Some ''/dev/tty0'', ud_sys_path = Some ''/sys/devices/virtual/tty/tty0'', ud_sys_name = None,
       ud_properties = None\<rparr>]"

lemma pyudev_ports_sorted_witness:
  "\<exists>p. pyudev_enumerate_ports ''linux'' True demo_udev = Inr [p] \<and> pi_vid p = Some 1027
     \<and> ud_device_node (hd demo_udev) = Some (pi_device p)"
proof -
  obtain p where p: "pyudev_enumerate_ports ''linux'' True demo_udev = Inr [p]" "pi_vid p = Some 1027"
    "pi_device p = ''/dev/ttyUSB0''"
  proof
    show "pyudev_enumerate_ports ''linux'' True demo_udev = Inr [(bare_port ''/dev/ttyUSB0'' (Some ''ttyUSB0''))\<lparr>pi_vid := Some 1027\<rparr>]"
      by code_simp
  qed (simp_all add: bare_port_def)
  have "\<exists>d\<in>set demo_udev. ud_device_node d = Some (pi_device p)"
    using pyudev_ports_sorted [of "''linux''" True demo_udev] p(1) by auto
  then show ?thesis using p by (simp add: demo_udev_def)
qed

end
