(* ===== verification/Darwin_Discovery.thy ===== *)
theory Darwin_Discovery
  imports Linux_Discovery
begin

section \<open>IOKit discovery (\<open>_darwin/discovery.py\<close>, \<open>_darwin/_iokit.py\<close>)\<close>

text \<open>
  The client over IOKit and CoreFoundation, and the walk that uses it. The frameworks are the record
  \<open>iokit\<close>: the matching services, a registry entry's parent and properties, and the decoding of a
  CoreFoundation object, which stays opaque (\<open>'cf\<close>). What a call answers may depend on which registry
  entries are still referenced. The state counts the references the process holds: \<open>ik_refs\<close> per
  registry entry, \<open>ik_iterators\<close> for iterators, \<open>ik_cf\<close> for CoreFoundation objects. Each field
  changes where the source calls a function that returns a new reference, \<open>IOObjectRelease\<close> or
  \<open>CFRelease\<close>.
\<close>

record 'cf iokit =
  ik_matching :: bool
  ik_matching_kr :: int
  ik_services :: "nat list"
  ik_key_string :: "string \<Rightarrow> bool"
  ik_property :: "(nat \<Rightarrow> int) \<Rightarrow> nat \<Rightarrow> string \<Rightarrow> 'cf option"
  ik_parent :: "(nat \<Rightarrow> int) \<Rightarrow> nat \<Rightarrow> int \<times> nat"
  ik_length :: "'cf \<Rightarrow> int"
  ik_cstring :: "'cf \<Rightarrow> int \<Rightarrow> string option"
  ik_number :: "'cf \<Rightarrow> int option"

record iokit_state =
  ik_refs :: "nat \<Rightarrow> int"
  ik_iterators :: int
  ik_cf :: int

type_synonym 'a iokit_io = "(iokit_state, exn, 'a) io"

definition IO_CALLOUT_DEVICE_KEY :: string where "IO_CALLOUT_DEVICE_KEY = ''IOCalloutDevice''"
definition IO_DIALIN_DEVICE_KEY :: string where "IO_DIALIN_DEVICE_KEY = ''IODialinDevice''"
definition USB_VENDOR_ID_KEY :: string where "USB_VENDOR_ID_KEY = ''idVendor''"
definition USB_PRODUCT_ID_KEY :: string where "USB_PRODUCT_ID_KEY = ''idProduct''"
definition USB_SERIAL_NUMBER_KEY :: string where "USB_SERIAL_NUMBER_KEY = ''USB Serial Number''"
definition USB_VENDOR_NAME_KEY :: string where "USB_VENDOR_NAME_KEY = ''USB Vendor Name''"
definition USB_PRODUCT_NAME_KEY :: string where "USB_PRODUCT_NAME_KEY = ''USB Product Name''"
definition USB_LOCATION_ID_KEY :: string where "USB_LOCATION_ID_KEY = ''locationID''"

subsection \<open>The client (\<open>_CtypesIOKitClient\<close>)\<close>

definition cf_add :: "int \<Rightarrow> iokit_state \<Rightarrow> iokit_state" where
  "cf_add d s = s\<lparr>ik_cf := ik_cf s + d\<rparr>"

definition ref_add :: "nat \<Rightarrow> int \<Rightarrow> iokit_state \<Rightarrow> iokit_state" where
  "ref_add h d s = s\<lparr>ik_refs := (ik_refs s)(h := ik_refs s h + d)\<rparr>"

definition iterator_add :: "int \<Rightarrow> iokit_state \<Rightarrow> iokit_state" where
  "iterator_add d s = s\<lparr>ik_iterators := ik_iterators s + d\<rparr>"

definition cf_count :: "int \<Rightarrow> unit iokit_io" where
  "cf_count d = io_modify (cf_add d)"

definition ref_count :: "nat \<Rightarrow> int \<Rightarrow> unit iokit_io" where
  "ref_count h d = io_modify (ref_add h d)"

definition iterator_count :: "int \<Rightarrow> unit iokit_io" where
  "iterator_count d = io_modify (iterator_add d)"

definition ik_release :: "nat \<Rightarrow> unit iokit_io" where
  "ik_release h = ref_count h (- 1)"

definition read_property :: "'cf iokit \<Rightarrow> nat \<Rightarrow> string \<Rightarrow> 'cf option iokit_io" where
  "read_property os service key =
     (if \<not> ik_key_string os key then io_return None
      else io_seq (cf_count 1)
        (io_finally
          (io_bind (io_get ik_refs) (\<lambda>refs.
             case ik_property os refs service key of
               None \<Rightarrow> io_return None
             | Some cf \<Rightarrow> io_seq (cf_count 1) (io_return (Some cf))))
          (cf_count (- 1))))"

definition cfstring_to_str :: "'cf iokit \<Rightarrow> 'cf \<Rightarrow> string option" where
  "cfstring_to_str os cf =
     (let len = ik_length os cf in
      if len < 0 then None
      else Option.bind (ik_cstring os cf (len * 4 + 1)) nonempty)"

definition cfnumber_to_int :: "'cf iokit \<Rightarrow> 'cf \<Rightarrow> int option" where
  "cfnumber_to_int os cf = ik_number os cf"

definition ik_get_string :: "'cf iokit \<Rightarrow> nat \<Rightarrow> string \<Rightarrow> string option iokit_io" where
  "ik_get_string os service key =
     io_bind (read_property os service key) (\<lambda>v.
       case v of None \<Rightarrow> io_return None
       | Some cf \<Rightarrow> io_finally (io_return (cfstring_to_str os cf)) (cf_count (- 1)))"

definition ik_get_int :: "'cf iokit \<Rightarrow> nat \<Rightarrow> string \<Rightarrow> int option iokit_io" where
  "ik_get_int os service key =
     io_bind (read_property os service key) (\<lambda>v.
       case v of None \<Rightarrow> io_return None
       | Some cf \<Rightarrow> io_finally (io_return (cfnumber_to_int os cf)) (cf_count (- 1)))"

definition MAX_HOPS :: nat where "MAX_HOPS = 32"

text \<open>The loop of \<open>find_usb_parent\<close>; the first argument is the number of hops left.\<close>

fun climb :: "'cf iokit \<Rightarrow> nat \<Rightarrow> nat \<Rightarrow> nat option iokit_io" where
  "climb os 0 cursor = io_return None"
| "climb os (Suc hops) cursor =
     io_bind (io_get ik_refs) (\<lambda>refs.
       case ik_parent os refs cursor of (kr, parent) \<Rightarrow>
         if kr \<noteq> 0 \<or> parent = 0 then io_return None
         else
           io_seq (ref_count parent 1)
             (io_bind (read_property os parent USB_VENDOR_ID_KEY) (\<lambda>v.
                if v \<noteq> None then io_return (Some parent)
                else io_seq (ik_release parent) (climb os hops parent))))"

definition find_usb_parent :: "'cf iokit \<Rightarrow> nat \<Rightarrow> nat option iokit_io" where
  "find_usb_parent os service = climb os MAX_HOPS service"

subsection \<open>The walk\<close>

definition format_location :: "int option \<Rightarrow> string option" where
  "format_location location_id = map_option (\<lambda>n. format_hex False 8 (n AND 0xFFFFFFFF)) location_id"

definition darwin_format_hwid :: "usb_info \<Rightarrow> string option" where
  "darwin_format_hwid u = hwid_text (usb_vid u) (usb_pid u) (usb_serial_number u) (usb_location u)"

definition device_base_name :: "string \<Rightarrow> string option" where
  "device_base_name device = nonempty (last (split_on (CHR ''/'') device))"

definition darwin_read_usb :: "'cf iokit \<Rightarrow> nat \<Rightarrow> usb_info iokit_io" where
  "darwin_read_usb os h =
     io_bind (ik_get_int os h USB_LOCATION_ID_KEY) (\<lambda>location_int.
     io_bind (ik_get_int os h USB_VENDOR_ID_KEY) (\<lambda>vid.
     io_bind (ik_get_int os h USB_PRODUCT_ID_KEY) (\<lambda>pid.
     io_bind (ik_get_string os h USB_SERIAL_NUMBER_KEY) (\<lambda>serial_number.
     io_bind (ik_get_string os h USB_VENDOR_NAME_KEY) (\<lambda>manufacturer.
     io_bind (ik_get_string os h USB_PRODUCT_NAME_KEY) (\<lambda>product.
     io_return \<lparr>usb_vid = vid, usb_pid = pid, usb_serial_number = serial_number,
       usb_manufacturer = manufacturer, usb_product = product,
       usb_location = format_location location_int, usb_interface = None\<rparr>))))))"

definition darwin_resolve_usb :: "'cf iokit \<Rightarrow> nat \<Rightarrow> usb_info iokit_io" where
  "darwin_resolve_usb os service =
     io_bind (find_usb_parent os service) (\<lambda>parent.
       case parent of None \<Rightarrow> io_return no_usb
       | Some h \<Rightarrow> io_finally (darwin_read_usb os h) (ik_release h))"

definition darwin_resolve_service :: "'cf iokit \<Rightarrow> nat \<Rightarrow> port_info option iokit_io" where
  "darwin_resolve_service os service =
     io_bind (ik_get_string os service IO_CALLOUT_DEVICE_KEY) (\<lambda>callout.
     io_bind (ik_get_string os service IO_DIALIN_DEVICE_KEY) (\<lambda>dialin.
       case str_or callout dialin of
         None \<Rightarrow> io_return None
       | Some device \<Rightarrow>
           io_bind (darwin_resolve_usb os service) (\<lambda>usb.
           io_return (Some \<lparr>pi_device = device, pi_name = device_base_name device,
             pi_description = usb_product usb, pi_hwid = darwin_format_hwid usb, pi_vid = usb_vid usb,
             pi_pid = usb_pid usb, pi_serial_number = usb_serial_number usb,
             pi_manufacturer = usb_manufacturer usb, pi_product = usb_product usb,
             pi_location = usb_location usb, pi_interface = None\<rparr>))))"

text \<open>
  \<open>for service in client.list_serial_services()\<close>: the generator takes the iterator, hands out one
  referenced service per round and releases the iterator when it ends, whether it is exhausted or
  closed by a return out of the loop. The body returns whether to stop.
\<close>

fun each_service :: "('b \<Rightarrow> nat \<Rightarrow> (bool \<times> 'b) iokit_io) \<Rightarrow> nat list \<Rightarrow> 'b \<Rightarrow> 'b iokit_io" where
  "each_service body [] acc = io_return acc"
| "each_service body (service # services) acc =
     io_seq (ref_count service 1)
       (io_bind (io_finally (body acc service) (ik_release service)) (\<lambda>r.
          case r of (stop, acc') \<Rightarrow> if stop then io_return acc' else each_service body services acc'))"

definition for_services :: "'cf iokit \<Rightarrow> ('b \<Rightarrow> nat \<Rightarrow> (bool \<times> 'b) iokit_io) \<Rightarrow> 'b \<Rightarrow> 'b iokit_io" where
  "for_services os body acc =
     (if \<not> ik_matching os \<or> ik_matching_kr os \<noteq> 0 then io_return acc
      else io_seq (iterator_count 1)
        (io_finally (each_service body (takeWhile (\<lambda>raw. raw \<noteq> 0) (ik_services os)) acc)
          (iterator_count (- 1))))"

definition darwin_enumerate_ports :: "'cf iokit \<Rightarrow> port_info list iokit_io" where
  "darwin_enumerate_ports os =
     io_bind
       (for_services os (\<lambda>ports service.
          io_bind (darwin_resolve_service os service) (\<lambda>info.
          io_return (False, case info of None \<Rightarrow> ports | Some p \<Rightarrow> ports @ [p]))) [])
       (\<lambda>ports. io_return (sort_key pi_device ports))"

definition darwin_resolve_port_info :: "'cf iokit \<Rightarrow> string \<Rightarrow> port_info option iokit_io" where
  "darwin_resolve_port_info os path =
     for_services os (\<lambda>found service.
       io_bind (ik_get_string os service IO_CALLOUT_DEVICE_KEY) (\<lambda>callout.
       io_bind (ik_get_string os service IO_DIALIN_DEVICE_KEY) (\<lambda>dialin.
         if callout = Some path \<or> dialin = Some path
         then io_bind (darwin_resolve_service os service) (\<lambda>info. io_return (True, info))
         else io_return (False, found)))) None"

subsection \<open>References\<close>

lemma cf_add_simps [simp]: "cf_add 0 s = s" "cf_add a (cf_add b s) = cf_add (a + b) s"
  "ik_refs (cf_add a s) = ik_refs s" "ik_iterators (cf_add a s) = ik_iterators s"
  "ik_cf (cf_add a s) = ik_cf s + a"
  by (simp_all add: cf_add_def ac_simps)

lemma ref_add_simps [simp]: "ref_add h a (ref_add h b s) = ref_add h (a + b) s" "ref_add h 0 s = s"
  "ref_add h a (cf_add b s) = cf_add b (ref_add h a s)" "ik_cf (ref_add h a s) = ik_cf s"
  "ik_refs (ref_add h a s) = (ik_refs s)(h := ik_refs s h + a)"
  by (simp_all add: ref_add_def cf_add_def ac_simps)

lemma iterator_add_simps [simp]: "iterator_add a (iterator_add b s) = iterator_add (a + b) s"
  "iterator_add 0 s = s" "iterator_add a (cf_add b s) = cf_add b (iterator_add a s)"
  by (simp_all add: iterator_add_def cf_add_def ac_simps)

lemmas iokit_defs = cf_count_def ref_count_def iterator_count_def ik_release_def io_ctl_defs

text \<open>
  \<open>leaks n m\<close>: the operation returns, gives back every registry reference and iterator it took, and
  leaves at most \<open>n\<close> CoreFoundation objects unreleased.
\<close>

definition leaks :: "nat \<Rightarrow> 'a iokit_io \<Rightarrow> bool" where
  "leaks n m \<longleftrightarrow> (\<forall>s. \<exists>x k. m s = (Inr x, cf_add (int k) s) \<and> k \<le> n)"

lemma leaksE:
  assumes "leaks n m"
  obtains x k where "m s = (Inr x, cf_add (int k) s)" "k \<le> n"
  using assms unfolding leaks_def by blast

lemma leaks_return: "leaks n (io_return x)"
proof -
  have "io_return x s = (Inr x, cf_add (int 0) s)" for s by (simp add: io_return_def)
  then show ?thesis unfolding leaks_def by blast
qed

lemma leaks_bind:
  assumes "leaks a m" "\<And>x. leaks b (f x)"
  shows "leaks (a + b) (io_bind m f)"
  unfolding leaks_def
proof
  fix s
  obtain x k where x: "m s = (Inr x, cf_add (int k) s)" "k \<le> a" using assms(1) by (rule leaksE)
  obtain y l where "f x (cf_add (int k) s) = (Inr y, cf_add (int l) (cf_add (int k) s))" "l \<le> b"
    using assms(2) by (rule leaksE)
  with x show "\<exists>y k. io_bind m f s = (Inr y, cf_add (int k) s) \<and> k \<le> a + b"
    by (intro exI [of _ y] exI [of _ "k + l"]) (simp add: io_bind_def ac_simps)
qed

lemma leaks_mono: "leaks a m \<Longrightarrow> a \<le> b \<Longrightarrow> leaks b m"
  unfolding leaks_def by (meson le_trans)

lemma read_property_run:
  "read_property os service key s =
     (case (if ik_key_string os key then ik_property os (ik_refs s) service key else None) of
        None \<Rightarrow> (Inr None, s)
      | Some cf \<Rightarrow> (Inr (Some cf), cf_add 1 s))"
  by (simp add: read_property_def iokit_defs split: option.split)

lemma getters_run:
  "\<exists>v. ik_get_string os service key s = (Inr v, s)" "\<exists>n. ik_get_int os service key s = (Inr n, s)"
  by (auto simp: ik_get_string_def ik_get_int_def read_property_run iokit_defs split: option.split)

lemma leaks_getters: "leaks 0 (ik_get_string os service key)" "leaks 0 (ik_get_int os service key)"
  using getters_run [of os service key] by (simp_all add: leaks_def)

text \<open>Taking a reference, using it and releasing it, on every path.\<close>

lemma leaks_borrow:
  assumes "leaks n m"
  obtains x k where "io_finally m (ik_release h) (ref_add h 1 s) = (Inr x, cf_add (int k) s)" "k \<le> n"
proof -
  obtain x k where "m (ref_add h 1 s) = (Inr x, cf_add (int k) (ref_add h 1 s))" "k \<le> n"
    using assms by (rule leaksE)
  then show thesis by (intro that [of x k]) (simp_all add: iokit_defs)
qed

lemma climb_step:
  "climb os (Suc hops) cursor s =
     (case ik_parent os (ik_refs s) cursor of (kr, parent) \<Rightarrow>
        if kr \<noteq> 0 \<or> parent = 0 then (Inr None, s)
        else case (if ik_key_string os USB_VENDOR_ID_KEY
              then ik_property os (ik_refs (ref_add parent 1 s)) parent USB_VENDOR_ID_KEY else None) of
            None \<Rightarrow> climb os hops parent s
          | Some _ \<Rightarrow> (Inr (Some parent), cf_add 1 (ref_add parent 1 s)))"
  by (simp add: iokit_defs read_property_run split: prod.split option.split)

lemma climb_cases:
  "climb os hops cursor s = (Inr None, s) \<or> (\<exists>h. climb os hops cursor s = (Inr (Some h), cf_add 1 (ref_add h 1 s)))"
proof (induction hops arbitrary: cursor)
  case 0
  show ?case by (simp add: io_return_def)
next
  case (Suc hops)
  obtain kr parent where p: "ik_parent os (ik_refs s) cursor = (kr, parent)" by fastforce
  show ?case
    using Suc.IH [of parent] unfolding climb_step p by (simp split: option.split)
qed

lemma climb_run:
  obtains "climb os hops cursor s = (Inr None, s)"
  | h where "climb os hops cursor s = (Inr (Some h), cf_add 1 (ref_add h 1 s))"
  using climb_cases by blast

lemma leaks_read_usb: "leaks 0 (darwin_read_usb os h)"
proof -
  have "leaks (0 + (0 + (0 + (0 + (0 + (0 + 0)))))) (darwin_read_usb os h)"
    unfolding darwin_read_usb_def by (intro leaks_bind leaks_return leaks_getters)
  then show ?thesis by simp
qed

lemma leaks_resolve_usb: "leaks 1 (darwin_resolve_usb os service)"
  unfolding leaks_def
proof
  fix s
  show "\<exists>x k. darwin_resolve_usb os service s = (Inr x, cf_add (int k) s) \<and> k \<le> 1"
  proof (cases rule: climb_run [of os MAX_HOPS service s])
    case 1
    then show ?thesis
      by (intro exI [of _ no_usb] exI [of _ 0])
        (simp add: darwin_resolve_usb_def find_usb_parent_def io_bind_def io_return_def)
  next
    case (2 h)
    obtain x k where "io_finally (darwin_read_usb os h) (ik_release h) (ref_add h 1 (cf_add 1 s)) =
        (Inr x, cf_add (int k) (cf_add 1 s))" "k \<le> 0"
      using leaks_read_usb by (rule leaks_borrow)
    with 2 show ?thesis
      by (intro exI [of _ x] exI [of _ 1])
        (simp add: darwin_resolve_usb_def find_usb_parent_def io_bind_def)
  qed
qed

lemma leaks_resolve_service: "leaks 1 (darwin_resolve_service os service)"
proof -
  have "leaks (1 + 0) (io_bind (darwin_resolve_usb os service) (\<lambda>u. io_return (f u)))" for f :: "usb_info \<Rightarrow> port_info option"
    by (intro leaks_bind leaks_return leaks_resolve_usb)
  then have "leaks (0 + (0 + 1)) (darwin_resolve_service os service)"
    unfolding darwin_resolve_service_def
    by (intro leaks_bind leaks_getters) (auto intro: leaks_return split: option.split)
  then show ?thesis by simp
qed

lemma seq_ref_count: "io_seq (ref_count h d) m s = m (ref_add h d s)"
  by (simp add: io_seq_def io_bind_def ref_count_def io_modify_def)

lemma leaks_each_service:
  assumes "\<And>acc service. leaks 1 (body acc service)"
  shows "leaks (length services) (each_service body services acc)"
proof (induction services arbitrary: acc)
  case Nil
  show ?case by (simp add: leaks_return)
next
  case (Cons service services)
  have "\<exists>x k. io_seq (ref_count service 1) (io_finally (body acc service) (ik_release service)) s =
      (Inr x, cf_add (int k) s) \<and> k \<le> 1" for s
  proof -
    obtain x k where "io_finally (body acc service) (ik_release service) (ref_add service 1 s) =
        (Inr x, cf_add (int k) s)" "k \<le> 1"
      using assms by (rule leaks_borrow)
    then show ?thesis unfolding seq_ref_count by blast
  qed
  then have first: "leaks 1 (io_seq (ref_count service 1) (io_finally (body acc service) (ik_release service)))"
    by (simp add: leaks_def)
  have rest: "leaks (length services) (case r of (stop, acc') \<Rightarrow> if stop then io_return acc' else each_service body services acc')" for r
    by (cases r) (simp add: Cons.IH leaks_return)
  have "each_service body (service # services) acc =
      io_bind (io_seq (ref_count service 1) (io_finally (body acc service) (ik_release service)))
        (\<lambda>r. case r of (stop, acc') \<Rightarrow> if stop then io_return acc' else each_service body services acc')"
    by (rule ext) (simp add: io_seq_def io_bind_def split: prod.split sum.split)
  then show ?case using leaks_bind [OF first rest] by simp
qed

lemma leaks_for_services:
  assumes "\<And>acc service. leaks 1 (body acc service)"
  shows "leaks (length (ik_services os)) (for_services os body acc)"
proof (cases "\<not> ik_matching os \<or> ik_matching_kr os \<noteq> 0")
  case True
  then show ?thesis by (simp add: for_services_def leaks_return)
next
  case False
  let ?ns = "takeWhile (\<lambda>raw. raw \<noteq> 0) (ik_services os)"
  show ?thesis
    unfolding leaks_def
  proof
    fix s
    obtain x k where x: "each_service body ?ns acc (iterator_add 1 s) = (Inr x, cf_add (int k) (iterator_add 1 s))"
      "k \<le> length ?ns"
      using leaks_each_service [OF assms] by (rule leaksE)
    moreover have "length ?ns \<le> length (ik_services os)" by (rule length_takeWhile_le)
    ultimately show "\<exists>x k. for_services os body acc s = (Inr x, cf_add (int k) s) \<and> k \<le> length (ik_services os)"
      using False by (intro exI [of _ x] exI [of _ k]) (simp add: for_services_def iokit_defs)
  qed
qed

lemma leaks_service_then: "leaks 1 (io_bind (darwin_resolve_service os service) (\<lambda>info. io_return (f info)))"
proof -
  have "leaks (1 + 0) (io_bind (darwin_resolve_service os service) (\<lambda>info. io_return (f info)))"
    by (intro leaks_bind leaks_resolve_service leaks_return)
  then show ?thesis by simp
qed

lemma leaks_resolve_port: "leaks (length (ik_services os)) (darwin_resolve_port_info os path)"
  unfolding darwin_resolve_port_info_def
proof (rule leaks_for_services)
  fix found service
  have "leaks (0 + (0 + 1)) (io_bind (ik_get_string os service IO_CALLOUT_DEVICE_KEY) (\<lambda>callout.
       io_bind (ik_get_string os service IO_DIALIN_DEVICE_KEY) (\<lambda>dialin.
         if callout = Some path \<or> dialin = Some path
         then io_bind (darwin_resolve_service os service) (\<lambda>info. io_return (True, info))
         else io_return (False, found))))"
    by (intro leaks_bind leaks_getters) (simp add: leaks_service_then [unfolded One_nat_def] leaks_return)
  then show "leaks 1 (io_bind (ik_get_string os service IO_CALLOUT_DEVICE_KEY) (\<lambda>callout.
       io_bind (ik_get_string os service IO_DIALIN_DEVICE_KEY) (\<lambda>dialin.
         if callout = Some path \<or> dialin = Some path
         then io_bind (darwin_resolve_service os service) (\<lambda>info. io_return (True, info))
         else io_return (False, found))))"
    by simp
qed

lemma darwin_enumerate_sorted:
  "darwin_enumerate_ports os s = (Inr ports, s') \<Longrightarrow> sorted (map pi_device ports)"
  by (auto simp: darwin_enumerate_ports_def io_bind_def io_return_def split: prod.splits sum.splits)

subsection \<open>What listing leaves behind\<close>

text \<open>
  A service leaves one object unreleased, the vendor property that \<open>find_usb_parent\<close> reads to recognise
  a USB ancestor, exactly when the service names a device node and has such an ancestor.
\<close>

definition device_node :: "'cf iokit \<Rightarrow> nat \<Rightarrow> string option iokit_io" where
  "device_node os service =
     io_bind (ik_get_string os service IO_CALLOUT_DEVICE_KEY) (\<lambda>callout.
     io_bind (ik_get_string os service IO_DIALIN_DEVICE_KEY) (\<lambda>dialin. io_return (str_or callout dialin)))"

definition leaves_property :: "'cf iokit \<Rightarrow> iokit_state \<Rightarrow> nat \<Rightarrow> bool" where
  "leaves_property os s service \<longleftrightarrow>
     fst (device_node os service s) \<noteq> Inr None \<and> fst (find_usb_parent os service s) \<noteq> Inr None"

definition listing_leaves :: "'cf iokit \<Rightarrow> iokit_state \<Rightarrow> nat" where
  "listing_leaves os s =
     (if \<not> ik_matching os \<or> ik_matching_kr os \<noteq> 0 then 0
      else length (filter (\<lambda>service. leaves_property os (ref_add service 1 s) service)
        (takeWhile (\<lambda>raw. raw \<noteq> 0) (ik_services os))))"

text \<open>What a client call answers depends on the registry references only.\<close>

lemma get_string_same:
  assumes "ik_refs s = ik_refs t"
  shows "fst (ik_get_string os service key s) = fst (ik_get_string os service key t)"
  using assms by (auto simp: ik_get_string_def read_property_run iokit_defs split: option.split)

lemma climb_same: "ik_refs s = ik_refs t \<Longrightarrow> fst (climb os hops cursor s) = fst (climb os hops cursor t)"
proof (induction hops arbitrary: cursor)
  case 0
  show ?case by (simp add: io_return_def)
next
  case (Suc hops)
  then show ?case unfolding climb_step by (simp split: prod.split option.split)
qed

lemma device_node_run:
  "device_node os service s =
     (let c = fst (ik_get_string os service IO_CALLOUT_DEVICE_KEY s);
          d = fst (ik_get_string os service IO_DIALIN_DEVICE_KEY s)
      in (Inr (str_or (projr c) (projr d)), s))"
proof -
  obtain c d where "ik_get_string os service IO_CALLOUT_DEVICE_KEY s = (Inr c, s)"
    "ik_get_string os service IO_DIALIN_DEVICE_KEY s = (Inr d, s)"
    using getters_run(1) by metis
  then show ?thesis by (simp add: device_node_def io_bind_def io_return_def)
qed

lemma leaves_property_same:
  assumes "ik_refs s = ik_refs t"
  shows "leaves_property os s service = leaves_property os t service"
  unfolding leaves_property_def device_node_run find_usb_parent_def Let_def
  using get_string_same [OF assms] climb_same [OF assms] by (metis fst_conv)

lemma resolve_usb_leaves:
  "\<exists>x. darwin_resolve_usb os service s =
     (Inr x, cf_add (if fst (find_usb_parent os service s) = Inr None then 0 else 1) s)"
proof (cases rule: climb_run [of os MAX_HOPS service s])
  case 1
  then show ?thesis by (simp add: darwin_resolve_usb_def find_usb_parent_def io_bind_def io_return_def)
next
  case (2 h)
  obtain x k where "io_finally (darwin_read_usb os h) (ik_release h) (ref_add h 1 (cf_add 1 s)) =
      (Inr x, cf_add (int k) (cf_add 1 s))" "k \<le> 0"
    using leaks_read_usb by (rule leaks_borrow)
  with 2 show ?thesis by (simp add: darwin_resolve_usb_def find_usb_parent_def io_bind_def)
qed

lemma resolve_service_leaves:
  "\<exists>x. darwin_resolve_service os service s = (Inr x, cf_add (of_bool (leaves_property os s service)) s)"
proof -
  obtain u where u: "darwin_resolve_usb os service s =
      (Inr u, cf_add (if fst (find_usb_parent os service s) = Inr None then 0 else 1) s)"
    using resolve_usb_leaves by blast
  obtain c d where cd: "ik_get_string os service IO_CALLOUT_DEVICE_KEY s = (Inr c, s)"
    "ik_get_string os service IO_DIALIN_DEVICE_KEY s = (Inr d, s)"
    using getters_run(1) by metis
  then have "device_node os service s = (Inr (str_or c d), s)" by (simp add: device_node_run)
  with cd u show ?thesis
    by (cases "str_or c d") (auto simp: darwin_resolve_service_def leaves_property_def io_bind_def io_return_def)
qed

lemma each_service_leaves:
  assumes "\<And>acc service s. \<exists>x. body acc service s = (Inr (False, x), cf_add (of_bool (leaves_property os s service)) s)"
  shows "\<exists>x. each_service body services acc s =
    (Inr x, cf_add (int (length (filter (\<lambda>service. leaves_property os (ref_add service 1 s) service) services))) s)"
proof (induction services arbitrary: acc s)
  case Nil
  show ?case by (simp add: io_return_def)
next
  case (Cons service services)
  let ?b = "of_bool (leaves_property os (ref_add service 1 s) service) :: int"
  obtain x where x: "body acc service (ref_add service 1 s) = (Inr (False, x), cf_add ?b (ref_add service 1 s))"
    using assms by blast
  obtain y where y: "each_service body services x (cf_add ?b s) =
      (Inr y, cf_add (int (length (filter (\<lambda>service. leaves_property os (ref_add service 1 (cf_add ?b s)) service) services)))
        (cf_add ?b s))"
    using Cons.IH by blast
  have same: "leaves_property os (ref_add n 1 (cf_add ?b s)) n = leaves_property os (ref_add n 1 s) n" for n
    by (rule leaves_property_same) simp
  from x have "io_finally (body acc service) (ik_release service) (ref_add service 1 s) = (Inr (False, x), cf_add ?b s)"
    by (simp add: iokit_defs)
  then have "each_service body (service # services) acc s = each_service body services x (cf_add ?b s)"
    by (simp add: seq_ref_count) (simp add: io_bind_def)
  with y same show ?case by (auto simp: ac_simps)
qed

lemma enumerate_leaves:
  "\<exists>ports. darwin_enumerate_ports os s = (Inr ports, cf_add (int (listing_leaves os s)) s)"
proof (cases "\<not> ik_matching os \<or> ik_matching_kr os \<noteq> 0")
  case True
  then show ?thesis by (simp add: darwin_enumerate_ports_def for_services_def listing_leaves_def io_bind_def io_return_def)
next
  case False
  let ?body = "\<lambda>ports service.
      io_bind (darwin_resolve_service os service) (\<lambda>info.
      io_return (False, case info of None \<Rightarrow> ports | Some p \<Rightarrow> ports @ [p]))"
  let ?ns = "takeWhile (\<lambda>raw. raw \<noteq> 0) (ik_services os)"
  have "\<exists>x. ?body acc service t = (Inr (False, x), cf_add (of_bool (leaves_property os t service)) t)" for acc service t
    using resolve_service_leaves [of os service t] by (auto simp: io_bind_def io_return_def)
  then obtain x where x: "each_service ?body ?ns [] (iterator_add 1 s) =
      (Inr x, cf_add (int (length (filter (\<lambda>service. leaves_property os (ref_add service 1 (iterator_add 1 s)) service) ?ns)))
        (iterator_add 1 s))"
    using each_service_leaves [of ?body os ?ns "[]" "iterator_add 1 s"] by blast
  have "leaves_property os (ref_add n 1 (iterator_add 1 s)) n = leaves_property os (ref_add n 1 s) n" for n
    by (rule leaves_property_same) (simp add: iterator_add_def)
  with x False show ?thesis
    by (simp add: darwin_enumerate_ports_def for_services_def listing_leaves_def iokit_defs)
qed

text \<open>C37: Whatever IOKit answers, listing and resolving on Darwin return without raising, leave every
  registry entry and iterator with exactly the references it had (each service and USB parent is
  released exactly once, also when the loop is left early), and the list is sorted by device path.
  CoreFoundation objects are not balanced: a listing leaves exactly one unreleased for each service
  with a device node and a USB ancestor, so polling for ports grows without bound; resolving a path
  leaves at most one for each service.\<close>

theorem darwin_references_balanced:
  "(\<exists>ports. darwin_enumerate_ports os s = (Inr ports, s\<lparr>ik_cf := ik_cf s + int (listing_leaves os s)\<rparr>)
      \<and> sorted (map pi_device ports))
   \<and> (\<exists>info k. darwin_resolve_port_info os path s = (Inr info, s\<lparr>ik_cf := ik_cf s + int k\<rparr>)
      \<and> k \<le> length (ik_services os))"
proof
  obtain ports where "darwin_enumerate_ports os s = (Inr ports, cf_add (int (listing_leaves os s)) s)"
    using enumerate_leaves by blast
  then show "\<exists>ports. darwin_enumerate_ports os s = (Inr ports, s\<lparr>ik_cf := ik_cf s + int (listing_leaves os s)\<rparr>)
      \<and> sorted (map pi_device ports)"
    using darwin_enumerate_sorted by (metis cf_add_def)
  obtain info l where "darwin_resolve_port_info os path s = (Inr info, cf_add (int l) s)" "l \<le> length (ik_services os)"
    using leaks_resolve_port by (rule leaksE)
  then show "\<exists>info k. darwin_resolve_port_info os path s = (Inr info, s\<lparr>ik_cf := ik_cf s + int k\<rparr>)
      \<and> k \<le> length (ik_services os)"
    by (metis cf_add_def)
qed

subsection \<open>Where the climb ends\<close>

text \<open>
  A Mach port name without references is not a name any more: a call on it fails.
\<close>

definition dead_names_fail :: "'cf iokit \<Rightarrow> bool" where
  "dead_names_fail os \<longleftrightarrow> (\<forall>refs n. refs n \<le> 0 \<longrightarrow> fst (ik_parent os refs n) \<noteq> 0)"

text \<open>C38: When a call on an entry without references fails, \<open>find_usb_parent\<close> examines the immediate
  parent only: it releases a parent that is no USB device before asking for the parent's own parent,
  so an adapter whose USB device is further up is reported without any USB metadata. A parent that is
  a USB device is returned with one reference, and the property read to test it stays unreleased.\<close>

theorem darwin_climb_one_level:
  assumes "dead_names_fail os" and "ik_parent os (ik_refs s) service = (0, parent)" and "parent \<noteq> 0"
    and "ik_refs s parent = 0" and "ik_key_string os USB_VENDOR_ID_KEY"
  shows "find_usb_parent os service s =
    (if ik_property os ((ik_refs s)(parent := 1)) parent USB_VENDOR_ID_KEY = None then (Inr None, s)
     else (Inr (Some parent), s\<lparr>ik_refs := (ik_refs s)(parent := 1), ik_cf := ik_cf s + 1\<rparr>))"
proof -
  have hops: "MAX_HOPS = Suc (Suc 30)" by (simp add: MAX_HOPS_def)
  obtain kr up where up: "ik_parent os (ik_refs s) parent = (kr, up)" by fastforce
  have "fst (ik_parent os (ik_refs s) parent) \<noteq> 0" using assms(1,4) by (simp add: dead_names_fail_def)
  then have "kr \<noteq> 0" by (simp add: up)
  then have "climb os (Suc 30) parent s = (Inr None, s)" unfolding climb_step up by simp
  then show ?thesis
    using assms unfolding find_usb_parent_def hops climb_step [of os "Suc 30"]
    by (simp add: cf_add_def ref_add_def split: option.split)
qed

text \<open>The witness is a service two levels below its USB device.\<close>

definition demo_iokit :: "string iokit" where
  "demo_iokit = \<lparr>ik_matching = True, ik_matching_kr = 0, ik_services = [10, 0], ik_key_string = (\<lambda>_. True),
     ik_property = (\<lambda>refs n k. if n = 30 \<and> k = USB_VENDOR_ID_KEY then Some ''x''
       else if n = 10 \<and> k = IO_CALLOUT_DEVICE_KEY then Some ''/dev/cu.usb'' else None),
     ik_parent = (\<lambda>refs n. if refs n \<le> 0 then (1, 0) else if n = 10 then (0, 20) else if n = 20 then (0, 30) else (1, 0)),
     ik_length = (\<lambda>cf. int (length cf)), ik_cstring = (\<lambda>cf n. Some cf), ik_number = (\<lambda>_. Some 1027)\<rparr>"

lemma darwin_climb_one_level_witness:
  "find_usb_parent demo_iokit 10 \<lparr>ik_refs = (\<lambda>n. if n = 10 then 1 else 0), ik_iterators = 0, ik_cf = 0\<rparr> =
     (Inr None, \<lparr>ik_refs = (\<lambda>n. if n = 10 then 1 else 0), ik_iterators = 0, ik_cf = 0\<rparr>)"
proof -
  have "dead_names_fail demo_iokit" by (simp add: dead_names_fail_def demo_iokit_def)
  then show ?thesis
    by (subst darwin_climb_one_level [where parent = 20]) (simp_all add: demo_iokit_def)
qed

end
