(* ===== verification/Windows_Discovery.thy ===== *)
theory Windows_Discovery
  imports Discovery
begin

section \<open>SetupAPI discovery (\<open>_windows/discovery.py\<close>)\<close>

text \<open>
  The walk over the COM-port device interfaces, the registry fallback, and the parsing of device
  instance IDs, hardware IDs and friendly names. SetupAPI and \<open>winreg\<close> are the record \<open>setup_api\<close>:
  what each call stores in its buffer, or \<open>None\<close> when it fails. The regular expressions are written as
  recursive matchers; case-insensitive matching is comparison of upper-cased ASCII.
\<close>

record com_interface =
  ci_device_path :: "string option"
  ci_property :: "nat \<Rightarrow> string option"
  ci_instance_id :: "string option"

record setup_api =
  sa_load :: "exn + unit"
  sa_dev_info :: bool
  sa_interfaces :: "com_interface list"
  sa_winreg :: bool
  sa_open_key :: bool
  sa_values :: "string option list"

definition SPDRP_HARDWAREID :: nat where "SPDRP_HARDWAREID = 1"
definition SPDRP_FRIENDLYNAME :: nat where "SPDRP_FRIENDLYNAME = 12"
definition SPDRP_LOCATION_INFORMATION :: nat where "SPDRP_LOCATION_INFORMATION = 13"

subsection \<open>Matchers\<close>

definition drop_ci :: "string \<Rightarrow> string \<Rightarrow> string option" where
  "drop_ci lit s = (if upper (take (length lit) s) = upper lit then Some (drop (length lit) s) else None)"

definition take_hex :: "nat \<Rightarrow> string \<Rightarrow> (string \<times> string) option" where
  "take_hex n s =
     (if n \<le> length s \<and> list_all is_hex (take n s) then Some (take n s, drop n s) else None)"

text \<open>The optional \<open>&MI_hh\<close>, and an optional separator followed by a segment without backslashes.\<close>

definition skip_interface :: "string \<Rightarrow> string" where
  "skip_interface s =
     (case drop_ci ''&MI_'' s of None \<Rightarrow> s
      | Some r \<Rightarrow> (case take_hex 2 r of None \<Rightarrow> s | Some (_, t) \<Rightarrow> t))"

definition segment_after :: "char \<Rightarrow> string \<Rightarrow> string option" where
  "segment_after sep s =
     (case s of [] \<Rightarrow> None
      | c # cs \<Rightarrow> if c = sep then nonempty (takeWhile (\<lambda>x. x \<noteq> BACKSLASH) cs) else None)"

text \<open>\<open>_USB_INSTANCE_ID_RE.match\<close> and \<open>_FTDIBUS_INSTANCE_ID_RE.match\<close>: the three groups.\<close>

definition usb_instance_match :: "string \<Rightarrow> (string \<times> string \<times> string option) option" where
  "usb_instance_match s =
     Option.bind (drop_ci (''USB'' @ [BACKSLASH] @ ''VID_'') s) (\<lambda>a.
     Option.bind (take_hex 4 a) (\<lambda>(vid, b).
     Option.bind (drop_ci ''&PID_'' b) (\<lambda>c.
     Option.bind (take_hex 4 c) (\<lambda>(pid, d).
     Some (vid, pid, segment_after BACKSLASH (skip_interface d))))))"

definition ftdi_instance_match :: "string \<Rightarrow> (string \<times> string \<times> string option) option" where
  "ftdi_instance_match s =
     Option.bind (drop_ci (''FTDIBUS'' @ [BACKSLASH] @ ''VID_'') s) (\<lambda>a.
     Option.bind (take_hex 4 a) (\<lambda>(vid, b).
     Option.bind (drop_ci ''+PID_'' b) (\<lambda>c.
     Option.bind (take_hex 4 c) (\<lambda>(pid, d).
     Some (vid, pid, segment_after (CHR ''+'') d)))))"

text \<open>\<open>_HWID_VID_PID_RE.search\<close>: the first position that matches.\<close>

definition hwid_match_here :: "string \<Rightarrow> (string \<times> string) option" where
  "hwid_match_here s =
     Option.bind (drop_ci ''VID_'' s) (\<lambda>a.
     Option.bind (take_hex 4 a) (\<lambda>(vid, b).
     Option.bind (if starts_with ''&'' b \<or> starts_with ''+'' b then Some (tl b) else None) (\<lambda>c.
     Option.bind (drop_ci ''PID_'' c) (\<lambda>d.
     Option.bind (take_hex 4 d) (\<lambda>(pid, _). Some (vid, pid))))))"

fun hwid_search :: "string \<Rightarrow> (string \<times> string) option" where
  "hwid_search [] = None"
| "hwid_search (c # cs) =
     (case hwid_match_here (c # cs) of Some m \<Rightarrow> Some m | None \<Rightarrow> hwid_search cs)"

text \<open>\<open>\(COM\d+\)\<close> at the start of a text: the digits.\<close>

definition com_match :: "string \<Rightarrow> string option" where
  "com_match s =
     (if starts_with ''(COM'' s then
        let ds = takeWhile is_digit (drop 4 s) in
        if ds \<noteq> [] \<and> starts_with '')'' (drop (4 + length ds) s) then Some ds else None
      else None)"

fun com_search :: "string \<Rightarrow> string option" where
  "com_search [] = None"
| "com_search (c # cs) =
     (case com_match (c # cs) of Some ds \<Rightarrow> Some ds | None \<Rightarrow> com_search cs)"

text \<open>\<open>re.sub(r"\s*\(COM\d+\)", "", s)\<close>.\<close>

function com_remove :: "string \<Rightarrow> string" where
  "com_remove s =
     (case s of [] \<Rightarrow> []
      | c # cs \<Rightarrow>
          (case com_match (dropWhile is_space s) of
             Some ds \<Rightarrow> com_remove (drop (5 + length ds) (dropWhile is_space s))
           | None \<Rightarrow> c # com_remove cs))"
  by pat_completeness auto
termination com_remove
proof (relation "measure length")
  fix s :: string and c cs ds
  assume "s = c # cs"
  then have "length (drop (5 + length ds) (dropWhile is_space s)) < length s"
    using length_dropWhile_le [of is_space s] by (simp add: less_Suc_eq_le)
  then show "(drop (5 + length ds) (dropWhile is_space s), s) \<in> measure length" by simp
qed auto

declare com_remove.simps [simp del]

subsection \<open>Parsing\<close>

definition usb_serial_number :: "string option \<Rightarrow> string option" where
  "usb_serial_number segment =
     (case segment of None \<Rightarrow> None
      | Some s \<Rightarrow> if s = [] \<or> contains ''&'' s then None else Some s)"

definition ftdi_serial_number :: "string option \<Rightarrow> string option" where
  "ftdi_serial_number segment =
     (case segment of None \<Rightarrow> None
      | Some s \<Rightarrow>
          if s = [] \<or> contains ''&'' s then None
          else if 1 < length s \<and> CHR ''A'' \<le> last s \<and> last s \<le> CHR ''Z'' then Some (butlast s)
          else Some s)"

definition parse_instance_id :: "string option \<Rightarrow> int option \<times> int option \<times> string option" where
  "parse_instance_id instance_id =
     (case instance_id of None \<Rightarrow> (None, None, None)
      | Some s \<Rightarrow>
          (case usb_instance_match s of
             Some (v, p, seg) \<Rightarrow> (py_int_hex v, py_int_hex p, usb_serial_number seg)
           | None \<Rightarrow>
               (case ftdi_instance_match s of
                  Some (v, p, seg) \<Rightarrow> (py_int_hex v, py_int_hex p, ftdi_serial_number seg)
                | None \<Rightarrow> (None, None, None))))"

definition parse_hardware_id :: "string option \<Rightarrow> int option \<times> int option" where
  "parse_hardware_id hwid =
     (case hwid of None \<Rightarrow> (None, None)
      | Some s \<Rightarrow>
          (case hwid_search s of None \<Rightarrow> (None, None) | Some (v, p) \<Rightarrow> (py_int_hex v, py_int_hex p)))"

definition parse_device_ids ::
  "string option \<Rightarrow> string option \<Rightarrow> int option \<times> int option \<times> string option" where
  "parse_device_ids instance_id hardware_id =
     (let ids = parse_instance_id instance_id in
      if fst ids \<noteq> None then ids
      else case parse_hardware_id hardware_id of (vid, pid) \<Rightarrow> (vid, pid, None))"

definition extract_com_name :: "string option \<Rightarrow> string option" where
  "extract_com_name friendly =
     Option.bind friendly (\<lambda>s. map_option (\<lambda>ds. ''COM'' @ ds) (com_search s))"

definition extract_com_name_from_path :: "string \<Rightarrow> string option" where
  "extract_com_name_from_path device_path = None"

definition strip_com_suffix :: "string option \<Rightarrow> string option" where
  "strip_com_suffix friendly = Option.bind friendly (\<lambda>s. nonempty (strip (com_remove s)))"

subsection \<open>The walk\<close>

definition get_registry_string :: "com_interface \<Rightarrow> nat \<Rightarrow> string option" where
  "get_registry_string c prop = Option.bind (ci_property c prop) (\<lambda>v. nonempty (strip v))"

definition get_instance_id :: "com_interface \<Rightarrow> string option" where
  "get_instance_id c = Option.bind (ci_instance_id c) nonempty"

definition resolve_interface :: "com_interface \<Rightarrow> port_info option" where
  "resolve_interface c =
     (case ci_device_path c of None \<Rightarrow> None
      | Some device_path \<Rightarrow>
          let friendly = get_registry_string c SPDRP_FRIENDLYNAME;
              hardware_id = get_registry_string c SPDRP_HARDWAREID;
              location = get_registry_string c SPDRP_LOCATION_INFORMATION;
              instance_id = get_instance_id c;
              com_name = str_or (extract_com_name friendly) (extract_com_name_from_path device_path)
          in case parse_device_ids instance_id hardware_id of (vid, pid, serial_number) \<Rightarrow>
            Some \<lparr>pi_device = (case com_name of None \<Rightarrow> device_path | Some n \<Rightarrow> n), pi_name = com_name,
              pi_description = friendly, pi_hwid = hwid_text vid pid serial_number location,
              pi_vid = vid, pi_pid = pid, pi_serial_number = serial_number, pi_manufacturer = None,
              pi_product = strip_com_suffix friendly, pi_location = location, pi_interface = None\<rparr>)"

definition enumerate_setupapi :: "setup_api \<Rightarrow> exn + port_info list" where
  "enumerate_setupapi api =
     res_bind (sa_load api) (\<lambda>_.
       Inr (if \<not> sa_dev_info api then [] else List.map_filter resolve_interface (sa_interfaces api)))"

definition enumerate_registry_fallback :: "setup_api \<Rightarrow> port_info list" where
  "enumerate_registry_fallback api =
     (if \<not> sa_winreg api \<or> \<not> sa_open_key api then []
      else List.map_filter
        (\<lambda>value. if truthy value then Some (bare_port (the value) value) else None) (sa_values api))"

definition windows_enumerate_ports :: "setup_api \<Rightarrow> exn + port_info list" where
  "windows_enumerate_ports api =
     res_bind (enumerate_setupapi api) (\<lambda>found.
       Inr (sort_key pi_device (if found = [] then enumerate_registry_fallback api else found)))"

definition windows_canonical :: "string \<Rightarrow> string" where
  "windows_canonical = canonical_port_name (\<lambda>_. False) id ''win32''"

definition windows_resolve_port_info :: "setup_api \<Rightarrow> string \<Rightarrow> exn + port_info option" where
  "windows_resolve_port_info api path =
     (let wanted = windows_canonical path; is_wanted = (\<lambda>p. windows_canonical (pi_device p) = wanted) in
      res_bind (enumerate_setupapi api) (\<lambda>found.
        case find is_wanted found of
          Some p \<Rightarrow> Inr (Some p)
        | None \<Rightarrow> Inr (find is_wanted (enumerate_registry_fallback api))))"

subsection \<open>Instance IDs\<close>

lemma hex_of_nat_length: "n < 16 ^ k \<Longrightarrow> 0 < k \<Longrightarrow> length (hex_of_nat up n) \<le> k"
proof (induction up n arbitrary: k rule: hex_of_nat.induct)
  case (1 up n)
  show ?case
  proof (cases "n < 16")
    case True
    then show ?thesis using 1 by (subst hex_of_nat.simps) simp
  next
    case False
    then obtain j where j: "k = Suc j" "0 < j" using 1 by (cases k; cases "k - 1") auto
    then have "n div 16 < 16 ^ j" using 1(2) by (simp add: less_mult_imp_div_less)
    then have "length (hex_of_nat up (n div 16)) \<le> j" using 1(1) False j(2) by simp
    then show ?thesis using False j by (subst hex_of_nat.simps) simp
  qed
qed

definition id_number :: "int \<Rightarrow> bool" where
  "id_number v \<longleftrightarrow> 0 \<le> v \<and> v < 65536"

lemma format_hex_four:
  assumes "id_number v"
  shows "length (format_hex up 4 v) = 4" "list_all is_hex (format_hex up 4 v)"
proof -
  have "nat v < 16 ^ 4" using assms by (auto simp: id_number_def)
  then have "length (hex_of_nat up (nat v)) \<le> 4" by (rule hex_of_nat_length) simp
  then show "length (format_hex up 4 v) = 4" using assms by (simp add: format_hex_def zero_fill_def id_number_def)
  show "list_all is_hex (format_hex up 4 v)" using assms by (simp add: format_hex_def zero_fill_hex id_number_def)
qed

lemma take_hex_four: "id_number v \<Longrightarrow> take_hex 4 (format_hex up 4 v @ r) = Some (format_hex up 4 v, r)"
  by (simp add: take_hex_def format_hex_four)

lemma drop_ci_same: "drop_ci lit (lit @ r) = Some r"
  by (simp add: drop_ci_def)

text \<open>The instance IDs Windows writes for a USB serial adapter, for one interface of a composite device,
  and for a port of FTDI's driver.\<close>

definition usb_instance_id :: "bool \<Rightarrow> int \<Rightarrow> int \<Rightarrow> string \<Rightarrow> string" where
  "usb_instance_id up v p segment =
     (''USB'' @ [BACKSLASH] @ ''VID_'') @ format_hex up 4 v @ ''&PID_'' @ format_hex up 4 p @ [BACKSLASH] @ segment"

definition composite_instance_id :: "bool \<Rightarrow> int \<Rightarrow> int \<Rightarrow> string \<Rightarrow> string" where
  "composite_instance_id up v p segment =
     (''USB'' @ [BACKSLASH] @ ''VID_'') @ format_hex up 4 v @ ''&PID_'' @ format_hex up 4 p @ ''&MI_00'' @ [BACKSLASH] @ segment"

definition ftdi_instance_id :: "bool \<Rightarrow> int \<Rightarrow> int \<Rightarrow> string \<Rightarrow> char \<Rightarrow> string" where
  "ftdi_instance_id up v p serial letter =
     (''FTDIBUS'' @ [BACKSLASH] @ ''VID_'') @ format_hex up 4 v @ ''+PID_'' @ format_hex up 4 p
       @ ''+'' @ serial @ [letter] @ [BACKSLASH] @ ''0000''"

lemma contains_char: "contains [x] s \<longleftrightarrow> x \<in> set s"
  by (induction s) (auto simp: starts_with_def)

lemma skip_interface_segment: "skip_interface (BACKSLASH # s) = BACKSLASH # s"
  by (simp add: skip_interface_def drop_ci_def upper_def upper_char_def BACKSLASH_def)

lemma skip_interface_mi: "skip_interface (''&MI_00'' @ s) = s"
  by (simp add: skip_interface_def drop_ci_def take_hex_def is_hex_def hex_value_def)

lemma segment_plain:
  "BACKSLASH \<notin> set s \<Longrightarrow> segment_after c (c # s) = nonempty s"
  "BACKSLASH \<notin> set s \<Longrightarrow> segment_after c (c # s @ BACKSLASH # r) = nonempty s"
  by (simp_all add: segment_after_def takeWhile_all takeWhile_upto)

lemma ftdi_is_not_usb: "usb_instance_match ((''FTDIBUS'' @ r)) = None"
  by (simp add: usb_instance_match_def drop_ci_def upper_def upper_char_def)

lemma instance_matches:
  assumes "id_number v" "id_number p" "s \<noteq> []" "BACKSLASH \<notin> set s"
  shows "usb_instance_match (usb_instance_id up v p s) = Some (format_hex up 4 v, format_hex up 4 p, Some s)"
    and "usb_instance_match (composite_instance_id up v p s) = Some (format_hex up 4 v, format_hex up 4 p, Some s)"
    and "letter \<noteq> BACKSLASH \<Longrightarrow> ftdi_instance_match (ftdi_instance_id up v p s letter) =
      Some (format_hex up 4 v, format_hex up 4 p, Some (s @ [letter]))"
proof -
  note parts = take_hex_four [OF assms(1)] take_hex_four [OF assms(2)] drop_ci_same
  have skip: "skip_interface ([BACKSLASH] @ s) = [BACKSLASH] @ s" by (simp add: skip_interface_segment)
  have seg: "segment_after BACKSLASH ([BACKSLASH] @ s) = Some s" using assms(3,4) by (simp add: segment_plain)
  show "usb_instance_match (usb_instance_id up v p s) = Some (format_hex up 4 v, format_hex up 4 p, Some s)"
    unfolding usb_instance_match_def usb_instance_id_def by (simp only: parts Option.bind.simps prod.case skip seg)
  show "usb_instance_match (composite_instance_id up v p s) = Some (format_hex up 4 v, format_hex up 4 p, Some s)"
    unfolding usb_instance_match_def composite_instance_id_def
    by (simp only: parts Option.bind.simps prod.case skip_interface_mi seg)
  assume "letter \<noteq> BACKSLASH"
  then have "BACKSLASH \<notin> set (s @ [letter])" using assms(4) by auto
  from segment_plain(2) [OF this, of "CHR ''+''" "''0000''"]
  have "segment_after (CHR ''+'') (''+'' @ s @ [letter] @ [BACKSLASH] @ ''0000'') = Some (s @ [letter])" by simp
  then show "ftdi_instance_match (ftdi_instance_id up v p s letter) =
      Some (format_hex up 4 v, format_hex up 4 p, Some (s @ [letter]))"
    unfolding ftdi_instance_match_def ftdi_instance_id_def
    by (simp only: parts Option.bind.simps prod.case)
qed

text \<open>Parsing the instance ID Windows writes for a device recovers its vendor and product numbers
  in either letter case; the last segment of a USB ID is the serial number, also behind an interface
  marker, unless it contains \<open>&\<close>, which means Windows made it up; from an FTDI ID the port letter is
  removed; and the hardware ID is not consulted.\<close>

theorem instance_id_roundtrip:
  assumes "id_number v" "id_number p" "s \<noteq> []" "BACKSLASH \<notin> set s"
    and "CHR ''A'' \<le> letter" "letter \<le> CHR ''Z''"
  shows "list_all (\<lambda>instance_id. parse_device_ids (Some instance_id) hw =
      (Some v, Some p, if CHR ''&'' \<in> set s then None else Some s))
    [usb_instance_id up v p s, composite_instance_id up v p s, ftdi_instance_id up v p s letter]"
proof -
  have letter: "letter \<noteq> BACKSLASH" "letter \<noteq> CHR ''&''"
    using assms(5,6) by (auto simp: BACKSLASH_def less_eq_char_def)
  have "usb_instance_match (ftdi_instance_id up v p s letter) = None"
    unfolding ftdi_instance_id_def by (simp add: usb_instance_match_def drop_ci_def upper_def upper_char_def)
  moreover have "contains ''&'' (s @ [letter]) \<longleftrightarrow> CHR ''&'' \<in> set s"
    using letter(2) by (simp add: contains_char)
  ultimately show ?thesis
    using assms letter(1)
    by (simp add: parse_device_ids_def parse_instance_id_def instance_matches usb_serial_number_def
        ftdi_serial_number_def contains_char del: py_int_format_hex) simp
qed

text \<open>The witness reads the three shapes for an FTDI chip, in lower case.\<close>

lemma instance_id_roundtrip_witness:
  "parse_device_ids (Some (ftdi_instance_id False 1027 24577 ''BG00VBZS'' (CHR ''A''))) None =
     (Some 1027, Some 24577, Some ''BG00VBZS'')"
  using instance_id_roundtrip [of 1027 24577 "''BG00VBZS''" "CHR ''A''" None False]
  by (simp add: id_number_def BACKSLASH_def less_eq_char_def)

subsection \<open>Lookup\<close>

lemma windows_canonical_idem [simp]: "windows_canonical (windows_canonical s) = windows_canonical s"
  by (simp add: windows_canonical_def canonical_port_name_def strip_device_prefixes_upper)

lemma find_exists: "p \<in> set ps \<Longrightarrow> P p \<Longrightarrow> \<exists>q. find P ps = Some q \<and> q \<in> set ps \<and> P q"
  by (induction ps) auto

lemma windows_lookup:
  "case windows_enumerate_ports api of
     Inl e \<Rightarrow> windows_resolve_port_info api path = Inl e
   | Inr ports \<Rightarrow> \<exists>r. windows_resolve_port_info api path = Inr r
       \<and> (\<forall>p\<in>set ports. windows_canonical (pi_device p) = windows_canonical path \<longrightarrow>
           (\<exists>q\<in>set ports. r = Some q \<and> windows_canonical (pi_device q) = windows_canonical path)
           \<and> (filter (\<lambda>q. windows_canonical (pi_device q) = windows_canonical path) ports = [p] \<longrightarrow> r = Some p))"
proof (cases "enumerate_setupapi api")
  case (Inl e)
  then show ?thesis by (simp add: windows_enumerate_ports_def windows_resolve_port_info_def Let_def)
next
  case (Inr found)
  define is_wanted :: "port_info \<Rightarrow> bool" where "is_wanted = (\<lambda>p. windows_canonical (pi_device p) = windows_canonical path)"
  define listed where "listed = (if found = [] then enumerate_registry_fallback api else found)"
  have e: "windows_enumerate_ports api = Inr (sort_key pi_device listed)"
    by (simp add: windows_enumerate_ports_def Inr listed_def)
  have r: "windows_resolve_port_info api path = Inr (case find is_wanted found of
      Some p \<Rightarrow> Some p | None \<Rightarrow> find is_wanted (enumerate_registry_fallback api))"
    by (simp add: windows_resolve_port_info_def Inr Let_def is_wanted_def split: option.split)
  let ?r = "case find is_wanted found of Some p \<Rightarrow> Some p | None \<Rightarrow> find is_wanted (enumerate_registry_fallback api)"
  have found: "\<exists>q\<in>set listed. ?r = Some q \<and> is_wanted q" if "p \<in> set listed" "is_wanted p" for p
    using that find_exists [of p listed is_wanted] by (auto simp: listed_def split: if_splits)
  have unique: "?r = Some p" if "filter is_wanted (sort_key pi_device listed) = [p]" for p
  proof -
    have "set (filter is_wanted listed) = {p}"
      using arg_cong [OF that, of set] by simp
    then have "p \<in> set listed" "is_wanted p" "\<And>q. q \<in> set listed \<Longrightarrow> is_wanted q \<Longrightarrow> q = p" by auto
    then show ?thesis using found [of p] by blast
  qed
  show ?thesis
    unfolding e r using found unique by (simp add: is_wanted_def)
qed

text \<open>Every spelling of a port that the Windows enumeration lists is resolved, to a listed port of
  the same canonical name, and to that very port if no other listed one has its name; resolving raises
  exactly when enumerating does.\<close>

theorem windows_lookup_agrees:
  "case windows_enumerate_ports api of
     Inl e \<Rightarrow> windows_resolve_port_info api path = Inl e
   | Inr ports \<Rightarrow> \<exists>r. windows_resolve_port_info api path = Inr r
       \<and> (\<forall>p\<in>set ports. windows_canonical (pi_device p) = windows_canonical path \<longrightarrow>
           (\<exists>q\<in>set ports. r = Some q \<and> windows_canonical (pi_device q) = windows_canonical path)
           \<and> (filter (\<lambda>q. windows_canonical (pi_device q) = windows_canonical path) ports = [p] \<longrightarrow> r = Some p))"
  by (rule windows_lookup)

definition demo_setup_api :: setup_api where
  "demo_setup_api = \<lparr>sa_load = Inr (), sa_dev_info = True,
     sa_interfaces = [\<lparr>ci_device_path = Some ''usb'', ci_property = (\<lambda>p. if p = SPDRP_FRIENDLYNAME
        then Some ''USB Serial Port (COM8)'' else None), ci_instance_id = None\<rparr>],
     sa_winreg = True, sa_open_key = True, sa_values = []\<rparr>"

definition demo_com_port :: port_info where
  "demo_com_port = (bare_port ''COM8'' (Some ''COM8''))
     \<lparr>pi_description := Some ''USB Serial Port (COM8)'', pi_product := Some ''USB Serial Port''\<rparr>"

lemma windows_lookup_agrees_witness:
  "windows_resolve_port_info demo_setup_api ''com8'' = Inr (Some demo_com_port)"
proof -
  have "windows_enumerate_ports demo_setup_api = Inr [demo_com_port]" by code_simp
  moreover have "windows_canonical (pi_device demo_com_port) = windows_canonical ''com8''" by code_simp
  ultimately show ?thesis using windows_lookup_agrees [of demo_setup_api "''com8''"] by auto
qed

end
