(* ===== verification/Stream_Spec.thy ===== *)
theory Stream_Spec
  imports Port_Claims
begin

section \<open>What a port is: a byte stream that can be closed\<close>

text \<open>
  The abstract specification of an open serial port: two growing byte sequences and a closed flag.
  Bytes are accepted and delivered only while it is open, closing is for ever. The port with its
  guards, locks, awaits, chunking and retries refines it: each step of any interleaving is one
  action of the specification, and the action is one the call that took the step may do.
\<close>

record byte_stream =
  bs_closed :: bool
  bs_sent :: bytes
  bs_received :: bytes

datatype action = Accept bytes | Deliver bytes | Shut | Idle

fun stream_do :: "action \<Rightarrow> byte_stream \<Rightarrow> byte_stream option" where
  "stream_do (Accept x) s = (if bs_closed s then None else Some (s\<lparr>bs_sent := bs_sent s @ x\<rparr>))"
| "stream_do (Deliver x) s = (if bs_closed s then None else Some (s\<lparr>bs_received := bs_received s @ x\<rparr>))"
| "stream_do Shut s = Some (s\<lparr>bs_closed := True\<rparr>)"
| "stream_do Idle s = Some s"

text \<open>The actions a step may be: only a woken call acts, according to its operation.\<close>

fun may :: "label \<Rightarrow> action \<Rightarrow> bool" where
  "may (Woken t w r) (Accept x) \<longleftrightarrow> w = W_ready \<and> (\<exists>d k fd n. t_op t = Op_send d \<and> t_pc t = At_send d k fd \<and> x = take n (drop k d))"
| "may (Woken t w r) (Deliver x) \<longleftrightarrow> w = W_ready \<and> is_read (t_op t) \<and> r \<in> {Inr (Return (V_bytes x)), Inr (Return (V_into x))}"
| "may (Woken t w r) Shut \<longleftrightarrow> w = W_ready \<and> t_op t = Op_aclose"
| "may l a \<longleftrightarrow> a = Idle"

definition stream_of :: "('b \<Rightarrow> bytes) \<Rightarrow> ('b \<Rightarrow> bytes) \<Rightarrow> 'b port \<Rightarrow> byte_stream" where
  "stream_of sent received p = \<lparr>bs_closed = p_closed p, bs_sent = sent (p_backend p), bs_received = received (p_backend p)\<rparr>"

lemma thrown_data:
  "resume vt pc (W_throw e) p = (r, p') \<Longrightarrow> pc \<noteq> At_break \<Longrightarrow> p_backend p' = p_backend p \<and> p_closed p' = p_closed p"
  by (cases pc) (auto simp: leave_recv_def leave_send_def io_raise_def)

lemma closed_data:
  "resume vt pc W_ready p = (r, p') \<Longrightarrow> p_closed p \<Longrightarrow> pc \<notin> {At_break, At_drain_exact, At_close} \<Longrightarrow> p_backend p' = p_backend p"
  by (cases pc) (auto simp: leave_recv_def leave_send_def closed_seq configure_body_def drain_poll_def)

context sync_backend_laws
begin

lemma send_step_grows: "wp (send_step vt d k fd)
    (\<lambda>_ p'. \<exists>n. sent (p_backend p') = sent (p_backend p) @ take n (drop k d))
    (\<lambda>_ p'. sent (p_backend p') = sent (p_backend p)) p"
  unfolding send_step_def attempt_def translating_def wp_bind wp_try wp_on_backend wp_return wp_if wp_raise wp_get
proof (rule wp_mono [OF write_law], goal_cases)
  case (1 n b')
  then have "sent b' = sent (p_backend p) @ take n (drop k d)" by simp
  then have "\<exists>j. sent b' = sent (p_backend p) @ take j (drop k d)" by blast
  then show ?case by (simp add: Let_def wp_simps)
next
  case (2 e b')
  then show ?case by (auto simp: Let_def wp_simps steady_def moves_nothing_def intro: exI [of _ 0])
qed

lemma send_turn_grows:
  assumes "resume vt (At_send d k fd) W_ready p = (r, p')" "\<not> p_closed p"
  shows "\<exists>n. sent (p_backend p') = sent (p_backend p) @ take n (drop k d)"
proof -
  from assms obtain p0 where run: "send_step vt d k fd p = (r, p0)" "p_backend p' = p_backend p0"
    by (auto simp: leave_send_def raise_if_closed_run split: prod.splits sum.splits progress.splits)
  from send_step_grows [of d k fd p] run show ?thesis
    by (auto simp: wp_def split: sum.splits intro: exI [of _ 0])
qed

lemma open_resume:
  assumes "resume vt pc w p = (r, p')" "pc \<noteq> At_close"
  shows "p_closed p' = p_closed p"
proof -
  have "keeps (alive vt good) (resume vt pc w)"
    by (rule alv.keeps_resume) (simp_all add: read_keeps write_keeps assms(2))
  from keeps_snd [OF this, of p] assms(1) show ?thesis by (simp add: alive_def)
qed

text \<open>The bytes a woken read delivers are those it returns.\<close>

lemma read_turn_delivers:
  assumes ok: "call_ok sent received p t" and rd: "receiving (t_pc t)" and run: "resume vt (t_pc t) w p = (r, p')"
  shows "is_read (t_op t) \<and>
    (received (p_backend p') = received (p_backend p)
     \<or> (\<exists>x. r \<in> {Inr (Return (V_bytes x)), Inr (Return (V_into x))} \<and> received (p_backend p') = received (p_backend p) @ x))"
proof -
  from ok rd have base: "received (p_backend p) = t_received t" and at': "call_at (t_op t) (t_pc t)"
    by (simp_all add: call_ok_def)
  from at' rd have "is_read (t_op t)" by (cases "t_pc t") (auto simp: is_read_def)
  moreover from read_outcome [OF at' this resumed [OF ok run]]
  have "received (p_backend p') = t_received t
    \<or> (\<exists>x v. r = Inr (Return v) \<and> read_reply (t_op t) (p_config p') x = Some v \<and> received (p_backend p') = t_received t @ x)"
    by (auto simp: read_result_def split: sum.splits progress.splits)
  moreover have "read_reply op c x = Some v \<Longrightarrow> v = V_bytes x \<or> v = V_into x" for op c x v
    by (cases "(op, c, x)" rule: read_reply.cases) (auto split: if_splits)
  ultimately show ?thesis using base by auto
qed

lemma woken_refines:
  assumes ok: "call_ok sent received p t" and life: "lifecycle_ok vt good p" and run: "resume vt (t_pc t) w p = (r, p')"
  shows "\<exists>a. may (Woken t w r) a \<and> stream_do a (stream_of sent received p) = Some (stream_of sent received p')"
proof -
  let ?pc = "t_pc t"
  have good: "good (p_backend p)" using life by (simp add: lifecycle_ok_def)
  note same = resume_same_data [OF good run]
  have idle: ?thesis if "p_closed p' = p_closed p" "sent (p_backend p') = sent (p_backend p)"
    "received (p_backend p') = received (p_backend p)"
    using that by (intro exI [of _ Idle]) (simp add: stream_of_def)
  from ok have at': "call_at (t_op t) ?pc" by (simp add: call_ok_def)
  consider (close) "?pc = At_close" | (send) d k fd where "?pc = At_send d k fd" | (read) "receiving ?pc"
    | (other) "?pc \<noteq> At_close" "\<And>d k fd. ?pc \<noteq> At_send d k fd" "\<not> receiving ?pc" by blast
  then show ?thesis
  proof cases
    case close
    have data: "sent (p_backend p') = sent (p_backend p)" "received (p_backend p') = received (p_backend p)"
      using same close by simp_all
    show ?thesis
    proof (cases w)
      case W_ready
      with run close have "close_body vt p = (r, p')" by simp
      with close_body_wp [OF good] have "p_closed p'" by (cases r) (auto simp: wp_def)
      with data close at' W_ready show ?thesis by (intro exI [of _ Shut]) (simp add: stream_of_def)
    next
      case (W_throw e)
      with run close show ?thesis by (intro idle) (simp_all add: io_raise_def)
    qed
  next
    case (send d k fd)
    have closed: "p_closed p' = p_closed p" by (rule open_resume [OF run]) (simp add: send)
    have rcv: "received (p_backend p') = received (p_backend p)" using same(2) send by simp
    show ?thesis
    proof (cases "w = W_ready \<and> \<not> p_closed p")
      case True
      with send_turn_grows run send obtain n where "sent (p_backend p') = sent (p_backend p) @ take n (drop k d)" by metis
      with closed rcv True send at' show ?thesis
        by (intro exI [of _ "Accept (take n (drop k d))"]) (auto simp: stream_of_def)
    next
      case False
      have "p_backend p' = p_backend p"
      proof (cases w)
        case W_ready
        with False run send show ?thesis by (intro closed_data [of vt ?pc p r p']) simp_all
      next
        case (W_throw e)
        from thrown_data [of vt ?pc e p r p'] run W_throw send show ?thesis by simp
      qed
      with closed show ?thesis by (intro idle) simp_all
    qed
  next
    case read
    then have ne: "?pc \<noteq> At_close" "?pc \<noteq> At_break" "?pc \<notin> {At_break, At_drain_exact, At_close}"
      "\<And>d k fd. ?pc \<noteq> At_send d k fd" by auto
    have closed: "p_closed p' = p_closed p" by (rule open_resume [OF run ne(1)])
    have snt: "sent (p_backend p') = sent (p_backend p)" using same(1) ne(4) by blast
    show ?thesis
    proof (cases "w = W_ready \<and> \<not> p_closed p")
      case True
      from read_turn_delivers [OF ok read run] show ?thesis
      proof (elim conjE disjE exE)
        assume "received (p_backend p') = received (p_backend p)"
        with closed snt show ?thesis by (rule idle)
      next
        fix x assume "is_read (t_op t)" "r \<in> {Inr (Return (V_bytes x)), Inr (Return (V_into x))}"
          "received (p_backend p') = received (p_backend p) @ x"
        with closed snt True show ?thesis by (intro exI [of _ "Deliver x"]) (simp add: stream_of_def)
      qed
    next
      case False
      have "p_backend p' = p_backend p"
      proof (cases w)
        case W_ready
        with False run show ?thesis by (intro closed_data [OF _ _ ne(3), of vt p r p']) simp_all
      next
        case (W_throw e)
        from thrown_data [of vt ?pc e p r p'] run W_throw ne(2) show ?thesis by simp
      qed
      with closed show ?thesis by (intro idle) simp_all
    qed
  next
    case other
    then show ?thesis by (intro idle open_resume [OF run] same)
  qed
qed

lemma port_refines:
  assumes "port_reachable vt sent received good s" "port_step vt sent received good s l s'"
  shows "\<exists>a. may l a \<and> stream_do a (stream_of sent received (fst s)) = Some (stream_of sent received (fst s'))"
  using assms(2)
proof cases
  case (call op p r p' ts)
  have "p_closed p' = p_closed p"
    using keeps_snd [OF alv.keeps_start, of p op] call(4) by (simp add: alive_def)
  with start_same_data [OF call(4)] call show ?thesis by (intro exI [of _ Idle]) (simp add: stream_of_def)
next
  case (wake t w p r p' ts us)
  have "call_ok sent received p t" "lifecycle_ok vt good p"
    using calls_reachable [OF assms(1)] lifecycle_reachable [OF assms(1)] wake by simp_all
  from woken_refines [OF this wake(4)] wake show ?thesis by simp
next
  case (background p b ts)
  then show ?thesis by (intro exI [of _ Idle]) (simp add: stream_of_def steady_def moves_nothing_def)
qed

end

text \<open>C3: The port over the Linux backend refines the byte stream: an opened port is an open stream, and
  each step of any interleaving is one action of the specification. Only a woken \<open>send\<close> of an open port
  accepts bytes, a piece of its data; only a woken read of an open port delivers bytes, those it
  returns; only \<open>aclose\<close> shuts it; everything else, background activity included, changes nothing.\<close>

theorem linux_port_refines:
  assumes "linux_reachable m s" and "linux_port_step m s l s'"
  shows "\<exists>a. may l a \<and> stream_do a (stream_of log_sent log_received (fst s)) = Some (stream_of log_sent log_received (fst s'))"
  by (rule linux.port_refines [OF assms])

lemma linux_port_refines_witness:
  "\<exists>p p' :: linux_backend port. \<exists>x. linux_reachable linux_termios (p, [demo_call (Op_send [1, 2, 3]) (At_send [1, 2, 3] 0 3)])
     \<and> resume (linux_vt linux_termios) (At_send [1, 2, 3] 0 3) W_ready p = (Inr (Return V_unit), p')
     \<and> stream_do x (stream_of log_sent log_received p) = Some (stream_of log_sent log_received p')"
proof -
  obtain p p' where run: "start (linux_vt linux_termios) (Op_send [1, 2, 3]) demo_port
      = (Inr (Park (At_send [1, 2, 3] 0 3) (A_writable 3)), p)"
    "resume (linux_vt linux_termios) (At_send [1, 2, 3] 0 3) W_ready p = (Inr (Return V_unit), p')"
    using demo_send by blast
  note * = demo_parked [OF run(1)] demo_woken [OF run(2), of "Op_send [1, 2, 3]"]
  from linux_port_refines [OF *] run(2) *(1) show ?thesis by (auto simp del: resume.simps)
qed

end
