(* ===== verification/Sync_Portal.thy ===== *)
theory Sync_Portal
  imports Config
begin

section \<open>The shared portal of the blocking API (\<open>sync.py\<close>)\<close>

text \<open>
  Every blocking port of a process shares one event-loop thread through AnyIO's
  \<open>BlockingPortalProvider\<close>, which counts its users. The model has the module's globals, the count of
  each provider object, the blocking ports, and the \<open>open\<close> and \<open>close\<close> calls in progress on other
  threads. Atomic are the functions under \<open>_CONFIG_LOCK\<close>, the provider's own operations, and each single
  read or write of an attribute: \<open>close\<close> and \<open>_release_portal\<close> take no lock, so another thread may run
  between their checks, their assignments and the release. Both \<open>SerialPort.open\<close> and \<open>close\<close> are given
  as one function and as the steps of a transition system in which threads interleave. The provider is
  third-party: entering one adds a user, leaving one that has users removes one, starting can fail only
  while there is no user, and a provider whose start failed never starts. What leaving a provider
  without users does is not relied on: the system has no such step.
\<close>

type_synonym portal_options = "(string \<times> string) list"

record sync_port =
  sp_provider :: nat
  sp_portal_entered :: bool
  sp_closed :: bool

datatype open_phase = Got nat | Start_failed nat | Entered nat

text \<open>
  A \<open>close\<close> in progress: past the check of \<open>_closed\<close>; past setting it (the asynchronous port is being
  closed); past the check of \<open>_portal_entered\<close>; past clearing it, about to leave the provider.
\<close>

datatype close_phase = Checked | Marked | Seen | Cleared

record portal_state =
  ps_provider :: "nat option"
  ps_provider_backend :: string
  ps_provider_options :: portal_options
  ps_fresh :: nat
  ps_built :: "nat \<Rightarrow> (string \<times> portal_options option) option"
  ps_users :: "nat \<Rightarrow> int"
  ps_dead :: "nat set"
  ps_opens :: "open_phase list"
  ps_closes :: "(nat \<times> close_phase) list"
  ps_ports :: "sync_port list"

type_synonym 'a sync_io = "(portal_state, exn, 'a) io"

definition portal_init :: portal_state where
  "portal_init = \<lparr>ps_provider = None, ps_provider_backend = ''asyncio'', ps_provider_options = [],
     ps_fresh = 0, ps_built = (\<lambda>_. None), ps_users = (\<lambda>_. 0), ps_dead = {}, ps_opens = [], ps_closes = [], ps_ports = []\<rparr>"

subsection \<open>The module's functions\<close>

definition configure_portal :: "string \<Rightarrow> portal_options option \<Rightarrow> unit sync_io" where
  "configure_portal backend options =
     io_bind (io_get ps_provider) (\<lambda>p.
       if p \<noteq> None then io_raise (exn_msg RuntimeError)
       else io_modify (\<lambda>s. s\<lparr>ps_provider_backend := backend,
              ps_provider_options := (case options of None \<Rightarrow> [] | Some os \<Rightarrow> os)\<rparr>))"

text \<open>Constructing a provider records what it was constructed with; \<open>options or None\<close>.\<close>

definition new_provider :: "portal_state \<Rightarrow> portal_state" where
  "new_provider s = s\<lparr>ps_provider := Some (ps_fresh s), ps_fresh := Suc (ps_fresh s),
     ps_built := (ps_built s)(ps_fresh s \<mapsto> (ps_provider_backend s,
       if ps_provider_options s = [] then None else Some (ps_provider_options s)))\<rparr>"

definition get_provider :: "nat sync_io" where
  "get_provider =
     io_seq (io_bind (io_get ps_provider) (\<lambda>p. io_when (p = None) (io_modify new_provider)))
       (io_get (\<lambda>s. the (ps_provider s)))"

definition discard_provider :: "nat \<Rightarrow> unit sync_io" where
  "discard_provider provider =
     io_bind (io_get ps_provider) (\<lambda>p.
       io_when (p = Some provider) (io_modify (\<lambda>s. s\<lparr>ps_provider := None\<rparr>)))"

text \<open>AnyIO's provider: its users are counted, and an outcome \<open>r\<close> of the start is given.\<close>

definition provider_enter :: "nat \<Rightarrow> exn + unit \<Rightarrow> unit sync_io" where
  "provider_enter p r =
     (case r of
        Inl e \<Rightarrow> io_seq (io_modify (\<lambda>s. s\<lparr>ps_dead := insert p (ps_dead s)\<rparr>)) (io_raise e)
      | Inr _ \<Rightarrow> io_modify (\<lambda>s. s\<lparr>ps_users := (ps_users s)(p := ps_users s p + 1)\<rparr>))"

definition provider_exit :: "nat \<Rightarrow> unit sync_io" where
  "provider_exit p = io_modify (\<lambda>s. s\<lparr>ps_users := (ps_users s)(p := ps_users s p - 1)\<rparr>)"

text \<open>
  \<open>SerialPort.open\<close>, run by one thread alone. The arguments tell whether both a configuration and
  fields were given, what constructing the configuration does, how entering the provider ends and how
  the call of the asynchronous \<open>open_serial_port\<close> on the portal ends.
\<close>

definition sync_port_init :: "nat \<Rightarrow> sync_port" where
  "sync_port_init p = \<lparr>sp_provider = p, sp_portal_entered = True, sp_closed = False\<rparr>"

definition sync_open :: "bool \<Rightarrow> exn + serial_config \<Rightarrow> exn + unit \<Rightarrow> exn + unit \<Rightarrow> sync_port sync_io" where
  "sync_open both_given config started called =
     (if both_given then io_raise (exn_msg ValueError)
      else io_bind (io_lift config) (\<lambda>cfg.
        io_bind get_provider (\<lambda>p.
        io_seq (io_on_error (provider_enter p started) (discard_provider p))
          (io_seq (io_on_error (io_lift called) (provider_exit p))
            (io_return (sync_port_init p))))))"

definition update_port :: "nat \<Rightarrow> (sync_port \<Rightarrow> sync_port) \<Rightarrow> unit sync_io" where
  "update_port i f = io_modify (\<lambda>s. s\<lparr>ps_ports := (ps_ports s)[i := f (ps_ports s ! i)]\<rparr>)"

text \<open>The pieces of \<open>_release_portal\<close>: the check, the assignment, leaving the provider.\<close>

definition release_check :: "nat \<Rightarrow> bool sync_io" where
  "release_check i = io_get (\<lambda>s. sp_portal_entered (ps_ports s ! i))"

definition release_clear :: "nat \<Rightarrow> unit sync_io" where
  "release_clear i = update_port i (\<lambda>q. q\<lparr>sp_portal_entered := False\<rparr>)"

definition release_exit :: "nat \<Rightarrow> unit sync_io" where
  "release_exit i =
     io_bind (io_get (\<lambda>s. sp_provider (ps_ports s ! i))) (\<lambda>p.
       io_suppress (\<lambda>e. isinstance e Exception) (provider_exit p))"

definition release_portal :: "nat \<Rightarrow> unit sync_io" where
  "release_portal i =
     io_bind (release_check i) (\<lambda>entered.
       if \<not> entered then io_return ()
       else io_seq (release_clear i) (release_exit i))"

text \<open>\<open>self._closed = True\<close>.\<close>

definition mark_closed :: "nat \<Rightarrow> unit sync_io" where
  "mark_closed i = update_port i (\<lambda>q. q\<lparr>sp_closed := True\<rparr>)"

text \<open>\<open>close\<close>: what happens on the portal meanwhile, and its outcome, is the argument \<open>run\<close>.\<close>

definition sync_close :: "nat \<Rightarrow> unit sync_io \<Rightarrow> unit sync_io" where
  "sync_close i run =
     io_bind (io_get (\<lambda>s. ps_ports s ! i)) (\<lambda>port.
       if sp_closed port then io_return ()
       else io_seq (mark_closed i) (io_finally run (release_portal i)))"

subsection \<open>Threads\<close>

datatype portal_label =
    L_configure "exn + unit" | L_get | L_enter | L_start_failed | L_discard | L_opened | L_open_failed
  | L_close nat | L_mark nat | L_seen nat | L_left nat | L_clear nat | L_exit nat

text \<open>The pieces of \<open>open\<close>, and \<open>configure_portal\<close>.\<close>

inductive open_step :: "portal_state \<Rightarrow> portal_label \<Rightarrow> portal_state \<Rightarrow> bool" where
  step_configure: "configure_portal backend options s = (r, s') \<Longrightarrow> open_step s (L_configure r) s'"
| step_get: "get_provider s = (Inr p, s') \<Longrightarrow>
    open_step s L_get (s'\<lparr>ps_opens := ps_opens s' @ [Got p]\<rparr>)"
| step_enter: "ps_opens s = xs @ Got p # ys \<Longrightarrow> p \<notin> ps_dead s \<Longrightarrow>
    provider_enter p (Inr ()) s = (Inr (), s') \<Longrightarrow>
    open_step s L_enter (s'\<lparr>ps_opens := xs @ Entered p # ys\<rparr>)"
| step_start_failed: "ps_opens s = xs @ Got p # ys \<Longrightarrow> ps_users s p = 0 \<Longrightarrow>
    provider_enter p (Inl e) s = (Inl e, s') \<Longrightarrow>
    open_step s L_start_failed (s'\<lparr>ps_opens := xs @ Start_failed p # ys\<rparr>)"
| step_discard: "ps_opens s = xs @ Start_failed p # ys \<Longrightarrow> discard_provider p s = (Inr (), s') \<Longrightarrow>
    open_step s L_discard (s'\<lparr>ps_opens := xs @ ys\<rparr>)"
| step_opened: "ps_opens s = xs @ Entered p # ys \<Longrightarrow>
    open_step s L_opened (s\<lparr>ps_opens := xs @ ys, ps_ports := ps_ports s @ [sync_port_init p]\<rparr>)"
| step_open_failed: "ps_opens s = xs @ Entered p # ys \<Longrightarrow> provider_exit p s = (Inr (), s') \<Longrightarrow>
    open_step s L_open_failed (s'\<lparr>ps_opens := xs @ ys\<rparr>)"

text \<open>
  The pieces of \<open>close\<close>. \<open>overlap\<close> tells whether several threads may be inside \<open>close\<close> of one port at
  once; closes of different ports interleave freely in either case.
\<close>

inductive close_step :: "bool \<Rightarrow> portal_state \<Rightarrow> portal_label \<Rightarrow> portal_state \<Rightarrow> bool" for overlap where
  step_close: "i < length (ps_ports s) \<Longrightarrow> \<not> sp_closed (ps_ports s ! i) \<Longrightarrow>
    overlap \<or> list_all (\<lambda>c. fst c \<noteq> i) (ps_closes s) \<Longrightarrow>
    close_step overlap s (L_close i) (s\<lparr>ps_closes := ps_closes s @ [(i, Checked)]\<rparr>)"
| step_mark: "ps_closes s = xs @ (i, Checked) # ys \<Longrightarrow> mark_closed i s = (Inr (), s') \<Longrightarrow>
    close_step overlap s (L_mark i) (s'\<lparr>ps_closes := xs @ (i, Marked) # ys\<rparr>)"
| step_seen: "ps_closes s = xs @ (i, Marked) # ys \<Longrightarrow> release_check i s = (Inr True, s') \<Longrightarrow>
    close_step overlap s (L_seen i) (s'\<lparr>ps_closes := xs @ (i, Seen) # ys\<rparr>)"
| step_left: "ps_closes s = xs @ (i, Marked) # ys \<Longrightarrow> release_check i s = (Inr False, s') \<Longrightarrow>
    close_step overlap s (L_left i) (s'\<lparr>ps_closes := xs @ ys\<rparr>)"
| step_clear: "ps_closes s = xs @ (i, Seen) # ys \<Longrightarrow> release_clear i s = (Inr (), s') \<Longrightarrow>
    close_step overlap s (L_clear i) (s'\<lparr>ps_closes := xs @ (i, Cleared) # ys\<rparr>)"
| step_exit: "ps_closes s = xs @ (i, Cleared) # ys \<Longrightarrow> 0 < ps_users s (sp_provider (ps_ports s ! i)) \<Longrightarrow>
    release_exit i s = (Inr (), s') \<Longrightarrow>
    close_step overlap s (L_exit i) (s'\<lparr>ps_closes := xs @ ys\<rparr>)"

definition portal_step :: "bool \<Rightarrow> portal_state \<Rightarrow> portal_label \<Rightarrow> portal_state \<Rightarrow> bool" where
  "portal_step overlap s l s' \<longleftrightarrow> open_step s l s' \<or> close_step overlap s l s'"

lemma portal_stepI: "open_step s l s' \<Longrightarrow> portal_step overlap s l s'" "close_step overlap s l s' \<Longrightarrow> portal_step overlap s l s'"
  by (simp_all add: portal_step_def)

inductive portal_reachable :: "bool \<Rightarrow> portal_state \<Rightarrow> bool" for overlap where
  reach_init: "portal_reachable overlap portal_init"
| reach_step: "portal_reachable overlap s \<Longrightarrow> portal_step overlap s l s' \<Longrightarrow> portal_reachable overlap s'"

subsection \<open>Users and holders\<close>

definition phase_holds :: "nat \<Rightarrow> open_phase \<Rightarrow> bool" where
  "phase_holds p ph \<longleftrightarrow> ph = Entered p"

definition port_holds :: "nat \<Rightarrow> sync_port \<Rightarrow> bool" where
  "port_holds p q \<longleftrightarrow> sp_portal_entered q \<and> sp_provider q = p"

text \<open>A \<open>close\<close> that has cleared the flag of its port and not yet left the port's provider.\<close>

definition leaving :: "nat \<Rightarrow> sync_port list \<Rightarrow> nat \<times> close_phase \<Rightarrow> bool" where
  "leaving p ports c \<longleftrightarrow> snd c = Cleared \<and> sp_provider (ports ! fst c) = p"

definition holders :: "nat \<Rightarrow> portal_state \<Rightarrow> nat" where
  "holders p s = length (filter (phase_holds p) (ps_opens s)) + length (filter (port_holds p) (ps_ports s))
     + length (filter (leaving p (ps_ports s)) (ps_closes s))"

text \<open>The flags of a port, by the phase of the one \<open>close\<close> of it that is in progress, if any.\<close>

fun flags_ok :: "close_phase option \<Rightarrow> sync_port \<Rightarrow> bool" where
  "flags_ok None q \<longleftrightarrow> sp_portal_entered q \<noteq> sp_closed q"
| "flags_ok (Some Checked) q \<longleftrightarrow> \<not> sp_closed q \<and> sp_portal_entered q"
| "flags_ok (Some Cleared) q \<longleftrightarrow> sp_closed q \<and> \<not> sp_portal_entered q"
| "flags_ok (Some _) q \<longleftrightarrow> sp_closed q \<and> sp_portal_entered q"

definition closes_ok :: "portal_state \<Rightarrow> bool" where
  "closes_ok s \<longleftrightarrow> distinct (map fst (ps_closes s)) \<and> list_all (\<lambda>c. fst c < length (ps_ports s)) (ps_closes s)
     \<and> (\<forall>i < length (ps_ports s). flags_ok (map_of (ps_closes s) i) (ps_ports s ! i))"

definition users_exact :: "portal_state \<Rightarrow> bool" where
  "users_exact s \<longleftrightarrow> (\<forall>p. ps_users s p = int (holders p s)) \<and> closes_ok s"

fun phase_ok :: "nat option \<Rightarrow> nat set \<Rightarrow> open_phase \<Rightarrow> bool" where
  "phase_ok cached dead (Got p) \<longleftrightarrow> cached = Some p \<or> p \<in> dead"
| "phase_ok cached dead (Start_failed p) \<longleftrightarrow> p \<in> dead"
| "phase_ok cached dead (Entered p) \<longleftrightarrow> True"

text \<open>A dead provider has no holder; a holder's provider is the cached one,
  which was built with the configuration in force.\<close>

definition one_portal :: "portal_state \<Rightarrow> bool" where
  "one_portal s \<longleftrightarrow>
     (\<forall>p. 0 < holders p s \<longrightarrow> ps_provider s = Some p \<and> p \<notin> ps_dead s)
     \<and> list_all (phase_ok (ps_provider s) (ps_dead s)) (ps_opens s)
     \<and> (\<forall>p. ps_provider s = Some p \<longrightarrow> p < ps_fresh s \<and> ps_built s p = Some (ps_provider_backend s,
          if ps_provider_options s = [] then None else Some (ps_provider_options s)))
     \<and> (\<forall>p\<in>ps_dead s. p < ps_fresh s)"

lemma count_update:
  "i < length xs \<Longrightarrow>
     length (filter P (xs[i := y])) + of_bool (P (xs ! i)) = length (filter P xs) + of_bool (P y)"
proof (induction xs arbitrary: i)
  case (Cons x xs)
  then show ?case by (cases i) (auto split: if_splits)
qed simp

lemma portal_runs:
  "provider_enter p (Inr ()) s = (Inr (), s\<lparr>ps_users := (ps_users s)(p := ps_users s p + 1)\<rparr>)"
  "provider_enter p (Inl e) s = (Inl e, s\<lparr>ps_dead := insert p (ps_dead s)\<rparr>)"
  "provider_exit p s = (Inr (), s\<lparr>ps_users := (ps_users s)(p := ps_users s p - 1)\<rparr>)"
  "discard_provider p s = (Inr (), if ps_provider s = Some p then s\<lparr>ps_provider := None\<rparr> else s)"
  "get_provider s = (Inr (the (ps_provider (if ps_provider s = None then new_provider s else s))),
     if ps_provider s = None then new_provider s else s)"
  "update_port i f s = (Inr (), s\<lparr>ps_ports := (ps_ports s)[i := f (ps_ports s ! i)]\<rparr>)"
  by (simp_all add: provider_enter_def provider_exit_def discard_provider_def get_provider_def update_port_def
      io_ctl_defs)

lemma close_runs:
  "mark_closed i s = (Inr (), s\<lparr>ps_ports := (ps_ports s)[i := (ps_ports s ! i)\<lparr>sp_closed := True\<rparr>]\<rparr>)"
  "release_check i s = (Inr (sp_portal_entered (ps_ports s ! i)), s)"
  "release_clear i s = (Inr (), s\<lparr>ps_ports := (ps_ports s)[i := (ps_ports s ! i)\<lparr>sp_portal_entered := False\<rparr>]\<rparr>)"
  "release_exit i s = (Inr (), s\<lparr>ps_users :=
     (ps_users s)(sp_provider (ps_ports s ! i) := ps_users s (sp_provider (ps_ports s ! i)) - 1)\<rparr>)"
  by (simp_all add: mark_closed_def release_check_def release_clear_def release_exit_def portal_runs io_ctl_defs)

lemma release_portal_run:
  "release_portal i s = (Inr (),
     if sp_portal_entered (ps_ports s ! i)
     then s\<lparr>ps_ports := (ps_ports s)[i := (ps_ports s ! i)\<lparr>sp_portal_entered := False\<rparr>],
        ps_users := (ps_users s)(sp_provider (ps_ports s ! i) := ps_users s (sp_provider (ps_ports s ! i)) - 1)\<rparr>
     else s)"
proof -
  have "sp_provider ((ps_ports s)[i := (ps_ports s ! i)\<lparr>sp_portal_entered := False\<rparr>] ! i) = sp_provider (ps_ports s ! i)"
    by (cases "i < length (ps_ports s)") (simp_all add: list_update_beyond not_less)
  then show ?thesis by (simp add: release_portal_def io_bind_def io_seq_def io_return_def close_runs)
qed

lemma configure_portal_run:
  "configure_portal backend options s =
     (if ps_provider s \<noteq> None then (Inl (exn_msg RuntimeError), s)
      else (Inr (), s\<lparr>ps_provider_backend := backend,
        ps_provider_options := (case options of None \<Rightarrow> [] | Some os \<Rightarrow> os)\<rparr>))"
  by (simp add: configure_portal_def io_ctl_defs)

lemma holds_simps [simp]:
  "phase_holds p (Got q) = False" "phase_holds p (Start_failed q) = False" "phase_holds p (Entered q) = (q = p)"
  "port_holds p (sync_port_init q) = (q = p)"
  by (auto simp: phase_holds_def port_holds_def sync_port_init_def)

lemma leaving_simps [simp]:
  "\<not> leaving p ports (i, Checked)" "\<not> leaving p ports (i, Marked)" "\<not> leaving p ports (i, Seen)"
  "leaving p ports (i, Cleared) \<longleftrightarrow> sp_provider (ports ! i) = p"
  by (simp_all add: leaving_def)

text \<open>Only the provider of a port matters to a \<open>close\<close> of it, and it never changes.\<close>

lemma leaving_frame:
  assumes "list_all (\<lambda>c. fst c < length ports) cs"
    and "\<And>j. j < length ports \<Longrightarrow> sp_provider (ports' ! j) = sp_provider (ports ! j)"
  shows "filter (leaving p ports') cs = filter (leaving p ports) cs"
  by (rule filter_cong) (use assms in \<open>auto simp: leaving_def list_all_iff\<close>)

lemma provider_update:
  "sp_provider y = sp_provider (ports ! i) \<Longrightarrow> j < length ports \<Longrightarrow> sp_provider (ports[i := y] ! j) = sp_provider (ports ! j)"
  by (cases "i = j") simp_all

lemma holders_frame:
  assumes "ps_opens s' = ps_opens s" "ps_ports s' = ps_ports s" "ps_closes s' = ps_closes s"
  shows "holders p s' = holders p s" "closes_ok s' = closes_ok s"
  using assms by (simp_all add: holders_def closes_ok_def)

subsection \<open>A step of a close\<close>

text \<open>The phase and the flags of a port change together.\<close>

lemma closes_ok_phase:
  assumes "closes_ok s" "ps_closes s = xs @ (i, ph) # ys"
    and "ps_closes s' = xs @ (i, ph') # ys" "ps_ports s' = (ps_ports s)[i := q]" "flags_ok (Some ph') q"
  shows "closes_ok s'"
proof -
  have i: "i < length (ps_ports s)" and d: "i \<notin> fst ` set xs" "i \<notin> fst ` set ys"
    using assms(1,2) by (auto simp: closes_ok_def)
  have "map_of (ps_closes s') = (map_of (ps_closes s))(i \<mapsto> ph')"
  proof
    fix j
    have "map_of xs i = None" using d(1) by (simp add: map_of_eq_None_iff)
    then show "map_of (ps_closes s') j = ((map_of (ps_closes s))(i \<mapsto> ph')) j"
      using assms(2,3) by (auto simp: map_add_def split: option.splits)
  qed
  then have "flags_ok (map_of (ps_closes s') j) (ps_ports s' ! j)" if "j < length (ps_ports s')" for j
    using assms i that by (cases "j = i") (auto simp: closes_ok_def)
  moreover have "distinct (map fst (ps_closes s'))" "list_all (\<lambda>c. fst c < length (ps_ports s')) (ps_closes s')"
    using assms by (auto simp: closes_ok_def)
  ultimately show ?thesis by (simp add: closes_ok_def)
qed

text \<open>A \<open>close\<close> ends; its port is closed and released.\<close>

lemma closes_ok_done:
  assumes "closes_ok s" "ps_closes s = xs @ (i, ph) # ys"
    and "ps_closes s' = xs @ ys" "ps_ports s' = ps_ports s" "flags_ok None (ps_ports s ! i)"
  shows "closes_ok s'"
proof -
  have d: "i \<notin> fst ` set xs" "i \<notin> fst ` set ys" using assms(1,2) by (auto simp: closes_ok_def)
  have "map_of xs i = None" "map_of ys i = None" using d by (simp_all add: map_of_eq_None_iff)
  then have "map_of (ps_closes s') j = (if j = i then None else map_of (ps_closes s) j)" for j
    using assms(2,3) by (simp add: map_add_def split: option.splits)
  then have "flags_ok (map_of (ps_closes s') j) (ps_ports s' ! j)" if "j < length (ps_ports s')" for j
    using assms that by (cases "j = i") (auto simp: closes_ok_def)
  moreover have "distinct (map fst (ps_closes s'))" "list_all (\<lambda>c. fst c < length (ps_ports s')) (ps_closes s')"
    using assms by (auto simp: closes_ok_def)
  ultimately show ?thesis by (simp add: closes_ok_def)
qed

lemma closes_ok_current:
  assumes "closes_ok s" "ps_closes s = xs @ (i, ph) # ys"
  shows "i < length (ps_ports s)" "flags_ok (Some ph) (ps_ports s ! i)"
    "list_all (\<lambda>c. fst c < length (ps_ports s)) (xs @ ys)"
proof -
  show i: "i < length (ps_ports s)" using assms by (auto simp: closes_ok_def)
  have "i \<notin> fst ` set xs" using assms by (auto simp: closes_ok_def)
  then have "map_of (ps_closes s) i = Some ph" using assms(2) by (simp add: map_add_def map_of_eq_None_iff [THEN iffD2])
  with assms(1) i show "flags_ok (Some ph) (ps_ports s ! i)" by (auto simp: closes_ok_def)
  show "list_all (\<lambda>c. fst c < length (ps_ports s)) (xs @ ys)" using assms by (auto simp: closes_ok_def)
qed

text \<open>How such a step moves the holders.\<close>

lemma holders_phase:
  assumes "closes_ok s" "ps_closes s = xs @ (i, ph) # ys" "ps_opens s' = ps_opens s"
    and "ps_closes s' = xs @ (i, ph') # ys" "ps_ports s' = (ps_ports s)[i := q]"
    and "sp_provider q = sp_provider (ps_ports s ! i)"
  shows "holders p s' + of_bool (port_holds p (ps_ports s ! i)) + of_bool (leaving p (ps_ports s) (i, ph))
    = holders p s + of_bool (port_holds p q) + of_bool (leaving p (ps_ports s) (i, ph'))"
proof -
  note c = closes_ok_current [OF assms(1,2)]
  have "filter (leaving p (ps_ports s')) (xs @ ys) = filter (leaving p (ps_ports s)) (xs @ ys)"
    using c(3) by (rule leaving_frame) (simp add: assms(5,6) provider_update)
  then have f: "length (filter (leaving p (ps_ports s')) xs) + length (filter (leaving p (ps_ports s')) ys)
      = length (filter (leaving p (ps_ports s)) xs) + length (filter (leaving p (ps_ports s)) ys)"
    by (metis filter_append length_append)
  have "leaving p (ps_ports s') (i, ph') = leaving p (ps_ports s) (i, ph')"
    using c(1) assms(5,6) by (simp add: leaving_def)
  with f count_update [OF c(1), of "port_holds p" q] assms(2-5) show ?thesis by (simp add: holders_def)
qed

lemma holders_done:
  assumes "ps_closes s = xs @ (i, ph) # ys" "ps_opens s' = ps_opens s" "ps_closes s' = xs @ ys" "ps_ports s' = ps_ports s"
  shows "holders p s = holders p s' + of_bool (leaving p (ps_ports s) (i, ph))"
  using assms by (simp add: holders_def)

lemma holders_started:
  "ps_opens s' = ps_opens s \<Longrightarrow> ps_closes s' = ps_closes s @ [(i, Checked)] \<Longrightarrow> ps_ports s' = ps_ports s \<Longrightarrow>
     holders p s' = holders p s"
  by (simp add: holders_def)

lemma closes_ok_started:
  assumes "closes_ok s" "ps_closes s' = ps_closes s @ [(i, Checked)]" "ps_ports s' = ps_ports s"
    and "i < length (ps_ports s)" "\<not> sp_closed (ps_ports s ! i)" "list_all (\<lambda>c. fst c \<noteq> i) (ps_closes s)"
  shows "closes_ok s'"
proof -
  have i: "i \<notin> fst ` set (ps_closes s)" using assms(6) by (auto simp: list_all_iff)
  then have none: "map_of (ps_closes s) i = None" by (simp add: map_of_eq_None_iff)
  have "flags_ok None (ps_ports s ! i)" using assms(1,4) none by (metis closes_ok_def)
  then have "flags_ok (map_of (ps_closes s') j) (ps_ports s' ! j)" if "j < length (ps_ports s')" for j
    using assms none that by (cases "j = i") (auto simp: closes_ok_def map_add_def split: option.splits)
  moreover have "distinct (map fst (ps_closes s'))" "list_all (\<lambda>c. fst c < length (ps_ports s')) (ps_closes s')"
    using assms i by (auto simp: closes_ok_def)
  ultimately show ?thesis by (simp add: closes_ok_def)
qed

text \<open>A new port, open and not being closed.\<close>

lemma opened_port:
  assumes "closes_ok s" "ps_opens s = xs @ Entered p # ys"
    and "ps_opens s' = xs @ ys" "ps_ports s' = ps_ports s @ [sync_port_init p]" "ps_closes s' = ps_closes s"
  shows "closes_ok s'" "holders q s' = holders q s"
proof -
  have b: "list_all (\<lambda>c. fst c < length (ps_ports s)) (ps_closes s)" using assms(1) by (simp add: closes_ok_def)
  have new: "map_of (ps_closes s) (length (ps_ports s)) = None"
    using b by (auto simp: map_of_eq_None_iff list_all_iff)
  then show "closes_ok s'"
    using assms(1,4,5) by (auto simp: closes_ok_def nth_append less_Suc_eq list_all_iff sync_port_init_def)
  have "filter (leaving q (ps_ports s')) (ps_closes s) = filter (leaving q (ps_ports s)) (ps_closes s)"
    using b by (rule leaving_frame) (simp add: assms(4) nth_append)
  with assms(2-5) show "holders q s' = holders q s" by (simp add: holders_def)
qed

subsection \<open>The invariants\<close>

lemma users_exact_step_open:
  assumes "open_step s l s'" "users_exact s"
  shows "users_exact s'"
  using assms
proof (induction rule: open_step.induct)
  case (step_configure backend options s r s')
  then show ?case using holders_frame [of s' s] by (auto simp: configure_portal_run users_exact_def split: if_splits)
next
  case (step_get s p s')
  then show ?case by (auto simp: portal_runs users_exact_def holders_def closes_ok_def new_provider_def split: if_splits)
next
  case (step_enter s xs p ys s')
  then show ?case by (auto simp: portal_runs users_exact_def holders_def closes_ok_def)
next
  case (step_start_failed s xs p ys e s')
  then show ?case by (auto simp: portal_runs users_exact_def holders_def closes_ok_def)
next
  case (step_discard s xs p ys s')
  then show ?case by (auto simp: portal_runs users_exact_def holders_def closes_ok_def split: if_splits)
next
  case (step_opened s xs p ys)
  then show ?case using opened_port [of s xs p ys] by (simp add: users_exact_def)
next
  case (step_open_failed s xs p ys s')
  then show ?case by (auto simp: portal_runs users_exact_def holders_def closes_ok_def)
qed

lemma users_exact_step_close:
  assumes "close_step False s l s'" "users_exact s"
  shows "users_exact s'"
  using assms
proof (induction rule: close_step.induct)
  case (step_close i s)
  then show ?case using holders_started [of _ s i] closes_ok_started [of s _ i] by (simp add: users_exact_def)
next
  case (step_mark s xs i ys s')
  let ?q = "(ps_ports s ! i)\<lparr>sp_closed := True\<rparr>"
  have ok: "closes_ok s" using step_mark.prems by (simp add: users_exact_def)
  note c = closes_ok_current [OF ok step_mark.hyps(1)]
  have s': "s' = s\<lparr>ps_ports := (ps_ports s)[i := ?q]\<rparr>" using step_mark by (simp add: close_runs)
  have "closes_ok (s'\<lparr>ps_closes := xs @ (i, Marked) # ys\<rparr>)"
    by (rule closes_ok_phase [OF ok step_mark.hyps(1)]) (use c(2) s' in auto)
  moreover have "holders p (s'\<lparr>ps_closes := xs @ (i, Marked) # ys\<rparr>) = holders p s" for p
    using holders_phase [OF ok step_mark.hyps(1), of "s'\<lparr>ps_closes := xs @ (i, Marked) # ys\<rparr>" Marked ?q p] s'
    by (simp add: port_holds_def)
  ultimately show ?case using step_mark.prems s' by (simp add: users_exact_def)
next
  case (step_seen s xs i ys s')
  have ok: "closes_ok s" using step_seen.prems by (simp add: users_exact_def)
  note c = closes_ok_current [OF ok step_seen.hyps(1)]
  have s': "s' = s" using step_seen by (simp add: close_runs)
  have "closes_ok (s'\<lparr>ps_closes := xs @ (i, Seen) # ys\<rparr>)"
    by (rule closes_ok_phase [OF ok step_seen.hyps(1), where q = "ps_ports s ! i"]) (use c(2) s' in auto)
  moreover have "holders p (s'\<lparr>ps_closes := xs @ (i, Seen) # ys\<rparr>) = holders p s" for p
    using step_seen.hyps(1) s' by (simp add: holders_def)
  ultimately show ?case using step_seen.prems s' by (simp add: users_exact_def)
next
  case (step_left s xs i ys s')
  have ok: "closes_ok s" using step_left.prems by (simp add: users_exact_def)
  from closes_ok_current [OF ok step_left.hyps(1)] step_left show ?case by (simp add: close_runs)
next
  case (step_clear s xs i ys s')
  let ?q = "(ps_ports s ! i)\<lparr>sp_portal_entered := False\<rparr>"
  have ok: "closes_ok s" using step_clear.prems by (simp add: users_exact_def)
  note c = closes_ok_current [OF ok step_clear.hyps(1)]
  have s': "s' = s\<lparr>ps_ports := (ps_ports s)[i := ?q]\<rparr>" using step_clear by (simp add: close_runs)
  have "closes_ok (s'\<lparr>ps_closes := xs @ (i, Cleared) # ys\<rparr>)"
    by (rule closes_ok_phase [OF ok step_clear.hyps(1)]) (use c(2) s' in auto)
  moreover have "holders p (s'\<lparr>ps_closes := xs @ (i, Cleared) # ys\<rparr>) = holders p s" for p
    using holders_phase [OF ok step_clear.hyps(1), of "s'\<lparr>ps_closes := xs @ (i, Cleared) # ys\<rparr>" Cleared ?q p] s' c(2)
    by (simp add: port_holds_def)
  ultimately show ?case using step_clear.prems s' by (simp add: users_exact_def)
next
  case (step_exit s xs i ys s')
  let ?p = "sp_provider (ps_ports s ! i)"
  have ok: "closes_ok s" using step_exit.prems by (simp add: users_exact_def)
  note c = closes_ok_current [OF ok step_exit.hyps(1)]
  have s': "s' = s\<lparr>ps_users := (ps_users s)(?p := ps_users s ?p - 1)\<rparr>" using step_exit by (simp add: close_runs)
  have "closes_ok (s'\<lparr>ps_closes := xs @ ys\<rparr>)"
    by (rule closes_ok_done [OF ok step_exit.hyps(1)]) (use c(2) s' in auto)
  moreover have "ps_users (s'\<lparr>ps_closes := xs @ ys\<rparr>) p = int (holders p (s'\<lparr>ps_closes := xs @ ys\<rparr>))" for p
  proof -
    have "ps_users (s'\<lparr>ps_closes := xs @ ys\<rparr>) p = ps_users s p - of_bool (?p = p)" by (simp add: s')
    moreover have "ps_users s p = int (holders p s)" using step_exit.prems by (simp add: users_exact_def)
    moreover have "holders p s = holders p (s'\<lparr>ps_closes := xs @ ys\<rparr>) + of_bool (?p = p)"
      using holders_done [OF step_exit.hyps(1), of "s'\<lparr>ps_closes := xs @ ys\<rparr>" p] s' by simp
    ultimately show ?thesis by (cases "?p = p") simp_all
  qed
  ultimately show ?case by (simp add: users_exact_def)
qed

lemma users_exact_step:
  "portal_step False s l s' \<Longrightarrow> users_exact s \<Longrightarrow> users_exact s'"
  by (auto simp: portal_step_def intro: users_exact_step_open users_exact_step_close)

lemma phase_ok_mono:
  "list_all (phase_ok cached dead) phs \<Longrightarrow> (\<And>p. cached = Some p \<Longrightarrow> cached' = Some p \<or> p \<in> dead') \<Longrightarrow>
     dead \<subseteq> dead' \<Longrightarrow> list_all (phase_ok cached' dead') phs"
  by (erule list.pred_mono_strong, elim phase_ok.elims) auto

text \<open>A step that adds no holder and changes neither the globals nor the opens.\<close>

lemma one_portal_fewer:
  assumes "one_portal s" "\<And>p. holders p s' \<le> holders p s" "ps_provider s' = ps_provider s" "ps_dead s' = ps_dead s"
    "ps_fresh s' = ps_fresh s" "ps_built s' = ps_built s" "ps_provider_backend s' = ps_provider_backend s"
    "ps_provider_options s' = ps_provider_options s" "set (ps_opens s') \<subseteq> set (ps_opens s)"
  shows "one_portal s'"
proof -
  have "0 < holders p s' \<Longrightarrow> 0 < holders p s" for p using assms(2) [of p] by linarith
  with assms(1,3-9) show ?thesis by (auto simp: one_portal_def list_all_iff)
qed

lemma one_portal_step_open:
  assumes "open_step s l s'" "users_exact s" "one_portal s"
  shows "one_portal s'"
  using assms
proof (induction rule: open_step.induct)
  case (step_configure backend options s r s')
  have h: "holders q s' = holders q s" for q
    using step_configure by (auto simp: configure_portal_run holders_def split: if_splits)
  show ?case
  proof (cases "ps_provider s = None")
    case True
    then show ?thesis
      using step_configure.hyps step_configure.prems(2) unfolding one_portal_def h
      by (auto simp: configure_portal_run)
  next
    case False
    then show ?thesis using step_configure by (simp add: configure_portal_run)
  qed
next
  case (step_get s p s')
  show ?case
  proof (cases "ps_provider s = None")
    case True
    then have none: "holders q s = 0" for q using step_get.prems(2) by (auto simp: one_portal_def)
    have s': "s' = new_provider s" "p = ps_fresh s" using step_get True by (auto simp: portal_runs new_provider_def)
    have "holders q (s'\<lparr>ps_opens := ps_opens s' @ [Got p]\<rparr>) = 0" for q
      using none [of q] by (simp add: s' holders_def new_provider_def)
    moreover have "p \<notin> ps_dead s" using step_get.prems(2) by (auto simp: one_portal_def s')
    ultimately show ?thesis
      using step_get.prems(2) True
      by (auto simp: one_portal_def s' new_provider_def elim: phase_ok_mono)
  next
    case False
    then have s': "s' = s" "ps_provider s = Some p" using step_get by (auto simp: portal_runs)
    have "holders q (s\<lparr>ps_opens := ps_opens s @ [Got p]\<rparr>) = holders q s" for q by (simp add: holders_def)
    then show ?thesis using step_get.prems(2) s' unfolding one_portal_def by simp
  qed
next
  case (step_enter s xs p ys s')
  then have p: "ps_provider s = Some p" by (auto simp: one_portal_def)
  have h: "holders q (s'\<lparr>ps_opens := xs @ Entered p # ys\<rparr>) = holders q s + of_bool (p = q)" for q
    using step_enter by (auto simp: holders_def portal_runs)
  show ?case
    using step_enter p unfolding one_portal_def h by (auto simp: portal_runs split: if_splits)
next
  case (step_start_failed s xs p ys e s')
  then have "holders p s = 0" by (simp add: users_exact_def)
  moreover have "holders q (s'\<lparr>ps_opens := xs @ Start_failed p # ys\<rparr>) = holders q s" for q
    using step_start_failed by (auto simp: holders_def portal_runs)
  moreover have "p < ps_fresh s" using step_start_failed by (auto simp: one_portal_def)
  moreover have s': "s' = s\<lparr>ps_dead := insert p (ps_dead s)\<rparr>" using step_start_failed by (auto simp: portal_runs)
  moreover have "list_all (phase_ok (ps_provider s) (insert p (ps_dead s))) (xs @ Start_failed p # ys)"
    using step_start_failed by (auto simp: one_portal_def elim: phase_ok_mono)
  ultimately show ?case
    using step_start_failed.prems(2) unfolding one_portal_def by auto
next
  case (step_discard s xs p ys s')
  have "holders q (s'\<lparr>ps_opens := xs @ ys\<rparr>) = holders q s" for q
    using step_discard by (auto simp: holders_def portal_runs split: if_splits)
  moreover have "p \<in> ps_dead s" "list_all (phase_ok (ps_provider s) (ps_dead s)) (xs @ ys)"
    using step_discard by (auto simp: one_portal_def)
  moreover from this have "list_all (phase_ok None (ps_dead s)) (xs @ ys)" if "ps_provider s = Some p"
    using that by (auto elim: phase_ok_mono)
  moreover have "s' = (if ps_provider s = Some p then s\<lparr>ps_provider := None\<rparr> else s)"
    using step_discard by (auto simp: portal_runs)
  ultimately show ?case
    using step_discard.prems(2) unfolding one_portal_def by (auto split: if_splits)
next
  case (step_opened s xs p ys)
  then have "closes_ok s" by (simp add: users_exact_def)
  from opened_port(2) [OF this step_opened.hyps] step_opened show ?case by (intro one_portal_fewer [OF step_opened.prems(2)]) auto
next
  case (step_open_failed s xs p ys s')
  have "holders q (s'\<lparr>ps_opens := xs @ ys\<rparr>) \<le> holders q s" for q
    using step_open_failed by (auto simp: holders_def portal_runs)
  with step_open_failed show ?case by (intro one_portal_fewer [OF step_open_failed.prems(2)]) (auto simp: portal_runs)
qed

lemma one_portal_step_close:
  assumes "close_step False s l s'" "users_exact s" "one_portal s"
  shows "one_portal s'"
  using assms
proof (induction rule: close_step.induct)
  case (step_close i s)
  then show ?case by (intro one_portal_fewer [OF step_close.prems(2)]) (auto simp: holders_def)
next
  case (step_mark s xs i ys s')
  let ?t = "s'\<lparr>ps_closes := xs @ (i, Marked) # ys\<rparr>"
  have "closes_ok s" using step_mark.prems(1) by (simp add: users_exact_def)
  from holders_phase [OF this step_mark.hyps(1), of ?t Marked "(ps_ports s ! i)\<lparr>sp_closed := True\<rparr>"]
  have "holders p ?t \<le> holders p s" for p using step_mark.hyps(2) by (auto simp: close_runs port_holds_def)
  with step_mark show ?case by (intro one_portal_fewer [OF step_mark.prems(2)]) (auto simp: close_runs)
next
  case (step_seen s xs i ys s')
  then show ?case by (intro one_portal_fewer [OF step_seen.prems(2)]) (auto simp: holders_def close_runs)
next
  case (step_left s xs i ys s')
  then show ?case by (intro one_portal_fewer [OF step_left.prems(2)]) (auto simp: holders_def close_runs)
next
  case (step_clear s xs i ys s')
  let ?t = "s'\<lparr>ps_closes := xs @ (i, Cleared) # ys\<rparr>"
  have ok: "closes_ok s" using step_clear.prems(1) by (simp add: users_exact_def)
  from holders_phase [OF ok step_clear.hyps(1), of ?t Cleared "(ps_ports s ! i)\<lparr>sp_portal_entered := False\<rparr>"]
    closes_ok_current(2) [OF ok step_clear.hyps(1)]
  have "holders p ?t \<le> holders p s" for p using step_clear.hyps(2) by (auto simp: close_runs port_holds_def)
  with step_clear show ?case by (intro one_portal_fewer [OF step_clear.prems(2)]) (auto simp: close_runs)
next
  case (step_exit s xs i ys s')
  then show ?case by (intro one_portal_fewer [OF step_exit.prems(2)]) (auto simp: holders_def close_runs)
qed

lemma one_portal_step:
  "portal_step False s l s' \<Longrightarrow> users_exact s \<Longrightarrow> one_portal s \<Longrightarrow> one_portal s'"
  by (auto simp: portal_step_def intro: one_portal_step_open one_portal_step_close)

lemma portal_invariants: "portal_reachable False s \<Longrightarrow> users_exact s \<and> one_portal s"
proof (induction rule: portal_reachable.induct)
  case reach_init
  show ?case by (simp add: portal_init_def users_exact_def one_portal_def holders_def closes_ok_def)
qed (blast intro: users_exact_step one_portal_step)

lemma open_port_entered:
  assumes "closes_ok s" "i < length (ps_ports s)" "\<not> sp_closed (ps_ports s ! i)"
  shows "sp_portal_entered (ps_ports s ! i)"
proof -
  have "flags_ok (map_of (ps_closes s) i) (ps_ports s ! i)" using assms(1,2) by (simp add: closes_ok_def)
  with assms(3) show ?thesis
    by (cases "map_of (ps_closes s) i") (auto elim: flags_ok.elims)
qed

subsection \<open>What callers may rely on\<close>

text \<open>Runs for the witnesses: one port opened; a second one opened; then \<open>close\<close> calls of the first.\<close>

definition demo_portal :: portal_state where
  "demo_portal = (new_provider portal_init)\<lparr>ps_users := (\<lambda>_. 0)(0 := 1), ps_ports := [sync_port_init 0]\<rparr>"

definition demo_closing :: "(nat \<times> close_phase) list \<Rightarrow> sync_port \<Rightarrow> int \<Rightarrow> portal_state" where
  "demo_closing cs q n = demo_portal\<lparr>ps_users := (\<lambda>_. 0)(0 := n), ps_closes := cs, ps_ports := [q, sync_port_init 0]\<rparr>"

lemma demo_open_next:
  assumes "ps_provider s = Some 0" "0 \<notin> ps_dead s" "ps_opens s = []" "portal_reachable overlap s"
  shows "portal_reachable overlap (s\<lparr>ps_users := (ps_users s)(0 := ps_users s 0 + 1), ps_ports := ps_ports s @ [sync_port_init 0]\<rparr>)"
proof -
  let ?s1 = "s\<lparr>ps_opens := [Got 0]\<rparr>"
  let ?s2 = "?s1\<lparr>ps_users := (ps_users s)(0 := ps_users s 0 + 1), ps_opens := [Entered 0]\<rparr>"
  have "portal_step overlap s L_get (s\<lparr>ps_opens := ps_opens s @ [Got 0]\<rparr>)"
    by (rule portal_stepI(1) [OF step_get]) (simp add: portal_runs assms)
  then have "portal_step overlap s L_get ?s1" by (simp add: assms)
  moreover have "portal_step overlap ?s1 L_enter ((?s1\<lparr>ps_users := (ps_users s)(0 := ps_users s 0 + 1)\<rparr>)\<lparr>ps_opens := [] @ Entered 0 # []\<rparr>)"
    by (rule portal_stepI(1) [OF step_enter]) (simp_all add: portal_runs assms)
  then have "portal_step overlap ?s1 L_enter ?s2" by simp
  moreover have "portal_step overlap ?s2 L_opened (?s2\<lparr>ps_opens := [] @ [], ps_ports := ps_ports ?s2 @ [sync_port_init 0]\<rparr>)"
    by (rule portal_stepI(1) [OF step_opened]) simp
  then have "portal_step overlap ?s2 L_opened (s\<lparr>ps_users := (ps_users s)(0 := ps_users s 0 + 1), ps_ports := ps_ports s @ [sync_port_init 0]\<rparr>)"
    using assms(3) by (cases s) simp
  ultimately show ?thesis using assms(4) by (blast intro: reach_step)
qed

lemma demo_portal_reachable: "portal_reachable overlap demo_portal"
proof -
  let ?s1 = "(new_provider portal_init)\<lparr>ps_opens := [Got 0]\<rparr>"
  let ?s2 = "?s1\<lparr>ps_users := (\<lambda>_. 0)(0 := 1), ps_opens := [Entered 0]\<rparr>"
  have "portal_step overlap portal_init L_get ((new_provider portal_init)\<lparr>ps_opens := ps_opens (new_provider portal_init) @ [Got 0]\<rparr>)"
    by (rule portal_stepI(1) [OF step_get]) (simp add: portal_runs portal_init_def new_provider_def)
  then have "portal_step overlap portal_init L_get ?s1" by (simp add: portal_init_def new_provider_def)
  moreover have "portal_step overlap ?s1 L_enter ((?s1\<lparr>ps_users := (\<lambda>_. 0)(0 := 1)\<rparr>)\<lparr>ps_opens := [] @ Entered 0 # []\<rparr>)"
    by (rule portal_stepI(1) [OF step_enter]) (simp_all add: portal_runs portal_init_def new_provider_def)
  then have "portal_step overlap ?s1 L_enter ?s2" by simp
  moreover have "portal_step overlap ?s2 L_opened (?s2\<lparr>ps_opens := [] @ [], ps_ports := ps_ports ?s2 @ [sync_port_init 0]\<rparr>)"
    by (rule portal_stepI(1) [OF step_opened]) simp
  then have "portal_step overlap ?s2 L_opened demo_portal"
    by (simp add: demo_portal_def portal_init_def new_provider_def)
  ultimately show ?thesis by (blast intro: reach_init reach_step)
qed

lemma demo_closing_reachable: "portal_reachable overlap (demo_closing [] (sync_port_init 0) 2)"
proof -
  have "portal_reachable overlap (demo_portal\<lparr>ps_users := (ps_users demo_portal)(0 := ps_users demo_portal 0 + 1),
      ps_ports := ps_ports demo_portal @ [sync_port_init 0]\<rparr>)"
    by (rule demo_open_next [OF _ _ _ demo_portal_reachable]) (simp_all add: demo_portal_def portal_init_def new_provider_def)
  then show ?thesis by (simp add: demo_closing_def demo_portal_def portal_init_def new_provider_def)
qed

lemma demo_closing_pieces:
  "overlap \<or> cs = [] \<Longrightarrow> \<not> sp_closed q \<Longrightarrow>
     close_step overlap (demo_closing cs q n) (L_close 0) (demo_closing (cs @ [(0, Checked)]) q n)"
  "close_step overlap (demo_closing (xs @ (0, Checked) # ys) q n) (L_mark 0)
     (demo_closing (xs @ (0, Marked) # ys) (q\<lparr>sp_closed := True\<rparr>) n)"
  "sp_portal_entered q \<Longrightarrow> close_step overlap (demo_closing (xs @ (0, Marked) # ys) q n) (L_seen 0)
     (demo_closing (xs @ (0, Seen) # ys) q n)"
  "close_step overlap (demo_closing (xs @ (0, Seen) # ys) q n) (L_clear 0)
     (demo_closing (xs @ (0, Cleared) # ys) (q\<lparr>sp_portal_entered := False\<rparr>) n)"
  "0 < n \<Longrightarrow> sp_provider q = 0 \<Longrightarrow> close_step overlap (demo_closing (xs @ (0, Cleared) # ys) q n) (L_exit 0)
     (demo_closing (xs @ ys) q (n - 1))"
proof -
  show "overlap \<or> cs = [] \<Longrightarrow> \<not> sp_closed q \<Longrightarrow>
     close_step overlap (demo_closing cs q n) (L_close 0) (demo_closing (cs @ [(0, Checked)]) q n)"
    using step_close [of 0 "demo_closing cs q n" overlap] by (auto simp: demo_closing_def demo_portal_def portal_init_def new_provider_def)
  show "close_step overlap (demo_closing (xs @ (0, Checked) # ys) q n) (L_mark 0)
     (demo_closing (xs @ (0, Marked) # ys) (q\<lparr>sp_closed := True\<rparr>) n)"
    using step_mark [where s = "demo_closing (xs @ (0, Checked) # ys) q n" and s' = "demo_closing (xs @ (0, Checked) # ys) (q\<lparr>sp_closed := True\<rparr>) (n)"
        and overlap = overlap and xs = xs and i = 0 and ys = ys] by (simp add: demo_closing_def demo_portal_def portal_init_def new_provider_def close_runs)
  show "sp_portal_entered q \<Longrightarrow> close_step overlap (demo_closing (xs @ (0, Marked) # ys) q n) (L_seen 0)
     (demo_closing (xs @ (0, Seen) # ys) q n)"
    using step_seen [where s = "demo_closing (xs @ (0, Marked) # ys) q n" and s' = "demo_closing (xs @ (0, Marked) # ys) (q) (n)"
        and overlap = overlap and xs = xs and i = 0 and ys = ys] by (simp add: demo_closing_def demo_portal_def portal_init_def new_provider_def close_runs)
  show "close_step overlap (demo_closing (xs @ (0, Seen) # ys) q n) (L_clear 0)
     (demo_closing (xs @ (0, Cleared) # ys) (q\<lparr>sp_portal_entered := False\<rparr>) n)"
    using step_clear [where s = "demo_closing (xs @ (0, Seen) # ys) q n" and s' = "demo_closing (xs @ (0, Seen) # ys) (q\<lparr>sp_portal_entered := False\<rparr>) (n)"
        and overlap = overlap and xs = xs and i = 0 and ys = ys] by (simp add: demo_closing_def demo_portal_def portal_init_def new_provider_def close_runs)
  show "0 < n \<Longrightarrow> sp_provider q = 0 \<Longrightarrow> close_step overlap (demo_closing (xs @ (0, Cleared) # ys) q n) (L_exit 0)
     (demo_closing (xs @ ys) q (n - 1))"
    using step_exit [where s = "demo_closing (xs @ (0, Cleared) # ys) q n" and s' = "demo_closing (xs @ (0, Cleared) # ys) (q) (n - 1)"
        and overlap = overlap and xs = xs and i = 0 and ys = ys] by (simp add: demo_closing_def demo_portal_def portal_init_def new_provider_def close_runs)
qed

lemmas demo_closing_steps = demo_closing_pieces [THEN portal_stepI(2)]

lemma demo_leaving_reachable:
  "portal_reachable False (demo_closing [(0, Cleared)] ((sync_port_init 0)\<lparr>sp_closed := True, sp_portal_entered := False\<rparr>) 2)"
proof -
  let ?q = "sync_port_init 0"
  have "portal_reachable False (demo_closing [(0, Checked)] ?q 2)"
    using reach_step [OF demo_closing_reachable demo_closing_steps(1)] by (simp add: sync_port_init_def)
  from reach_step [OF this demo_closing_steps(2) [of _ "[]" "[]", simplified]]
  have "portal_reachable False (demo_closing [(0, Marked)] (?q\<lparr>sp_closed := True\<rparr>) 2)" .
  from reach_step [OF this demo_closing_steps(3) [of _ _ "[]" "[]", simplified]]
  have "portal_reachable False (demo_closing [(0, Seen)] (?q\<lparr>sp_closed := True\<rparr>) 2)" by (simp add: sync_port_init_def)
  from reach_step [OF this demo_closing_steps(4) [of _ "[]" "[]", simplified]] show ?thesis .
qed

text \<open>C39: As long as no two threads are inside \<open>close\<close> of one port at once, and however else the
  threads interleave (closes of different ports included, at each check and each assignment of
  \<open>close\<close> and \<open>_release_portal\<close>, which take no lock), the number of users of a portal provider is
  exactly the number of \<open>open\<close> calls past entering it, plus the blocking ports that have not released
  it, plus the \<open>close\<close> calls that have cleared their port's flag and are about to leave it; a port not
  yet closed still holds its reference; a \<open>close\<close> about to leave finds the provider with a user to
  remove; and once every port is closed and no \<open>open\<close> or \<open>close\<close> is in progress, no provider has a
  user, so the event-loop thread is down.\<close>

theorem portal_users_exact:
  assumes "portal_reachable False s"
  shows "(\<forall>p. ps_users s p = int (length (filter (\<lambda>ph. ph = Entered p) (ps_opens s)))
        + int (length (filter (\<lambda>q. sp_portal_entered q \<and> sp_provider q = p) (ps_ports s)))
        + int (length (filter (\<lambda>c. snd c = Cleared \<and> sp_provider (ps_ports s ! fst c) = p) (ps_closes s))))
    \<and> list_all (\<lambda>q. sp_closed q \<or> sp_portal_entered q) (ps_ports s)
    \<and> list_all (\<lambda>c. snd c = Cleared \<longrightarrow> 0 < ps_users s (sp_provider (ps_ports s ! fst c))) (ps_closes s)
    \<and> (ps_opens s = [] \<and> ps_closes s = [] \<and> list_all sp_closed (ps_ports s) \<longrightarrow> ps_users s = (\<lambda>_. 0))"
proof -
  have u: "\<forall>p. ps_users s p = int (holders p s)" and c: "closes_ok s"
    using portal_invariants [OF assms] by (simp_all add: users_exact_def)
  have "0 < ps_users s (sp_provider (ps_ports s ! i))" if "(i, Cleared) \<in> set (ps_closes s)" for i
  proof -
    have "(i, Cleared) \<in> set (filter (leaving (sp_provider (ps_ports s ! i)) (ps_ports s)) (ps_closes s))"
      using that by (simp add: leaving_def)
    then have "0 < length (filter (leaving (sp_provider (ps_ports s ! i)) (ps_ports s)) (ps_closes s))"
      by (rule length_pos_if_in_set)
    then have "0 < holders (sp_provider (ps_ports s ! i)) s" by (simp add: holders_def)
    then show ?thesis using u by simp
  qed
  moreover have "ps_users s = (\<lambda>_. 0)" if "ps_opens s = []" "ps_closes s = []" "list_all sp_closed (ps_ports s)"
  proof
    fix p
    have "\<not> sp_portal_entered q" if "q \<in> set (ps_ports s)" for q
      using that c \<open>ps_closes s = []\<close> \<open>list_all sp_closed (ps_ports s)\<close>
      by (auto simp: closes_ok_def list_all_length in_set_conv_nth)
    then have "filter (port_holds p) (ps_ports s) = []" by (auto simp: filter_empty_conv port_holds_def)
    then show "ps_users s p = 0" using u that by (simp add: holders_def)
  qed
  moreover have "list_all (\<lambda>q. sp_closed q \<or> sp_portal_entered q) (ps_ports s)"
    using open_port_entered [OF c] by (auto simp: list_all_length)
  moreover have "list_all (\<lambda>c. snd c = Cleared \<longrightarrow> 0 < ps_users s (sp_provider (ps_ports s ! fst c))) (ps_closes s)"
    using calculation(1) by (auto simp: list_all_iff)
  ultimately show ?thesis
    using u by (simp add: holders_def phase_holds_def [abs_def] port_holds_def [abs_def] leaving_def [abs_def])
qed

lemma portal_users_exact_witness:
  "ps_users (demo_closing [(0, Cleared)] ((sync_port_init 0)\<lparr>sp_closed := True, sp_portal_entered := False\<rparr>) 2) 0 = 0 + 1 + 1"
  using portal_users_exact [OF demo_leaving_reachable]
  by (simp add: demo_closing_def demo_portal_def portal_init_def new_provider_def sync_port_init_def)

text \<open>C7: Two threads that close one port at once can both pass \<open>close\<close>'s check of \<open>_closed\<close> and
  \<open>_release_portal\<close>'s check of \<open>_portal_entered\<close> before either assigns the flag; both then leave the
  provider. One reachable outcome: a second port is still open and holds its reference, no call is in
  progress, and the provider has no user left, so the event-loop thread that port runs on is down.\<close>

theorem double_close_steals_portal:
  "\<exists>s. portal_reachable True s \<and> ps_opens s = [] \<and> ps_closes s = []
    \<and> ps_ports s = [\<lparr>sp_provider = 0, sp_portal_entered = False, sp_closed = True\<rparr>, sync_port_init 0]
    \<and> ps_provider s = Some 0 \<and> ps_users s 0 = 0"
proof -
  let ?q = "sync_port_init 0"
  let ?m = "?q\<lparr>sp_closed := True\<rparr>" and ?r = "?q\<lparr>sp_closed := True, sp_portal_entered := False\<rparr>"
  have "portal_reachable True (demo_closing [(0, Checked)] ?q 2)"
    using reach_step [OF demo_closing_reachable demo_closing_steps(1) [where cs = "[]" and overlap = True]]
    by (simp add: sync_port_init_def)
  then have "portal_reachable True (demo_closing [(0, Checked), (0, Checked)] ?q 2)"
    using reach_step [OF _ demo_closing_steps(1) [where cs = "[(0, Checked)]" and overlap = True]]
    by (simp add: sync_port_init_def)
  then have "portal_reachable True (demo_closing [(0, Marked), (0, Checked)] ?m 2)"
    using reach_step [OF _ demo_closing_steps(2) [of _ "[]" "[(0, Checked)]"]] by simp
  then have "portal_reachable True (demo_closing [(0, Marked), (0, Marked)] ?m 2)"
    using reach_step [OF _ demo_closing_steps(2) [of _ "[(0, Marked)]" "[]"]] by fastforce
  then have "portal_reachable True (demo_closing [(0, Seen), (0, Marked)] ?m 2)"
    using reach_step [OF _ demo_closing_steps(3) [of _ _ "[]" "[(0, Marked)]"]] by (simp add: sync_port_init_def)
  then have "portal_reachable True (demo_closing [(0, Seen), (0, Seen)] ?m 2)"
    using reach_step [OF _ demo_closing_steps(3) [of _ _ "[(0, Seen)]" "[]"]] by (simp add: sync_port_init_def)
  then have "portal_reachable True (demo_closing [(0, Cleared), (0, Seen)] ?r 2)"
    using reach_step [OF _ demo_closing_steps(4) [of _ "[]" "[(0, Seen)]"]] by simp
  then have "portal_reachable True (demo_closing [(0, Cleared), (0, Cleared)] ?r 2)"
    using reach_step [OF _ demo_closing_steps(4) [of _ "[(0, Cleared)]" "[]"]] by fastforce
  then have "portal_reachable True (demo_closing [(0, Cleared)] ?r 1)"
    using reach_step [OF _ demo_closing_steps(5) [of 2 ?r _ "[]" "[(0, Cleared)]"]] by (simp add: sync_port_init_def)
  then have "portal_reachable True (demo_closing [] ?r 0)"
    using reach_step [OF _ demo_closing_steps(5) [of 1 ?r _ "[]" "[]"]] by (simp add: sync_port_init_def)
  then show ?thesis
    by (rule exI [of _ "demo_closing [] ?r 0", OF conjI])
      (simp add: demo_closing_def demo_portal_def portal_init_def new_provider_def sync_port_init_def)
qed

text \<open>All blocking ports of the process, and the \<open>open\<close> calls past entering, share one portal: the
  cached provider, which was built with the configuration in force; while one of them holds it
  \<open>configure_portal\<close> raises \<open>RuntimeError\<close> and changes nothing. A provider is forgotten only when its
  start failed, and then nothing holds it.\<close>

theorem one_portal_shared:
  assumes "portal_reachable False s" and "List.member (ps_opens s) (Entered p)
      \<or> (\<exists>q. List.member (ps_ports s) q \<and> sp_portal_entered q \<and> sp_provider q = p)"
  shows "ps_provider s = Some p \<and> p \<notin> ps_dead s
    \<and> ps_built s p = Some (ps_provider_backend s,
        if ps_provider_options s = [] then None else Some (ps_provider_options s))
    \<and> configure_portal backend options s = (Inl (exn_msg RuntimeError), s)"
proof -
  have "filter (phase_holds p) (ps_opens s) \<noteq> [] \<or> filter (port_holds p) (ps_ports s) \<noteq> []"
    using assms(2) by (auto simp: filter_empty_conv port_holds_def phase_holds_def)
  then have "0 < holders p s" by (auto simp: holders_def)
  with portal_invariants [OF assms(1)] show ?thesis
    by (auto simp: one_portal_def configure_portal_run)
qed

lemma one_portal_shared_witness:
  "configure_portal ''trio'' None demo_portal = (Inl (exn_msg RuntimeError), demo_portal)"
proof -
  have "\<exists>q. List.member (ps_ports demo_portal) q \<and> sp_portal_entered q \<and> sp_provider q = 0"
    by (rule exI [of _ "sync_port_init 0"]) (simp add: demo_portal_def sync_port_init_def)
  then show ?thesis
    using one_portal_shared [OF demo_portal_reachable, of 0 "''trio''" None] by blast
qed

text \<open>Opening a blocking port either returns a port that holds one use of the cached provider, or
  raises and leaves every provider with the users it had: the cached provider is forgotten when its
  start failed and kept when the open itself failed, and nothing is touched when the arguments are
  rejected.\<close>

theorem sync_open_outcomes:
  "case sync_open both_given config started called s of (r, s') \<Rightarrow>
     (case r of
        Inr port \<Rightarrow> \<not> both_given \<and> port = sync_port_init (sp_provider port)
          \<and> ps_provider s' = Some (sp_provider port)
          \<and> ps_users s' = (ps_users s)(sp_provider port := ps_users s (sp_provider port) + 1)
      | Inl e \<Rightarrow> ps_users s' = ps_users s
          \<and> (if both_given then e = exn_msg ValueError \<and> s' = s
             else if config = Inl e then s' = s
             else if started = Inl e then ps_provider s' = None
             else called = Inl e \<and> ps_provider s' \<noteq> None))"
proof -
  obtain p s1 where g: "get_provider s = (Inr p, s1)" "ps_provider s1 = Some p" "ps_users s1 = ps_users s"
    by (cases "ps_provider s = None") (auto simp: portal_runs new_provider_def)
  show ?thesis
    using g
    by (cases config; cases started; cases called)
      (auto simp: sync_open_def io_ctl_defs portal_runs sync_port_init_def)
qed

text \<open>Closing a blocking port releases its use of the portal exactly once, whatever closing the
  asynchronous port does (an exception or a timeout of it is raised after the release), and closing it
  again does nothing.\<close>

theorem sync_close_releases_once:
  assumes "keeps (\<lambda>s s'. ps_ports s' = ps_ports s \<and> ps_users s' = ps_users s) run"
    and "i < length (ps_ports s)" "ps_ports s ! i = sync_port_init p"
  shows "\<exists>s'. sync_close i run s = (fst (run (snd (update_port i (\<lambda>q. q\<lparr>sp_closed := True\<rparr>) s))), s')
    \<and> ps_users s' = (ps_users s)(p := ps_users s p - 1)
    \<and> ps_ports s' = (ps_ports s)[i := \<lparr>sp_provider = p, sp_portal_entered = False, sp_closed = True\<rparr>]
    \<and> sync_close i run' s' = (Inr (), s')"
proof -
  let ?s1 = "s\<lparr>ps_ports := (ps_ports s)[i := (ps_ports s ! i)\<lparr>sp_closed := True\<rparr>]\<rparr>"
  obtain r s2 where r: "run ?s1 = (r, s2)" by fastforce
  then have s2: "ps_ports s2 = ps_ports ?s1" "ps_users s2 = ps_users ?s1"
    using keeps_snd [OF assms(1), of ?s1] by simp_all
  let ?s3 = "snd (release_portal i s2)"
  have "sync_close i run s = (r, ?s3)"
    using assms(2,3) r
    by (cases r) (simp_all add: sync_close_def io_ctl_defs close_runs release_portal_run sync_port_init_def)
  moreover have "ps_users ?s3 = (ps_users s)(p := ps_users s p - 1)"
    "ps_ports ?s3 = (ps_ports s)[i := \<lparr>sp_provider = p, sp_portal_entered = False, sp_closed = True\<rparr>]"
    using assms(2,3) s2 by (simp_all add: release_portal_run sync_port_init_def)
  moreover from this have "sync_close i run' ?s3 = (Inr (), ?s3)"
    using assms(2) by (simp add: sync_close_def io_ctl_defs)
  ultimately show ?thesis using r by (simp add: portal_runs)
qed

lemma sync_close_releases_once_witness:
  "\<exists>s'. sync_close 0 (io_raise (exn_msg TimeoutError)) demo_portal = (Inl (exn_msg TimeoutError), s')
    \<and> ps_users s' 0 = 0"
proof -
  have "keeps (\<lambda>s s'. ps_ports s' = ps_ports s \<and> ps_users s' = ps_users s) (io_raise (exn_msg TimeoutError) :: unit sync_io)"
    by (simp add: keeps_def wp_simps)
  from sync_close_releases_once [OF this, of 0 demo_portal 0 "io_return ()"] show ?thesis
    by (auto simp: demo_portal_def io_raise_def portal_init_def new_provider_def)
qed

end
