(* ===== verification/Sync_Api.thy ===== *)
theory Sync_Api
  imports Stream_Spec Sync_Portal
begin

section \<open>The blocking port (\<open>SerialPort\<close> in \<open>sync.py\<close>)\<close>

text \<open>
  Each blocking method runs one coroutine of the asynchronous port on the portal's event loop and
  waits for its end, optionally under \<open>anyio.fail_after\<close>. So a blocking call is a run of the port
  system of theory \<open>Port_System\<close> that begins with the call of the operation and ends with the step in
  which the operation returns or raises; between its steps the other tasks and threads take theirs.
  When the timeout expires the coroutine is cancelled: \<open>CancelledError\<close> is thrown at its \<open>await\<close>, and
  \<open>fail_after\<close> turns it into \<open>TimeoutError\<close> if it comes out of the coroutine.
\<close>

subsection \<open>The methods\<close>

definition DEFAULT_RECEIVE_LIMIT :: int where "DEFAULT_RECEIVE_LIMIT = 65536"

datatype sync_call =
    Sync_receive "int option" | Sync_receive_into nat | Sync_receive_available "int option"
  | Sync_send bytes | Sync_send_eof | Sync_configure serial_config
  | Sync_reset_input_buffer | Sync_reset_output_buffer | Sync_drain | Sync_drain_exact
  | Sync_send_break "pyfloat option" | Sync_modem_lines | Sync_set_control_lines "bool option" "bool option"

text \<open>The coroutine a method hands to \<open>_run\<close>; \<open>None\<close> is an argument left to its default.\<close>

fun async_op :: "sync_call \<Rightarrow> op" where
  "async_op (Sync_receive n) = Op_receive (case n of None \<Rightarrow> DEFAULT_RECEIVE_LIMIT | Some k \<Rightarrow> k)"
| "async_op (Sync_receive_into len) = Op_receive_into len"
| "async_op (Sync_receive_available limit) = Op_receive_available limit"
| "async_op (Sync_send item) = Op_send item"
| "async_op Sync_send_eof = Op_send_eof"
| "async_op (Sync_configure config) = Op_configure config"
| "async_op Sync_reset_input_buffer = Op_reset_input_buffer"
| "async_op Sync_reset_output_buffer = Op_reset_output_buffer"
| "async_op Sync_drain = Op_drain"
| "async_op Sync_drain_exact = Op_drain_exact"
| "async_op (Sync_send_break d) = Op_send_break (case d of None \<Rightarrow> Fin (1/4) | Some x \<Rightarrow> x)"
| "async_op Sync_modem_lines = Op_modem_lines"
| "async_op (Sync_set_control_lines rts dtr) = Op_set_control_lines rts dtr"

definition cancelled :: exn where "cancelled = exn_msg CancelledError"

text \<open>\<open>anyio.fail_after\<close>, of which \<open>expired\<close> says whether it cancelled the coroutine.\<close>

definition fail_after :: "bool \<Rightarrow> exn + outcome \<Rightarrow> exn + outcome" where
  "fail_after expired r = (if expired \<and> r = Inl cancelled then Inl (exn_msg TimeoutError) else r)"

definition call_with_timeout :: "pyfloat option \<Rightarrow> bool \<Rightarrow> exn + outcome \<Rightarrow> exn + outcome" where
  "call_with_timeout timeout expired r =
     (case timeout of None \<Rightarrow> r | Some t \<Rightarrow> fail_after expired r)"

definition sync_is_open :: "sync_port \<Rightarrow> 'b sync_backend \<Rightarrow> 'b port \<Rightarrow> bool" where
  "sync_is_open q vt p \<longleftrightarrow> \<not> sp_closed q \<and> port_is_open vt p"

subsection \<open>One call on the portal\<close>

text \<open>
  The state of a call in progress: whether it has been cancelled, and how its last step ended. Only the
  expiry of a timeout cancels the coroutine of a blocking call.
\<close>

inductive blocking for vt :: "'b sync_backend" and sent received :: "'b \<Rightarrow> bytes" and good :: "'b \<Rightarrow> bool"
  and op :: op and timeout :: "pyfloat option" and s\<^sub>0 :: "'b system" where
  issued: "port_step vt sent received good s\<^sub>0 (Called op r) s \<Longrightarrow>
    blocking vt sent received good op timeout s\<^sub>0 False r s"
| others: "blocking vt sent received good op timeout s\<^sub>0 x (Inr (Park pc a)) s \<Longrightarrow> port_step vt sent received good s l s' \<Longrightarrow>
    blocking vt sent received good op timeout s\<^sub>0 x (Inr (Park pc a)) s'"
| resumed: "blocking vt sent received good op timeout s\<^sub>0 x (Inr (Park pc a)) s \<Longrightarrow>
    t = \<lparr>t_op = op, t_pc = pc, t_sent = sent (p_backend (fst s\<^sub>0)), t_received = received (p_backend (fst s\<^sub>0))\<rparr> \<Longrightarrow>
    port_step vt sent received good s (Woken t w r) s' \<Longrightarrow> w \<noteq> W_throw cancelled \<Longrightarrow>
    blocking vt sent received good op timeout s\<^sub>0 x r s'"
| expired: "blocking vt sent received good op timeout s\<^sub>0 x (Inr (Park pc a)) s \<Longrightarrow>
    t = \<lparr>t_op = op, t_pc = pc, t_sent = sent (p_backend (fst s\<^sub>0)), t_received = received (p_backend (fst s\<^sub>0))\<rparr> \<Longrightarrow>
    port_step vt sent received good s (Woken t (W_throw cancelled) r) s' \<Longrightarrow> timeout \<noteq> None \<Longrightarrow>
    blocking vt sent received good op timeout s\<^sub>0 True r s'"

text \<open>What the method returns or raises when the call has ended.\<close>

fun ended :: "exn + progress \<Rightarrow> (exn + outcome) option" where
  "ended (Inl e) = Some (Inl e)"
| "ended (Inr (Return v)) = Some (Inr v)"
| "ended (Inr (Park pc a)) = None"

definition blocking_result :: "pyfloat option \<Rightarrow> bool \<Rightarrow> exn + progress \<Rightarrow> (exn + outcome) option" where
  "blocking_result timeout x r = map_option (call_with_timeout timeout x) (ended r)"

lemma blocking_reachable:
  "blocking vt sent received good op timeout s\<^sub>0 x r s \<Longrightarrow> port_reachable vt sent received good s\<^sub>0 \<Longrightarrow>
     port_reachable vt sent received good s"
  by (induction rule: blocking.induct) (blast intro: port_reachable.step)+

lemma blocking_untimed: "blocking vt sent received good op None s\<^sub>0 x r s \<Longrightarrow> \<not> x"
  by (induction rule: blocking.induct) auto

text \<open>A call that has ended did so in its last step: in its start, or when it was woken.\<close>

lemma blocking_last:
  assumes "blocking vt sent received good op timeout s\<^sub>0 x r s" and "ended r \<noteq> None"
    and "port_reachable vt sent received good s\<^sub>0"
  obtains (at_once) "port_step vt sent received good s\<^sub>0 (Called op r) s" "\<not> x"
  | (woken) s' w pc where "port_reachable vt sent received good s'"
      "port_step vt sent received good s' (Woken \<lparr>t_op = op, t_pc = pc, t_sent = sent (p_backend (fst s\<^sub>0)),
         t_received = received (p_backend (fst s\<^sub>0))\<rparr> w r) s"
  using assms(1)
proof cases
  case (expired x pc a s' t)
  then show thesis using woken blocking_reachable assms(3) by blast
next
  case (resumed pc a s' t w)
  then show thesis using woken blocking_reachable assms(3) by blast
qed (use assms(2) at_once in auto)

subsection \<open>Timeouts and data\<close>

abbreviation linux_blocking :: "termios_mod \<Rightarrow> op \<Rightarrow> pyfloat option \<Rightarrow> 'k linux_backend_scheme system \<Rightarrow> bool \<Rightarrow>
    exn + progress \<Rightarrow> 'k linux_backend_scheme system \<Rightarrow> bool" where
  "linux_blocking m \<equiv> blocking (linux_vt m) log_sent log_received linux_wf"

definition send_ends :: "bytes \<Rightarrow> bytes \<Rightarrow> exn + outcome \<Rightarrow> bytes \<Rightarrow> bool" where
  "send_ends base d res sent' \<longleftrightarrow>
     (case res of Inr v \<Rightarrow> v = V_unit \<and> sent' = base @ d | Inl e \<Rightarrow> \<exists>k<length d. sent' = base @ take k d)"

definition read_ends :: "op \<Rightarrow> serial_config \<Rightarrow> bytes \<Rightarrow> exn + outcome \<Rightarrow> bytes \<Rightarrow> bool" where
  "read_ends op c base res received' \<longleftrightarrow>
     (case res of Inr v \<Rightarrow> \<exists>bs. read_reply op c bs = Some v \<and> received' = base @ bs | Inl e \<Rightarrow> received' = base)"

text \<open>Turning a cancellation into a timeout does not change what an end says about the data.\<close>

lemma call_with_timeout_cases:
  "call_with_timeout timeout x r = r \<or> r = Inl cancelled \<and> x \<and> call_with_timeout timeout x r = Inl (exn_msg TimeoutError)"
  by (auto simp: call_with_timeout_def fail_after_def split: option.split)

lemma ends_timeout:
  "send_ends base d r b \<Longrightarrow> send_ends base d (call_with_timeout timeout x r) b"
  "read_ends op c base r b \<Longrightarrow> read_ends op c base (call_with_timeout timeout x r) b"
  using call_with_timeout_cases [of timeout x r] by (auto simp: send_ends_def read_ends_def)

lemma ended_Some: "ended r = Some q \<longleftrightarrow> (\<exists>e. r = Inl e \<and> q = Inl e) \<or> (\<exists>v. r = Inr (Return v) \<and> q = Inr v)"
  by (cases r rule: ended.cases) auto

lemma read_start_waits:
  assumes "is_read op" "start vt op p = (r, p')"
  shows "(\<exists>e. r = Inl e) \<or> (\<exists>pc a. r = Inr (Park pc a))"
  using assms
  by (auto simp: is_read_def start_receive_def start_receive_into_def start_receive_available_def enter_recv_def
      leave_recv_def raise_if_closed_def port_fileno_def io_ctl_defs split: if_splits)

lemma send_start_waits:
  assumes "d \<noteq> []" "start vt (Op_send d) p = (r, p')"
  shows "(\<exists>e. r = Inl e) \<or> (\<exists>pc a. r = Inr (Park pc a))"
  using assms
  by (auto simp: start_send_def enter_send_def leave_send_def raise_if_closed_def port_fileno_def io_ctl_defs
      split: if_splits)

context sync_backend_laws
begin

lemma blocking_send_ends:
  assumes "port_reachable vt sent received good s\<^sub>0"
    and "blocking vt sent received good (Op_send d) timeout s\<^sub>0 x r s" and "ended r = Some q" and "d \<noteq> []"
  shows "send_ends (sent (p_backend (fst s\<^sub>0))) d q (sent (p_backend (fst s)))"
proof -
  have "ended r \<noteq> None" using assms(3) by simp
  from assms(2) this assms(1) show ?thesis
  proof (cases rule: blocking_last)
    case at_once
    from at_once(1) show ?thesis
    proof cases
      case (call p p' ts)
      from start_same_data(1) [OF call(3)] send_start_waits [OF assms(4) call(3)] call assms(3,4) show ?thesis
        by (auto simp: send_ends_def ended_Some intro: exI [of _ 0])
    qed
  next
    case (woken s' w pc)
    let ?t = "\<lparr>t_op = Op_send d, t_pc = pc, t_sent = sent (p_backend (fst s\<^sub>0)), t_received = received (p_backend (fst s\<^sub>0))\<rparr>"
    from woken(2) show ?thesis
    proof cases
      case (wake p p' ts us)
      with calls_reachable [OF woken(1)] have ok: "call_ok sent received p ?t" by simp
      then obtain k fd where "pc = At_send d k fd" by (auto simp: call_ok_def dest!: send_pc)
      with resumed [OF ok, of w r p'] wake assms(3) show ?thesis
        by (auto simp: sent_exactly_def send_ends_def ended_Some)
    qed
  qed
qed

lemma blocking_read_ends:
  assumes "port_reachable vt sent received good s\<^sub>0"
    and "blocking vt sent received good op timeout s\<^sub>0 x r s" and "ended r = Some q" and "is_read op"
  shows "read_ends op (p_config (fst s)) (received (p_backend (fst s\<^sub>0))) q (received (p_backend (fst s)))"
proof -
  have "ended r \<noteq> None" using assms(3) by simp
  from assms(2) this assms(1) show ?thesis
  proof (cases rule: blocking_last)
    case at_once
    from at_once(1) show ?thesis
    proof cases
      case (call p p' ts)
      from start_same_data(2) [OF call(3)] read_start_waits [OF assms(4) call(3)] call assms(3) show ?thesis
        by (auto simp: read_ends_def ended_Some)
    qed
  next
    case (woken s' w pc)
    let ?t = "\<lparr>t_op = op, t_pc = pc, t_sent = sent (p_backend (fst s\<^sub>0)), t_received = received (p_backend (fst s\<^sub>0))\<rparr>"
    from woken(2) show ?thesis
    proof cases
      case (wake p p' ts us)
      with calls_reachable [OF woken(1)] have ok: "call_ok sent received p ?t" by simp
      then have "call_at op pc" by (simp add: call_ok_def)
      with read_outcome [of ?t sent received r p'] resumed [OF ok, of w r p'] wake assms(3,4) show ?thesis
        by (auto simp: read_result_def read_ends_def ended_Some)
    qed
  qed
qed

end

text \<open>A call that was cancelled has been woken last, and a woken call that ends leaves no guard held.\<close>

lemma woken_end_releases:
  assumes "port_reachable vt sent received good s" "port_step vt sent received good s (Woken t w r) s'" "ended r \<noteq> None"
  shows "(sending (t_pc t) \<longrightarrow> \<not> p_send_busy (fst s')) \<and> (receiving (t_pc t) \<longrightarrow> \<not> p_recv_busy (fst s'))"
  using assms(2)
proof cases
  case (wake p p' ts us)
  from guards_reachable [OF assms(1)] wake(1) have "guards_ok (p, ts @ t # us)" by simp
  then have "receiving (t_pc t) \<Longrightarrow> p_recv_busy p" "sending (t_pc t) \<Longrightarrow> p_send_busy p"
    by (rule_tac [!] ccontr) auto
  from resume_guards [OF wake(3) this] assms(3) wake show ?thesis
    by (cases r rule: ended.cases) (auto simp: guard_resume_def)
qed

context sync_backend_laws
begin

lemma expired_call_releases:
  assumes "port_reachable vt sent received good s\<^sub>0"
    and "blocking vt sent received good op timeout s\<^sub>0 x r s" and "ended r = Some q" and "x"
  shows "(\<forall>d. op = Op_send d \<longrightarrow> \<not> p_send_busy (fst s)) \<and> (is_read op \<longrightarrow> \<not> p_recv_busy (fst s))"
proof -
  have ended: "ended r \<noteq> None" using assms(3) by simp
  from assms(2) this assms(1) show ?thesis
  proof (cases rule: blocking_last)
    case at_once
    with assms(4) show ?thesis by simp
  next
    case (woken s' w pc)
    let ?t = "\<lparr>t_op = op, t_pc = pc, t_sent = sent (p_backend (fst s\<^sub>0)), t_received = received (p_backend (fst s\<^sub>0))\<rparr>"
    from woken(2) have "call_at op pc"
    proof cases
      case (wake p p' ts us)
      with calls_reachable [OF woken(1)] show ?thesis by (simp add: call_ok_def)
    qed
    then have "op = Op_send d \<Longrightarrow> sending pc" "is_read op \<Longrightarrow> receiving pc" for d
      by (cases pc; auto simp: is_read_def)+
    with woken_end_releases [OF woken ended] show ?thesis by auto
  qed
qed

end

subsection \<open>Properties\<close>

text \<open>C12: A blocking call on a Linux port is as exact as the coroutine it runs, timeouts included, whatever other threads
  do meanwhile: when \<open>send\<close> returns exactly its data has been accepted, when it raises, \<open>TimeoutError\<close>
  included, a proper prefix; when a read returns it has what was delivered since the call, when it
  raises nothing was consumed. Without a timeout no \<open>TimeoutError\<close> is made up, and a call whose
  timeout expired while it waited holds no guard any more, so the port can be used at once.\<close>

theorem blocking_call_exact:
  assumes "linux_reachable m s\<^sub>0" and "linux_blocking m op timeout s\<^sub>0 x r s" and "blocking_result timeout x r = Some res"
  shows "(\<forall>d. op = Op_send d \<and> d \<noteq> [] \<longrightarrow>
        send_ends (log_sent (p_backend (fst s\<^sub>0))) d res (log_sent (p_backend (fst s))) \<and> (x \<longrightarrow> \<not> p_send_busy (fst s)))
    \<and> (is_read op \<longrightarrow>
        read_ends op (p_config (fst s)) (log_received (p_backend (fst s\<^sub>0))) res (log_received (p_backend (fst s)))
        \<and> (x \<longrightarrow> \<not> p_recv_busy (fst s)))
    \<and> (timeout = None \<longrightarrow> \<not> x \<and> ended r = Some res)"
proof -
  from assms(3) obtain q where q: "ended r = Some q" "res = call_with_timeout timeout x q"
    by (auto simp: blocking_result_def)
  have "send_ends (log_sent (p_backend (fst s\<^sub>0))) d res (log_sent (p_backend (fst s)))"
    if "op = Op_send d" "d \<noteq> []" for d
    using linux.blocking_send_ends [OF assms(1) assms(2) [unfolded that] q(1) that(2)]
    unfolding q(2) by (rule ends_timeout)
  moreover have "read_ends op (p_config (fst s)) (log_received (p_backend (fst s\<^sub>0))) res (log_received (p_backend (fst s)))"
    if "is_read op"
    using linux.blocking_read_ends [OF assms(1,2) q(1) that] unfolding q(2) by (rule ends_timeout)
  moreover have "\<not> x \<and> ended r = Some res" if "timeout = None"
    using blocking_untimed [OF assms(2) [unfolded that]] q that by (simp add: call_with_timeout_def)
  ultimately show ?thesis using linux.expired_call_releases [OF assms(1,2) q(1)] by blast
qed

text \<open>A send that times out after the port has taken nothing: the guard is free.\<close>

lemma blocking_call_exact_witness:
  "\<exists>p :: linux_backend port. blocking_result (Some (Fin 1)) True (Inl cancelled) = Some (Inl (exn_msg TimeoutError))
     \<and> linux_blocking linux_termios (Op_send [1, 2, 3]) (Some (Fin 1)) (demo_port, []) True (Inl cancelled) (p, [])
     \<and> send_ends [] [1, 2, 3] (Inl (exn_msg TimeoutError)) (log_sent (p_backend p)) \<and> \<not> p_send_busy p"
proof -
  let ?d = "[1, 2, 3]" and ?t = "demo_call (Op_send [1, 2, 3]) (At_send [1, 2, 3] 0 3)"
  obtain p where start: "start (linux_vt linux_termios) (Op_send ?d) demo_port = (Inr (Park (At_send ?d 0 3) (A_writable 3)), p)"
    using demo_send by blast
  obtain p' where thrown: "resume (linux_vt linux_termios) (At_send ?d 0 3) (W_throw cancelled) p = (Inl cancelled, p')"
    by (simp add: leave_send_def io_raise_def)
  have issue: "linux_blocking linux_termios (Op_send ?d) (Some (Fin 1)) (demo_port, []) False
      (Inr (Park (At_send ?d 0 3) (A_writable 3))) (p, [?t])"
    using blocking.issued [OF port_step.call [OF start, where sent = log_sent and received = log_received and good = linux_wf
        and ts = "[]"]] by (simp add: demo_call_def demo_data)
  have run: "linux_blocking linux_termios (Op_send ?d) (Some (Fin 1)) (demo_port, []) True (Inl cancelled) (p', [])"
    using blocking.expired [OF issue _ demo_woken [OF thrown, of "Op_send ?d"]] by (simp add: demo_call_def demo_data)
  have res: "blocking_result (Some (Fin 1)) True (Inl cancelled) = Some (Inl (exn_msg TimeoutError))"
    by (simp add: blocking_result_def call_with_timeout_def fail_after_def)
  from blocking_call_exact [OF demo_reachable run res] run res show ?thesis by (auto simp: demo_data)
qed

text \<open>C17: \<open>close(timeout=...)\<close> may give the port up while its device stays open: if the timeout expires before the
  coroutine holds the close lock, \<open>aclose\<close> is cancelled with the asynchronous port unchanged, \<open>close\<close>
  raises \<open>TimeoutError\<close>, and by then the blocking port is marked closed and has left the portal, so that
  calling \<open>close\<close> again returns at once and does nothing.\<close>

theorem sync_close_timeout_gives_up:
  assumes "linux_reachable m (p, ts)" and "port_is_open (linux_vt m) p"
    and "i < length (ps_ports ps)" and "\<not> sp_closed (ps_ports ps ! i)"
  shows "linux_blocking m Op_aclose (Some t) (p, ts) True (Inl cancelled) (p, ts)
    \<and> blocking_result (Some t) True (Inl cancelled) = Some (Inl (exn_msg TimeoutError))
    \<and> (\<exists>ps'. sync_close i (io_raise (exn_msg TimeoutError)) ps = (Inl (exn_msg TimeoutError), ps')
        \<and> sp_closed (ps_ports ps' ! i) \<and> \<not> sp_portal_entered (ps_ports ps' ! i)
        \<and> \<not> sync_is_open (ps_ports ps' ! i) (linux_vt m) p \<and> 0 \<le> pb_fd (p_backend p)
        \<and> sync_close i again ps' = (Inr (), ps'))"
proof -
  let ?t = "\<lparr>t_op = Op_aclose, t_pc = At_close, t_sent = log_sent (p_backend p), t_received = log_received (p_backend p)\<rparr>"
  have start: "start (linux_vt m) Op_aclose p = (Inr (Park At_close A_lock), p)"
    and thrown: "resume (linux_vt m) (t_pc ?t) (W_throw cancelled) p = (Inl cancelled, p)"
    by (simp_all add: io_ctl_defs)
  have issue: "linux_blocking m Op_aclose (Some t) (p, ts) False (Inr (Park At_close A_lock)) (p, ts @ [?t])"
    using blocking.issued [OF port_step.call [OF start, where sent = log_sent and received = log_received and good = linux_wf
        and ts = ts]] by simp
  have "linux_blocking m Op_aclose (Some t) (p, ts) True (Inl cancelled) (p, ts)"
    using blocking.expired [OF issue _ port_step.wake [OF thrown, where ts = ts and us = "[]"]] by simp
  moreover have "blocking_result (Some t) True (Inl cancelled) = Some (Inl (exn_msg TimeoutError))"
    by (simp add: blocking_result_def call_with_timeout_def fail_after_def)
  ultimately show ?thesis using assms
    by (simp add: sync_close_def close_runs release_portal_run io_finally_def sync_is_open_def port_is_open_def linux_vt_def posix_vt_def
        posix_is_open_def io_ctl_defs)
qed

lemma sync_close_timeout_gives_up_witness:
  "\<exists>ps'. sync_close 0 (io_raise (exn_msg TimeoutError)) (portal_init\<lparr>ps_ports := [sync_port_init 0]\<rparr>)
       = (Inl (exn_msg TimeoutError), ps') \<and> \<not> sp_portal_entered (ps_ports ps' ! 0) \<and> 0 \<le> pb_fd (p_backend demo_port)"
proof -
  have "port_is_open (linux_vt linux_termios) demo_port"
    by (simp add: port_is_open_def demo_defs posix_is_open_def)
  from sync_close_timeout_gives_up [OF demo_reachable this, of 0 "portal_init\<lparr>ps_ports := [sync_port_init 0]\<rparr>" "Fin 0" "io_return ()"]
  show ?thesis by (auto simp: sync_port_init_def)
qed

end
