(* ===== verification/Open_Port.thy ===== *)
theory Open_Port
  imports Port_Claims Linux_Discovery
begin

section \<open>Opening a port (\<open>open_serial_port\<close> in \<open>stream.py\<close>)\<close>

text \<open>
  The synchronous branch of \<open>open_serial_port\<close>: the backend is opened with its \<open>OSError\<close>s translated,
  the metadata of the path is resolved, and the port is built around the backend. The backend's
  operations and the resolver are arguments; the theorem is about the Linux backend, the sysfs
  resolver and the system of calls of theory \<open>Port_System\<close> together.
\<close>

definition open_sync_port ::
  "'b sync_backend \<Rightarrow> (string \<Rightarrow> exn + port_info option) \<Rightarrow> string \<Rightarrow> serial_config option \<Rightarrow>
   ('b, exn, 'b port \<times> port_info option) io" where
  "open_sync_port vt resolve_info path config =
     (let cfg = (case config of None \<Rightarrow> default_config | Some c \<Rightarrow> c) in
      io_seq
        (io_try (bk_open vt path cfg)
          (\<lambda>e. if isinstance e OSError then io_raise (errno_to_exception e ''open'' (Some path))
                else io_raise e))
        (io_bind (io_lift (resolve_info path)) (\<lambda>port_info.
         io_get (\<lambda>b. (new_port b cfg, port_info)))))"

definition linux_info_resolver :: "filesystem \<Rightarrow> family \<Rightarrow> string \<Rightarrow> exn + port_info option" where
  "linux_info_resolver fs f path =
     (if f = LinuxFamily then linux_resolve_port_info fs DEFAULT_SYS_ROOT DEFAULT_DEV_ROOT path
      else Inl (exn_msg RuntimeError))"

definition linux_open_serial_port ::
  "termios_mod \<Rightarrow> filesystem \<Rightarrow> string \<Rightarrow> serial_config option \<Rightarrow>
   ('k linux_backend_scheme, exn, 'k linux_backend_scheme port \<times> port_info option) io" where
  "linux_open_serial_port m fs =
     open_sync_port (linux_vt m) (resolve_port_info_for_path (linux_info_resolver fs) (t_platform m))"

lemma new_port_fields [simp]: "p_backend (new_port b c) = b" "p_config (new_port b c) = c"
  "\<not> p_closed (new_port b c)"
  by (simp_all add: new_port_def)

lemma linux_vt_ops [simp]: "bk_is_open (linux_vt m) = posix_is_open" "bk_open (linux_vt m) = linux_open m"
  by (simp_all add: linux_vt_def posix_vt_def)

lemma linux_info_found:
  assumes "starts_with ''linux'' (t_platform m)" "fails_as_os fs"
  obtains r where "resolve_port_info_for_path (linux_info_resolver fs) (t_platform m) path = Inr r"
    "linux_resolve_port_info fs DEFAULT_SYS_ROOT DEFAULT_DEV_ROOT path = Inr r"
proof -
  obtain r where r: "linux_resolve_port_info fs DEFAULT_SYS_ROOT DEFAULT_DEV_ROOT path = Inr r"
    using linux_resolve_port_info_total [OF assms(2)] by blast
  then show thesis
    using assms(1)
    by (intro that) (simp_all add: resolve_port_info_for_path_def platform_port_info_resolver_def linux_info_resolver_def)
qed

text \<open>C33: On Linux \<open>open_serial_port\<close> either returns an open port that starts a run of the port system,
  with the requested configuration mirrored, one descriptor more, and the metadata that discovery
  lists for its device, or raises with the backend closed and no descriptor leaked; what it raises is
  a \<open>SerialError\<close> unless it was no \<open>OSError\<close> (as \<open>termios.error\<close> is not).\<close>

theorem linux_open_serial_port_outcomes:
  assumes "starts_with ''linux'' (t_platform m)" and "fails_as_os fs"
    and "linux_inv base s" and "\<not> posix_is_open s"
    and "lists_directory fs DEFAULT_SYS_ROOT"
    and "linux_enumerate_ports fs DEFAULT_SYS_ROOT DEFAULT_DEV_ROOT = Inr ports"
  shows "case linux_open_serial_port m fs path config s of
      (Inr (port, info), s') \<Rightarrow> p_backend port = s' \<and> linux_reachable m (port, [])
        \<and> port_is_open (linux_vt m) port \<and> pb_path s' = path
        \<and> p_config port = (case config of None \<Rightarrow> default_config | Some c \<Rightarrow> c)
        \<and> open_fds (k_log s') = open_fds (k_log s) + {#pb_fd s'#}
        \<and> (\<forall>p\<in>set ports. pi_device p = path \<longrightarrow> info = Some p)
    | (Inl e, s') \<Rightarrow> \<not> posix_is_open s' \<and> open_fds (k_log s') = open_fds (k_log s)
        \<and> (isinstance e SerialError \<or> \<not> isinstance e OSError)"
proof -
  obtain info where info: "resolve_port_info_for_path (linux_info_resolver fs) (t_platform m) path = Inr info"
    "linux_resolve_port_info fs DEFAULT_SYS_ROOT DEFAULT_DEV_ROOT path = Inr info"
    using linux_info_found [OF assms(1,2)] .
  let ?cfg = "case config of None \<Rightarrow> default_config | Some c \<Rightarrow> c"
  have base: "base = open_fds (k_log s)" using assms(3,4) by (simp add: linux_inv_def)
  have listed: "info = Some p" if "p \<in> set ports" "pi_device p = path" for p
  proof -
    have "list_all component_name DEFAULT_DEV_ROOT" by (simp add: DEFAULT_DEV_ROOT_def component_name_def)
    from linux_lookup [OF assms(5) this assms(6), THEN conjunct2] that(1)
    have "linux_resolve_port_info fs DEFAULT_SYS_ROOT DEFAULT_DEV_ROOT (pi_device p) = Inr (Some p)"
      by (simp add: list_all_iff)
    with info(2) that(2) show ?thesis by simp
  qed
  have "wp (linux_open_serial_port m fs path config)
      (\<lambda>r s'. case r of (port, i) \<Rightarrow> port = new_port s' ?cfg \<and> i = info \<and> linux_inv base s' \<and> posix_is_open s'
         \<and> pb_path s' = path)
      (\<lambda>e s'. linux_inv base s' \<and> \<not> posix_is_open s' \<and> (isinstance e SerialError \<or> \<not> isinstance e OSError)) s"
    unfolding linux_open_serial_port_def open_sync_port_def Let_def wp_simps info linux_vt_ops
    by (rule wp_mono [OF linux_open_inv [OF assms(3), of m path ?cfg]]) (use assms(4) in auto)
  note run = this
  have start: "linux_reachable m (new_port s' ?cfg, [])" "port_is_open (linux_vt m) (new_port s' ?cfg)"
    "open_fds (k_log s') = open_fds (k_log s) + {#pb_fd s'#}"
    if "linux_inv base s'" "posix_is_open s'" for s'
    using that base by (auto intro!: port_reachable.opened simp: linux_inv_def port_is_open_def)
  have stop: "open_fds (k_log s') = open_fds (k_log s)" if "linux_inv base s'" "\<not> posix_is_open s'" for s'
    using that base by (simp add: linux_inv_def)
  obtain r s' where r: "linux_open_serial_port m fs path config s = (r, s')" by fastforce
  show ?thesis
  proof (cases r)
    case (Inl e)
    then show ?thesis using run r stop [of s'] by (simp add: wp_def)
  next
    case (Inr res)
    then show ?thesis using run r start [of s'] listed by (cases res) (simp add: wp_def)
  qed
qed

text \<open>The witness opens the demonstration adapter with the default configuration.\<close>

lemma linux_open_serial_port_outcomes_witness:
  "case linux_open_serial_port linux_termios demo_fs ''/dev/ttyUSB0'' None (linux_init good_env []) of
      (Inr (port, info), s') \<Rightarrow> linux_reachable linux_termios (port, []) \<and> info = Some demo_usb_port
    | (Inl e, s') \<Rightarrow> open_fds (k_log s') = {#}"
proof -
  have "starts_with ''linux'' (t_platform linux_termios)" "fails_as_os demo_fs" "\<not> posix_is_open (linux_init good_env [])"
    by (simp_all add: linux_termios_def starts_with_def fails_as_os_def demo_fs_def linux_init_def
        posix_is_open_def isinstance_simps exn_os_def)
  moreover have "pi_device demo_usb_port = ''/dev/ttyUSB0''" by (simp add: demo_usb_port_def bare_port_def)
  ultimately show ?thesis
    using linux_open_serial_port_outcomes [OF _ _ linux_init_inv [of "[]" good_env] _ demo_lists demo_enumerate,
        of linux_termios "''/dev/ttyUSB0''" None]
    by (auto simp: linux_init_def split: prod.splits sum.splits)
qed

end
