(* ===== verification/Send_Buffer.thy ===== *)
theory Send_Buffer
  imports Port_Claims
begin

section \<open>Sending any buffer (\<open>send_buffer\<close> in \<open>stream.py\<close>)\<close>

text \<open>
  \<open>send_buffer\<close> takes any object of the buffer protocol and passes a \<open>memoryview\<close> on; \<open>_send_view\<close>
  measures it by \<open>len\<close>, slices it by the running offset and adds what each write accepted. Theory
  \<open>Stream\<close> has this loop over a flat sequence of bytes; here it is over a view, whose length and
  slices count elements of its first dimension and whose writes count bytes. A view is its shape, its
  item size, its contents in C order, and the layout as far as Python's conversions ask for it. A
  slice is modelled of a C-contiguous view; every other view is refused by its first write.
\<close>

subsection \<open>Memory views\<close>

record memview =
  mv_shape :: "nat list"
  mv_itemsize :: nat
  mv_bytes :: bytes
  mv_c_contiguous :: bool
  mv_contiguous :: bool
  mv_native :: bool

definition flat_view :: "bytes \<Rightarrow> memview" where
  "flat_view d = \<lparr>mv_shape = [length d], mv_itemsize = 1, mv_bytes = d, mv_c_contiguous = True,
     mv_contiguous = True, mv_native = True\<rparr>"

definition view_ok :: "memview \<Rightarrow> bool" where
  "view_ok v \<longleftrightarrow> length (mv_bytes v) = prod_list (mv_shape v) * mv_itemsize v
     \<and> 0 < mv_itemsize v \<and> (mv_c_contiguous v \<longrightarrow> mv_contiguous v)"

definition is_flat :: "memview \<Rightarrow> bool" where
  "is_flat v \<longleftrightarrow> mv_shape v = [length (mv_bytes v)] \<and> mv_itemsize v = 1 \<and> mv_c_contiguous v"

text \<open>\<open>len(view)\<close>, \<open>view[k:]\<close> and \<open>view.cast("B")\<close>.\<close>

definition view_len :: "memview \<Rightarrow> exn + nat" where
  "view_len v = (case mv_shape v of [] \<Rightarrow> Inl (exn_msg TypeError) | n # ns \<Rightarrow> Inr n)"

definition row_size :: "memview \<Rightarrow> nat" where
  "row_size v = prod_list (tl (mv_shape v)) * mv_itemsize v"

definition view_from :: "nat \<Rightarrow> memview \<Rightarrow> memview" where
  "view_from k v = v\<lparr>mv_shape := (hd (mv_shape v) - k) # tl (mv_shape v),
     mv_bytes := drop (k * row_size v) (mv_bytes v)\<rparr>"

definition cast_bytes :: "memview \<Rightarrow> exn + memview" where
  "cast_bytes v =
     (if \<not> mv_c_contiguous v then Inl (exn_msg TypeError)
      else if length (mv_shape v) \<noteq> 1 \<and> 0 \<in> set (mv_shape v) then Inl (exn_msg TypeError)
      else if \<not> mv_native v then Inl (exn_msg ValueError)
      else Inr (flat_view (mv_bytes v)))"

subsection \<open>The method\<close>

definition send_buffer_view :: "memview \<Rightarrow> exn + memview" where
  "send_buffer_view v =
     (if mv_itemsize v \<noteq> 1
      then (if mv_contiguous v then cast_bytes v else Inr (flat_view (mv_bytes v)))
      else Inr v)"

text \<open>A write takes the bytes of the view, which has to be C-contiguous.\<close>

definition write_view :: "'b sync_backend \<Rightarrow> memview \<Rightarrow> ('b, exn, nat) io" where
  "write_view vt v = (if mv_c_contiguous v then bk_write vt (mv_bytes v) else io_raise (exn_msg BufferError))"

text \<open>The parked call is at the counter of its bytes; the offset counts elements of the first dimension.\<close>

definition send_view_step :: "'b sync_backend \<Rightarrow> memview \<Rightarrow> nat \<Rightarrow> nat \<Rightarrow> int \<Rightarrow> ('b, progress) port_io" where
  "send_view_step vt v len offset fd =
     io_bind (attempt vt (write_view vt (view_from offset v))) (\<lambda>r.
     let offset' = (case r of None \<Rightarrow> offset | Some written \<Rightarrow> offset + written) in
     if offset' < len then io_return (Park (At_send (mv_bytes v) offset' fd) (A_writable fd))
     else io_return (Return V_unit))"

definition start_send_view :: "'b sync_backend \<Rightarrow> memview \<Rightarrow> ('b, progress) port_io" where
  "start_send_view vt v =
     io_bind (io_lift (view_len v)) (\<lambda>len.
       if len = 0 then io_seq (raise_if_closed vt) (io_return (Return V_unit))
       else enter_send (io_seq (raise_if_closed vt)
         (io_bind (port_fileno vt) (\<lambda>fd. io_return (Park (At_send (mv_bytes v) 0 fd) (A_writable fd))))))"

definition resume_send_view :: "'b sync_backend \<Rightarrow> memview \<Rightarrow> nat \<Rightarrow> nat \<Rightarrow> int \<Rightarrow> ('b, progress) port_io" where
  "resume_send_view vt v len offset fd =
     leave_send (io_seq (raise_if_closed vt) (send_view_step vt v len offset fd))"

definition start_send_buffer :: "'b sync_backend \<Rightarrow> memview \<Rightarrow> ('b, progress) port_io" where
  "start_send_buffer vt v = io_bind (io_lift (send_buffer_view v)) (start_send_view vt)"

subsection \<open>Flat views\<close>

lemma flat_view_flat [simp]: "is_flat (flat_view d)" "mv_bytes (flat_view d) = d"
  by (simp_all add: is_flat_def flat_view_def)

lemma bind_lift_Inr [simp]: "io_bind (io_lift (Inr x)) f = f x"
  by (simp add: io_bind_def io_lift_def)

lemma row_size_flat: "is_flat v \<Longrightarrow> row_size v = 1"
  by (simp add: is_flat_def row_size_def)

lemma flat_step: "is_flat v \<Longrightarrow> send_view_step vt v (length (mv_bytes v)) k fd = send_step vt (mv_bytes v) k fd"
  by (simp add: send_view_step_def send_step_def write_view_def view_from_def row_size_flat)
    (simp add: is_flat_def)

text \<open>C15: On a flat view the loop over memory views is the loop over bytes: \<open>send_buffer\<close> of any C-contiguous or
  non-contiguous buffer of wide elements, and of any one-dimensional contiguous buffer of bytes, is
  \<open>send\<close> of the bytes of the buffer, from its start and at each of its awaits.\<close>

theorem send_buffer_is_send:
  assumes "view_ok v" and "mv_itemsize v \<noteq> 1 \<and> mv_native v \<and> 0 \<notin> set (mv_shape v) \<and> (mv_contiguous v \<longrightarrow> mv_c_contiguous v)
      \<or> mv_itemsize v = 1 \<and> length (mv_shape v) = 1 \<and> mv_c_contiguous v"
  shows "\<exists>u. send_buffer_view v = Inr u \<and> mv_bytes u = mv_bytes v
    \<and> start_send_buffer vt v = start vt (Op_send (mv_bytes v))
    \<and> resume_send_view vt u (length (mv_bytes v)) k fd = resume vt (At_send (mv_bytes v) k fd) W_ready"
proof -
  obtain u where u: "send_buffer_view v = Inr u" "is_flat u" "mv_bytes u = mv_bytes v"
    using assms
  proof (elim disjE conjE)
    assume "mv_itemsize v \<noteq> 1" "mv_native v" "0 \<notin> set (mv_shape v)" "mv_contiguous v \<longrightarrow> mv_c_contiguous v"
    then show thesis by (intro that [of "flat_view (mv_bytes v)"]) (simp_all add: send_buffer_view_def cast_bytes_def)
  next
    assume *: "mv_itemsize v = 1" "length (mv_shape v) = 1" "mv_c_contiguous v"
    then obtain n where "mv_shape v = [n]" by (auto simp: length_Suc_conv)
    with * assms(1) show thesis by (intro that [of v]) (simp_all add: send_buffer_view_def is_flat_def view_ok_def)
  qed
  moreover have "view_len u = Inr (length (mv_bytes v))" using u(2,3) by (simp add: view_len_def is_flat_def)
  ultimately show ?thesis
    by (auto simp: start_send_buffer_def start_send_view_def start_send_def resume_send_view_def flat_step [OF u(2), unfolded u(3)])
qed

subsection \<open>Rows\<close>

text \<open>A first turn of the loop, if its write accepts \<open>n\<close> bytes.\<close>

lemma first_turn:
  assumes "mv_shape v = r # rs" "mv_c_contiguous v" "\<not> p_closed p" "bk_write vt (mv_bytes v) (p_backend p) = (Inr n, b)"
  shows "resume_send_view vt v r 0 fd p =
    (if r \<le> n then (Inr (Return V_unit), p\<lparr>p_backend := b, p_send_busy := False\<rparr>)
     else (Inr (Park (At_send (mv_bytes v) n fd) (A_writable fd)), p\<lparr>p_backend := b\<rparr>))"
proof -
  have "view_from 0 v = v" using assms(1) by (simp add: view_from_def)
  with assms show ?thesis
    by (auto simp: resume_send_view_def send_view_step_def write_view_def attempt_def on_backend_def
        raise_if_closed_def leave_send_def io_ctl_defs Let_def)
qed

text \<open>C16: On a view of bytes with more than one dimension (a two-dimensional array of bytes, say) the loop loses
  data on the Linux backend: \<open>len\<close> and the slices count rows while a write counts bytes. If the first
  write accepts at least as many bytes as there are rows, but not all of them, \<open>send_buffer\<close> returns
  normally and the rest is never offered; if it accepts fewer, the next write goes on after that many
  rows and skips the bytes in between.\<close>

theorem send_buffer_loses_rows:
  assumes "mv_shape v = r # rs" and "mv_itemsize v = 1" and "mv_c_contiguous v" and "1 < row_size v"
    and "\<not> p_closed p" and "bk_write (linux_vt m) (mv_bytes v) (p_backend p) = (Inr n, b)"
    and "0 < n" and "n < length (mv_bytes v)"
  shows "send_buffer_view v = Inr v \<and> log_sent b = log_sent (p_backend p) @ take n (mv_bytes v)
    \<and> resume_send_view (linux_vt m) v r 0 fd p =
       (if r \<le> n then (Inr (Return V_unit), p\<lparr>p_backend := b, p_send_busy := False\<rparr>)
        else (Inr (Park (At_send (mv_bytes v) n fd) (A_writable fd)), p\<lparr>p_backend := b\<rparr>))
    \<and> mv_bytes (view_from n v) = drop (n * row_size v) (mv_bytes v) \<and> n < n * row_size v"
proof -
  have "log_sent b = log_sent (p_backend p) @ take n (mv_bytes v)"
    using linux.write_law [of m "mv_bytes v" "p_backend p"] assms(6) by (simp add: wp_def)
  with first_turn [OF assms(1,3,5,6)] assms show ?thesis
    by (simp add: send_buffer_view_def view_from_def)
qed

text \<open>Three rows of four bytes, on a line that takes five bytes.\<close>

definition demo_rows :: memview where
  "demo_rows = \<lparr>mv_shape = [3, 4], mv_itemsize = 1, mv_bytes = [0, 1, 2, 3, 4, 5, 6, 7, 8, 9, 10, 11],
     mv_c_contiguous = True, mv_contiguous = True, mv_native = True\<rparr>"

definition demo_slow_port :: "linux_backend port" where
  "demo_slow_port = new_port ((linux_init (good_env\<lparr>env_write := \<lambda>l fd d. Inr (min 5 (length d))\<rparr>) [])\<lparr>pb_fd := 3\<rparr>)
     default_config"

text \<open>Every second element of an array of 16-bit numbers.\<close>

definition demo_stride :: memview where
  "demo_stride = \<lparr>mv_shape = [2], mv_itemsize = 2, mv_bytes = [1, 0, 3, 0],
     mv_c_contiguous = False, mv_contiguous = False, mv_native = True\<rparr>"

lemma send_buffer_is_send_witness:
  "start_send_buffer (linux_vt linux_termios) demo_stride = start (linux_vt linux_termios) (Op_send [1, 0, 3, 0])"
proof -
  have "view_ok demo_stride" "mv_itemsize demo_stride \<noteq> 1 \<and> mv_native demo_stride \<and> 0 \<notin> set (mv_shape demo_stride)
      \<and> (mv_contiguous demo_stride \<longrightarrow> mv_c_contiguous demo_stride)"
    by (simp_all add: view_ok_def demo_stride_def)
  from send_buffer_is_send [OF this(1) disjI1 [OF this(2)], of "linux_vt linux_termios"] show ?thesis
    by (auto simp: demo_stride_def simp del: start.simps)
qed

lemma send_buffer_loses_rows_witness:
  "\<exists>p'. resume_send_view (linux_vt linux_termios) demo_rows 3 0 3 demo_slow_port = (Inr (Return V_unit), p')
     \<and> log_sent (p_backend p') = [0, 1, 2, 3, 4]"
proof -
  have "\<exists>b. bk_write (linux_vt linux_termios) (mv_bytes demo_rows) (p_backend demo_slow_port) = (Inr 5, b)"
    by (simp add: demo_defs demo_rows_def demo_slow_port_def)
  then obtain b where b: "bk_write (linux_vt linux_termios) (mv_bytes demo_rows) (p_backend demo_slow_port) = (Inr 5, b)"
    by blast
  have "log_sent (p_backend demo_slow_port) = []" "\<not> p_closed demo_slow_port"
    by (simp_all add: demo_slow_port_def new_port_def linux_init_def log_sent_def)
  with send_buffer_loses_rows [OF _ _ _ _ _ b, of 3 "[4]" 3] show ?thesis
    by (simp add: demo_rows_def row_size_def)
qed

end
