(* ===== verification/Buffer_Store.thy ===== *)
theory Buffer_Store
  imports Send_Buffer
begin

section \<open>Ports and the caller's memory (\<open>receive_into\<close>, \<open>send_buffer\<close> in \<open>stream.py\<close>)\<close>

text \<open>
  \<open>receive_into\<close> fills a buffer of the caller in place, and \<open>send_buffer\<close> reads one anew at each write.
  Both keep the buffer across their \<open>await\<close>s, where other tasks, and the other direction of the same
  port, may change it. Here the two loops run over a store of byte arrays; a window is the part of one
  array that a \<open>bytearray\<close> or a \<open>memoryview\<close> exports. An array cannot be resized while a view of it
  exists, so every store of a run gives a window the same size. Theory \<open>Stream\<close> returns the bytes a
  read delivered instead; the first lemmas relate the two.
\<close>

subsection \<open>Windows of a store\<close>

type_synonym store = "nat \<Rightarrow> bytes"

text \<open>\<open>wn_len\<close> is Python's \<open>len\<close>, which a view without dimensions does not have.\<close>

record window =
  wn_buffer :: nat
  wn_first :: nat
  wn_nbytes :: nat
  wn_len :: "nat option"
  wn_readonly :: bool
  wn_c_contiguous :: bool

definition contents :: "store \<Rightarrow> window \<Rightarrow> bytes" where
  "contents st v = take (wn_nbytes v) (drop (wn_first v) (st (wn_buffer v)))"

definition fill :: "window \<Rightarrow> bytes \<Rightarrow> store \<Rightarrow> store" where
  "fill v bs st =
     (let old = st (wn_buffer v)
      in st(wn_buffer v := take (wn_first v) old @ bs @ drop (wn_first v + length bs) old))"

definition in_store :: "store \<Rightarrow> window \<Rightarrow> bool" where
  "in_store st v \<longleftrightarrow> wn_first v + wn_nbytes v \<le> length (st (wn_buffer v))"

definition disjoint_windows :: "window \<Rightarrow> window \<Rightarrow> bool" where
  "disjoint_windows u v \<longleftrightarrow> wn_buffer u \<noteq> wn_buffer v
     \<or> wn_first u + wn_nbytes u \<le> wn_first v \<or> wn_first v + wn_nbytes v \<le> wn_first u"

definition byte_window :: "window \<Rightarrow> bool" where
  "byte_window v \<longleftrightarrow> wn_len v = Some (wn_nbytes v) \<and> wn_c_contiguous v"

lemma length_contents [simp]: "in_store st v \<Longrightarrow> length (contents st v) = wn_nbytes v"
  by (simp add: contents_def in_store_def)

lemma fill_nothing [simp]: "fill v [] st = st"
  by (rule ext) (simp add: fill_def Let_def)

lemma fill_length:
  "in_store st v \<Longrightarrow> length bs \<le> wn_nbytes v \<Longrightarrow> length (fill v bs st b) = length (st b)"
  by (auto simp: fill_def Let_def in_store_def)

lemma fill_contents:
  assumes "in_store st v" "length bs \<le> wn_nbytes v"
  shows "contents (fill v bs st) v = bs @ drop (length bs) (contents st v)"
  using assms by (simp add: contents_def fill_def Let_def in_store_def drop_take add.commute)

lemma fill_elsewhere:
  assumes "in_store st v" "length bs \<le> wn_nbytes v" "j < length (st b)"
    and "b \<noteq> wn_buffer v \<or> j < wn_first v \<or> wn_first v + wn_nbytes v \<le> j"
  shows "fill v bs st b ! j = st b ! j"
  using assms by (auto simp: fill_def Let_def in_store_def nth_append)

lemma fill_disjoint:
  assumes "in_store st v" "length bs \<le> wn_nbytes v" "in_store st u" "disjoint_windows u v"
  shows "contents (fill v bs st) u = contents st u"
proof (rule nth_equalityI)
  have len: "length (fill v bs st b) = length (st b)" for b by (rule fill_length [OF assms(1,2)])
  then show "length (contents (fill v bs st) u) = length (contents st u)" by (simp add: contents_def)
  fix i assume "i < length (contents (fill v bs st) u)"
  then have i: "i < wn_nbytes u" "wn_first u + i < length (st (wn_buffer u))" using len by (auto simp: contents_def)
  with assms(4) have "wn_buffer u \<noteq> wn_buffer v \<or> wn_first u + i < wn_first v \<or> wn_first v + wn_nbytes v \<le> wn_first u + i"
    by (auto simp: disjoint_windows_def)
  from fill_elsewhere [OF assms(1,2) i(2) this] i len show "contents (fill v bs st) u ! i = contents st u ! i"
    by (simp add: contents_def)
qed

subsection \<open>Receiving into a window\<close>

type_synonym ('b, 'a) mem_io = "('b port \<times> store, exn, 'a) io"

definition on_port :: "('b, 'a) port_io \<Rightarrow> ('b, 'a) mem_io" where
  "on_port m = (\<lambda>(p, st). case m p of (r, p') \<Rightarrow> (r, (p', st)))"

text \<open>\<open>readv\<close> takes the buffer as a writable contiguous one before it calls the kernel.\<close>

definition read_into :: "'b sync_backend \<Rightarrow> window \<Rightarrow> ('b, nat) mem_io" where
  "read_into vt v =
     (if wn_readonly v \<or> \<not> wn_c_contiguous v then io_raise (exn_msg BufferError)
      else io_bind (on_port (on_backend (bk_read vt (wn_nbytes v)))) (\<lambda>bs.
        io_seq (io_modify (map_prod id (fill v bs))) (io_return (length bs))))"

definition mem_attempt :: "'b sync_backend \<Rightarrow> ('b, 'a) mem_io \<Rightarrow> ('b, 'a option) mem_io" where
  "mem_attempt vt m =
     io_try (io_bind m (\<lambda>x. io_return (Some x)))
       (\<lambda>e. if transient e then io_return None else on_port (translating vt ''io'' (io_raise e)))"

definition into_step :: "'b sync_backend \<Rightarrow> window \<Rightarrow> int \<Rightarrow> ('b, progress) mem_io" where
  "into_step vt v fd =
     io_bind (mem_attempt vt (read_into vt v)) (\<lambda>r. case r of
       None \<Rightarrow> io_return (Park (At_receive_into (wn_nbytes v) fd) (A_readable fd))
     | Some n \<Rightarrow>
         if n = 0 then on_port (io_bind (io_get (eof_error vt)) io_raise)
         else io_return (Return (V_int (int n))))"

definition mem_leave_recv :: "('b, progress) mem_io \<Rightarrow> ('b, progress) mem_io" where
  "mem_leave_recv m = (\<lambda>s. case m s of
     (Inr (Park pc a), s') \<Rightarrow> (Inr (Park pc a), s')
   | (r, s') \<Rightarrow> (r, map_prod (\<lambda>p. p\<lparr>p_recv_busy := False\<rparr>) id s'))"

definition start_into :: "'b sync_backend \<Rightarrow> window \<Rightarrow> ('b, progress) mem_io" where
  "start_into vt v =
     (case wn_len v of
        None \<Rightarrow> io_raise (exn_msg TypeError)
      | Some len \<Rightarrow>
          if len = 0 then io_raise (exn_msg ValueError)
          else on_port (enter_recv (io_seq (raise_if_closed vt)
            (io_bind (port_fileno vt) (\<lambda>fd.
              io_return (Park (At_receive_into (wn_nbytes v) fd) (A_readable fd)))))))"

definition resume_into :: "'b sync_backend \<Rightarrow> window \<Rightarrow> int \<Rightarrow> wake \<Rightarrow> ('b, progress) mem_io" where
  "resume_into vt v fd w =
     mem_leave_recv (case w of
       W_ready \<Rightarrow> io_seq (on_port (raise_if_closed vt)) (into_step vt v fd)
     | W_throw e \<Rightarrow> io_raise e)"

lemmas mem_defs = on_port_def mem_attempt_def mem_leave_recv_def io_ctl_defs

text \<open>The bytes that theory \<open>Stream\<close> returns are the ones this loop stores.\<close>

definition stored :: "window \<Rightarrow> store \<Rightarrow> (exn + progress) \<times> 'b port \<Rightarrow> (exn + progress) \<times> 'b port \<times> store" where
  "stored v st out =
     (case out of
        (Inr (Return (V_into bs)), p) \<Rightarrow> (Inr (Return (V_int (int (length bs)))), p, fill v bs st)
      | (r, p) \<Rightarrow> (r, p, st))"

lemma start_into_port:
  assumes "byte_window v"
  shows "start_into vt v (p, st) = (case start vt (Op_receive_into (wn_nbytes v)) p of (r, p') \<Rightarrow> (r, p', st))"
  using assms
  by (simp add: byte_window_def start_into_def start_receive_into_def on_port_def io_raise_def)

lemma raise_if_closed_cases:
  "raise_if_closed vt p = (if p_closed p then Inl (closed_error vt p) else Inr (), p)"
  by (simp add: raise_if_closed_def io_ctl_defs)

lemma resume_into_stores:
  assumes "\<not> wn_readonly v" "wn_c_contiguous v"
  shows "resume_into vt v fd w (p, st) = stored v st (resume vt (At_receive_into (wn_nbytes v) fd) w p)"
proof (cases w)
  case (W_throw e)
  then show ?thesis by (simp add: resume_into_def mem_defs stored_def leave_recv_def)
next
  case W_ready
  obtain r b where r: "bk_read vt (wn_nbytes v) (p_backend p) = (r, b)" by fastforce
  show ?thesis
  proof (cases r)
    case (Inl e)
    with r W_ready assms show ?thesis
      by (simp add: resume_into_def into_step_def read_into_def read_step_def attempt_def translating_def mem_defs
          stored_def leave_recv_def on_backend_def raise_if_closed_cases)
  next
    case (Inr bs)
    with r W_ready assms show ?thesis
      by (simp add: resume_into_def into_step_def read_into_def read_step_def attempt_def translating_def mem_defs
          stored_def leave_recv_def on_backend_def raise_if_closed_cases)
  qed
qed

text \<open>C13: \<open>receive_into\<close> on Linux, under any interleaving of the port's calls: when it returns \<open>n\<close>, the
  first \<open>n\<close> bytes of the buffer, and no others, are replaced by what the kernel delivered to the port
  since the call, no window apart from the buffer changes (a concurrent \<open>send_buffer\<close> of another part
  of the same array, say) and no array changes its size; while it waits, and when it raises or is
  cancelled, no byte of memory has changed and nothing has been taken from the line.\<close>

theorem receive_into_fills:
  assumes "linux_reachable m (p, ts)" and "t \<in> set ts"
    and "t_op t = Op_receive_into (wn_nbytes v)" and "t_pc t = At_receive_into (wn_nbytes v) fd"
    and "in_store st v" and "\<not> wn_readonly v" and "wn_c_contiguous v"
    and "resume_into (linux_vt m) v fd w (p, st) = (r, p', st')"
  shows "case r of
      Inr (Return x) \<Rightarrow> \<exists>bs. x = V_int (int (length bs)) \<and> bs \<noteq> [] \<and> length bs \<le> wn_nbytes v
        \<and> log_received (p_backend p') = t_received t @ bs
        \<and> contents st' v = bs @ drop (length bs) (contents st v)
        \<and> (\<forall>u. in_store st u \<and> disjoint_windows u v \<longrightarrow> contents st' u = contents st u)
        \<and> (\<forall>b. length (st' b) = length (st b))
    | Inr (Park pc a) \<Rightarrow> st' = st \<and> log_received (p_backend p') = t_received t
    | Inl e \<Rightarrow> st' = st \<and> log_received (p_backend p') = t_received t"
proof -
  obtain q p1 where run: "resume (linux_vt m) (t_pc t) w p = (q, p1)" by fastforce
  have out: "stored v st (q, p1) = (r, p', st')"
    using assms(4,8) run by (simp add: resume_into_stores [OF assms(6,7)])
  have ok: "call_ok log_sent log_received p t"
    using linux.calls_reachable [OF assms(1)] assms(2) by auto
  then have "read_result log_received (t_received t) (t_op t) q p1"
    using read_outcome [OF _ _ linux.resumed [OF ok run]] assms(3) by (simp add: call_ok_def is_read_def)
  then show ?thesis
    using out assms(3) fill_contents [OF assms(5)] fill_disjoint [OF assms(5)] fill_length [OF assms(5)]
    by (auto simp: read_result_def stored_def split: sum.splits progress.splits if_splits)
qed

text \<open>A window of four bytes inside an array of six, on the demonstration port, whose kernel delivers three.\<close>

definition demo_store :: store where
  "demo_store = (\<lambda>b. if b = 7 then [9, 9, 9, 9, 9, 9] else [])"

definition demo_window :: window where
  "demo_window = \<lparr>wn_buffer = 7, wn_first = 1, wn_nbytes = 4, wn_len = Some 4, wn_readonly = False, wn_c_contiguous = True\<rparr>"

lemma demo_window_ok:
  "in_store demo_store demo_window" "\<not> wn_readonly demo_window" "wn_c_contiguous demo_window"
  "wn_nbytes demo_window = 4" "contents demo_store demo_window = [9, 9, 9, 9]"
  by (simp_all add: in_store_def demo_store_def demo_window_def contents_def)

lemma receive_into_fills_witness:
  "\<exists>p' :: linux_backend port. \<exists>st'. resume_into (linux_vt linux_termios) demo_window 3 W_ready
       (demo_port\<lparr>p_recv_busy := True\<rparr>, demo_store) = (Inr (Return (V_int 3)), p', st')
     \<and> contents st' demo_window = log_received (p_backend p') @ [9] \<and> length (log_received (p_backend p')) = 3"
proof -
  let ?p = "demo_port\<lparr>p_recv_busy := True\<rparr>"
  let ?t = "demo_call (Op_receive_into 4) (At_receive_into 4 3)"
  have "start (linux_vt linux_termios) (Op_receive_into 4) demo_port = (Inr (Park (At_receive_into 4 3) (A_readable 3)), ?p)"
    by (simp add: demo_defs start_receive_into_def)
  note reach = demo_parked [OF this]
  obtain p1 where read: "resume (linux_vt linux_termios) (At_receive_into 4 3) W_ready ?p = (Inr (Return (V_into [1, 2, 3])), p1)"
    by (simp add: demo_defs)
  have run: "resume_into (linux_vt linux_termios) demo_window 3 W_ready (?p, demo_store)
      = (Inr (Return (V_int 3)), p1, fill demo_window [1, 2, 3] demo_store)"
    using read by (simp add: resume_into_stores demo_window_ok stored_def)
  from receive_into_fills [OF reach _ _ _ demo_window_ok(1-3) run, of ?t]
  have "\<exists>bs. length bs = 3 \<and> log_received (p_backend p1) = bs
      \<and> contents (fill demo_window [1, 2, 3] demo_store) demo_window = bs @ drop 3 [9, 9, 9, 9]"
    by (auto simp: demo_call_def demo_window_ok)
  with run show ?thesis by auto
qed

text \<open>Boundaries. A read-only or scattered buffer is refused only when the port becomes readable. A view whose
  \<open>len\<close> is positive and that has no bytes (two rows of no columns) passes the check for an empty buffer; a
  read of no bytes then looks like an end of file, so a healthy device is reported as disconnected.\<close>

theorem receive_into_boundaries:
  assumes "\<not> p_closed p"
  shows "wn_readonly v \<or> \<not> wn_c_contiguous v \<Longrightarrow>
      resume_into vt v fd W_ready (p, st) = (Inl (exn_msg BufferError), p\<lparr>p_recv_busy := False\<rparr>, st)"
    and "\<not> wn_readonly v \<Longrightarrow> wn_c_contiguous v \<Longrightarrow> wn_nbytes v = 0 \<Longrightarrow>
      bk_read (linux_vt m) 0 (p_backend p) = (Inr bs, b) \<Longrightarrow>
      \<exists>e p'. resume_into (linux_vt m) v fd W_ready (p, st) = (Inl e, p', st) \<and> exn_class e = SerialDisconnectedError"
proof -
  show "resume_into vt v fd W_ready (p, st) = (Inl (exn_msg BufferError), p\<lparr>p_recv_busy := False\<rparr>, st)"
    if "wn_readonly v \<or> \<not> wn_c_contiguous v"
    using assms that
    by (auto simp: resume_into_def into_step_def read_into_def mem_defs raise_if_closed_cases translating_def
        transient_def isinstance_simps exn_msg_def)
  assume v: "\<not> wn_readonly v" "wn_c_contiguous v" "wn_nbytes v = 0" and read: "bk_read (linux_vt m) 0 (p_backend p) = (Inr bs, b)"
  have "length bs \<le> 0" using linux.read_law [of m 0 "p_backend p"] read by (auto simp: wp_def)
  with v read assms
  show "\<exists>e p'. resume_into (linux_vt m) v fd W_ready (p, st) = (Inl e, p', st) \<and> exn_class e = SerialDisconnectedError"
    by (simp add: resume_into_def into_step_def read_into_def mem_defs raise_if_closed_cases on_backend_def
        eof_error_def exn_os_def)
qed

subsection \<open>Sending from a window\<close>

text \<open>One turn of the loop of \<open>_send_view\<close> over a view of bytes. The state between turns is the offset.\<close>

datatype turn = Offset nat | Finished

definition mem_leave_send :: "('b, turn) mem_io \<Rightarrow> ('b, turn) mem_io" where
  "mem_leave_send m = (\<lambda>s. case m s of
     (Inr (Offset k), s') \<Rightarrow> (Inr (Offset k), s')
   | (r, s') \<Rightarrow> (r, map_prod (\<lambda>p. p\<lparr>p_send_busy := False\<rparr>) id s'))"

definition write_from :: "'b sync_backend \<Rightarrow> window \<Rightarrow> nat \<Rightarrow> ('b, nat) mem_io" where
  "write_from vt v offset =
     io_bind (io_get (\<lambda>s. drop offset (contents (snd s) v))) (\<lambda>data. on_port (on_backend (bk_write vt data)))"

definition send_turn :: "'b sync_backend \<Rightarrow> window \<Rightarrow> nat \<Rightarrow> wake \<Rightarrow> ('b, turn) mem_io" where
  "send_turn vt v offset w =
     mem_leave_send (case w of
       W_ready \<Rightarrow> io_seq (on_port (raise_if_closed vt))
         (io_bind (mem_attempt vt (write_from vt v offset)) (\<lambda>r.
          let offset' = (case r of None \<Rightarrow> offset | Some written \<Rightarrow> offset + written) in
          io_return (if offset' < wn_nbytes v then Offset offset' else Finished)))
     | W_throw e \<Rightarrow> io_raise e)"

text \<open>
  Successive turns of one send. Before each, other tasks may have changed the memory and, the guard
  keeping other senders out, anything of the port but what it sent.
\<close>

fun send_turns :: "'b sync_backend \<Rightarrow> window \<Rightarrow> nat \<Rightarrow> (store \<times> ('b port \<Rightarrow> 'b port) \<times> wake) list \<Rightarrow> 'b port \<Rightarrow>
    (exn + turn) \<times> 'b port" where
  "send_turns vt v k [] p = (Inr (Offset k), p)"
| "send_turns vt v k ((st, others, w) # turns) p =
     (case send_turn vt v k w (others p, st) of
        (Inr (Offset k'), p', st') \<Rightarrow> send_turns vt v k' turns p'
      | (r, p', st') \<Rightarrow> (r, p'))"

text \<open>Over memory that does not change a turn is the turn of \<open>send\<close> over its bytes.\<close>

fun turn_of :: "exn + progress \<Rightarrow> exn + turn" where
  "turn_of (Inr (Park (At_send d k fd) a)) = Inr (Offset k)"
| "turn_of (Inr _) = Inr Finished"
| "turn_of (Inl e) = Inl e"

lemma send_turn_is_send:
  assumes "in_store st v"
  shows "send_turn vt v k w (p, st) =
    (case resume vt (At_send (contents st v) k fd) w p of (r, p') \<Rightarrow> (turn_of r, p', st))"
proof (cases w)
  case (W_throw e)
  then show ?thesis by (simp add: send_turn_def mem_leave_send_def leave_send_def mem_defs)
next
  case W_ready
  obtain r b where r: "bk_write vt (drop k (contents st v)) (p_backend p) = (r, b)" by fastforce
  with W_ready assms show ?thesis
    by (cases r) (simp_all add: send_turn_def write_from_def mem_leave_send_def leave_send_def send_step_def mem_defs
        attempt_def translating_def on_backend_def raise_if_closed_cases Let_def)
qed

definition turn_moves :: "window \<Rightarrow> nat \<Rightarrow> exn + turn \<Rightarrow> nat \<Rightarrow> bool" where
  "turn_moves v k r n \<longleftrightarrow>
     (case r of
        Inr (Offset k') \<Rightarrow> k' = k + n \<and> k' < wn_nbytes v
      | Inr Finished \<Rightarrow> k + n = wn_nbytes v
      | Inl e \<Rightarrow> k + n \<le> wn_nbytes v)"

lemma send_turn_refused:
  "send_turn vt v k (W_throw e) (p, st) = (Inl e, p\<lparr>p_send_busy := False\<rparr>, st)"
  "p_closed p \<Longrightarrow> send_turn vt v k W_ready (p, st) = (Inl (closed_error vt p), p\<lparr>p_send_busy := False\<rparr>, st)"
  by (simp_all add: send_turn_def mem_leave_send_def mem_defs raise_if_closed_cases)

lemma send_turn_writes:
  assumes "\<not> p_closed p" "bk_write vt (drop k (contents st v)) (p_backend p) = (Inr n, b)"
  shows "send_turn vt v k W_ready (p, st) =
    (if k + n < wn_nbytes v then (Inr (Offset (k + n)), p\<lparr>p_backend := b\<rparr>, st)
     else (Inr Finished, p\<lparr>p_backend := b, p_send_busy := False\<rparr>, st))"
  using assms
  by (simp add: send_turn_def write_from_def mem_leave_send_def mem_defs on_backend_def raise_if_closed_cases)

lemma send_turn_fails:
  assumes "\<not> p_closed p" "bk_write vt (drop k (contents st v)) (p_backend p) = (Inl e, b)"
  shows "\<exists>r p'. send_turn vt v k W_ready (p, st) = (r, p', st) \<and> p_backend p' = b
    \<and> ((\<exists>e'. r = Inl e') \<or> r = Inr (if k < wn_nbytes v then Offset k else Finished))"
  using assms
  by (simp add: send_turn_def write_from_def mem_leave_send_def mem_defs on_backend_def translating_def raise_if_closed_cases)

lemma linux_turn:
  assumes "in_store st v" "k \<le> wn_nbytes v" "send_turn (linux_vt m) v k w (p, st) = (r, p', st')"
  shows "\<exists>n. turn_moves v k r n \<and> log_sent (p_backend p') = log_sent (p_backend p) @ take n (drop k (contents st v))"
proof -
  obtain q b where q: "bk_write (linux_vt m) (drop k (contents st v)) (p_backend p) = (q, b)" by fastforce
  have law: "case q of Inr n \<Rightarrow> n \<le> wn_nbytes v - k \<and> log_sent b = log_sent (p_backend p) @ take n (drop k (contents st v))
      | Inl e \<Rightarrow> log_sent b = log_sent (p_backend p)"
    using linux.write_law [of m "drop k (contents st v)" "p_backend p"] q assms(1)
    by (auto simp: wp_def steady_def moves_nothing_def split: sum.split)
  show ?thesis
  proof (cases "w = W_ready \<and> \<not> p_closed p")
    case False
    with assms(3) have "\<exists>e. r = Inl e" "log_sent (p_backend p') = log_sent (p_backend p)"
      by (cases w; auto simp: send_turn_refused)+
    with assms(2) show ?thesis by (intro exI [of _ 0]) (auto simp: turn_moves_def)
  next
    case True
    show ?thesis
    proof (cases q)
      case (Inr n)
      with True q law assms show ?thesis
        by (intro exI [of _ n]) (auto simp: send_turn_writes turn_moves_def split: if_splits)
    next
      case (Inl e)
      with True send_turn_fails [of p "linux_vt m" k st v e b] q assms(3)
      have "p_backend p' = b" "(\<exists>e'. r = Inl e') \<or> r = Inr (if k < wn_nbytes v then Offset k else Finished)" by auto
      with Inl law assms(2) show ?thesis by (intro exI [of _ 0]) (auto simp: turn_moves_def)
    qed
  qed
qed

definition others_only :: "window \<Rightarrow> (store \<times> ('k linux_backend_scheme port \<Rightarrow> 'k linux_backend_scheme port) \<times> wake) list \<Rightarrow> bool" where
  "others_only v turns \<longleftrightarrow>
     (\<forall>(st, others, w)\<in>set turns. in_store st v \<and> (\<forall>p. log_sent (p_backend (others p)) = log_sent (p_backend p)))"

definition held_at :: "window \<Rightarrow> (store \<times> 'f \<times> wake) list \<Rightarrow> nat \<Rightarrow> 8 word \<Rightarrow> bool" where
  "held_at v turns i b \<longleftrightarrow> (\<exists>(st, others, w)\<in>set turns. b = contents st v ! i)"

lemma turns_send_held:
  assumes "others_only v turns" "k < wn_nbytes v" "send_turns (linux_vt m) v k turns p = (r, p')"
  shows "\<exists>bs. log_sent (p_backend p') = log_sent (p_backend p) @ bs \<and> turn_moves v k r (length bs)
    \<and> (\<forall>i<length bs. held_at v turns (k + i) (bs ! i))"
  using assms
proof (induction turns arbitrary: k p)
  case Nil
  then show ?case by (intro exI [of _ "[]"]) (auto simp: turn_moves_def)
next
  case (Cons turn turns)
  obtain st others w where turn: "turn = (st, others, w)" by (cases turn)
  obtain q p1 st1 where q: "send_turn (linux_vt m) v k w (others p, st) = (q, p1, st1)" by (metis prod.exhaust)
  have st: "in_store st v" "log_sent (p_backend (others p)) = log_sent (p_backend p)" "others_only v turns"
    using Cons.prems(1) by (auto simp: others_only_def turn)
  obtain n where n: "turn_moves v k q n" "log_sent (p_backend p1) = log_sent (p_backend p) @ take n (drop k (contents st v))"
    using linux_turn [OF st(1) _ q] Cons.prems(2) st(2) by auto
  let ?chunk = "take n (drop k (contents st v))"
  have len: "length ?chunk = n" using n(1) st(1) by (auto simp: turn_moves_def split: sum.splits turn.splits)
  have here: "held_at v (turn # turns) (k + i) (?chunk ! i)" if "i < n" for i
    using that st(1) len by (auto simp: held_at_def turn)
  show ?case
  proof (cases "\<exists>k'. q = Inr (Offset k')")
    case True
    with n(1) have k': "q = Inr (Offset (k + n))" "k + n < wn_nbytes v" by (auto simp: turn_moves_def)
    then have "send_turns (linux_vt m) v (k + n) turns p1 = (r, p')" using Cons.prems(3) q by (simp add: turn)
    from Cons.IH [OF st(3) k'(2) this] obtain bs where bs: "log_sent (p_backend p') = log_sent (p_backend p1) @ bs"
      "turn_moves v (k + n) r (length bs)" "\<forall>i<length bs. held_at v turns (k + n + i) (bs ! i)" by blast
    have "held_at v (turn # turns) (k + i) ((?chunk @ bs) ! i)" if "i < length (?chunk @ bs)" for i
    proof (cases "i < n")
      case True
      with here len show ?thesis by (simp add: nth_append)
    next
      case False
      with that bs(3) [rule_format, of "i - n"] len show ?thesis by (auto simp: nth_append held_at_def)
    qed
    moreover have "turn_moves v k r (length (?chunk @ bs))"
      using bs(2) len by (auto simp: turn_moves_def add.assoc split: sum.splits turn.splits)
    ultimately show ?thesis using bs(1) n(2) by (intro exI [of _ "?chunk @ bs"]) simp
  next
    case False
    then have "r = q" "p' = p1"
      using Cons.prems(3) q by (auto simp: turn split: sum.splits turn.splits)
    with n here len show ?thesis by (intro exI [of _ ?chunk]) simp
  qed
qed

text \<open>C14: A \<open>send_buffer\<close> of memory that others write to while it waits, on Linux: the byte it puts on the
  line at each position is one that the buffer held at that position at one of its turns, no position
  is skipped or sent twice, and all of them are sent when it returns; what it sends may mix versions of
  the buffer. If the buffer has the same contents at every turn, it sends exactly those.\<close>

theorem send_of_changing_buffer:
  assumes "others_only v turns" and "k < wn_nbytes v" and "send_turns (linux_vt m) v k turns p = (r, p')"
  shows "\<exists>bs. log_sent (p_backend p') = log_sent (p_backend p) @ bs
    \<and> (case r of Inr (Offset k') \<Rightarrow> k' = k + length bs \<and> k' < wn_nbytes v
         | Inr Finished \<Rightarrow> k + length bs = wn_nbytes v
         | Inl e \<Rightarrow> k + length bs \<le> wn_nbytes v)
    \<and> (\<forall>i<length bs. \<exists>(st, others, w)\<in>set turns. bs ! i = contents st v ! (k + i))
    \<and> (\<forall>d. (\<forall>(st, others, w)\<in>set turns. contents st v = d) \<longrightarrow> bs = take (length bs) (drop k d))"
proof -
  obtain bs where bs: "log_sent (p_backend p') = log_sent (p_backend p) @ bs" "turn_moves v k r (length bs)"
    "\<forall>i<length bs. held_at v turns (k + i) (bs ! i)"
    using turns_send_held [OF assms] by blast
  have "bs = take (length bs) (drop k d)" if d: "\<forall>(st, others, w)\<in>set turns. contents st v = d" for d
  proof (cases "turns = []")
    case True
    with bs(3) have "bs = []" by (auto simp: held_at_def)
    then show ?thesis by simp
  next
    case False
    with d assms(1) have "length d = wn_nbytes v" by (cases turns) (auto simp: others_only_def)
    moreover from bs(2) have "k + length bs \<le> wn_nbytes v" by (auto simp: turn_moves_def split: sum.splits turn.splits)
    moreover have "bs ! i = d ! (k + i)" if "i < length bs" for i
      using bs(3) that d by (fastforce simp: held_at_def)
    ultimately show ?thesis by (intro nth_equalityI) auto
  qed
  with bs show ?thesis by (auto simp: turn_moves_def held_at_def)
qed

text \<open>Eight bytes through the slow port: its first write takes five, and then another task overwrites the array.\<close>

definition shared_window :: window where
  "shared_window = \<lparr>wn_buffer = 0, wn_first = 0, wn_nbytes = 8, wn_len = Some 8, wn_readonly = False, wn_c_contiguous = True\<rparr>"

definition overwritten :: "(store \<times> (linux_backend port \<Rightarrow> linux_backend port) \<times> wake) list" where
  "overwritten = [(\<lambda>_. [0, 0, 0, 0, 0, 0, 0, 0], id, W_ready), (\<lambda>_. [1, 1, 1, 1, 1, 1, 1, 1], id, W_ready)]"

lemma send_of_changing_buffer_witness:
  "\<exists>p'. send_turns (linux_vt linux_termios) shared_window 0 overwritten demo_slow_port = (Inr Finished, p')
     \<and> length (log_sent (p_backend p')) = 8 \<and> set (log_sent (p_backend p')) \<subseteq> {0, 1}"
proof -
  have "\<exists>p'. send_turns (linux_vt linux_termios) shared_window 0 overwritten demo_slow_port = (Inr Finished, p')"
    by (simp add: overwritten_def shared_window_def send_turn_def write_from_def mem_leave_send_def mem_defs contents_def
        demo_defs demo_slow_port_def)
  then obtain p' where run: "send_turns (linux_vt linux_termios) shared_window 0 overwritten demo_slow_port = (Inr Finished, p')" ..
  have only: "others_only shared_window overwritten" by (simp add: others_only_def overwritten_def in_store_def shared_window_def)
  have pos: "0 < wn_nbytes shared_window" by (simp add: shared_window_def)
  have none: "log_sent (p_backend demo_slow_port) = []"
    by (simp add: demo_slow_port_def new_port_def linux_init_def log_sent_def)
  obtain bs where bs: "log_sent (p_backend p') = bs" "length bs = 8"
    "\<forall>i<length bs. \<exists>(st, others, w)\<in>set overwritten. bs ! i = contents st shared_window ! (0 + i)"
    using send_of_changing_buffer [OF only pos run] none by (auto simp: shared_window_def)
  have "bs ! i \<in> {0, 1}" if "i < 8" for i
  proof -
    have "bs ! i = replicate 8 0 ! i \<or> bs ! i = replicate 8 1 ! i"
      using bs(2,3) that by (auto simp: overwritten_def shared_window_def contents_def numeral_eq_Suc)
    then show ?thesis using that by auto
  qed
  with bs(1,2) run show ?thesis by (auto simp: set_conv_nth)
qed

end
