(* ===== verification/Port_Object.thy ===== *)
theory Port_Object
  imports Stream_Spec Discovery Capabilities
begin

section \<open>The port as a Python object (\<open>SerialPort\<close> in \<open>stream.py\<close>)\<close>

text \<open>
  What a port does outside its coroutines: the choice of its class by the members of the backend
  (\<open>__new__\<close> and the runtime-checkable protocols), the typed attributes behind \<open>port.extra(...)\<close>, and
  its finaliser. An object is given by the names of its members. The interpreter ignores what a
  finaliser raises, but what follows the raise is skipped.
\<close>

subsection \<open>Which variant\<close>

definition SYNC_MEMBERS :: "string list" where
  "SYNC_MEMBERS = [''path'', ''is_open'', ''capabilities'', ''open'', ''close'', ''fileno'', ''read_nonblocking'',
     ''write_nonblocking'', ''configure'', ''reset_input_buffer'', ''reset_output_buffer'', ''set_break'',
     ''tcdrain_blocking'', ''modem_lines'', ''set_control_lines'', ''input_waiting'', ''output_waiting'']"

definition ASYNC_MEMBERS :: "string list" where
  "ASYNC_MEMBERS = [''path'', ''is_open'', ''capabilities'', ''open'', ''aclose'', ''receive'', ''receive_into'', ''send'',
     ''configure'', ''reset_input_buffer'', ''reset_output_buffer'', ''drain'', ''send_break'', ''modem_lines'',
     ''set_control_lines'', ''input_waiting'', ''output_waiting'']"

datatype port_variant = Posix_variant | Async_variant

definition satisfies :: "string list \<Rightarrow> string set \<Rightarrow> bool" where
  "satisfies protocol members \<longleftrightarrow> list_all (\<lambda>name. name \<in> members) protocol"

definition new_variant :: "string set \<Rightarrow> exn + port_variant" where
  "new_variant members =
     (if satisfies SYNC_MEMBERS members then Inr Posix_variant
      else if satisfies ASYNC_MEMBERS members then Inr Async_variant
      else Inl (exn_msg TypeError))"

lemma new_variant_cases:
  "set SYNC_MEMBERS \<subseteq> members \<Longrightarrow> new_variant members = Inr Posix_variant"
  "set ASYNC_MEMBERS \<subseteq> members \<Longrightarrow> ''fileno'' \<notin> members \<Longrightarrow> new_variant members = Inr Async_variant"
  by (auto simp: new_variant_def satisfies_def SYNC_MEMBERS_def ASYNC_MEMBERS_def)

subsection \<open>Typed attributes\<close>

datatype typed_attribute = Attr_path | Attr_fileno | Attr_capabilities | Attr_config | Attr_port_info

datatype attribute_value =
    Val_path string | Val_fileno int | Val_capabilities serial_capabilities | Val_config serial_config
  | Val_port_info port_info

definition base_attributes :: "string \<Rightarrow> serial_capabilities \<Rightarrow> serial_config \<Rightarrow> port_info option \<Rightarrow>
    typed_attribute \<Rightarrow> attribute_value option" where
  "base_attributes path caps config port_info =
     (let attrs = [Attr_path \<mapsto> Val_path path, Attr_capabilities \<mapsto> Val_capabilities caps, Attr_config \<mapsto> Val_config config]
      in case port_info of None \<Rightarrow> attrs | Some info \<Rightarrow> attrs(Attr_port_info \<mapsto> Val_port_info info))"

definition posix_attributes :: "'b sync_backend \<Rightarrow> serial_capabilities \<Rightarrow> port_info option \<Rightarrow> 'b port \<Rightarrow>
    typed_attribute \<Rightarrow> attribute_value option" where
  "posix_attributes vt caps port_info p =
     (base_attributes (bk_path vt (p_backend p)) caps (p_config p) port_info)
       (Attr_fileno \<mapsto> Val_fileno (bk_fileno vt (p_backend p)))"

text \<open>\<open>extra(attribute)\<close> and \<open>extra(attribute, default)\<close> of AnyIO's typed-attribute provider.\<close>

definition extra :: "(typed_attribute \<Rightarrow> attribute_value option) \<Rightarrow> typed_attribute \<Rightarrow> exn + attribute_value" where
  "extra attrs a = (case attrs a of None \<Rightarrow> Inl (exn_msg LookupError) | Some v \<Rightarrow> Inr v)"

lemma extra_attributes_of_port:
  "extra (posix_attributes vt caps info p) Attr_path = Inr (Val_path (bk_path vt (p_backend p)))"
  "extra (posix_attributes vt caps info p) Attr_fileno = Inr (Val_fileno (bk_fileno vt (p_backend p)))"
  "extra (posix_attributes vt caps info p) Attr_config = Inr (Val_config (p_config p))"
  "extra (posix_attributes vt caps info p) Attr_port_info =
     (case info of None \<Rightarrow> Inl (exn_msg LookupError) | Some i \<Rightarrow> Inr (Val_port_info i))"
  "extra (base_attributes path caps config info) Attr_fileno = Inl (exn_msg LookupError)"
  by (simp_all add: extra_def posix_attributes_def base_attributes_def Let_def split: option.split)

text \<open>The configuration attribute is the one last accepted by the backend.\<close>

lemma extra_config_tracks:
  "case configure_body vt config p of
     (Inr _, p') \<Rightarrow> extra (posix_attributes vt caps info p') Attr_config = Inr (Val_config config)
   | (Inl _, p') \<Rightarrow> extra (posix_attributes vt caps info p') Attr_config = Inr (Val_config (p_config p))"
  by (auto simp: extra_attributes_of_port configure_body_def raise_if_closed_def translating_def on_backend_def io_ctl_defs
      split: prod.splits sum.splits)

subsection \<open>Finalisation\<close>

text \<open>
  \<open>SerialPort.__del__\<close> and its extension on the POSIX variant. \<open>warned\<close> is what \<open>warnings.warn\<close> does under
  the filters in force: it returns, or raises the \<open>ResourceWarning\<close>.
\<close>

definition base_del :: "exn + unit \<Rightarrow> ('b, unit) port_io" where
  "base_del warned = io_bind (io_get p_closed) (\<lambda>closed. if closed then io_return () else io_lift warned)"

definition posix_del :: "'b sync_backend \<Rightarrow> exn + unit \<Rightarrow> ('b, unit) port_io" where
  "posix_del vt warned =
     io_seq (base_del warned)
       (io_bind (io_get p_closed) (\<lambda>closed.
        if closed then io_return ()
        else io_suppress (\<lambda>e. isinstance e Exception) (on_backend (bk_close vt))))"

lemma os_is_exception: "isinstance e OSError \<Longrightarrow> isinstance e Exception"
  by (cases "exn_class e") (auto simp: isinstance_simps)

text \<open>C36: A Linux port that is collected while it is open is closed by its finaliser: the descriptor it held is
  closed, once, and the values saved at its opening have been written back or tried; a closed port is
  left alone. When the filters turn the \<open>ResourceWarning\<close> into an error, however, the finaliser stops at
  the warning and the descriptor stays open.\<close>

theorem linux_del_outcomes:
  assumes "linux_inv base (p_backend p)" and "p_closed p \<longleftrightarrow> \<not> posix_is_open (p_backend p)"
  shows "case posix_del (linux_vt m) warned p of (r, p') \<Rightarrow>
     (if p_closed p then r = Inr () \<and> p' = p
      else case warned of
        Inl e \<Rightarrow> r = Inl e \<and> p' = p \<and> open_fds (k_log (p_backend p')) = base + {#pb_fd (p_backend p)#}
      | Inr _ \<Rightarrow> r = Inr () \<and> \<not> posix_is_open (p_backend p') \<and> open_fds (k_log (p_backend p')) = base
          \<and> lb_saved_async_flags (p_backend p') = None \<and> lb_saved_rs485 (p_backend p') = None)"
proof (cases "p_closed p \<or> warned \<noteq> Inr ()")
  case True
  then show ?thesis
    using assms by (cases warned) (auto simp: posix_del_def base_del_def io_ctl_defs linux_inv_def)
next
  case False
  then have "wp (posix_del (linux_vt m) warned)
      (\<lambda>_ p'. linux_inv base (p_backend p') \<and> \<not> posix_is_open (p_backend p')) (\<lambda>_ _. False) p"
    unfolding posix_del_def base_del_def
    by (simp add: wp_simps linux_vt_def, intro wp_mono [OF linux_close_inv [OF assms(1)]]) (auto dest: os_is_exception)
  with False show ?thesis by (auto simp: wp_def linux_inv_def split: prod.splits sum.splits)
qed

definition demo_leaked :: "linux_backend port" where
  "demo_leaked = new_port ((linux_init good_env [Ev_open ''/dev/ttyUSB0'' 0 (Inr 3)])\<lparr>pb_fd := 3\<rparr>) default_config"

lemma linux_del_outcomes_witness:
  "(\<exists>p'. posix_del (linux_vt linux_termios) (Inr ()) demo_leaked = (Inr (), p') \<and> open_fds (k_log (p_backend p')) = {#})
   \<and> (\<exists>p'. posix_del (linux_vt linux_termios) (Inl (exn_msg ResourceWarning)) demo_leaked = (Inl (exn_msg ResourceWarning), p')
        \<and> open_fds (k_log (p_backend p')) = {#3#})"
proof -
  have ok: "linux_inv {#} (p_backend demo_leaked)" "p_closed demo_leaked \<longleftrightarrow> \<not> posix_is_open (p_backend demo_leaked)"
    and facts: "\<not> p_closed demo_leaked" "pb_fd (p_backend demo_leaked) = 3"
    by (simp_all add: demo_leaked_def new_port_def linux_init_def linux_inv_def linux_wf_def posix_is_open_def open_fds_def)
  show ?thesis
    using linux_del_outcomes [OF ok, of "Inr ()" linux_termios] linux_del_outcomes [OF ok, of "Inl (exn_msg ResourceWarning)" linux_termios] facts
    by (auto split: prod.splits)
qed

end
