(* ===== verification/Windows_Dcb.thy ===== *)
theory Windows_Dcb
  imports Config Discovery "HOL-Library.Numeral_Type"
begin

section \<open>The Win32 device control block (\<open>_windows/dcb.py\<close>, \<open>_win32.py\<close>, \<open>_errors.py\<close>, \<open>_runtime.py\<close>)\<close>

text \<open>
  \<open>DCB\<close> is a record of machine words, each as wide as its \<open>ctypes\<close> field: an assignment stores the
  Python integer modulo the width, as \<open>ctypes\<close> does. \<open>apply_config\<close> overlays a configuration onto the
  block the driver reported, \<open>read_dcb\<close> decodes it. The translation of Win32 errors, the choice of the
  runtime and the path given to \<open>CreateFileW\<close> are here too.
\<close>

record dcb =
  d_DCBlength :: "32 word"
  d_BaudRate :: "32 word"
  d_fBinary :: "1 word"
  d_fParity :: "1 word"
  d_fOutxCtsFlow :: "1 word"
  d_fOutxDsrFlow :: "1 word"
  d_fDtrControl :: "2 word"
  d_fDsrSensitivity :: "1 word"
  d_fTXContinueOnXoff :: "1 word"
  d_fOutX :: "1 word"
  d_fInX :: "1 word"
  d_fErrorChar :: "1 word"
  d_fNull :: "1 word"
  d_fRtsControl :: "2 word"
  d_fAbortOnError :: "1 word"
  d_fDummy2 :: "17 word"
  d_wReserved :: "16 word"
  d_XonLim :: "16 word"
  d_XoffLim :: "16 word"
  d_ByteSize :: "8 word"
  d_Parity :: "8 word"
  d_StopBits :: "8 word"
  d_XonChar :: "8 word"
  d_XoffChar :: "8 word"
  d_ErrorChar :: "8 word"
  d_EofChar :: "8 word"
  d_EvtChar :: "8 word"
  d_wReserved1 :: "16 word"

definition zero_dcb :: dcb where
  "zero_dcb = \<lparr>d_DCBlength = 0, d_BaudRate = 0, d_fBinary = 0, d_fParity = 0, d_fOutxCtsFlow = 0,
     d_fOutxDsrFlow = 0, d_fDtrControl = 0, d_fDsrSensitivity = 0, d_fTXContinueOnXoff = 0, d_fOutX = 0,
     d_fInX = 0, d_fErrorChar = 0, d_fNull = 0, d_fRtsControl = 0, d_fAbortOnError = 0, d_fDummy2 = 0,
     d_wReserved = 0, d_XonLim = 0, d_XoffLim = 0, d_ByteSize = 0, d_Parity = 0, d_StopBits = 0,
     d_XonChar = 0, d_XoffChar = 0, d_ErrorChar = 0, d_EofChar = 0, d_EvtChar = 0, d_wReserved1 = 0\<rparr>"

definition DCB_SIZE :: int where "DCB_SIZE = 28"
definition RTS_CONTROL_ENABLE :: int where "RTS_CONTROL_ENABLE = 1"
definition RTS_CONTROL_HANDSHAKE :: int where "RTS_CONTROL_HANDSHAKE = 2"
definition DTR_CONTROL_ENABLE :: int where "DTR_CONTROL_ENABLE = 1"
definition DTR_CONTROL_HANDSHAKE :: int where "DTR_CONTROL_HANDSHAKE = 2"
definition XON_CHAR :: int where "XON_CHAR = 0x11"
definition XOFF_CHAR :: int where "XOFF_CHAR = 0x13"
definition MAXDWORD :: int where "MAXDWORD = 0xFFFFFFFF"

fun parity_to_win32 :: "parity \<Rightarrow> int" where
  "parity_to_win32 PNONE = 0"
| "parity_to_win32 ODD = 1"
| "parity_to_win32 EVEN = 2"
| "parity_to_win32 MARK = 3"
| "parity_to_win32 SPACE = 4"

fun stopbits_to_win32 :: "stop_bits \<Rightarrow> int" where
  "stopbits_to_win32 ONE = 0"
| "stopbits_to_win32 ONE_POINT_FIVE = 1"
| "stopbits_to_win32 TWO = 2"

fun bytesize_to_win32 :: "byte_size \<Rightarrow> int" where
  "bytesize_to_win32 FIVE = 5"
| "bytesize_to_win32 SIX = 6"
| "bytesize_to_win32 SEVEN = 7"
| "bytesize_to_win32 EIGHT = 8"

text \<open>The inverse dictionaries: the key of the entry with a given value.\<close>

definition win32_to_parity :: "int \<Rightarrow> parity option" where
  "win32_to_parity n = find (\<lambda>k. parity_to_win32 k = n) [PNONE, ODD, EVEN, MARK, SPACE]"

definition win32_to_stopbits :: "int \<Rightarrow> stop_bits option" where
  "win32_to_stopbits n = find (\<lambda>k. stopbits_to_win32 k = n) [ONE, ONE_POINT_FIVE, TWO]"

definition win32_to_bytesize :: "int \<Rightarrow> byte_size option" where
  "win32_to_bytesize n = find (\<lambda>k. bytesize_to_win32 k = n) [FIVE, SIX, SEVEN, EIGHT]"

definition apply_config :: "dcb \<Rightarrow> serial_config \<Rightarrow> dcb" where
  "apply_config d0 config =
     (let d1 = d0\<lparr>d_DCBlength := word_of_int DCB_SIZE, d_BaudRate := word_of_int (cfg_baudrate config),
            d_ByteSize := word_of_int (bytesize_to_win32 (cfg_byte_size config)),
            d_Parity := word_of_int (parity_to_win32 (cfg_parity config)),
            d_StopBits := word_of_int (stopbits_to_win32 (cfg_stop_bits config))\<rparr>;
          d2 = d1\<lparr>d_fBinary := 1, d_fAbortOnError := 0, d_fNull := 0, d_fErrorChar := 0,
            d_fDsrSensitivity := 0, d_fTXContinueOnXoff := 0,
            d_fParity := (if cfg_parity config = PNONE then 0 else 1)\<rparr>;
          flow = cfg_flow_control config;
          d3 = (if xon_xoff flow
                then d2\<lparr>d_fOutX := 1, d_fInX := 1, d_XonChar := word_of_int XON_CHAR,
                  d_XoffChar := word_of_int XOFF_CHAR, d_XonLim := 2048, d_XoffLim := 512\<rparr>
                else d2\<lparr>d_fOutX := 0, d_fInX := 0\<rparr>);
          d4 = (if rts_cts flow
                then d3\<lparr>d_fOutxCtsFlow := 1, d_fRtsControl := word_of_int RTS_CONTROL_HANDSHAKE\<rparr>
                else d3\<lparr>d_fOutxCtsFlow := 0, d_fRtsControl := word_of_int RTS_CONTROL_ENABLE\<rparr>)
      in if dtr_dsr flow
         then d4\<lparr>d_fOutxDsrFlow := 1, d_fDtrControl := word_of_int DTR_CONTROL_HANDSHAKE\<rparr>
         else d4\<lparr>d_fOutxDsrFlow := 0, d_fDtrControl := word_of_int DTR_CONTROL_ENABLE\<rparr>)"

definition build_dcb :: "serial_config \<Rightarrow> dcb" where
  "build_dcb config = apply_config zero_dcb config"

record dcb_reading =
  dr_baudrate :: int
  dr_byte_size :: byte_size
  dr_parity :: parity
  dr_stop_bits :: stop_bits
  dr_xon_xoff :: bool
  dr_rts_cts :: bool
  dr_dtr_dsr :: bool
  dr_f_binary :: int
  dr_f_abort_on_error :: int
  dr_f_parity :: int

definition read_dcb :: "dcb \<Rightarrow> exn + dcb_reading" where
  "read_dcb d =
     (case win32_to_parity (uint (d_Parity d)) of
        None \<Rightarrow> Inl (exn_msg UnsupportedConfigurationError)
      | Some parity \<Rightarrow>
     (case win32_to_stopbits (uint (d_StopBits d)) of
        None \<Rightarrow> Inl (exn_msg UnsupportedConfigurationError)
      | Some stop \<Rightarrow>
     (case win32_to_bytesize (uint (d_ByteSize d)) of
        None \<Rightarrow> Inl (exn_msg UnsupportedConfigurationError)
      | Some bits \<Rightarrow>
          Inr \<lparr>dr_baudrate = uint (d_BaudRate d), dr_byte_size = bits, dr_parity = parity,
            dr_stop_bits = stop, dr_xon_xoff = (d_fOutX d \<noteq> 0 \<and> d_fInX d \<noteq> 0),
            dr_rts_cts = (d_fOutxCtsFlow d \<noteq> 0 \<and> uint (d_fRtsControl d) = RTS_CONTROL_HANDSHAKE),
            dr_dtr_dsr = (d_fOutxDsrFlow d \<noteq> 0 \<and> uint (d_fDtrControl d) = DTR_CONTROL_HANDSHAKE),
            dr_f_binary = uint (d_fBinary d), dr_f_abort_on_error = uint (d_fAbortOnError d),
            dr_f_parity = uint (d_fParity d)\<rparr>)))"

record comm_timeouts =
  ct_ReadIntervalTimeout :: "32 word"
  ct_ReadTotalTimeoutMultiplier :: "32 word"
  ct_ReadTotalTimeoutConstant :: "32 word"
  ct_WriteTotalTimeoutMultiplier :: "32 word"
  ct_WriteTotalTimeoutConstant :: "32 word"

definition build_read_any_timeouts :: comm_timeouts where
  "build_read_any_timeouts =
     \<lparr>ct_ReadIntervalTimeout = word_of_int MAXDWORD, ct_ReadTotalTimeoutMultiplier = word_of_int MAXDWORD,
      ct_ReadTotalTimeoutConstant = 1, ct_WriteTotalTimeoutMultiplier = 0, ct_WriteTotalTimeoutConstant = 0\<rparr>"

subsection \<open>Win32 errors\<close>

definition ERROR_FILE_NOT_FOUND :: int where "ERROR_FILE_NOT_FOUND = 2"
definition ERROR_ACCESS_DENIED :: int where "ERROR_ACCESS_DENIED = 5"
definition ERROR_INVALID_HANDLE :: int where "ERROR_INVALID_HANDLE = 6"
definition ERROR_NOT_READY :: int where "ERROR_NOT_READY = 21"
definition ERROR_SHARING_VIOLATION :: int where "ERROR_SHARING_VIOLATION = 32"
definition ERROR_GEN_FAILURE :: int where "ERROR_GEN_FAILURE = 31"
definition ERROR_INVALID_PARAMETER :: int where "ERROR_INVALID_PARAMETER = 87"
definition ERROR_OPERATION_ABORTED :: int where "ERROR_OPERATION_ABORTED = 995"
definition ERROR_DEVICE_REMOVED :: int where "ERROR_DEVICE_REMOVED = 1617"

lemmas win_error_defs = ERROR_FILE_NOT_FOUND_def ERROR_ACCESS_DENIED_def ERROR_INVALID_HANDLE_def
  ERROR_NOT_READY_def ERROR_SHARING_VIOLATION_def ERROR_GEN_FAILURE_def ERROR_INVALID_PARAMETER_def
  ERROR_OPERATION_ABORTED_def ERROR_DEVICE_REMOVED_def

text \<open>\<open>a or b\<close> on optional integers.\<close>

definition int_or :: "int option \<Rightarrow> int option \<Rightarrow> int option" where
  "int_or a b = (if a = None \<or> a = Some 0 then b else a)"

definition winerror_to_exception :: "exn \<Rightarrow> string \<Rightarrow> string option \<Rightarrow> exn" where
  "winerror_to_exception exc context path =
     (if isinstance exc SerialError then exc
      else
        let code = int_or (exn_winerror exc) (exn_errno exc);
            filename = str_or (exn_filename exc) path;
            cls = (if errno_in code [ERROR_FILE_NOT_FOUND] then PortNotFoundError
                   else if errno_in code [ERROR_ACCESS_DENIED, ERROR_SHARING_VIOLATION] then PortBusyError
                   else if errno_in code [ERROR_INVALID_HANDLE, ERROR_OPERATION_ABORTED] then SerialClosedError
                   else if errno_in code [ERROR_INVALID_PARAMETER] \<and> context = ''ioctl''
                     then UnsupportedConfigurationError
                   else if errno_in code [ERROR_DEVICE_REMOVED, ERROR_NOT_READY, ERROR_GEN_FAILURE]
                     then SerialDisconnectedError
                   else SerialError)
        in Exn cls (Some (case exn_errno exc of None \<Rightarrow> 0 | Some e \<Rightarrow> e)) (exn_strerror exc) filename code (Some exc))"

subsection \<open>The runtime and the path\<close>

datatype runtime = Asyncio | Trio

text \<open>The probes: whether an asyncio loop runs and has a proactor, and whether a Trio task runs.\<close>

record runtime_probe =
  rp_asyncio_loop :: bool
  rp_proactor :: bool
  rp_trio_task :: bool

definition require_proactor :: "runtime_probe \<Rightarrow> exn + unit" where
  "require_proactor p = (if rp_proactor p then Inr () else Inl (exn_msg UnsupportedPlatformError))"

definition detect_runtime :: "runtime_probe \<Rightarrow> exn + runtime" where
  "detect_runtime p =
     (if rp_asyncio_loop p then res_bind (require_proactor p) (\<lambda>_. Inr Asyncio)
      else if rp_trio_task p then Inr Trio
      else Inl (exn_msg UnsupportedAsyncBackendError))"

definition normalise_com_path :: "string \<Rightarrow> string" where
  "normalise_com_path path =
     (if has_device_prefix path then path else [BACKSLASH, BACKSLASH, CHR ''.'', BACKSLASH] @ path)"

subsection \<open>What the driver is told, and reads back\<close>

lemma win32_maps_inverse:
  "win32_to_parity (uint (word_of_int (parity_to_win32 p) :: 8 word)) = Some p"
  "win32_to_stopbits (uint (word_of_int (stopbits_to_win32 t) :: 8 word)) = Some t"
  "win32_to_bytesize (uint (word_of_int (bytesize_to_win32 b) :: 8 word)) = Some b"
proof -
  show "win32_to_parity (uint (word_of_int (parity_to_win32 p) :: 8 word)) = Some p"
    by (cases p; simp add: win32_to_parity_def)
  show "win32_to_stopbits (uint (word_of_int (stopbits_to_win32 t) :: 8 word)) = Some t"
    by (cases t; simp add: win32_to_stopbits_def)
  show "win32_to_bytesize (uint (word_of_int (bytesize_to_win32 b) :: 8 word)) = Some b"
    by (cases b; simp add: win32_to_bytesize_def)
qed

lemma apply_config_fields:
  "d_BaudRate (apply_config d c) = word_of_int (cfg_baudrate c)"
  "d_ByteSize (apply_config d c) = word_of_int (bytesize_to_win32 (cfg_byte_size c))"
  "d_Parity (apply_config d c) = word_of_int (parity_to_win32 (cfg_parity c))"
  "d_StopBits (apply_config d c) = word_of_int (stopbits_to_win32 (cfg_stop_bits c))"
  "d_fBinary (apply_config d c) = 1" "d_fAbortOnError (apply_config d c) = 0"
  "d_fParity (apply_config d c) = (if cfg_parity c = PNONE then 0 else 1)"
  "d_fOutX (apply_config d c) = of_bool (xon_xoff (cfg_flow_control c))"
  "d_fInX (apply_config d c) = of_bool (xon_xoff (cfg_flow_control c))"
  "d_fOutxCtsFlow (apply_config d c) = of_bool (rts_cts (cfg_flow_control c))"
  "d_fRtsControl (apply_config d c) = (if rts_cts (cfg_flow_control c) then 2 else 1)"
  "d_fOutxDsrFlow (apply_config d c) = of_bool (dtr_dsr (cfg_flow_control c))"
  "d_fDtrControl (apply_config d c) = (if dtr_dsr (cfg_flow_control c) then 2 else 1)"
  by (simp_all add: apply_config_def Let_def RTS_CONTROL_HANDSHAKE_def RTS_CONTROL_ENABLE_def
      DTR_CONTROL_HANDSHAKE_def DTR_CONTROL_ENABLE_def)

text \<open>C40: Whatever block the driver reported, the block written back decodes to exactly the requested
  framing and flow control, with the mandatory bits set and parity checking on exactly when a parity
  is requested; the rate it carries is the requested one modulo \<open>2^32\<close>, so a larger rate is silently
  replaced by another.\<close>

theorem dcb_roundtrip:
  "read_dcb (apply_config d config) = Inr
     \<lparr>dr_baudrate = cfg_baudrate config mod 2 ^ 32, dr_byte_size = cfg_byte_size config,
      dr_parity = cfg_parity config, dr_stop_bits = cfg_stop_bits config,
      dr_xon_xoff = xon_xoff (cfg_flow_control config), dr_rts_cts = rts_cts (cfg_flow_control config),
      dr_dtr_dsr = dtr_dsr (cfg_flow_control config), dr_f_binary = 1, dr_f_abort_on_error = 0,
      dr_f_parity = (if cfg_parity config = PNONE then 0 else 1)\<rparr>"
  unfolding read_dcb_def apply_config_fields win32_maps_inverse
  by (simp add: RTS_CONTROL_HANDSHAKE_def DTR_CONTROL_HANDSHAKE_def uint_word_of_int)

lemma apply_config_kept:
  "d_fDummy2 (apply_config d c) = d_fDummy2 d" "d_wReserved (apply_config d c) = d_wReserved d"
  "d_wReserved1 (apply_config d c) = d_wReserved1 d" "d_ErrorChar (apply_config d c) = d_ErrorChar d"
  "d_EofChar (apply_config d c) = d_EofChar d" "d_EvtChar (apply_config d c) = d_EvtChar d"
  "d_XonChar (apply_config d c) = (if xon_xoff (cfg_flow_control c) then 0x11 else d_XonChar d)"
  "d_XoffChar (apply_config d c) = (if xon_xoff (cfg_flow_control c) then 0x13 else d_XoffChar d)"
  "d_XonLim (apply_config d c) = (if xon_xoff (cfg_flow_control c) then 2048 else d_XonLim d)"
  "d_XoffLim (apply_config d c) = (if xon_xoff (cfg_flow_control c) then 512 else d_XoffLim d)"
  by (simp_all add: apply_config_def Let_def XON_CHAR_def XOFF_CHAR_def)

lemma apply_config_constant:
  "d_DCBlength (apply_config d c) = 28" "d_fNull (apply_config d c) = 0" "d_fErrorChar (apply_config d c) = 0"
  "d_fDsrSensitivity (apply_config d c) = 0" "d_fTXContinueOnXoff (apply_config d c) = 0"
  by (simp_all add: apply_config_def Let_def DCB_SIZE_def)

lemma apply_config_idem: "apply_config (apply_config d c) c = apply_config d c"
  by (rule dcb.equality) (simp_all only: apply_config_fields apply_config_kept apply_config_constant if_cancel split: if_split, simp_all)

text \<open>The overlay keeps what it does not own: the reserved fields, \<open>ErrorChar\<close>, \<open>EofChar\<close> and
  \<open>EvtChar\<close> are the driver's, and without software flow control so are the XON and XOFF characters and
  limits; applying the same configuration again changes nothing.\<close>

theorem apply_config_keeps:
  "(let d' = apply_config d config in
     (d_fDummy2 d', d_wReserved d', d_wReserved1 d', d_ErrorChar d', d_EofChar d', d_EvtChar d') =
     (d_fDummy2 d, d_wReserved d, d_wReserved1 d, d_ErrorChar d, d_EofChar d, d_EvtChar d)
     \<and> (d_XonChar d', d_XoffChar d', d_XonLim d', d_XoffLim d') =
        (if xon_xoff (cfg_flow_control config) then (0x11, 0x13, 2048, 512)
         else (d_XonChar d, d_XoffChar d, d_XonLim d, d_XoffLim d)))
   \<and> apply_config (apply_config d config) config = apply_config d config"
  unfolding apply_config_idem by (simp add: apply_config_kept Let_def)

text \<open>\<open>winerror_to_exception\<close> is total into the package's hierarchy as its POSIX sibling is, and
  the class follows the Win32 code: not found, busy for denied or shared, closed for an invalid handle
  or an aborted operation, disconnected for a removed device, and an invalid parameter is an
  unsupported configuration only where the line is configured.\<close>

theorem winerror_to_exception_total:
  "isinstance (winerror_to_exception exc ctx path) SerialError
   \<and> (if isinstance exc SerialError then winerror_to_exception exc ctx path = exc
      else let e = winerror_to_exception exc ctx path; code = int_or (exn_winerror exc) (exn_errno exc) in
        exn_cause e = Some exc \<and> exn_winerror e = code \<and> exn_filename e = str_or (exn_filename exc) path
        \<and> (exn_class e = PortNotFoundError \<longleftrightarrow> code = Some 2)
        \<and> (exn_class e = PortBusyError \<longleftrightarrow> code = Some 5 \<or> code = Some 32)
        \<and> (exn_class e = SerialClosedError \<longleftrightarrow> code = Some 6 \<or> code = Some 995)
        \<and> (exn_class e = SerialDisconnectedError \<longleftrightarrow> code = Some 1617 \<or> code = Some 21 \<or> code = Some 31)
        \<and> (exn_class e = UnsupportedConfigurationError \<longleftrightarrow> code = Some 87 \<and> ctx = ''ioctl''))"
proof (cases "isinstance exc SerialError")
  case True
  then show ?thesis by (simp add: winerror_to_exception_def)
next
  case False
  have "errno_in code [a] \<longleftrightarrow> code = Some a" "errno_in code [a, b] \<longleftrightarrow> code = Some a \<or> code = Some b"
    "errno_in code [a, b, c] \<longleftrightarrow> code = Some a \<or> code = Some b \<or> code = Some c" for code a b c
    by (cases code; auto)+
  with False show ?thesis
    by (auto simp: winerror_to_exception_def Let_def isinstance_simps win_error_defs)
qed

text \<open>The name given to \<open>CreateFileW\<close> is in the device namespace, is left alone by a second
  normalisation, and is a name of the same port: its canonical name is that of the path given.\<close>

theorem normalise_com_path_same_port:
  "has_device_prefix (normalise_com_path path)
   \<and> normalise_com_path (normalise_com_path path) = normalise_com_path path
   \<and> canonical_port_name exists realpath ''win32'' (normalise_com_path path) =
      canonical_port_name exists realpath ''win32'' path"
proof -
  let ?p = "[BACKSLASH, BACKSLASH, CHR ''.'', BACKSLASH]"
  have p: "?p \<in> set WINDOWS_DEVICE_PREFIXES" by (simp add: WINDOWS_DEVICE_PREFIXES_def)
  have h: "has_device_prefix (?p @ path)"
    by (simp add: has_device_prefix_def WINDOWS_DEVICE_PREFIXES_def starts_with_def)
  have "strip_device_prefixes (?p @ path) = strip_device_prefixes path"
    using strip_device_prefixes_prefix [OF p] .
  with h show ?thesis by (simp add: normalise_com_path_def canonical_port_name_def)
qed

end
