(* ===== verification/Win32.thy ===== *)
theory Win32
  imports Windows_Dcb "HOL-Library.Multiset"
begin

section \<open>The Win32 calls (\<open>_windows/_win32.py\<close>) and the two runtimes\<close>

text \<open>
  Windows and the two event loops are parameters of every run, as the kernel is for the POSIX
  backends: \<open>we_answer\<close> answers each kernel32 call from the history of events and the call, and nothing
  is assumed of it. An answer is the value the function returned, what \<open>GetLastError\<close> would give, and
  the contents of the structures it may fill. The \<open>errcheck\<close> hooks that \<open>_bind_kernel32\<close> installs turn
  an answer into a result or an \<open>OSError\<close>. Registering a handle with a completion port and starting
  an overlapped transfer belong to the runtimes; each may fail with a Win32 code.
\<close>

subsection \<open>Constants\<close>

definition GENERIC_READ :: int where "GENERIC_READ = 0x80000000"
definition GENERIC_WRITE :: int where "GENERIC_WRITE = 0x40000000"
definition OPEN_EXISTING :: int where "OPEN_EXISTING = 3"
definition FILE_FLAG_OVERLAPPED :: int where "FILE_FLAG_OVERLAPPED = 0x40000000"
definition INVALID_HANDLE_VALUE :: int where "INVALID_HANDLE_VALUE = -1"
definition SETRTS :: int where "SETRTS = 3"
definition CLRRTS :: int where "CLRRTS = 4"
definition SETDTR :: int where "SETDTR = 5"
definition CLRDTR :: int where "CLRDTR = 6"
definition PURGE_TXABORT :: int where "PURGE_TXABORT = 1"
definition PURGE_RXABORT :: int where "PURGE_RXABORT = 2"
definition PURGE_TXCLEAR :: int where "PURGE_TXCLEAR = 4"
definition PURGE_RXCLEAR :: int where "PURGE_RXCLEAR = 8"
definition MS_CTS_ON :: int where "MS_CTS_ON = 0x10"
definition MS_DSR_ON :: int where "MS_DSR_ON = 0x20"
definition MS_RING_ON :: int where "MS_RING_ON = 0x40"
definition MS_RLSD_ON :: int where "MS_RLSD_ON = 0x80"
definition DEFAULT_INPUT_QUEUE :: int where "DEFAULT_INPUT_QUEUE = 4096"
definition DEFAULT_OUTPUT_QUEUE :: int where "DEFAULT_OUTPUT_QUEUE = 4096"
definition EV_CTS :: int where "EV_CTS = 0x8"
definition EV_DSR :: int where "EV_DSR = 0x10"
definition EV_RLSD :: int where "EV_RLSD = 0x20"
definition EV_BREAK :: int where "EV_BREAK = 0x40"
definition EV_ERR :: int where "EV_ERR = 0x80"
definition EV_RING :: int where "EV_RING = 0x100"
definition EV_ALL_MODEM :: int where
  "EV_ALL_MODEM = EV_CTS OR EV_DSR OR EV_RLSD OR EV_BREAK OR EV_ERR OR EV_RING"
definition ERROR_IO_PENDING :: int where "ERROR_IO_PENDING = 997"
definition ERROR_TIMEOUT :: int where "ERROR_TIMEOUT = 1460"
definition WAIT_OBJECT_0 :: int where "WAIT_OBJECT_0 = 0"

record comstat =
  cs_cbInQue :: "32 word"
  cs_cbOutQue :: "32 word"

subsection \<open>Calls and answers\<close>

text \<open>The functions of \<open>Kernel32Bindings\<close> the package calls, with their arguments.\<close>

datatype k32 =
    CreateFileW string int int int int
  | CloseHandle int
  | GetCommState int
  | SetCommState int dcb
  | SetCommTimeouts int comm_timeouts
  | SetupComm int int int
  | PurgeComm int int
  | EscapeCommFunction int int
  | GetCommModemStatus int
  | ClearCommError int
  | SetCommBreak int
  | ClearCommBreak int
  | FlushFileBuffers int
  | SetCommMask int int
  | WaitCommEvent int
  | CreateEventW
  | CancelIoEx int
  | WaitForSingleObject int int

record answer =
  an_result :: int
  an_last_error :: int
  an_dcb :: dcb
  an_word :: "32 word"
  an_comstat :: comstat

datatype errcheck = No_check | Check_bool | Check_handle

fun errcheck_of :: "k32 \<Rightarrow> errcheck" where
  "errcheck_of (CreateFileW p a s d f) = Check_handle"
| "errcheck_of CreateEventW = Check_handle"
| "errcheck_of (WaitCommEvent h) = No_check"
| "errcheck_of (CancelIoEx h) = No_check"
| "errcheck_of (WaitForSingleObject h ms) = No_check"
| "errcheck_of _ = Check_bool"

datatype win_event =
    W_call k32 answer
  | W_register int "int option"
  | W_issue int "int option"
  | W_read bytes
  | W_written bytes nat
  | W_lost bytes

type_synonym wlog = "win_event list"

record win_env =
  we_is_windows :: bool
  we_probe :: "wlog \<Rightarrow> runtime_probe"
  we_answer :: "wlog \<Rightarrow> k32 \<Rightarrow> answer"
  we_register :: "wlog \<Rightarrow> int \<Rightarrow> int option"
  we_issue :: "wlog \<Rightarrow> int \<Rightarrow> int option"
  we_errno :: "int \<Rightarrow> int"
  we_message :: "int \<Rightarrow> string"

record win_state =
  ws_env :: win_env
  ws_log :: wlog

subsection \<open>Errors\<close>

text \<open>The class Python gives an \<open>OSError\<close> with this errno, as far as the package distinguishes them.\<close>

definition win_class :: "int \<Rightarrow> exc_class" where
  "win_class e =
     (if e = 2 then FileNotFoundError
      else if e = 1 \<or> e = 13 then PermissionError
      else if e = 4 then InterruptedError
      else if e = 11 then BlockingIOError
      else if e = 32 then BrokenPipeError
      else OSError)"

text \<open>\<open>ctypes.WinError(code)\<close>: the errno is the one Python derives from the code.\<close>

definition win_exn :: "win_env \<Rightarrow> int \<Rightarrow> exn" where
  "win_exn env code =
     Exn (win_class (we_errno env code)) (Some (we_errno env code)) (Some (we_message env code)) None (Some code) None"

lemma win_exn_simps [simp]:
  "isinstance (win_exn env code) OSError" "\<not> isinstance (win_exn env code) SerialError"
  "exn_winerror (win_exn env code) = Some code" "exn_filename (win_exn env code) = None"
  by (auto simp: win_exn_def isinstance_simps win_class_def)

text \<open>The invalid handle as \<open>c_void_p(-1).value\<close>, on a 64-bit host.\<close>

definition run_errcheck :: "win_env \<Rightarrow> k32 \<Rightarrow> answer \<Rightarrow> exn + answer" where
  "run_errcheck env c a =
     (case errcheck_of c of
        No_check \<Rightarrow> Inr a
      | Check_bool \<Rightarrow> if an_result a = 0 then Inl (win_exn env (an_last_error a)) else Inr a
      | Check_handle \<Rightarrow>
          if an_result a = INVALID_HANDLE_VALUE mod 2 ^ 64 then Inl (win_exn env (an_last_error a)) else Inr a)"

definition load_kernel32 :: "('k win_state_scheme, exn, unit) io" where
  "load_kernel32 = io_bind (io_get (\<lambda>s. we_is_windows (ws_env s))) (\<lambda>ok.
     if ok then io_return () else io_raise (exn_msg UnsupportedPlatformError))"

definition k32_call :: "k32 \<Rightarrow> ('k win_state_scheme, exn, answer) io" where
  "k32_call c = (\<lambda>s.
     let a = we_answer (ws_env s) (ws_log s) c
     in (run_errcheck (ws_env s) c a, s\<lparr>ws_log := ws_log s @ [W_call c a]\<rparr>))"

text \<open>A runtime operation that fails with a code or succeeds.\<close>

definition rt_call :: "(win_env \<Rightarrow> wlog \<Rightarrow> int \<Rightarrow> int option) \<Rightarrow> (int \<Rightarrow> int option \<Rightarrow> win_event) \<Rightarrow> int \<Rightarrow>
    ('k win_state_scheme, exn, unit) io" where
  "rt_call ask ev h = (\<lambda>s.
     let a = ask (ws_env s) (ws_log s) h
     in (case a of Some code \<Rightarrow> Inl (win_exn (ws_env s) code) | None \<Rightarrow> Inr (),
         s\<lparr>ws_log := ws_log s @ [ev h a]\<rparr>))"

definition rt_register :: "int \<Rightarrow> ('k win_state_scheme, exn, unit) io" where
  "rt_register = rt_call we_register W_register"

definition rt_issue :: "int \<Rightarrow> ('k win_state_scheme, exn, unit) io" where
  "rt_issue = rt_call we_issue W_issue"

definition note_event :: "win_event \<Rightarrow> ('k win_state_scheme, exn, unit) io" where
  "note_event e = io_modify (\<lambda>s. s\<lparr>ws_log := ws_log s @ [e]\<rparr>)"

subsection \<open>Reasoning about calls\<close>

lemma run_errcheck_cases:
  "run_errcheck env c a = Inr a \<or> run_errcheck env c a = Inl (win_exn env (an_last_error a))"
  by (simp add: run_errcheck_def split: errcheck.split)

lemma wp_load_kernel32 [wp_simps]:
  "wp load_kernel32 Q E s \<longleftrightarrow>
     (if we_is_windows (ws_env s) then Q () s else E (exn_msg UnsupportedPlatformError) s)"
  by (simp add: load_kernel32_def wp_simps)

lemma wp_k32_call [wp_simps]:
  "wp (k32_call c) Q E s \<longleftrightarrow>
     (let a = we_answer (ws_env s) (ws_log s) c; s' = s\<lparr>ws_log := ws_log s @ [W_call c a]\<rparr> in
      case run_errcheck (ws_env s) c a of Inl e \<Rightarrow> E e s' | Inr b \<Rightarrow> Q b s')"
  by (auto simp: wp_def k32_call_def Let_def split: sum.splits)

lemma wp_rt_call [wp_simps]:
  "wp (rt_call ask ev h) Q E s \<longleftrightarrow>
     (let a = ask (ws_env s) (ws_log s) h; s' = s\<lparr>ws_log := ws_log s @ [ev h a]\<rparr> in
      case a of Some code \<Rightarrow> E (win_exn (ws_env s) code) s' | None \<Rightarrow> Q () s')"
  by (auto simp: wp_def rt_call_def Let_def split: option.splits)

lemma wp_note_event [wp_simps]:
  "wp (note_event e) Q E s \<longleftrightarrow> Q () (s\<lparr>ws_log := ws_log s @ [e]\<rparr>)"
  by (simp add: note_event_def wp_simps)

text \<open>The handles a log opened and did not give back: \<open>CloseHandle\<close> releases its argument.\<close>

fun handle_step :: "win_event \<Rightarrow> int multiset \<Rightarrow> int multiset" where
  "handle_step (W_call c a) hs =
     (case c of
        CreateFileW p x y d f \<Rightarrow>
          if an_result a = INVALID_HANDLE_VALUE mod 2 ^ 64 then hs else add_mset (an_result a) hs
      | CreateEventW \<Rightarrow>
          if an_result a = INVALID_HANDLE_VALUE mod 2 ^ 64 \<or> an_result a = 0 then hs
          else add_mset (an_result a) hs
      | CloseHandle h \<Rightarrow> hs - {#h#}
      | _ \<Rightarrow> hs)"
| "handle_step _ hs = hs"

definition open_handles :: "wlog \<Rightarrow> int multiset" where
  "open_handles l = fold handle_step l {#}"

lemma open_handles_simps [simp]:
  "open_handles [] = {#}" "open_handles (l @ [e]) = handle_step e (open_handles l)"
  by (simp_all add: open_handles_def)

lemma open_handles_append: "open_handles (l @ es) = fold handle_step es (open_handles l)"
  by (simp add: open_handles_def)

fun handle_neutral :: "win_event \<Rightarrow> bool" where
  "handle_neutral (W_call c a) =
     (case c of CreateFileW p x y d f \<Rightarrow> False | CreateEventW \<Rightarrow> False | CloseHandle h \<Rightarrow> False | _ \<Rightarrow> True)"
| "handle_neutral _ = True"

lemma handle_neutral_step: "handle_neutral e \<Longrightarrow> handle_step e hs = hs"
  by (cases e rule: handle_neutral.cases) (auto split: k32.splits)

text \<open>\<open>only_logs P\<close>: the run changed nothing but the log, to which it appended events satisfying \<open>P\<close>.\<close>

definition only_logs :: "(win_event \<Rightarrow> bool) \<Rightarrow> 'k win_state_scheme \<Rightarrow> 'k win_state_scheme \<Rightarrow> bool" where
  "only_logs P s s' \<longleftrightarrow> (\<exists>es. list_all P es \<and> s' = s\<lparr>ws_log := ws_log s @ es\<rparr>)"

interpretation olog: frame "only_logs P :: 'k win_state_scheme \<Rightarrow> 'k win_state_scheme \<Rightarrow> bool" for P
proof
  fix s s' s'' :: "'k win_state_scheme"
  show "only_logs P s s" by (auto simp: only_logs_def intro: exI [of _ "[]"])
  assume "only_logs P s s'" "only_logs P s' s''"
  then obtain es fs where "list_all P es" "s' = s\<lparr>ws_log := ws_log s @ es\<rparr>"
    "list_all P fs" "s'' = s'\<lparr>ws_log := ws_log s' @ fs\<rparr>"
    by (auto simp: only_logs_def)
  then show "only_logs P s s''" by (auto simp: only_logs_def intro!: exI [of _ "es @ fs"])
qed

lemma only_logs_snoc: "P e \<Longrightarrow> only_logs P s (s\<lparr>ws_log := ws_log s @ [e]\<rparr>)"
  by (auto simp: only_logs_def intro: exI [of _ "[e]"])

lemma only_logs_mono: "only_logs P s s' \<Longrightarrow> (\<And>e. P e \<Longrightarrow> P' e) \<Longrightarrow> only_logs P' s s'"
  by (auto simp: only_logs_def list_all_iff)

lemma keeps_k32_call: "(\<And>a. P (W_call c a)) \<Longrightarrow> keeps (only_logs P) (k32_call c)"
  by (auto simp: keeps_def wp_simps Let_def only_logs_snoc split: sum.split)

lemma keeps_load_kernel32: "keeps (only_logs P) load_kernel32"
  unfolding load_kernel32_def by (intro olog.keeps_control)

lemma keeps_rt_calls:
  "(\<And>r. P (W_register h r)) \<Longrightarrow> keeps (only_logs P) (rt_register h)"
  "(\<And>r. P (W_issue h r)) \<Longrightarrow> keeps (only_logs P) (rt_issue h)"
  by (auto simp: keeps_def rt_register_def rt_issue_def wp_simps Let_def only_logs_snoc split: option.split)

lemma keeps_note_event: "P e \<Longrightarrow> keeps (only_logs P) (note_event e)"
  by (auto simp: keeps_def wp_simps only_logs_snoc)

lemmas keeps_win_calls = keeps_k32_call keeps_load_kernel32 keeps_rt_calls keeps_note_event

lemma only_logs_handles: "only_logs handle_neutral s s' \<Longrightarrow> open_handles (ws_log s') = open_handles (ws_log s)"
proof -
  have "list_all handle_neutral es \<Longrightarrow> fold handle_step es hs = hs" for es hs
    by (induction es arbitrary: hs) (simp_all add: handle_neutral_step)
  then show "only_logs handle_neutral s s' \<Longrightarrow> ?thesis"
    by (auto simp: only_logs_def open_handles_def)
qed

end
