(* ===== verification/Async_Port.thy ===== *)
theory Async_Port
  imports Stream
begin

section \<open>The port over an asynchronous backend (\<open>stream.py\<close>, \<open>_AsyncBackendSerialPort\<close>)\<close>

text \<open>
  \<open>AsyncSerialBackend\<close> as a record of operations, and the port variant that delegates to it. A backend
  coroutine runs to its next \<open>await\<close>: a call or a resumption is \<open>Done\<close> with a value or \<open>Awaits\<close> at a
  point of the backend's own. The port adds its two resource guards and its two locks; a parked call
  is inside a section that holds one of them, or waits for a lock. \<open>open\<close> is not a method of the port
  and is given as a function that does not suspend, as the Windows backend's does not.
\<close>

subsection \<open>The backend\<close>

datatype ('v, 'p) suspended = Done 'v | Awaits 'p

datatype bop =
    B_aclose | B_receive nat | B_receive_into nat | B_send bytes | B_configure serial_config
  | B_reset_input_buffer | B_reset_output_buffer | B_drain | B_send_break pyfloat | B_modem_lines
  | B_set_control_lines "bool option" "bool option"

record ('b, 'p, 'w) async_backend =
  ab_path :: "'b \<Rightarrow> string"
  ab_is_open :: "'b \<Rightarrow> bool"
  ab_open :: "string \<Rightarrow> serial_config \<Rightarrow> ('b, exn, unit) io"
  ab_call :: "bop \<Rightarrow> ('b, exn, (outcome, 'p) suspended) io"
  ab_resume :: "'p \<Rightarrow> 'w \<Rightarrow> ('b, exn, (outcome, 'p) suspended) io"
  ab_input_waiting :: "('b, exn, int) io"
  ab_output_waiting :: "('b, exn, int) io"

subsection \<open>The port\<close>

record 'b async_port =
  ap_backend :: 'b
  ap_config :: serial_config
  ap_closed :: bool
  ap_receive_busy :: bool
  ap_send_busy :: bool
  ap_close_locked :: bool
  ap_configure_locked :: bool

definition new_async_port :: "'b \<Rightarrow> serial_config \<Rightarrow> 'b async_port" where
  "new_async_port b c = \<lparr>ap_backend = b, ap_config = c, ap_closed = False, ap_receive_busy = False,
     ap_send_busy = False, ap_close_locked = False, ap_configure_locked = False\<rparr>"

text \<open>What a section of a method holds, and the sections.\<close>

datatype hold = H_none | H_receive | H_send | H_close | H_configure

fun held :: "hold \<Rightarrow> 'b async_port \<Rightarrow> bool" where
  "held H_none p = False"
| "held H_receive p = ap_receive_busy p"
| "held H_send p = ap_send_busy p"
| "held H_close p = ap_close_locked p"
| "held H_configure p = ap_configure_locked p"

fun set_held :: "hold \<Rightarrow> bool \<Rightarrow> 'b async_port \<Rightarrow> 'b async_port" where
  "set_held H_none on p = p"
| "set_held H_receive on p = p\<lparr>ap_receive_busy := on\<rparr>"
| "set_held H_send on p = p\<lparr>ap_send_busy := on\<rparr>"
| "set_held H_close on p = p\<lparr>ap_close_locked := on\<rparr>"
| "set_held H_configure on p = p\<lparr>ap_configure_locked := on\<rparr>"

datatype kind = K_receive | K_receive_into | K_send | K_control | K_configure serial_config | K_close

fun hold_of :: "kind \<Rightarrow> hold" where
  "hold_of K_receive = H_receive"
| "hold_of K_receive_into = H_receive"
| "hold_of K_send = H_send"
| "hold_of K_control = H_none"
| "hold_of (K_configure c) = H_configure"
| "hold_of K_close = H_close"

datatype 'p apc = Inside kind 'p | At_lock kind

type_synonym 'p aprogress = "(outcome, 'p apc) suspended"
type_synonym ('b, 'p) async_body = "('b async_port, exn, (outcome, 'p) suspended) io"
type_synonym ('b, 'p) async_io = "('b async_port, exn, 'p aprogress) io"

definition on_async :: "('b, exn, 'a) io \<Rightarrow> ('b async_port, exn, 'a) io" where
  "on_async m = (\<lambda>p. case m (ap_backend p) of (r, b) \<Rightarrow> (r, p\<lparr>ap_backend := b\<rparr>))"

definition async_closed_error :: "('b, 'p, 'w) async_backend \<Rightarrow> 'b async_port \<Rightarrow> exn" where
  "async_closed_error ab p = exn_os SerialClosedError (Some EBADF) (Some ''serial port is closed'')
     (Some (ab_path ab (ap_backend p)))"

definition async_eof_error :: "('b, 'p, 'w) async_backend \<Rightarrow> 'b async_port \<Rightarrow> exn" where
  "async_eof_error ab p = exn_os SerialDisconnectedError (Some EIO)
     (Some ''device returned EOF after readiness'') (Some (ab_path ab (ap_backend p)))"

definition async_raise_if_closed :: "('b, 'p, 'w) async_backend \<Rightarrow> ('b async_port, exn, unit) io" where
  "async_raise_if_closed ab = io_bind (io_get ap_closed) (\<lambda>c.
     if c then io_bind (io_get (async_closed_error ab)) io_raise else io_return ())"

text \<open>What the port does with the value its backend returned.\<close>

fun finish :: "('b, 'p, 'w) async_backend \<Rightarrow> kind \<Rightarrow> outcome \<Rightarrow> ('b, 'p) async_body" where
  "finish ab K_receive v =
     (if v = V_bytes [] then io_bind (io_get (async_eof_error ab)) io_raise else io_return (Done v))"
| "finish ab K_receive_into v =
     (if v = V_into [] then io_bind (io_get (async_eof_error ab)) io_raise else io_return (Done v))"
| "finish ab (K_configure c) v = io_seq (io_modify (\<lambda>p. p\<lparr>ap_config := c\<rparr>)) (io_return (Done v))"
| "finish ab _ v = io_return (Done v)"

definition finishing :: "('b, 'p, 'w) async_backend \<Rightarrow> kind \<Rightarrow> ('b, 'p) async_body \<Rightarrow> ('b, 'p) async_body" where
  "finishing ab k m = io_bind m (\<lambda>s. case s of Done v \<Rightarrow> finish ab k v | Awaits q \<Rightarrow> io_return (Awaits q))"

text \<open>A section ends, and gives back what it holds, unless the backend awaits.\<close>

definition run_section :: "kind \<Rightarrow> ('b, 'p) async_body \<Rightarrow> ('b, 'p) async_io" where
  "run_section k m = (\<lambda>p. case m p of
     (Inl e, p') \<Rightarrow> (Inl e, set_held (hold_of k) False p')
   | (Inr (Done v), p') \<Rightarrow> (Inr (Done v), set_held (hold_of k) False p')
   | (Inr (Awaits q), p') \<Rightarrow> (Inr (Awaits (Inside k q)), p'))"

definition enter :: "kind \<Rightarrow> ('b, 'p) async_body \<Rightarrow> ('b, 'p) async_io" where
  "enter k m = io_bind (io_get (held (hold_of k))) (\<lambda>busy.
     if busy then io_raise (exn_msg BusyResourceError)
     else io_seq (io_modify (set_held (hold_of k) True)) (run_section k m))"

text \<open>\<open>self._raise_if_closed()\<close> followed by a call of the backend.\<close>

definition delegate :: "('b, 'p, 'w) async_backend \<Rightarrow> kind \<Rightarrow> bop \<Rightarrow> ('b, 'p) async_body" where
  "delegate ab k b = io_seq (async_raise_if_closed ab) (finishing ab k (on_async (ab_call ab b)))"

definition available_body :: "('b, 'p, 'w) async_backend \<Rightarrow> int option \<Rightarrow> ('b, 'p) async_body" where
  "available_body ab limit =
     io_seq (async_raise_if_closed ab)
      (io_bind (on_async (ab_input_waiting ab)) (\<lambda>waiting.
       io_bind (io_get (\<lambda>p. cfg_read_chunk_size (ap_config p))) (\<lambda>chunk.
       let sz = available_size waiting chunk limit in
       if sz \<le> 0 then io_return (Done (V_bytes []))
       else finishing ab K_receive (on_async (ab_call ab (B_receive (nat sz)))))))"

definition async_drain :: "('b, 'p, 'w) async_backend \<Rightarrow> ('b, 'p) async_io" where
  "async_drain ab = enter K_send (delegate ab K_send B_drain)"

definition async_close_body :: "('b, 'p, 'w) async_backend \<Rightarrow> ('b, 'p) async_body" where
  "async_close_body ab =
     io_bind (io_get ap_closed) (\<lambda>closed.
     if closed then io_return (Done V_unit)
     else io_seq (io_modify (\<lambda>p. p\<lparr>ap_closed := True\<rparr>)) (on_async (ab_call ab B_aclose)))"

definition async_waiting :: "('b, 'p, 'w) async_backend \<Rightarrow> ('b, exn, int) io \<Rightarrow> ('b, 'p) async_io" where
  "async_waiting ab m =
     io_seq (async_raise_if_closed ab) (io_bind (on_async m) (\<lambda>n. io_return (Done (V_int n))))"

fun async_start :: "('b, 'p, 'w) async_backend \<Rightarrow> op \<Rightarrow> ('b, 'p) async_io" where
  "async_start ab (Op_receive n) =
     (if n \<le> 0 then io_raise (exn_msg ValueError) else enter K_receive (delegate ab K_receive (B_receive (nat n))))"
| "async_start ab (Op_receive_into n) =
     (if n = 0 then io_raise (exn_msg ValueError)
      else enter K_receive_into (delegate ab K_receive_into (B_receive_into n)))"
| "async_start ab (Op_receive_available l) = enter K_receive (available_body ab l)"
| "async_start ab (Op_send d) =
     (if d = [] then io_seq (async_raise_if_closed ab) (io_return (Done V_unit))
      else enter K_send (delegate ab K_send (B_send d)))"
| "async_start ab Op_send_eof =
     io_bind (io_get ap_closed) (\<lambda>c. if c then io_return (Done V_unit) else async_drain ab)"
| "async_start ab Op_aclose = io_return (Awaits (At_lock K_close))"
| "async_start ab (Op_configure c) = io_return (Awaits (At_lock (K_configure c)))"
| "async_start ab Op_reset_input_buffer = run_section K_control (delegate ab K_control B_reset_input_buffer)"
| "async_start ab Op_reset_output_buffer = run_section K_control (delegate ab K_control B_reset_output_buffer)"
| "async_start ab Op_drain = async_drain ab"
| "async_start ab Op_drain_exact = async_drain ab"
| "async_start ab (Op_send_break d) =
     (if \<not> float_le (Fin 0) d then io_raise (exn_msg ValueError)
      else enter K_send (delegate ab K_send (B_send_break d)))"
| "async_start ab Op_modem_lines = run_section K_control (delegate ab K_control B_modem_lines)"
| "async_start ab (Op_set_control_lines r d) =
     run_section K_control (delegate ab K_control (B_set_control_lines r d))"
| "async_start ab Op_input_waiting = async_waiting ab (ab_input_waiting ab)"
| "async_start ab Op_output_waiting = async_waiting ab (ab_output_waiting ab)"

text \<open>The body under a lock, once it is granted, and the continuation of a parked section.\<close>

fun locked_body :: "('b, 'p, 'w) async_backend \<Rightarrow> kind \<Rightarrow> ('b, 'p) async_body" where
  "locked_body ab K_close = async_close_body ab"
| "locked_body ab (K_configure c) = delegate ab (K_configure c) (B_configure c)"
| "locked_body ab _ = io_return (Done V_unit)"

definition async_resume :: "('b, 'p, 'w) async_backend \<Rightarrow> kind \<Rightarrow> 'p \<Rightarrow> 'w \<Rightarrow> ('b, 'p) async_io" where
  "async_resume ab k q w = run_section k (finishing ab k (on_async (ab_resume ab q w)))"

subsection \<open>Concurrent calls\<close>

record 'p acall =
  ac_op :: op
  ac_pc :: "'p apc"
  ac_sent :: bytes
  ac_received :: bytes

datatype ('p, 'w) alabel =
    A_called op "exn + 'p aprogress"
  | A_granted "'p acall" "exn + 'p aprogress"
  | A_cancelled "'p acall"
  | A_woken "'p acall" 'w "exn + 'p aprogress"
  | A_background

type_synonym ('b, 'p) async_system = "'b async_port \<times> 'p acall list"

fun stays :: "'p acall \<Rightarrow> exn + 'p aprogress \<Rightarrow> 'p acall list" where
  "stays t (Inr (Awaits pc)) = [t\<lparr>ac_pc := pc\<rparr>]"
| "stays t (Inr (Done v)) = []"
| "stays t (Inl e) = []"

text \<open>
  Any task calls any operation; a lock is granted when nobody holds it, and a wait for it may be
  cancelled; a parked call is woken by the runtime; in the background the backend may change as long
  as the relation \<open>quiet\<close> allows it (for Windows: calls of the backend's own).
\<close>

inductive async_step :: "('b, 'p, 'w) async_backend \<Rightarrow> ('b \<Rightarrow> bytes) \<Rightarrow> ('b \<Rightarrow> bytes) \<Rightarrow> ('b \<Rightarrow> 'b \<Rightarrow> bool) \<Rightarrow>
    ('b, 'p) async_system \<Rightarrow> ('p, 'w) alabel \<Rightarrow> ('b, 'p) async_system \<Rightarrow> bool"
  for ab sent received quiet where
  call: "async_start ab op p = (r, p') \<Longrightarrow>
    async_step ab sent received quiet (p, ts) (A_called op r)
      (p', ts @ stays \<lparr>ac_op = op, ac_pc = At_lock K_close, ac_sent = sent (ap_backend p),
         ac_received = received (ap_backend p)\<rparr> r)"
| granted: "ac_pc t = At_lock k \<Longrightarrow> \<not> held (hold_of k) p \<Longrightarrow> enter k (locked_body ab k) p = (r, p') \<Longrightarrow>
    async_step ab sent received quiet (p, ts @ t # us) (A_granted t r) (p', ts @ stays t r @ us)"
| cancelled: "ac_pc t = At_lock k \<Longrightarrow>
    async_step ab sent received quiet (p, ts @ t # us) (A_cancelled t) (p, ts @ us)"
| woken: "ac_pc t = Inside k q \<Longrightarrow> async_resume ab k q w p = (r, p') \<Longrightarrow>
    async_step ab sent received quiet (p, ts @ t # us) (A_woken t w r) (p', ts @ stays t r @ us)"
| background: "quiet (ap_backend p) b \<Longrightarrow>
    async_step ab sent received quiet (p, ts) A_background (p\<lparr>ap_backend := b\<rparr>, ts)"

inductive async_reachable :: "('b, 'p, 'w) async_backend \<Rightarrow> ('b \<Rightarrow> bytes) \<Rightarrow> ('b \<Rightarrow> bytes) \<Rightarrow>
    ('b \<Rightarrow> 'b \<Rightarrow> bool) \<Rightarrow> ('b \<Rightarrow> bool) \<Rightarrow> ('b, 'p) async_system \<Rightarrow> bool"
  for ab sent received quiet good where
  opened: "good b \<Longrightarrow> ab_is_open ab b \<Longrightarrow> async_reachable ab sent received quiet good (new_async_port b c, [])"
| step: "async_reachable ab sent received quiet good s \<Longrightarrow> async_step ab sent received quiet s l s' \<Longrightarrow>
    async_reachable ab sent received quiet good s'"

subsection \<open>Guards and locks\<close>

lemma held_set [simp]:
  "held h (set_held h' False p) \<longleftrightarrow> h \<noteq> h' \<and> held h p"
  "held h (set_held h' True p) \<longleftrightarrow> held h p \<or> h = h' \<and> h \<noteq> H_none"
  by (cases h; cases h'; simp)+

lemma set_held_fields [simp]:
  "ap_backend (set_held h on p) = ap_backend p" "ap_config (set_held h on p) = ap_config p"
  "ap_closed (set_held h on p) = ap_closed p"
  by (cases h; simp)+

lemma held_frame [simp]:
  "held h (p\<lparr>ap_backend := b\<rparr>) = held h p" "held h (p\<lparr>ap_config := c\<rparr>) = held h p"
  "held h (p\<lparr>ap_closed := x\<rparr>) = held h p"
  by (cases h; simp)+

fun pc_hold :: "'p apc \<Rightarrow> hold" where
  "pc_hold (Inside k q) = hold_of k"
| "pc_hold (At_lock k) = H_none"

text \<open>What a result leaves held.\<close>

fun result_hold :: "exn + 'p aprogress \<Rightarrow> hold" where
  "result_hold (Inr (Awaits pc)) = pc_hold pc"
| "result_hold (Inr (Done v)) = H_none"
| "result_hold (Inl e) = H_none"

definition same_holds :: "'b async_port \<Rightarrow> 'b async_port \<Rightarrow> bool" where
  "same_holds p p' \<longleftrightarrow> (\<forall>h. held h p' = held h p)"

interpretation holds: frame "same_holds :: 'b async_port \<Rightarrow> 'b async_port \<Rightarrow> bool"
  by unfold_locales (auto simp: same_holds_def)

lemma wp_on_async [wp_simps]:
  "wp (on_async m) Q E p =
     wp m (\<lambda>x b. Q x (p\<lparr>ap_backend := b\<rparr>)) (\<lambda>e b. E e (p\<lparr>ap_backend := b\<rparr>)) (ap_backend p)"
  by (simp add: wp_def on_async_def split: prod.split sum.split)

lemma holds_on_async: "keeps same_holds (on_async m)"
  by (simp add: keeps_def wp_simps same_holds_def)

lemma holds_modify: "(\<And>p. same_holds p (f p)) \<Longrightarrow> keeps same_holds (io_modify f)"
  by (rule keeps_modify)

lemma holds_set_config: "keeps same_holds (io_modify (\<lambda>p. p\<lparr>ap_config := c\<rparr>))"
  by (rule keeps_modify) (simp add: same_holds_def)

lemma holds_finish: "keeps same_holds (finish ab k v)"
  by (cases k) (auto intro!: holds.keeps_control holds_set_config)

lemma keeps_suspended:
  "(\<And>v. keeps R (f v)) \<Longrightarrow> (\<And>q. keeps R (g q)) \<Longrightarrow> keeps R (case s of Done v \<Rightarrow> f v | Awaits q \<Rightarrow> g q)"
  by (cases s) simp_all

lemma holds_bodies:
  "keeps same_holds m \<Longrightarrow> keeps same_holds (finishing ab k m)"
  "keeps same_holds (async_raise_if_closed ab)"
  "keeps same_holds (delegate ab k b)"
  "keeps same_holds (available_body ab l)"
  "keeps same_holds (async_close_body ab)"
  unfolding finishing_def async_raise_if_closed_def delegate_def available_body_def async_close_body_def Let_def
  by (intro holds.keeps_control keeps_suspended holds_finish holds_on_async keeps_modify; simp add: same_holds_def)+

lemma holds_locked: "keeps same_holds (locked_body ab k)"
  by (cases k) (simp_all add: holds_bodies holds.keeps_return)

text \<open>What a section leaves held, and what a call may newly hold.\<close>

definition takes :: "'b async_port \<Rightarrow> exn + 'p aprogress \<Rightarrow> 'b async_port \<Rightarrow> bool" where
  "takes p r p' \<longleftrightarrow> (result_hold r \<noteq> H_none \<longrightarrow> \<not> held (result_hold r) p)
     \<and> (\<forall>h. held h p' \<longleftrightarrow> held h p \<or> h \<noteq> H_none \<and> h = result_hold r)"

definition releases :: "hold \<Rightarrow> 'b async_port \<Rightarrow> exn + 'p aprogress \<Rightarrow> 'b async_port \<Rightarrow> bool" where
  "releases h0 p r p' \<longleftrightarrow> (result_hold r = H_none \<or> result_hold r = h0)
     \<and> (\<forall>h. held h p' \<longleftrightarrow> held h p \<and> (h \<noteq> h0 \<or> result_hold r = h0))"

lemma held_none [simp]: "\<not> held H_none p"
  by simp

lemma run_section_releases:
  assumes "keeps same_holds m" "run_section k m p = (r, p')"
  shows "releases (hold_of k) p r p'"
proof -
  obtain r0 p0 where run: "m p = (r0, p0)" by fastforce
  from keeps_snd [OF assms(1), of p] run have same: "held h p0 = held h p" for h by (simp add: same_holds_def)
  show ?thesis
  proof (cases "\<exists>q. r0 = Inr (Awaits q)")
    case True
    then obtain q where "r0 = Inr (Awaits q)" by blast
    with assms(2) run have "r = Inr (Awaits (Inside k q))" "p' = p0" by (simp_all add: run_section_def)
    with same show ?thesis by (simp add: releases_def)
  next
    case False
    then have "result_hold r = H_none \<and> p' = set_held (hold_of k) False p0"
      using assms(2) run by (cases r0) (auto simp: run_section_def split: suspended.splits)
    with same show ?thesis by (cases "hold_of k = H_none") (auto simp: releases_def)
  qed
qed

definition taking :: "('b, 'p) async_io \<Rightarrow> bool" where
  "taking m \<longleftrightarrow> (\<forall>p r p'. m p = (r, p') \<longrightarrow> takes p r p')"

lemma takingD: "taking m \<Longrightarrow> m p = (r, p') \<Longrightarrow> takes p r p'"
  by (simp add: taking_def)

lemma releases_takes:
  assumes "releases h0 (set_held h0 True p) r p'" "\<not> held h0 p"
  shows "takes p r p'"
proof -
  have "held h p' \<longleftrightarrow> held h p \<or> h \<noteq> H_none \<and> h = result_hold r" for h
    using assms by (cases "h = h0"; cases "h0 = H_none"; cases "result_hold r = H_none") (simp_all add: releases_def)
  with assms show ?thesis by (auto simp: takes_def releases_def)
qed

lemma taking_enter:
  assumes "keeps same_holds m"
  shows "taking (enter k m)"
  unfolding taking_def
proof (intro allI impI)
  fix p r p' assume run: "enter k m p = (r, p')"
  show "takes p r p'"
  proof (cases "held (hold_of k) p")
    case True
    with run show ?thesis by (auto simp: enter_def io_ctl_defs takes_def)
  next
    case False
    with run have "run_section k m (set_held (hold_of k) True p) = (r, p')"
      by (simp add: enter_def io_ctl_defs)
    from run_section_releases [OF assms this] False show ?thesis by (rule releases_takes)
  qed
qed

lemma taking_section: "keeps same_holds m \<Longrightarrow> taking (run_section K_control m)"
  unfolding taking_def by (auto dest!: run_section_releases simp: releases_def takes_def)

text \<open>A method that holds nothing when it ends or parks.\<close>

lemma taking_plain:
  assumes "keeps same_holds m" "\<And>p. wp m (\<lambda>x _. result_hold (Inr x) = H_none) (\<lambda>_ _. True) p"
  shows "taking m"
  unfolding taking_def
proof (intro allI impI)
  fix p r p' assume run: "m p = (r, p')"
  have "same_holds p p'" using keeps_snd [OF assms(1), of p] run by simp
  moreover have "result_hold r = H_none" using assms(2) [of p] run by (cases r) (auto simp: wp_def)
  ultimately show "takes p r p'" by (auto simp: takes_def same_holds_def)
qed

lemma taking_if: "taking m \<Longrightarrow> taking n \<Longrightarrow> taking (if c then m else n)"
  by simp

lemma taking_get: "(\<And>x. taking (f x)) \<Longrightarrow> taking (io_bind (io_get g) f)"
  by (simp add: taking_def io_bind_def io_get_def)

lemma taking_simple:
  "taking (io_raise e)" "taking (io_return (Done v))" "taking (io_return (Awaits (At_lock k)))"
  by (auto intro!: taking_plain holds.keeps_control simp: wp_simps)

lemma taking_closed_then:
  assumes "keeps same_holds n" "\<And>p. wp n (\<lambda>x _. result_hold (Inr x) = H_none) (\<lambda>_ _. True) p"
  shows "taking (io_seq (async_raise_if_closed ab) n)"
proof (rule taking_plain)
  show "keeps same_holds (io_seq (async_raise_if_closed ab) n)"
    by (intro holds.keeps_seq holds_bodies assms(1))
  show "wp (io_seq (async_raise_if_closed ab) n) (\<lambda>x _. result_hold (Inr x) = H_none) (\<lambda>_ _. True) p" for p
    using assms(2) by (simp add: async_raise_if_closed_def wp_simps)
qed

lemma taking_waiting: "taking (async_waiting ab m)"
  unfolding async_waiting_def
proof (rule taking_closed_then)
  show "keeps same_holds (io_bind (on_async m) (\<lambda>n. io_return (Done (V_int n))))"
    by (intro holds.keeps_control holds_on_async)
  show "wp (io_bind (on_async m) (\<lambda>n. io_return (Done (V_int n)))) (\<lambda>x _. result_hold (Inr x) = H_none) (\<lambda>_ _. True) p" for p
    by (simp add: wp_simps)
qed

lemma taking_send_nothing: "taking (io_seq (async_raise_if_closed ab) (io_return (Done v)))"
  by (rule taking_closed_then) (simp_all add: holds.keeps_return wp_simps)

lemmas taking_rules = taking_if taking_get taking_enter taking_section taking_simple taking_waiting
  taking_send_nothing holds_bodies holds_on_async

lemma taking_start: "taking (async_start ab op)"
  by (cases op) (simp_all only: async_start.simps async_drain_def, (intro taking_rules)+)

subsection \<open>At most one call in each section\<close>

definition count_hold :: "hold \<Rightarrow> 'p acall list \<Rightarrow> nat" where
  "count_hold h ts = length (filter (\<lambda>t. pc_hold (ac_pc t) = h) ts)"

lemma count_hold_simps [simp]:
  "count_hold h [] = 0" "count_hold h (t # ts) = of_bool (pc_hold (ac_pc t) = h) + count_hold h ts"
  "count_hold h (ts @ us) = count_hold h ts + count_hold h us"
  by (simp_all add: count_hold_def)

lemma count_stays: "h \<noteq> H_none \<Longrightarrow> count_hold h (stays t r) = of_bool (result_hold r = h)"
  by (cases "(t, r)" rule: stays.cases) simp_all

definition holds_ok :: "('b, 'p) async_system \<Rightarrow> bool" where
  "holds_ok s \<longleftrightarrow> (\<forall>h. h \<noteq> H_none \<longrightarrow> count_hold h (snd s) = of_bool (held h (fst s)))"

lemma holds_step:
  assumes "async_step ab sent received quiet s l s'" "holds_ok s"
  shows "holds_ok s'"
  using assms
proof cases
  case (call op p r p' ts)
  have "takes p r p'" by (rule takingD [OF taking_start call(4)])
  with call assms(2) show ?thesis
    by (auto simp: holds_ok_def takes_def count_stays)
next
  case (granted t k p r p' ts us)
  have "takes p r p'" by (rule takingD [OF taking_enter [OF holds_locked] granted(6)])
  with granted assms(2) show ?thesis
    by (auto simp: holds_ok_def takes_def count_stays)
next
  case (cancelled t k ts p us)
  with assms(2) show ?thesis by (auto simp: holds_ok_def)
next
  case (woken t k q w p r p' ts us)
  have "releases (hold_of k) p r p'"
    using woken(5) unfolding async_resume_def
    by (rule run_section_releases [OF holds_bodies(1) [OF holds_on_async]])
  note rel = this [unfolded releases_def]
  have "count_hold h (ts @ stays t r @ us) = of_bool (held h p')" if h: "h \<noteq> H_none" for h
  proof -
    have "count_hold h (ts @ t # us) = of_bool (held h p)"
      using assms(2) h woken(1) by (simp add: holds_ok_def)
    with woken(4) rel h show ?thesis
      by (cases "h = hold_of k"; cases "result_hold r = H_none"; cases "held h p") (simp_all add: count_stays split: if_splits)
  qed
  with woken show ?thesis by (simp add: holds_ok_def)
next
  case (background p b ts)
  with assms(2) show ?thesis by (simp add: holds_ok_def)
qed

lemma holds_new: "holds_ok (new_async_port b c, [])"
proof -
  have "held h (new_async_port b c) = False" for h by (cases h) (simp_all add: new_async_port_def)
  then show ?thesis by (simp add: holds_ok_def)
qed

end
