(* ===== verification/Windows_Backend.thy ===== *)
theory Windows_Backend
  imports Win32 Async_Port
begin

section \<open>The Windows backend (\<open>_windows/backend.py\<close>, \<open>_trio_io.py\<close>, \<open>_asyncio_io.py\<close>)\<close>

text \<open>
  \<open>WindowsBackend\<close> owns its asynchronous transfers: a method that awaits one is, as in theory
  \<open>Stream\<close>, a start up to the \<open>await\<close> and a resumption from it. The wake-up carries what the runtime
  delivers: the bytes of a read, the count of a write, or an exception (a failed completion, or a
  cancellation, which both runtimes deliver only after the operation has ended). An operation that ends
  with an exception may have moved bytes before it ended, up to all of them; the code is not told how
  many, so the environment gives the exception together with what was moved. \<open>open\<close> and \<open>aclose\<close>
  are coroutines that never suspend, so each is one function.
\<close>

subsection \<open>State\<close>

record windows_backend = win_state +
  wb_path :: string
  wb_handle :: int
  wb_wrapper :: "int option"
  wb_open :: bool
  wb_runtime :: "runtime option"
  wb_config :: "serial_config option"
  wb_abandoned :: "int list"

type_synonym 'k windows_op = "('k windows_backend_scheme, exn, unit) io"

definition windows_init :: "win_env \<Rightarrow> wlog \<Rightarrow> windows_backend" where
  "windows_init env l = \<lparr>ws_env = env, ws_log = l, wb_path = [], wb_handle = 0, wb_wrapper = None,
     wb_open = False, wb_runtime = None, wb_config = None, wb_abandoned = []\<rparr>"

text \<open>\<open>except OSError as exc: raise winerror_to_exception(exc, context, self._path)\<close>.\<close>

definition win_translating :: "string \<Rightarrow> ('k windows_backend_scheme, exn, 'a) io \<Rightarrow>
    ('k windows_backend_scheme, exn, 'a) io" where
  "win_translating ctx m =
     io_try m (\<lambda>e. io_bind (io_get wb_path) (\<lambda>path.
       if isinstance e OSError then io_raise (winerror_to_exception e ctx (Some path)) else io_raise e))"

definition win_closed_error :: "'k windows_backend_scheme \<Rightarrow> exn" where
  "win_closed_error b = exn_os SerialClosedError (Some 0) (Some ''WindowsBackend is closed'') (Some (wb_path b))"

definition win_raise_if_closed :: "'k windows_op" where
  "win_raise_if_closed = io_bind (io_get wb_open) (\<lambda>ok.
     if ok then io_return () else io_bind (io_get win_closed_error) io_raise)"

text \<open>A call on the handle \<open>self._handle\<close>.\<close>

definition on_handle :: "(int \<Rightarrow> k32) \<Rightarrow> ('k windows_backend_scheme, exn, answer) io" where
  "on_handle c = io_bind (io_get wb_handle) (\<lambda>h. k32_call (c h))"

definition ignore :: "('s, exn, 'a) io \<Rightarrow> ('s, exn, unit) io" where
  "ignore m = io_bind m (\<lambda>_. io_return ())"

definition suppress_oserror :: "('s, exn, unit) io \<Rightarrow> ('s, exn, unit) io" where
  "suppress_oserror = io_suppress (\<lambda>e. isinstance e OSError)"

subsection \<open>Opening and closing\<close>

definition apply_dcb :: "serial_config \<Rightarrow> 'k windows_op" where
  "apply_dcb config =
     io_seq load_kernel32
       (io_bind (on_handle GetCommState) (\<lambda>a.
        ignore (on_handle (\<lambda>h. SetCommState h (apply_config (an_dcb a) config)))))"

text \<open>Registration with the completion port of the runtime.\<close>

definition win_register :: "'k windows_op" where
  "win_register =
     io_bind (io_get wb_runtime) (\<lambda>rt. io_bind (io_get wb_handle) (\<lambda>handle.
       if rt = Some Trio then rt_register handle
       else io_seq (io_modify (\<lambda>s. s\<lparr>wb_wrapper := Some handle\<rparr>)) (rt_register handle)))"

definition win_open_raise :: "string \<Rightarrow> exn \<Rightarrow> ('k windows_backend_scheme, exn, 'a) io" where
  "win_open_raise path e =
     (if isinstance e OSError then io_raise (winerror_to_exception e ''open'' (Some path)) else io_raise e)"

definition win_create :: "string \<Rightarrow> ('k windows_backend_scheme, exn, answer) io" where
  "win_create path =
     io_try (k32_call (CreateFileW (normalise_com_path path) (GENERIC_READ OR GENERIC_WRITE) 0
         OPEN_EXISTING FILE_FLAG_OVERLAPPED))
       (win_open_raise path)"

definition win_setup :: "int \<Rightarrow> string \<Rightarrow> serial_config \<Rightarrow> 'k windows_op" where
  "win_setup handle path config =
     io_try
       (io_seq (ignore (k32_call (SetupComm handle DEFAULT_INPUT_QUEUE DEFAULT_OUTPUT_QUEUE)))
         (io_seq (apply_dcb config)
           (ignore (k32_call (SetCommTimeouts handle build_read_any_timeouts)))))
       (\<lambda>e. if isinstance e OSError
             then io_seq (suppress_oserror (ignore (k32_call (CloseHandle handle))))
               (io_seq (io_modify (\<lambda>s. s\<lparr>wb_handle := 0, wb_open := False\<rparr>)) (win_open_raise path e))
             else io_raise e)"

definition windows_open :: "string \<Rightarrow> serial_config \<Rightarrow> 'k windows_op" where
  "windows_open path config =
     io_bind (io_get wb_open) (\<lambda>already.
     if already then io_raise (exn_msg RuntimeError)
     else
       io_seq (io_modify (\<lambda>s. s\<lparr>wb_path := path\<rparr>))
       (io_bind (io_get (\<lambda>s. detect_runtime (we_probe (ws_env s) (ws_log s)))) (\<lambda>probe.
        io_bind (io_lift probe) (\<lambda>rt.
        io_seq (io_modify (\<lambda>s. s\<lparr>wb_runtime := Some rt\<rparr>))
       (io_seq load_kernel32
       (io_bind (win_create path) (\<lambda>a.
        let handle = an_result a in
        io_seq (io_modify (\<lambda>s. s\<lparr>wb_handle := handle\<rparr>))
       (io_seq (win_setup handle path config)
       (io_seq win_register
       (io_seq (ignore (k32_call (SetCommMask handle EV_ALL_MODEM)))
         (io_modify (\<lambda>s. s\<lparr>wb_config := Some config, wb_open := True\<rparr>))))))))))))"

definition PURGE_ALL :: int where
  "PURGE_ALL = PURGE_RXABORT OR PURGE_TXABORT OR PURGE_RXCLEAR OR PURGE_TXCLEAR"

definition windows_aclose :: "'k windows_op" where
  "windows_aclose =
     io_bind (io_get wb_open) (\<lambda>was_open.
     if \<not> was_open then io_return ()
     else io_bind (io_get wb_handle) (\<lambda>handle.
       io_seq (io_modify (\<lambda>s. s\<lparr>wb_open := False, wb_handle := 0, wb_wrapper := None\<rparr>))
      (io_seq load_kernel32
      (io_seq (suppress_oserror (ignore (k32_call (SetCommMask handle 0))))
      (io_seq (suppress_oserror (ignore (k32_call (PurgeComm handle PURGE_ALL))))
              (suppress_oserror (ignore (k32_call (CloseHandle handle)))))))))"

subsection \<open>Suspension points\<close>

datatype wpc = At_readinto nat bool | At_write bytes nat | At_flush | At_sleep

text \<open>What an operation that raised had moved: bytes read into its buffer, or a count of bytes written.\<close>

datatype moved = No_bytes | Bytes_in bytes | Bytes_out nat

fun bytes_in :: "moved \<Rightarrow> bytes" where
  "bytes_in (Bytes_in bs) = bs"
| "bytes_in _ = []"

fun bytes_out :: "moved \<Rightarrow> nat" where
  "bytes_out (Bytes_out n) = n"
| "bytes_out _ = 0"

datatype wwake = Woke | Woke_read bytes | Woke_written nat | Woke_throw exn moved

type_synonym 'k windows_call = "('k windows_backend_scheme, exn, (outcome, wpc) suspended) io"

subsection \<open>The data path\<close>

text \<open>
  \<open>_dispatch_readinto\<close> and \<open>_dispatch_write\<close> up to their \<open>await\<close>. On Trio the whole call is the
  runtime's; on asyncio the wrapper is asserted and the transfer started, which may fail at once.
\<close>

definition win_issue :: "'k windows_op" where
  "win_issue =
     io_bind (io_get wb_runtime) (\<lambda>rt.
     if rt = Some Trio then io_return ()
     else io_bind (io_get wb_wrapper) (\<lambda>wrapper.
       if wrapper = None then io_raise (exn_msg AssertionError)
       else io_bind (io_get wb_handle) rt_issue))"

definition readinto_loop :: "nat \<Rightarrow> bool \<Rightarrow> 'k windows_call" where
  "readinto_loop n into = io_seq (win_translating ''io'' win_issue) (io_return (Awaits (At_readinto n into)))"

definition windows_receive :: "nat \<Rightarrow> 'k windows_call" where
  "windows_receive max_bytes = io_seq win_raise_if_closed (readinto_loop max_bytes False)"

definition windows_receive_into :: "nat \<Rightarrow> 'k windows_call" where
  "windows_receive_into len = io_seq win_raise_if_closed (readinto_loop len True)"

text \<open>
  The rest of one turn: \<open>_trio_io.readinto\<close> maps \<open>ERROR_TIMEOUT\<close> to an empty completion. A read never
  fills more than its buffer; a wake-up that is not of a read delivers nothing. Bytes that an operation
  had read before it raised were taken from the driver and reach nobody: the log has them as lost.
\<close>

definition readinto_result :: "nat \<Rightarrow> wwake \<Rightarrow> ('k windows_backend_scheme, exn, bytes) io" where
  "readinto_result n w =
     (case w of
        Woke_read bs \<Rightarrow> io_seq (note_event (W_read (take n bs))) (io_return (take n bs))
      | Woke_throw e x \<Rightarrow> io_seq (note_event (W_lost (take n (bytes_in x)))) (io_bind (io_get wb_runtime) (\<lambda>rt.
          if rt = Some Trio \<and> isinstance e OSError \<and> exn_winerror e = Some ERROR_TIMEOUT then io_return []
          else io_raise e))
      | _ \<Rightarrow> io_return [])"

definition readinto_turn :: "nat \<Rightarrow> bool \<Rightarrow> wwake \<Rightarrow> 'k windows_call" where
  "readinto_turn n into w =
     io_bind (win_translating ''io'' (readinto_result n w)) (\<lambda>bs.
       if bs \<noteq> [] then io_return (Done (if into then V_into bs else V_bytes bs))
       else readinto_loop n into)"

definition write_loop :: "bytes \<Rightarrow> nat \<Rightarrow> 'k windows_call" where
  "write_loop data offset =
     (if offset < length data
      then io_seq (win_translating ''io'' win_issue) (io_return (Awaits (At_write data offset)))
      else io_return (Done V_unit))"

definition windows_send :: "bytes \<Rightarrow> 'k windows_call" where
  "windows_send data = io_seq win_raise_if_closed (write_loop data 0)"

definition write_result :: "bytes \<Rightarrow> wwake \<Rightarrow> ('k windows_backend_scheme, exn, nat) io" where
  "write_result chunk w =
     (case w of
        Woke_written n \<Rightarrow> io_seq (note_event (W_written chunk (min (length chunk) n)))
          (io_return (min (length chunk) n))
      | Woke_throw e x \<Rightarrow>
          io_seq (note_event (W_written chunk (min (length chunk) (bytes_out x)))) (io_raise e)
      | _ \<Rightarrow> io_return 0)"

definition write_turn :: "bytes \<Rightarrow> nat \<Rightarrow> wwake \<Rightarrow> 'k windows_call" where
  "write_turn data offset w =
     io_bind (win_translating ''io'' (write_result (drop offset data) w)) (\<lambda>written.
       if written = 0
       then io_bind (io_get wb_path) (\<lambda>path. io_raise
              (exn_os SerialDisconnectedError (Some 0) (Some ''WriteFile returned 0 bytes'') (Some path)))
       else write_loop data (offset + written))"

subsection \<open>The control plane\<close>

definition windows_configure :: "serial_config \<Rightarrow> 'k windows_op" where
  "windows_configure config =
     io_seq win_raise_if_closed
       (io_seq (win_translating ''ioctl'' (apply_dcb config))
         (io_modify (\<lambda>s. s\<lparr>wb_config := Some config\<rparr>)))"

definition win_ioctl :: "(int \<Rightarrow> k32) \<Rightarrow> ('k windows_backend_scheme, exn, answer) io" where
  "win_ioctl c =
     io_seq win_raise_if_closed (io_seq load_kernel32 (win_translating ''ioctl'' (on_handle c)))"

definition windows_reset_input_buffer :: "'k windows_op" where
  "windows_reset_input_buffer = ignore (win_ioctl (\<lambda>h. PurgeComm h (PURGE_RXCLEAR OR PURGE_RXABORT)))"

definition windows_reset_output_buffer :: "'k windows_op" where
  "windows_reset_output_buffer = ignore (win_ioctl (\<lambda>h. PurgeComm h (PURGE_TXCLEAR OR PURGE_TXABORT)))"

definition windows_drain :: "'k windows_call" where
  "windows_drain = io_seq win_raise_if_closed (io_seq load_kernel32 (io_return (Awaits At_flush)))"

definition flush_in_thread :: "'k windows_op" where
  "flush_in_thread = win_translating ''io'' (ignore (on_handle FlushFileBuffers))"

definition windows_send_break :: "'k windows_call" where
  "windows_send_break = io_seq (win_ioctl SetCommBreak) (io_return (Awaits At_sleep))"

definition break_turn :: "wwake \<Rightarrow> 'k windows_call" where
  "break_turn w =
     io_finally (case w of Woke_throw e x \<Rightarrow> io_raise e | _ \<Rightarrow> io_return (Done V_unit))
       (suppress_oserror (ignore (on_handle ClearCommBreak)))"

definition windows_modem_lines :: "('k windows_backend_scheme, exn, modem_lines) io" where
  "windows_modem_lines =
     io_bind (win_ioctl GetCommModemStatus) (\<lambda>a.
       let status = uint (an_word a) in
       io_return \<lparr>ml_cts = (status AND MS_CTS_ON) \<noteq> 0, ml_dsr = (status AND MS_DSR_ON) \<noteq> 0,
         ml_ri = (status AND MS_RING_ON) \<noteq> 0, ml_cd = (status AND MS_RLSD_ON) \<noteq> 0\<rparr>)"

definition windows_set_control_lines :: "bool option \<Rightarrow> bool option \<Rightarrow> 'k windows_op" where
  "windows_set_control_lines rts dtr =
     io_seq win_raise_if_closed
       (io_seq load_kernel32
         (win_translating ''ioctl''
           (io_seq
             (case rts of None \<Rightarrow> io_return ()
              | Some on \<Rightarrow> ignore (on_handle (\<lambda>h. EscapeCommFunction h (if on then SETRTS else CLRRTS))))
             (case dtr of None \<Rightarrow> io_return ()
              | Some on \<Rightarrow> ignore (on_handle (\<lambda>h. EscapeCommFunction h (if on then SETDTR else CLRDTR)))))))"

definition win_comstat :: "('k windows_backend_scheme, exn, comstat) io" where
  "win_comstat = io_bind (win_ioctl ClearCommError) (\<lambda>a. io_return (an_comstat a))"

definition windows_input_waiting :: "('k windows_backend_scheme, exn, int) io" where
  "windows_input_waiting = io_bind win_comstat (\<lambda>c. io_return (uint (cs_cbInQue c)))"

definition windows_output_waiting :: "('k windows_backend_scheme, exn, int) io" where
  "windows_output_waiting = io_bind win_comstat (\<lambda>c. io_return (uint (cs_cbOutQue c)))"

subsection \<open>Modem events\<close>

text \<open>
  \<open>wait_modem_event\<close> is offered by the backend only. Trio owns the whole wait. On asyncio the wait goes
  through an event object that this code owns: it is closed when the call ends, unless the kernel did
  not finish a cancelled operation in time, when it is kept with the buffers in \<open>_abandoned_waits\<close>. A
  wake-up is the event mask the kernel stored, or an exception.
\<close>

datatype epc = At_overlapped | At_event int int

datatype ewake = Signalled int | Event_throw exn

type_synonym 'k windows_event_call = "('k windows_backend_scheme, exn, (comm_event, epc) suspended) io"

definition CANCEL_WAIT_MS :: int where "CANCEL_WAIT_MS = 1000"

definition comm_event_of :: "int \<Rightarrow> comm_event" where
  "comm_event_of bits =
     \<lparr>cts_changed = (bits AND EV_CTS) \<noteq> 0, dsr_changed = (bits AND EV_DSR) \<noteq> 0,
      rlsd_changed = (bits AND EV_RLSD) \<noteq> 0, ring = (bits AND EV_RING) \<noteq> 0,
      error = (bits AND EV_ERR) \<noteq> 0, break_received = (bits AND EV_BREAK) \<noteq> 0\<rparr>"

text \<open>\<open>raise ctypes.WinError(err)\<close> unless the operation is pending.\<close>

definition unless_pending :: "answer \<Rightarrow> ('k windows_backend_scheme, exn, 'a) io \<Rightarrow>
    ('k windows_backend_scheme, exn, 'a) io" where
  "unless_pending a m =
     (if an_last_error a \<noteq> ERROR_IO_PENDING
      then io_bind (io_get ws_env) (\<lambda>env. io_raise (win_exn env (an_last_error a))) else m)"

definition trio_wait_start :: "int \<Rightarrow> ('k windows_backend_scheme, exn, (int, epc) suspended) io" where
  "trio_wait_start handle =
     io_seq load_kernel32
       (io_bind (k32_call (WaitCommEvent handle)) (\<lambda>a.
        if an_result a = 0 then unless_pending a (io_return (Awaits At_overlapped))
        else io_return (Awaits At_overlapped)))"

text \<open>The \<open>finally\<close> block.\<close>

definition release_event :: "bool \<Rightarrow> int \<Rightarrow> 'k windows_op" where
  "release_event released ev =
     (if released then suppress_oserror (ignore (k32_call (CloseHandle ev)))
      else io_modify (\<lambda>s. s\<lparr>wb_abandoned := wb_abandoned s @ [ev]\<rparr>))"

text \<open>The body up to the \<open>await\<close>; leaving it otherwise runs the \<open>finally\<close> block.\<close>

definition asyncio_wait_issue :: "int \<Rightarrow> int \<Rightarrow> ('k windows_backend_scheme, exn, (int, epc) suspended) io" where
  "asyncio_wait_issue handle ev =
     io_bind (k32_call (WaitCommEvent handle)) (\<lambda>a.
       if an_result a = 0 then unless_pending a (io_return (Awaits (At_event handle ev)))
       else io_seq (release_event True ev) (io_return (Done (uint (an_word a)))))"

definition asyncio_wait_start :: "int \<Rightarrow> ('k windows_backend_scheme, exn, (int, epc) suspended) io" where
  "asyncio_wait_start handle =
     io_seq load_kernel32
       (io_bind (k32_call CreateEventW) (\<lambda>a.
        let ev = an_result a in
        if ev = 0 then io_bind (io_get ws_env) (\<lambda>env. io_raise (win_exn env (an_last_error a)))
        else io_on_error (asyncio_wait_issue handle ev) (release_event True ev)))"

definition asyncio_wait_cancel :: "int \<Rightarrow> int \<Rightarrow> exn \<Rightarrow> ('k windows_backend_scheme, exn, (int, epc) suspended) io" where
  "asyncio_wait_cancel handle ev e =
     io_seq (ignore (k32_call (CancelIoEx handle)))
       (io_bind (k32_call (WaitForSingleObject ev CANCEL_WAIT_MS)) (\<lambda>a.
        io_seq (release_event (an_result a = WAIT_OBJECT_0) ev) (io_raise e)))"

definition wait_dispatch :: "('k windows_backend_scheme, exn, (int, epc) suspended) io" where
  "wait_dispatch =
     io_bind (io_get wb_runtime) (\<lambda>rt. io_bind (io_get wb_handle) (\<lambda>handle.
       if rt = Some Trio then trio_wait_start handle else asyncio_wait_start handle))"

fun wait_resume :: "epc \<Rightarrow> ewake \<Rightarrow> ('k windows_backend_scheme, exn, (int, epc) suspended) io" where
  "wait_resume At_overlapped (Signalled bits) = io_return (Done bits)"
| "wait_resume At_overlapped (Event_throw e) = io_raise e"
| "wait_resume (At_event handle ev) (Signalled bits) =
     io_seq (release_event True ev) (io_return (Done bits))"
| "wait_resume (At_event handle ev) (Event_throw e) = asyncio_wait_cancel handle ev e"

definition event_result :: "('k windows_backend_scheme, exn, (int, epc) suspended) io \<Rightarrow> 'k windows_event_call" where
  "event_result m =
     io_bind (win_translating ''ioctl'' m) (\<lambda>s. io_return (case s of
       Done bits \<Rightarrow> Done (comm_event_of bits) | Awaits q \<Rightarrow> Awaits q))"

definition windows_wait_modem_event :: "'k windows_event_call" where
  "windows_wait_modem_event = io_seq win_raise_if_closed (event_result wait_dispatch)"

definition windows_wait_resume :: "epc \<Rightarrow> ewake \<Rightarrow> 'k windows_event_call" where
  "windows_wait_resume q w = event_result (wait_resume q w)"

subsection \<open>The backend as a record of operations\<close>

definition done_with :: "('a \<Rightarrow> outcome) \<Rightarrow> ('k windows_backend_scheme, exn, 'a) io \<Rightarrow> 'k windows_call" where
  "done_with f m = io_bind m (\<lambda>x. io_return (Done (f x)))"

fun windows_call_op :: "bop \<Rightarrow> 'k windows_call" where
  "windows_call_op B_aclose = done_with (\<lambda>_. V_unit) windows_aclose"
| "windows_call_op (B_receive n) = windows_receive n"
| "windows_call_op (B_receive_into n) = windows_receive_into n"
| "windows_call_op (B_send d) = windows_send d"
| "windows_call_op (B_configure c) = done_with (\<lambda>_. V_unit) (windows_configure c)"
| "windows_call_op B_reset_input_buffer = done_with (\<lambda>_. V_unit) windows_reset_input_buffer"
| "windows_call_op B_reset_output_buffer = done_with (\<lambda>_. V_unit) windows_reset_output_buffer"
| "windows_call_op B_drain = windows_drain"
| "windows_call_op (B_send_break f) = windows_send_break"
| "windows_call_op B_modem_lines = done_with V_modem windows_modem_lines"
| "windows_call_op (B_set_control_lines r d) = done_with (\<lambda>_. V_unit) (windows_set_control_lines r d)"

fun windows_resume :: "wpc \<Rightarrow> wwake \<Rightarrow> 'k windows_call" where
  "windows_resume (At_readinto n into) w = readinto_turn n into w"
| "windows_resume (At_write data offset) w = write_turn data offset w"
| "windows_resume At_flush (Woke_throw e x) = io_raise e"
| "windows_resume At_flush _ = done_with (\<lambda>_. V_unit) flush_in_thread"
| "windows_resume At_sleep w = break_turn w"

definition windows_ab :: "('k windows_backend_scheme, wpc, wwake) async_backend" where
  "windows_ab = \<lparr>ab_path = wb_path, ab_is_open = wb_open, ab_open = windows_open, ab_call = windows_call_op,
     ab_resume = windows_resume, ab_input_waiting = windows_input_waiting,
     ab_output_waiting = windows_output_waiting\<rparr>"

end
