(* ===== verification/Async_Laws.thy ===== *)
theory Async_Laws
  imports Async_Port
begin

section \<open>What the port promises over any asynchronous backend\<close>

text \<open>
  The contract of an asynchronous backend as the locale \<open>async_backend_laws\<close>: a send hands over a
  prefix of its data at each turn (a proper one while it waits, possibly all of it when it raises), a
  read delivers bytes only when it returns, everything else moves
  nothing, and only \<open>aclose\<close> closes. From it the port's promises follow for any interleaving of calls.
  Theory \<open>Windows_Port\<close> interprets it on the Windows backend.
\<close>

subsection \<open>The contract\<close>

definition wrap_read :: "bool \<Rightarrow> bytes \<Rightarrow> outcome" where
  "wrap_read into bs = (if into then V_into bs else V_bytes bs)"

definition send_post :: "('b \<Rightarrow> bytes) \<Rightarrow> ('p \<Rightarrow> (bytes \<times> nat) option) \<Rightarrow> bytes \<Rightarrow> bytes \<Rightarrow>
    exn + (outcome, 'p) suspended \<Rightarrow> 'b \<Rightarrow> bool" where
  "send_post sent sending base d r b' \<longleftrightarrow>
     (case r of
        Inr (Done v) \<Rightarrow> v = V_unit \<and> sent b' = base @ d
      | Inr (Awaits q) \<Rightarrow> \<exists>j<length d. sending q = Some (d, j) \<and> sent b' = base @ take j d
      | Inl e \<Rightarrow> \<exists>j\<le>length d. sent b' = base @ take j d)"

definition read_post :: "('b \<Rightarrow> bytes) \<Rightarrow> ('p \<Rightarrow> (nat \<times> bool) option) \<Rightarrow> bytes \<Rightarrow> nat \<Rightarrow> bool \<Rightarrow>
    exn + (outcome, 'p) suspended \<Rightarrow> 'b \<Rightarrow> bool" where
  "read_post received reading base n into r b' \<longleftrightarrow>
     (case r of
        Inr (Done v) \<Rightarrow> \<exists>bs. v = wrap_read into bs \<and> length bs \<le> n \<and> received b' = base @ bs
      | Inr (Awaits q) \<Rightarrow> reading q = Some (n, into) \<and> received b' = base
      | Inl e \<Rightarrow> received b' = base)"

fun awaits_none :: "('p \<Rightarrow> 'a option) \<Rightarrow> exn + (outcome, 'p) suspended \<Rightarrow> bool" where
  "awaits_none here (Inr (Awaits q)) \<longleftrightarrow> here q = None"
| "awaits_none here (Inr (Done v)) \<longleftrightarrow> True"
| "awaits_none here (Inl e) \<longleftrightarrow> True"

fun is_bsend :: "bop \<Rightarrow> bool" where
  "is_bsend (B_send d) = True"
| "is_bsend _ = False"

fun is_breceive :: "bop \<Rightarrow> bool" where
  "is_breceive (B_receive n) = True"
| "is_breceive (B_receive_into n) = True"
| "is_breceive _ = False"

definition lives :: "('b, 'p, 'w) async_backend \<Rightarrow> ('b \<Rightarrow> bool) \<Rightarrow> 'b \<Rightarrow> 'b \<Rightarrow> bool" where
  "lives ab good b b' \<longleftrightarrow> ab_is_open ab b' = ab_is_open ab b \<and> (good b \<longrightarrow> good b')"

definition rests :: "('b, 'p, 'w) async_backend \<Rightarrow> ('b \<Rightarrow> bytes) \<Rightarrow> ('b \<Rightarrow> bytes) \<Rightarrow> ('b \<Rightarrow> bool) \<Rightarrow> 'b \<Rightarrow> 'b \<Rightarrow> bool" where
  "rests ab sent received good b b' \<longleftrightarrow> sent b' = sent b \<and> received b' = received b \<and> lives ab good b b'"

locale async_backend_laws =
  fixes ab :: "('b, 'p, 'w) async_backend"
    and sent received :: "'b \<Rightarrow> bytes"
    and good :: "'b \<Rightarrow> bool"
    and sending :: "'p \<Rightarrow> (bytes \<times> nat) option"
    and reading :: "'p \<Rightarrow> (nat \<times> bool) option"
  assumes send_law: "d \<noteq> [] \<Longrightarrow> ab_call ab (B_send d) b = (r, b') \<Longrightarrow> send_post sent sending (sent b) d r b'"
    and send_turn_law: "sending q = Some (d, j) \<Longrightarrow> j < length d \<Longrightarrow> sent b = base @ take j d \<Longrightarrow>
      ab_resume ab q w b = (r, b') \<Longrightarrow> send_post sent sending base d r b'"
    and receive_law: "ab_call ab (B_receive n) b = (r, b') \<Longrightarrow> read_post received reading (received b) n False r b'"
    and receive_into_law: "ab_call ab (B_receive_into n) b = (r, b') \<Longrightarrow> read_post received reading (received b) n True r b'"
    and read_turn_law: "reading q = Some (n, into) \<Longrightarrow> ab_resume ab q w b = (r, b') \<Longrightarrow>
      read_post received reading (received b) n into r b'"
    and call_sends_nothing: "\<not> is_bsend c \<Longrightarrow> ab_call ab c b = (r, b') \<Longrightarrow> sent b' = sent b \<and> awaits_none sending r"
    and turn_sends_nothing: "sending q = None \<Longrightarrow> ab_resume ab q w b = (r, b') \<Longrightarrow> sent b' = sent b \<and> awaits_none sending r"
    and call_reads_nothing: "\<not> is_breceive c \<Longrightarrow> ab_call ab c b = (r, b') \<Longrightarrow> received b' = received b \<and> awaits_none reading r"
    and turn_reads_nothing: "reading q = None \<Longrightarrow> ab_resume ab q w b = (r, b') \<Longrightarrow> received b' = received b \<and> awaits_none reading r"
    and waiting_law: "keeps (rests ab sent received good) (ab_input_waiting ab)"
      "keeps (rests ab sent received good) (ab_output_waiting ab)"
    and call_lives: "c \<noteq> B_aclose \<Longrightarrow> keeps (lives ab good) (ab_call ab c)"
    and turn_lives: "keeps (lives ab good) (ab_resume ab q w)"
    and aclose_law: "good b \<Longrightarrow> ab_call ab B_aclose b = (r, b') \<Longrightarrow>
      \<not> ab_is_open ab b' \<and> good b' \<and> (\<forall>q. r \<noteq> Inr (Awaits q))"

subsection \<open>Closed means closed\<close>

definition async_lifecycle :: "('b, 'p, 'w) async_backend \<Rightarrow> ('b \<Rightarrow> bool) \<Rightarrow> 'b async_port \<Rightarrow> bool" where
  "async_lifecycle ab good p \<longleftrightarrow> good (ap_backend p) \<and> (ap_closed p \<longleftrightarrow> \<not> ab_is_open ab (ap_backend p))"

definition same_life :: "('b, 'p, 'w) async_backend \<Rightarrow> ('b \<Rightarrow> bool) \<Rightarrow> 'b async_port \<Rightarrow> 'b async_port \<Rightarrow> bool" where
  "same_life ab good p p' \<longleftrightarrow> ap_closed p' = ap_closed p \<and> lives ab good (ap_backend p) (ap_backend p')"

interpretation life: frame "same_life ab good :: 'b async_port \<Rightarrow> 'b async_port \<Rightarrow> bool"
  for ab :: "('b, 'p, 'w) async_backend" and good
  by unfold_locales (auto simp: same_life_def lives_def)

lemma same_life_lifecycle: "same_life ab good p p' \<Longrightarrow> async_lifecycle ab good p \<Longrightarrow> async_lifecycle ab good p'"
  by (auto simp: same_life_def lives_def async_lifecycle_def)

lemma life_on_async: "keeps (lives ab good) m \<Longrightarrow> keeps (same_life ab good) (on_async m)"
  by (rule keepsI, unfold wp_on_async, erule keeps_wp_mono) (simp_all add: same_life_def)

lemma life_set_config: "keeps (same_life ab good) (io_modify (\<lambda>p. p\<lparr>ap_config := c\<rparr>))"
  by (rule keeps_modify) (simp add: same_life_def lives_def)

lemma life_finish: "keeps (same_life ab good) (finish ab k v)"
  by (cases k) (auto intro!: life.keeps_control life_set_config)

lemma life_finishing: "keeps (same_life ab good) m \<Longrightarrow> keeps (same_life ab good) (finishing ab k m)"
  unfolding finishing_def by (intro life.keeps_control keeps_suspended life_finish)

lemma life_closed: "keeps (same_life ab good) (async_raise_if_closed ab)"
  unfolding async_raise_if_closed_def by (intro life.keeps_control)

lemma life_section:
  assumes "keeps (same_life ab good) m"
  shows "keeps (same_life ab good) (run_section k m)"
proof (rule keepsI)
  fix p
  have "same_life ab good p (snd (run_section k m p))"
    using keeps_snd [OF assms, of p]
    by (auto simp: run_section_def same_life_def split: prod.splits sum.splits suspended.splits)
  then show "wp (run_section k m) (\<lambda>_. same_life ab good p) (\<lambda>_. same_life ab good p) p"
    by (auto simp: wp_def split: prod.splits sum.splits)
qed

lemma life_enter: "keeps (same_life ab good) m \<Longrightarrow> keeps (same_life ab good) (enter k m)"
  unfolding enter_def
  by (intro life.keeps_control life_section keeps_modify) (simp_all add: same_life_def lives_def)

context async_backend_laws
begin

lemma waiting_lives: "keeps (lives ab good) (ab_input_waiting ab)" "keeps (lives ab good) (ab_output_waiting ab)"
  using waiting_law by (auto elim!: keeps_weaken simp: rests_def)

lemma life_delegate: "c \<noteq> B_aclose \<Longrightarrow> keeps (same_life ab good) (delegate ab k c)"
  unfolding delegate_def by (intro life.keeps_control life_closed life_finishing life_on_async call_lives)

lemma life_start: "keeps (same_life ab good) (async_start ab op)"
  by (cases op; simp only: async_start.simps async_drain_def async_waiting_def available_body_def Let_def)
    ((intro life.keeps_control life_closed life_delegate life_section life_enter life_on_async waiting_lives
      life_finishing call_lives; simp)+)

lemma life_resume: "keeps (same_life ab good) (async_resume ab k q w)"
  unfolding async_resume_def by (intro life_section life_finishing life_on_async turn_lives)

lemma close_section:
  assumes "async_lifecycle ab good p" "enter K_close (async_close_body ab) p = (r, p')"
  shows "async_lifecycle ab good p' \<and> (ap_closed p \<longrightarrow> ap_closed p') \<and> (\<not> held H_close p \<longrightarrow> ap_closed p')"
proof (cases "held H_close p")
  case True
  with assms show ?thesis by (auto simp: enter_def io_ctl_defs)
next
  case False
  show ?thesis
  proof (cases "ap_closed p")
    case True
    with False assms show ?thesis
      by (auto simp: enter_def run_section_def async_close_body_def io_ctl_defs async_lifecycle_def)
  next
    case open': False
    obtain r0 b' where run: "ab_call ab B_aclose (ap_backend p) = (r0, b')" by fastforce
    have "good (ap_backend p)" using assms(1) by (simp add: async_lifecycle_def)
    from aclose_law [OF this run] False open' assms(2) run show ?thesis
      by (cases r0) (auto simp: enter_def run_section_def async_close_body_def on_async_def io_ctl_defs
          async_lifecycle_def split: suspended.splits)
  qed
qed

lemma lifecycle_step_async:
  assumes "async_step ab sent received quiet s l s'" "async_lifecycle ab good (fst s)"
    and "\<And>b b'. quiet b b' \<Longrightarrow> lives ab good b b'"
  shows "async_lifecycle ab good (fst s') \<and> (ap_closed (fst s) \<longrightarrow> ap_closed (fst s'))"
  using assms(1)
proof cases
  case (call op p r p' ts)
  have "same_life ab good p p'" using keeps_snd [OF life_start, of p op] call(4) by simp
  with same_life_lifecycle assms(2) call show ?thesis by (auto simp: same_life_def)
next
  case (granted t k p r p' ts us)
  show ?thesis
  proof (cases "k = K_close")
    case True
    with granted assms(2) close_section [of p r p'] show ?thesis by simp
  next
    case False
    have "keeps (same_life ab good) (locked_body ab k)"
      using False by (cases k) (simp_all add: life_delegate life.keeps_return)
    from keeps_snd [OF life_enter [where k = k, OF this], of p] granted(6)
    have "same_life ab good p p'" by simp
    with same_life_lifecycle assms(2) granted show ?thesis by (auto simp: same_life_def)
  qed
next
  case (woken t k q w p r p' ts us)
  have "same_life ab good p p'" using keeps_snd [OF life_resume, of p k q w] woken(5) by simp
  with same_life_lifecycle assms(2) woken show ?thesis by (auto simp: same_life_def)
next
  case (background p b ts)
  with assms(2,3) show ?thesis by (auto simp: async_lifecycle_def lives_def)
qed (use assms(2) in simp)

end

subsection \<open>Exact transfers\<close>

fun send_of :: "op \<Rightarrow> bytes option" where
  "send_of (Op_send d) = Some d"
| "send_of _ = None"

fun reads_as :: "op \<Rightarrow> nat \<Rightarrow> bool \<Rightarrow> bool" where
  "reads_as (Op_receive k) n into \<longleftrightarrow> n = nat k \<and> \<not> into"
| "reads_as (Op_receive_into k) n into \<longleftrightarrow> n = k \<and> into"
| "reads_as (Op_receive_available l) n into \<longleftrightarrow> \<not> into \<and> (\<forall>k. l = Some k \<longrightarrow> int n \<le> k)"
| "reads_as _ n into \<longleftrightarrow> False"

fun a_read :: "op \<Rightarrow> bool" where
  "a_read (Op_receive k) = True"
| "a_read (Op_receive_into k) = True"
| "a_read (Op_receive_available l) = True"
| "a_read _ = False"

text \<open>What a read may return; nothing only for a limit, or a chunk size, that is not positive.\<close>

fun async_reply :: "op \<Rightarrow> serial_config \<Rightarrow> bytes \<Rightarrow> outcome \<Rightarrow> bool" where
  "async_reply (Op_receive n) c bs v \<longleftrightarrow> v = V_bytes bs \<and> bs \<noteq> [] \<and> int (length bs) \<le> n"
| "async_reply (Op_receive_into n) c bs v \<longleftrightarrow> v = V_into bs \<and> bs \<noteq> [] \<and> length bs \<le> n"
| "async_reply (Op_receive_available l) c bs v \<longleftrightarrow> v = V_bytes bs
     \<and> (case l of None \<Rightarrow> True | Some k \<Rightarrow> int (length bs) \<le> max k 0)
     \<and> (bs = [] \<longrightarrow> cfg_read_chunk_size c \<le> 0 \<or> (case l of None \<Rightarrow> False | Some k \<Rightarrow> k \<le> 0))"
| "async_reply _ c bs v \<longleftrightarrow> False"

definition read_kind :: "bool \<Rightarrow> kind" where
  "read_kind into = (if into then K_receive_into else K_receive)"

definition pc_exact :: "('b \<Rightarrow> bytes) \<Rightarrow> ('b \<Rightarrow> bytes) \<Rightarrow> ('p \<Rightarrow> (bytes \<times> nat) option) \<Rightarrow> ('p \<Rightarrow> (nat \<times> bool) option) \<Rightarrow>
    op \<Rightarrow> bytes \<Rightarrow> bytes \<Rightarrow> 'b \<Rightarrow> 'p apc \<Rightarrow> bool" where
  "pc_exact sent received sending reading op bs br b pc \<longleftrightarrow>
     (case pc of
        At_lock k \<Rightarrow> send_of op = None \<and> \<not> a_read op
      | Inside k q \<Rightarrow>
          (case sending q of
             None \<Rightarrow> send_of op = None
           | Some (d, j) \<Rightarrow> k = K_send \<and> op = Op_send d \<and> j < length d \<and> sent b = bs @ take j d)
        \<and> (case reading q of
             None \<Rightarrow> \<not> a_read op
           | Some (n, into) \<Rightarrow> k = read_kind into \<and> reads_as op n into \<and> received b = br))"

definition result_exact :: "('b \<Rightarrow> bytes) \<Rightarrow> ('b \<Rightarrow> bytes) \<Rightarrow> ('p \<Rightarrow> (bytes \<times> nat) option) \<Rightarrow> ('p \<Rightarrow> (nat \<times> bool) option) \<Rightarrow>
    op \<Rightarrow> bytes \<Rightarrow> bytes \<Rightarrow> exn + 'p aprogress \<Rightarrow> 'b async_port \<Rightarrow> bool" where
  "result_exact sent received sending reading op bs br r p' \<longleftrightarrow>
     (case r of
        Inr (Awaits pc) \<Rightarrow> pc_exact sent received sending reading op bs br (ap_backend p') pc
      | Inr (Done v) \<Rightarrow>
          (\<forall>d. send_of op = Some d \<longrightarrow> v = V_unit \<and> sent (ap_backend p') = bs @ d)
        \<and> (a_read op \<longrightarrow> (\<exists>x. async_reply op (ap_config p') x v \<and> received (ap_backend p') = br @ x))
      | Inl e \<Rightarrow>
          (\<forall>d. send_of op = Some d \<longrightarrow> (\<exists>j\<le>length d. sent (ap_backend p') = bs @ take j d))
        \<and> (a_read op \<longrightarrow> received (ap_backend p') = br))"

text \<open>How a section runs.\<close>

fun tag :: "kind \<Rightarrow> exn + (outcome, 'p) suspended \<Rightarrow> exn + 'p aprogress" where
  "tag k (Inr (Awaits q)) = Inr (Awaits (Inside k q))"
| "tag k (Inr (Done v)) = Inr (Done v)"
| "tag k (Inl e) = Inl e"

lemma run_section_run:
  assumes "run_section k m p = (r, p')"
  obtains r0 p0 where "m p = (r0, p0)" "r = tag k r0" "ap_backend p' = ap_backend p0" "ap_config p' = ap_config p0"
proof -
  obtain r0 p0 where run: "m p = (r0, p0)" by fastforce
  with assms have "r = tag k r0" "ap_backend p' = ap_backend p0" "ap_config p' = ap_config p0"
    by (cases "(k, r0)" rule: tag.cases; auto simp: run_section_def)+
  with run that show thesis by blast
qed

lemma enter_run:
  assumes "enter k m p = (r, p')"
  obtains "r = Inl (exn_msg BusyResourceError)" "p' = p"
    | r0 p0 p1 where "m p1 = (r0, p0)" "ap_backend p1 = ap_backend p" "r = tag k r0"
      "ap_backend p' = ap_backend p0" "ap_config p' = ap_config p0"
proof (cases "held (hold_of k) p")
  case True
  with assms that(1) show thesis by (auto simp: enter_def io_ctl_defs)
next
  case False
  with assms have "run_section k m (set_held (hold_of k) True p) = (r, p')"
    by (simp add: enter_def io_ctl_defs)
  then show thesis by (elim run_section_run) (use that(2) in simp)
qed

lemma finishing_run:
  assumes "finishing ab k (on_async m) p = (r0, p')"
  obtains s where "m (ap_backend p) = (s, ap_backend p')"
    "r0 = s \<or> (\<exists>v e. s = Inr (Done v) \<and> r0 = Inl e \<and> k = read_kind (v = V_into []) \<and> v \<in> {V_bytes [], V_into []})"
    "k = read_kind into \<Longrightarrow> r0 \<noteq> Inr (Done (wrap_read into []))"
proof -
  obtain s b' where run: "m (ap_backend p) = (s, b')" by fastforce
  have on: "on_async m p = (s, p\<lparr>ap_backend := b'\<rparr>)" by (simp add: on_async_def run)
  show thesis
  proof (cases "\<exists>v. s = Inr (Done v)")
    case False
    then have "r0 = s" "p' = p\<lparr>ap_backend := b'\<rparr>"
      using assms on by (cases s; auto simp: finishing_def io_bind_def io_return_def split: suspended.splits)+
    with run False that [of s] show thesis by auto
  next
    case True
    then obtain v where v: "s = Inr (Done v)" by blast
    with assms on have fin: "finish ab k v (p\<lparr>ap_backend := b'\<rparr>) = (r0, p')"
      by (simp add: finishing_def io_bind_def)
    have "ap_backend p' = b'
      \<and> (r0 = s \<or> (\<exists>v e. s = Inr (Done v) \<and> r0 = Inl e \<and> k = read_kind (v = V_into []) \<and> v \<in> {V_bytes [], V_into []}))
      \<and> (k = read_kind into \<longrightarrow> r0 \<noteq> Inr (Done (wrap_read into [])))"
      using fin v by (cases k) (auto simp: io_ctl_defs read_kind_def wrap_read_def split: if_splits)
    with run that [of s] show thesis by auto
  qed
qed

lemma delegate_run:
  assumes "delegate ab k c p = (r0, p')"
  obtains e where "r0 = Inl e" "p' = p"
    | s where "ab_call ab c (ap_backend p) = (s, ap_backend p')"
      "r0 = s \<or> (\<exists>v e. s = Inr (Done v) \<and> r0 = Inl e \<and> k = read_kind (v = V_into []) \<and> v \<in> {V_bytes [], V_into []})"
      "\<And>into. k = read_kind into \<Longrightarrow> r0 \<noteq> Inr (Done (wrap_read into []))"
proof (cases "ap_closed p")
  case True
  with assms that(1) show thesis by (auto simp: delegate_def async_raise_if_closed_def io_ctl_defs)
next
  case False
  with assms have fin: "finishing ab k (on_async (ab_call ab c)) p = (r0, p')"
    by (simp add: delegate_def async_raise_if_closed_def io_ctl_defs)
  obtain s where s: "ab_call ab c (ap_backend p) = (s, ap_backend p')"
    "r0 = s \<or> (\<exists>v e. s = Inr (Done v) \<and> r0 = Inl e \<and> k = read_kind (v = V_into []) \<and> v \<in> {V_bytes [], V_into []})"
    using finishing_run [OF fin, of True] by metis
  have "k = read_kind into \<Longrightarrow> r0 \<noteq> Inr (Done (wrap_read into []))" for into
    using finishing_run [OF fin, of into] by metis
  with s that(2) show thesis by blast
qed

lemma read_kind_simps [simp]: "K_send \<noteq> read_kind into" "K_control \<noteq> read_kind into" "K_configure c \<noteq> read_kind into"
  "K_close \<noteq> read_kind into" "(read_kind into = read_kind into') = (into = into')"
  by (simp_all add: read_kind_def)

lemma wrap_read_simps [simp]: "wrap_read into x = wrap_read into' y \<longleftrightarrow> into = into' \<and> x = y"
  "wrap_read into x = V_into [] \<longleftrightarrow> into \<and> x = []" "wrap_read into x = V_bytes [] \<longleftrightarrow> \<not> into \<and> x = []"
  by (auto simp: wrap_read_def)

lemma within_nat: "bs \<noteq> [] \<Longrightarrow> length bs \<le> nat k \<Longrightarrow> int (length bs) \<le> k"
  by (cases bs) auto

lemma reads_reply:
  "reads_as op n into \<Longrightarrow> bs \<noteq> [] \<Longrightarrow> length bs \<le> n \<Longrightarrow> async_reply op c bs (wrap_read into bs)"
  by (cases op) (auto simp: wrap_read_def within_nat split: option.splits)

lemma reads_as_read: "reads_as op n into \<Longrightarrow> a_read op \<and> send_of op = None"
  by (cases op) auto

lemma a_read_send: "a_read op \<Longrightarrow> send_of op = None"
  by (cases op) auto

lemma send_of_Some [simp]: "send_of op = Some d \<longleftrightarrow> op = Op_send d"
  by (cases op) auto

context async_backend_laws
begin

abbreviation result_ok where
  "result_ok \<equiv> result_exact sent received sending reading"

text \<open>From what the backend did to what the section reports.\<close>

lemma send_result:
  assumes "send_post sent sending bs d r (ap_backend p')" "awaits_none reading r"
  shows "result_ok (Op_send d) bs br (tag K_send r) p'"
  using assms
  by (cases "(K_send, r)" rule: tag.cases) (auto simp: send_post_def result_exact_def pc_exact_def)

lemma read_result_async:
  assumes "read_post received reading br n into s (ap_backend p')" "awaits_none sending s" "reads_as op n into"
    and r: "r = s \<or> (\<exists>v e. s = Inr (Done v) \<and> r = Inl e \<and> v \<in> {V_bytes [], V_into []})"
    and "r \<noteq> Inr (Done (wrap_read into []))"
  shows "result_ok op bs br (tag (read_kind into) r) p'"
proof -
  note op = reads_as_read [OF assms(3)]
  show ?thesis
  proof (cases "\<exists>e. r = Inl e")
    case True
    then have "received (ap_backend p') = br"
      using r assms(1) by (auto simp: read_post_def wrap_read_def split: if_splits)
    with True op show ?thesis by (auto simp: result_exact_def)
  next
    case False
    with r have "s = r" by auto
    show ?thesis
    proof (cases "\<exists>q. r = Inr (Awaits q)")
      case True
      with \<open>s = r\<close> assms(1-3) op show ?thesis by (auto simp: read_post_def result_exact_def pc_exact_def)
    next
      case no_q: False
      with False obtain v where "r = Inr (Done v)" by (metis suspended.exhaust old.sum.exhaust)
      with \<open>s = r\<close> assms(1,5) obtain x where x: "r = Inr (Done (wrap_read into x))" "x \<noteq> []" "length x \<le> n"
        "received (ap_backend p') = br @ x"
        by (auto simp: read_post_def)
      from reads_reply [OF assms(3) x(2,3)] x(1,4) op show ?thesis
        by (auto simp: result_exact_def)
    qed
  qed
qed

lemma plain_result:
  assumes "send_of op = None" "\<not> a_read op" "awaits_none sending r" "awaits_none reading r"
  shows "result_ok op bs br (tag k r) p'"
  using assms by (cases "(k, r)" rule: tag.cases) (auto simp: result_exact_def pc_exact_def)

lemma delegate_send:
  assumes "delegate ab K_send (B_send d) p = (r, p')" "d \<noteq> []"
  shows "result_ok (Op_send d) (sent (ap_backend p)) br (tag K_send r) p' \<and> received (ap_backend p') = received (ap_backend p)"
  using assms(1)
proof (cases rule: delegate_run)
  case (1 e)
  with assms(2) show ?thesis by (auto simp: result_exact_def intro: exI [of _ 0])
next
  case (2 s)
  from send_law [OF assms(2) 2(1)] call_reads_nothing [OF _ 2(1)] 2(2) show ?thesis
    by (auto intro!: send_result)
qed

lemma delegate_read:
  assumes "delegate ab (read_kind into) (if into then B_receive_into n else B_receive n) p = (r, p')" "reads_as op n into"
  shows "result_ok op bs (received (ap_backend p)) (tag (read_kind into) r) p' \<and> sent (ap_backend p') = sent (ap_backend p)"
  using assms(1)
proof (cases rule: delegate_run)
  case (1 e)
  with reads_as_read [OF assms(2)] show ?thesis by (auto simp: result_exact_def)
next
  case (2 s)
  have "read_post received reading (received (ap_backend p)) n into s (ap_backend p')"
    using 2(1) receive_law receive_into_law by (cases into) auto
  note post = this
  have quiet: "sent (ap_backend p') = sent (ap_backend p) \<and> awaits_none sending s"
    using call_sends_nothing [OF _ 2(1)] by (cases into) auto
  have "r = s \<or> (\<exists>v e. s = Inr (Done v) \<and> r = Inl e \<and> v \<in> {V_bytes [], V_into []})"
    using 2(2) by blast
  from read_result_async [OF post _ assms(2) this 2(3) [OF refl]] quiet show ?thesis by simp
qed

lemma delegate_plain:
  assumes "delegate ab k c p = (r, p')" "\<not> is_bsend c" "\<not> is_breceive c" "send_of op = None" "\<not> a_read op"
  shows "result_ok op bs br (tag k r) p' \<and> sent (ap_backend p') = sent (ap_backend p)
    \<and> received (ap_backend p') = received (ap_backend p)"
  using assms(1)
proof (cases rule: delegate_run)
  case (1 e)
  then have "awaits_none sending r" "awaits_none reading r" by simp_all
  from plain_result [OF assms(4,5) this] 1 show ?thesis by simp
next
  case (2 s)
  from call_sends_nothing [OF assms(2) 2(1)] call_reads_nothing [OF assms(3) 2(1)] 2(2) assms(4,5) show ?thesis
    by (auto intro!: plain_result)
qed

text \<open>The whole of a call.\<close>

definition call_exact :: "op \<Rightarrow> ('b, 'p) async_io \<Rightarrow> bool" where
  "call_exact op m \<longleftrightarrow> (\<forall>p r p'. m p = (r, p') \<longrightarrow>
     result_ok op (sent (ap_backend p)) (received (ap_backend p)) r p'
     \<and> (send_of op = None \<longrightarrow> sent (ap_backend p') = sent (ap_backend p))
     \<and> (\<not> a_read op \<longrightarrow> received (ap_backend p') = received (ap_backend p)))"

lemma result_backend: "ap_backend p = ap_backend p' \<Longrightarrow> ap_config p = ap_config p' \<Longrightarrow> result_ok op bs br r p = result_ok op bs br r p'"
  by (simp add: result_exact_def split: sum.split suspended.split)

lemma refused_exact: "result_ok op (sent (ap_backend p)) (received (ap_backend p)) (Inl e) p"
  by (auto simp: result_exact_def intro: exI [of _ 0])

definition body_exact :: "op \<Rightarrow> kind \<Rightarrow> ('b, 'p) async_body \<Rightarrow> bool" where
  "body_exact op k m \<longleftrightarrow> (\<forall>p r p'. m p = (r, p') \<longrightarrow>
     result_ok op (sent (ap_backend p)) (received (ap_backend p)) (tag k r) p'
     \<and> (send_of op = None \<longrightarrow> sent (ap_backend p') = sent (ap_backend p))
     \<and> (\<not> a_read op \<longrightarrow> received (ap_backend p') = received (ap_backend p)))"

lemma enter_exact: "body_exact op k m \<Longrightarrow> call_exact op (enter k m)"
  unfolding call_exact_def
proof (intro allI impI)
  fix p r p' assume m: "body_exact op k m" and run: "enter k m p = (r, p')"
  from run show "result_ok op (sent (ap_backend p)) (received (ap_backend p)) r p'
     \<and> (send_of op = None \<longrightarrow> sent (ap_backend p') = sent (ap_backend p))
     \<and> (\<not> a_read op \<longrightarrow> received (ap_backend p') = received (ap_backend p))"
  proof (cases rule: enter_run)
    case 1
    then show ?thesis by (simp add: refused_exact)
  next
    case (2 r0 p0 p1)
    from m [unfolded body_exact_def, rule_format, OF 2(1)] 2 result_backend [of p' p0]
    show ?thesis by simp
  qed
qed

lemma section_exact: "body_exact op k m \<Longrightarrow> call_exact op (run_section k m)"
  unfolding call_exact_def
proof (intro allI impI)
  fix p r p' assume m: "body_exact op k m" and "run_section k m p = (r, p')"
  from this(2) obtain r0 p0 where *: "m p = (r0, p0)" "r = tag k r0" "ap_backend p' = ap_backend p0" "ap_config p' = ap_config p0"
    by (rule run_section_run)
  from m [unfolded body_exact_def, rule_format, OF *(1)] * result_backend [of p' p0] show "result_ok op (sent (ap_backend p)) (received (ap_backend p)) r p'
     \<and> (send_of op = None \<longrightarrow> sent (ap_backend p') = sent (ap_backend p))
     \<and> (\<not> a_read op \<longrightarrow> received (ap_backend p') = received (ap_backend p))"
    by simp
qed

lemma send_body_exact: "d \<noteq> [] \<Longrightarrow> body_exact (Op_send d) K_send (delegate ab K_send (B_send d))"
  by (simp add: body_exact_def delegate_send)

lemma read_body_exact:
  assumes "reads_as op n into"
  shows "body_exact op (read_kind into) (delegate ab (read_kind into) (if into then B_receive_into n else B_receive n))"
  using delegate_read [OF _ assms] reads_as_read [OF assms] by (simp add: body_exact_def)

lemma plain_body_exact:
  "\<not> is_bsend c \<Longrightarrow> \<not> is_breceive c \<Longrightarrow> send_of op = None \<Longrightarrow> \<not> a_read op \<Longrightarrow> body_exact op k (delegate ab k c)"
  using delegate_plain by (simp add: body_exact_def)

lemma available_size_bound:
  "available_size waiting chunk l \<le> 0 \<Longrightarrow> chunk \<le> 0 \<or> (case l of None \<Rightarrow> False | Some k \<Rightarrow> k \<le> 0)"
  "l = Some k \<Longrightarrow> available_size waiting chunk l \<le> k"
  by (auto simp: available_size_def Let_def split: option.splits if_splits)

lemma available_exact: "body_exact (Op_receive_available l) K_receive (available_body ab l)"
  unfolding body_exact_def
proof (intro allI impI)
  fix p r p' assume run: "available_body ab l p = (r, p')"
  let ?op = "Op_receive_available l"
  let ?goal = "result_ok ?op (sent (ap_backend p)) (received (ap_backend p)) (tag K_receive r) p'
     \<and> (send_of ?op = None \<longrightarrow> sent (ap_backend p') = sent (ap_backend p))
     \<and> (\<not> a_read ?op \<longrightarrow> received (ap_backend p') = received (ap_backend p))"
  obtain x b1 where w: "ab_input_waiting ab (ap_backend p) = (x, b1)" by fastforce
  from keeps_snd [OF waiting_law(1), of "ap_backend p"] w
  have same: "sent b1 = sent (ap_backend p)" "received b1 = received (ap_backend p)" by (simp_all add: rests_def)
  let ?p1 = "p\<lparr>ap_backend := b1\<rparr>"
  let ?sz = "\<lambda>n. available_size n (cfg_read_chunk_size (ap_config p)) l"
  show ?goal
  proof (cases "ap_closed p")
    case True
    with run show ?thesis
      by (auto simp: available_body_def async_raise_if_closed_def io_ctl_defs result_exact_def)
  next
    case open': False
    show ?thesis
    proof (cases x)
      case (Inl e)
      with run w open' same show ?thesis
        by (auto simp: available_body_def async_raise_if_closed_def on_async_def io_ctl_defs result_exact_def)
    next
      case (Inr n)
      show ?thesis
      proof (cases "?sz n \<le> 0")
        case True
        with run w open' Inr have "r = Inr (Done (V_bytes [])) \<and> p' = ?p1"
          by (auto simp: available_body_def async_raise_if_closed_def on_async_def io_ctl_defs)
        with available_size_bound(1) [OF True] same show ?thesis
          by (auto simp: result_exact_def split: option.splits)
      next
        case False
        with run w open' Inr have "delegate ab (read_kind False) (if False then B_receive_into (nat (?sz n)) else B_receive (nat (?sz n))) ?p1 = (r, p')"
          by (simp add: available_body_def delegate_def async_raise_if_closed_def on_async_def io_ctl_defs read_kind_def Let_def)
        moreover have "reads_as ?op (nat (?sz n)) False"
          using False available_size_bound(2) by auto
        ultimately show ?thesis
          using delegate_read [of False "nat (?sz n)" ?p1 r p' ?op] same by (simp add: read_kind_def)
      qed
    qed
  qed
qed

lemma call_exact_rules:
  "call_exact op (io_raise e)"
  "call_exact op m \<Longrightarrow> call_exact op n \<Longrightarrow> call_exact op (if c then m else n)"
  "(\<And>x. call_exact op (f x)) \<Longrightarrow> call_exact op (io_bind (io_get g) f)"
  "send_of op = None \<Longrightarrow> \<not> a_read op \<Longrightarrow> call_exact op (io_return (Awaits (At_lock k)))"
  "send_of op = None \<Longrightarrow> \<not> a_read op \<Longrightarrow> call_exact op (io_return (Done v))"
  by (auto simp: call_exact_def io_raise_def io_return_def io_bind_def io_get_def refused_exact)
    (auto simp: result_exact_def pc_exact_def)

lemma waiting_exact:
  assumes "send_of op = None" "\<not> a_read op" "keeps (rests ab sent received good) m"
  shows "call_exact op (async_waiting ab m)"
  unfolding call_exact_def
proof (intro allI impI)
  fix p r p' assume run: "async_waiting ab m p = (r, p')"
  obtain x b1 where w: "m (ap_backend p) = (x, b1)" by fastforce
  from keeps_snd [OF assms(3), of "ap_backend p"] w
  have "sent b1 = sent (ap_backend p)" "received b1 = received (ap_backend p)" by (simp_all add: rests_def)
  with run w assms show "result_ok op (sent (ap_backend p)) (received (ap_backend p)) r p'
     \<and> (send_of op = None \<longrightarrow> sent (ap_backend p') = sent (ap_backend p))
     \<and> (\<not> a_read op \<longrightarrow> received (ap_backend p') = received (ap_backend p))"
    by (cases "ap_closed p"; cases x)
      (auto simp: async_waiting_def async_raise_if_closed_def on_async_def io_ctl_defs result_exact_def)
qed

lemma send_nothing_exact: "call_exact (Op_send []) (io_seq (async_raise_if_closed ab) (io_return (Done V_unit)))"
  unfolding call_exact_def
  by (auto simp: async_raise_if_closed_def io_ctl_defs result_exact_def split: if_splits)

lemma start_exact: "call_exact op (async_start ab op)"
proof (cases op)
  case (Op_receive n)
  have "body_exact op K_receive (delegate ab K_receive (B_receive (nat n)))"
    using read_body_exact [of op "nat n" False] Op_receive by (simp add: read_kind_def)
  then show ?thesis unfolding Op_receive by (simp add: call_exact_rules enter_exact)
next
  case (Op_receive_into n)
  have "body_exact op K_receive_into (delegate ab K_receive_into (B_receive_into n))"
    using read_body_exact [of op n True] Op_receive_into by (simp add: read_kind_def)
  then show ?thesis unfolding Op_receive_into by (simp add: call_exact_rules enter_exact)
next
  case (Op_receive_available l)
  then show ?thesis by (simp add: enter_exact available_exact)
next
  case (Op_send d)
  then show ?thesis by (simp add: send_nothing_exact enter_exact send_body_exact)
qed (simp_all add: async_drain_def call_exact_rules enter_exact section_exact plain_body_exact waiting_exact waiting_law)

lemma locked_exact:
  assumes "enter k (locked_body ab k) p = (r, p')" "send_of op = None" "\<not> a_read op"
  shows "result_ok op bs br r p' \<and> sent (ap_backend p') = sent (ap_backend p) \<and> received (ap_backend p') = received (ap_backend p)"
  using assms(1)
proof (cases rule: enter_run)
  case 1
  with assms show ?thesis by (simp add: result_exact_def)
next
  case (2 r0 p0 p1)
  have "awaits_none sending r0 \<and> awaits_none reading r0 \<and> sent (ap_backend p0) = sent (ap_backend p1)
    \<and> received (ap_backend p0) = received (ap_backend p1)"
  proof (cases k)
    case (K_configure c)
    with 2(1) have "delegate ab (K_configure c) (B_configure c) p1 = (r0, p0)" by simp
    then show ?thesis
    proof (cases rule: delegate_run)
      case (2 s)
      from call_sends_nothing [OF _ 2(1)] call_reads_nothing [OF _ 2(1)] 2(2) show ?thesis by auto
    qed simp
  next
    case K_close
    obtain s b' where c: "ab_call ab B_aclose (ap_backend p1) = (s, b')" by fastforce
    from call_sends_nothing [OF _ c] call_reads_nothing [OF _ c] 2(1) K_close c show ?thesis
      by (cases "ap_closed p1") (auto simp: async_close_body_def on_async_def io_ctl_defs split: sum.splits)
  qed (use 2(1) in \<open>auto simp: io_return_def\<close>)
  with 2 plain_result [OF assms(2,3), of r0 bs br k p'] show ?thesis by simp
qed

lemma turn_exact:
  assumes "pc_exact sent received sending reading op bs br (ap_backend p) (Inside k q)" "async_resume ab k q w p = (r, p')"
  shows "result_ok op bs br r p' \<and> (send_of op = None \<longrightarrow> sent (ap_backend p') = sent (ap_backend p))
    \<and> (\<not> a_read op \<longrightarrow> received (ap_backend p') = received (ap_backend p))"
proof -
  obtain r0 p0 where run: "finishing ab k (on_async (ab_resume ab q w)) p = (r0, p0)" and r: "r = tag k r0"
    and p': "ap_backend p' = ap_backend p0" "ap_config p' = ap_config p0"
    using assms(2) unfolding async_resume_def by (rule run_section_run)
  obtain s where s: "ab_resume ab q w (ap_backend p) = (s, ap_backend p0)"
    "r0 = s \<or> (\<exists>v e. s = Inr (Done v) \<and> r0 = Inl e \<and> k = read_kind (v = V_into []) \<and> v \<in> {V_bytes [], V_into []})"
    using finishing_run [OF run, of True] by metis
  note notempty = finishing_run [OF run]
  show ?thesis
  proof (cases "reading q")
    case (Some ni)
    then obtain n into where q: "reading q = Some (n, into)" by (cases ni) auto
    with assms(1) have at: "k = read_kind into" "reads_as op n into" "received (ap_backend p) = br" "sending q = None"
      using reads_as_read by (auto simp: pc_exact_def split: option.splits)
    have "r0 \<noteq> Inr (Done (wrap_read into []))" using notempty [of into] at(1) by metis
    moreover have "r0 = s \<or> (\<exists>v e. s = Inr (Done v) \<and> r0 = Inl e \<and> v \<in> {V_bytes [], V_into []})" using s(2) by blast
    ultimately have "result_ok op bs br r p0"
      using read_result_async [OF read_turn_law [OF q s(1)] _ at(2)] turn_sends_nothing [OF at(4) s(1)] at r by simp
    with turn_sends_nothing [OF at(4) s(1)] p' reads_as_read [OF at(2)] result_backend [of p' p0] show ?thesis by simp
  next
    case None
    note unread = turn_reads_nothing [OF None s(1)]
    from assms(1) None have nr: "\<not> a_read op" by (simp add: pc_exact_def)
    show ?thesis
    proof (cases "sending q")
      case (Some dj)
      then obtain d j where q: "sending q = Some (d, j)" by (cases dj) auto
      with assms(1) have at: "k = K_send" "op = Op_send d" "j < length d" "sent (ap_backend p) = bs @ take j d"
        by (auto simp: pc_exact_def)
      with s(2) have "r0 = s" by auto
      with send_result [OF send_turn_law [OF q at(3,4) s(1)]] unread at r p' result_backend [of p' p0]
      show ?thesis by simp
    next
      case no_send: None
      note quiet = turn_sends_nothing [OF no_send s(1)]
      from assms(1) no_send have "send_of op = None" by (simp add: pc_exact_def)
      moreover have "awaits_none sending r0" "awaits_none reading r0" using s(2) quiet unread by auto
      ultimately have "result_ok op bs br r p'" using plain_result nr r by simp
      with quiet unread p' show ?thesis by simp
    qed
  qed
qed

end

subsection \<open>Interleaving\<close>

definition call_ok_at :: "('b \<Rightarrow> bytes) \<Rightarrow> ('b \<Rightarrow> bytes) \<Rightarrow> ('p \<Rightarrow> (bytes \<times> nat) option) \<Rightarrow> ('p \<Rightarrow> (nat \<times> bool) option) \<Rightarrow>
    'b \<Rightarrow> 'p acall \<Rightarrow> bool" where
  "call_ok_at sent received sending reading b t \<longleftrightarrow>
     pc_exact sent received sending reading (ac_op t) (ac_sent t) (ac_received t) b (ac_pc t)"

lemma pc_exact_frame:
  assumes "pc_exact sent received sending reading op bs br b pc"
    and "pc_hold pc = H_send \<Longrightarrow> sent b' = sent b" "pc_hold pc = H_receive \<Longrightarrow> received b' = received b"
  shows "pc_exact sent received sending reading op bs br b' pc"
  using assms by (cases pc) (auto simp: pc_exact_def read_kind_def split: option.splits)

lemma busy_start:
  "send_of op \<noteq> None \<Longrightarrow> held H_send p \<Longrightarrow> async_start ab op p = (r, p') \<Longrightarrow> ap_backend p' = ap_backend p"
  "a_read op \<Longrightarrow> held H_receive p \<Longrightarrow> async_start ab op p = (r, p') \<Longrightarrow> ap_backend p' = ap_backend p"
  by (cases op; auto simp: enter_def async_raise_if_closed_def io_ctl_defs split: if_splits)+

lemma counted: "pc_hold (ac_pc u) = h \<Longrightarrow> u \<in> set ts \<Longrightarrow> 0 < count_hold h ts"
  by (auto simp: count_hold_def filter_empty_conv)

lemma holder_held:
  assumes "holds_ok (p, ts)" "u \<in> set ts" "pc_hold (ac_pc u) = h" "h \<noteq> H_none"
  shows "held h p"
  using assms counted [OF assms(3,2)] by (auto simp: holds_ok_def)

lemma lone_holder:
  assumes "holds_ok (p, ts @ t # us)" "pc_hold (ac_pc t) = h" "h \<noteq> H_none" "u \<in> set (ts @ us)"
  shows "pc_hold (ac_pc u) \<noteq> h"
proof
  assume u: "pc_hold (ac_pc u) = h"
  have "count_hold h (ts @ t # us) \<le> 1" using assms(1,3) by (simp add: holds_ok_def)
  then have "count_hold h (ts @ us) = 0" using assms(2) by simp
  with counted [OF u assms(4)] show False by simp
qed

context async_backend_laws
begin

abbreviation acall_ok where
  "acall_ok \<equiv> call_ok_at sent received sending reading"

lemma others_ok:
  assumes "list_all (acall_ok b) us"
    and "\<And>u. u \<in> set us \<Longrightarrow> pc_hold (ac_pc u) = H_send \<Longrightarrow> sent b' = sent b"
    and "\<And>u. u \<in> set us \<Longrightarrow> pc_hold (ac_pc u) = H_receive \<Longrightarrow> received b' = received b"
  shows "list_all (acall_ok b') us"
  unfolding list_all_iff
proof
  fix u assume u: "u \<in> set us"
  with assms(1) have "acall_ok b u" by (simp add: list_all_iff)
  with assms(2,3) [OF u] show "acall_ok b' u"
    unfolding call_ok_at_def by (elim pc_exact_frame)
qed

lemma stays_ok:
  "result_ok (ac_op t) (ac_sent t) (ac_received t) r p' \<Longrightarrow> list_all (acall_ok (ap_backend p')) (stays t r)"
  by (cases "(t, r)" rule: stays.cases) (simp_all add: result_exact_def call_ok_at_def)

text \<open>What a woken call does, and leaves alone.\<close>

lemma woken_exact:
  assumes "acall_ok (ap_backend p) t" "ac_pc t = Inside k q" "async_resume ab k q w p = (r, p')"
  shows "result_ok (ac_op t) (ac_sent t) (ac_received t) r p'
    \<and> (hold_of k \<noteq> H_send \<longrightarrow> sent (ap_backend p') = sent (ap_backend p))
    \<and> (hold_of k \<noteq> H_receive \<longrightarrow> received (ap_backend p') = received (ap_backend p))"
proof -
  have pc: "pc_exact sent received sending reading (ac_op t) (ac_sent t) (ac_received t) (ap_backend p) (Inside k q)"
    using assms(1,2) by (simp add: call_ok_at_def)
  have "send_of (ac_op t) = None" if "hold_of k \<noteq> H_send"
    using pc that by (auto simp: pc_exact_def split: option.splits)
  moreover have "\<not> a_read (ac_op t)" if "hold_of k \<noteq> H_receive"
    using pc that by (auto simp: pc_exact_def read_kind_def split: option.splits if_splits)
  ultimately show ?thesis using turn_exact [OF pc assms(3)] by blast
qed

lemma acalls_step:
  assumes "async_step ab sent received quiet s l s'" "holds_ok s" "list_all (acall_ok (ap_backend (fst s))) (snd s)"
    and "\<And>b b'. quiet b b' \<Longrightarrow> rests ab sent received good b b'"
  shows "list_all (acall_ok (ap_backend (fst s'))) (snd s')"
  using assms(1)
proof cases
  case (call op p r p' ts)
  let ?t = "\<lparr>ac_op = op, ac_pc = At_lock K_close, ac_sent = sent (ap_backend p), ac_received = received (ap_backend p)\<rparr>"
  note e = start_exact [unfolded call_exact_def, rule_format, OF call(4)]
  have "list_all (acall_ok (ap_backend p')) ts"
  proof (rule others_ok)
    show "list_all (acall_ok (ap_backend p)) ts" using assms(3) call by simp
    fix u assume u: "u \<in> set ts"
    show "sent (ap_backend p') = sent (ap_backend p)" if "pc_hold (ac_pc u) = H_send"
      using e busy_start(1) [OF _ _ call(4)] holder_held [of p ts u] u that assms(2) call(1) by fastforce
    show "received (ap_backend p') = received (ap_backend p)" if "pc_hold (ac_pc u) = H_receive"
      using e busy_start(2) [OF _ _ call(4)] holder_held [of p ts u] u that assms(2) call(1) by fastforce
  qed
  moreover have "list_all (acall_ok (ap_backend p')) (stays ?t r)" using e by (intro stays_ok) simp
  ultimately show ?thesis using call by simp
next
  case (granted t k p r p' ts us)
  have "send_of (ac_op t) = None" "\<not> a_read (ac_op t)"
    using assms(3) granted by (auto simp: call_ok_at_def pc_exact_def)
  note e = locked_exact [OF granted(6) this, of "ac_sent t" "ac_received t"]
  have "list_all (acall_ok (ap_backend p')) (ts @ us)"
    by (rule others_ok [where b = "ap_backend p"]) (use e assms(3) granted in auto)
  moreover have "list_all (acall_ok (ap_backend p')) (stays t r)" using e by (intro stays_ok) simp
  ultimately show ?thesis using granted by simp
next
  case (woken t k q w p r p' ts us)
  have "acall_ok (ap_backend p) t" using assms(3) woken by simp
  note e = woken_exact [OF this woken(4,5)]
  note lone = lone_holder [of p ts t us "hold_of k"]
  have "list_all (acall_ok (ap_backend p')) (ts @ us)"
  proof (rule others_ok)
    show "list_all (acall_ok (ap_backend p)) (ts @ us)" using assms(3) woken by simp
    fix u assume u: "u \<in> set (ts @ us)"
    show "sent (ap_backend p') = sent (ap_backend p)" if "pc_hold (ac_pc u) = H_send"
      using e lone [of u] u that assms(2) woken(1,4) by fastforce
    show "received (ap_backend p') = received (ap_backend p)" if "pc_hold (ac_pc u) = H_receive"
      using e lone [of u] u that assms(2) woken(1,4) by fastforce
  qed
  moreover have "list_all (acall_ok (ap_backend p')) (stays t r)" using e by (intro stays_ok) simp
  ultimately show ?thesis using woken by simp
next
  case (cancelled t k ts p us)
  with assms(3) show ?thesis by simp
next
  case (background p b ts)
  have "list_all (acall_ok b) ts"
    by (rule others_ok [where b = "ap_backend p"]) (use background assms(3,4) in \<open>auto simp: rests_def\<close>)
  with background show ?thesis by simp
qed

end

lemma async_guards_reachable:
  "async_reachable ab sent received quiet good s \<Longrightarrow> holds_ok s"
  by (induction rule: async_reachable.induct) (auto intro: holds_new holds_step)

text \<open>All invariants together, on every reachable state.\<close>

context async_backend_laws
begin

lemma reachable_invariants:
  assumes "async_reachable ab sent received (rests ab sent received good) good s"
  shows "holds_ok s \<and> async_lifecycle ab good (fst s) \<and> list_all (acall_ok (ap_backend (fst s))) (snd s)"
  using assms
proof (induction rule: async_reachable.induct)
  case (opened b c)
  then show ?case using holds_new [of b c] by (simp add: new_async_port_def async_lifecycle_def)
next
  case (step s l s')
  have "holds_ok s'" using holds_step step by blast
  moreover have "async_lifecycle ab good (fst s')"
    using lifecycle_step_async [OF step(2)] step.IH by (auto simp: rests_def)
  moreover have "list_all (acall_ok (ap_backend (fst s'))) (snd s')"
    using acalls_step [OF step(2)] step.IH by blast
  ultimately show ?case by blast
qed

end

end
