(* ===== verification/Windows_Port.thy ===== *)
theory Windows_Port
  imports Windows_Backend Async_Laws
begin

section \<open>The Windows port\<close>

text \<open>
  What the Windows backend does, for every answer of the kernel and of the runtimes, and the contract
  of \<open>Async_Laws\<close> on it. \<open>win_sent\<close> is what the driver took from writes, whether they completed or
  raised, \<open>win_received\<close> what completed reads delivered, and \<open>win_lost\<close> what reads that raised had taken from
  the driver, all read off the log.
\<close>

subsection \<open>Bytes and handles of a log\<close>

fun written_event :: "win_event \<Rightarrow> bytes" where
  "written_event (W_written chunk n) = take n chunk"
| "written_event _ = []"

fun read_event :: "win_event \<Rightarrow> bytes" where
  "read_event (W_read bs) = bs"
| "read_event _ = []"

definition win_sent :: "'k win_state_scheme \<Rightarrow> bytes" where
  "win_sent s = concat (map written_event (ws_log s))"

definition win_received :: "'k win_state_scheme \<Rightarrow> bytes" where
  "win_received s = concat (map read_event (ws_log s))"

text \<open>Bytes that a read which then raised had taken from the driver.\<close>

fun lost_event :: "win_event \<Rightarrow> bytes" where
  "lost_event (W_lost bs) = bs"
| "lost_event _ = []"

definition win_lost :: "'k win_state_scheme \<Rightarrow> bytes" where
  "win_lost s = concat (map lost_event (ws_log s))"

lemmas win_byte_defs = win_sent_def win_received_def win_lost_def

fun calm :: "win_event \<Rightarrow> bool" where
  "calm (W_call c a) = handle_neutral (W_call c a)"
| "calm (W_register h r) = True"
| "calm (W_issue h r) = True"
| "calm (W_read bs) = False"
| "calm (W_written chunk n) = False"
| "calm (W_lost bs) = False"

text \<open>Nothing moved, no handle opened or closed, the lifecycle as it was.\<close>

definition win_still :: "'k windows_backend_scheme \<Rightarrow> 'k windows_backend_scheme \<Rightarrow> bool" where
  "win_still s s' \<longleftrightarrow> (\<exists>es. list_all calm es \<and> ws_log s' = ws_log s @ es)
     \<and> wb_open s' = wb_open s \<and> wb_handle s' = wb_handle s \<and> ws_env s' = ws_env s \<and> wb_runtime s' = wb_runtime s
     \<and> wb_path s' = wb_path s"

interpretation still: frame "win_still :: 'k windows_backend_scheme \<Rightarrow> 'k windows_backend_scheme \<Rightarrow> bool"
proof
  fix s s' s'' :: "'k windows_backend_scheme"
  show "win_still s s" by (simp add: win_still_def)
  assume "win_still s s'" "win_still s' s''"
  then obtain es fs where "list_all calm es" "ws_log s' = ws_log s @ es"
    "list_all calm fs" "ws_log s'' = ws_log s' @ fs"
    by (auto simp: win_still_def)
  then have "\<exists>gs. list_all calm gs \<and> ws_log s'' = ws_log s @ gs" by (intro exI [of _ "es @ fs"]) simp
  with \<open>win_still s s'\<close> \<open>win_still s' s''\<close> show "win_still s s''" by (simp add: win_still_def)
qed

lemma only_logs_still:
  fixes s s' :: "'k windows_backend_scheme"
  shows "only_logs calm s s' \<Longrightarrow> win_still s s'"
  by (auto simp: only_logs_def win_still_def)

lemma keeps_still: "keeps (only_logs calm) m \<Longrightarrow> keeps win_still m"
  by (erule keeps_weaken) (rule only_logs_still)

lemma calm_neutral: "calm e \<Longrightarrow> handle_neutral e"
  by (cases e) simp_all

lemma still_same:
  assumes "win_still s s'"
  shows "win_sent s' = win_sent s \<and> win_received s' = win_received s \<and> win_lost s' = win_lost s
    \<and> open_handles (ws_log s') = open_handles (ws_log s)"
proof -
  obtain es where es: "list_all calm es" "ws_log s' = ws_log s @ es" using assms by (auto simp: win_still_def)
  have "concat (map written_event es) = [] \<and> concat (map read_event es) = [] \<and> concat (map lost_event es) = []"
    using es(1) by (induction es) (auto elim: calm.elims)
  moreover have "fold handle_step es hs = hs" for hs
    using es(1) by (induction es arbitrary: hs) (auto simp: handle_neutral_step calm_neutral)
  ultimately show ?thesis using es(2) by (simp add: win_byte_defs open_handles_def)
qed

subsection \<open>Operations that move nothing\<close>

lemmas keeps_control_still = still.keeps_control

lemma still_calls:
  "handle_neutral (W_call c undefined) \<Longrightarrow> keeps win_still (k32_call c)"
  "keeps win_still load_kernel32"
  "keeps win_still (rt_issue h)"
proof -
  show "handle_neutral (W_call c undefined) \<Longrightarrow> keeps win_still (k32_call c)"
    by (rule keeps_still, rule keeps_k32_call) (cases c; simp)
  show "keeps win_still load_kernel32" by (rule keeps_still) (rule keeps_load_kernel32)
  show "keeps win_still (rt_issue h)" by (rule keeps_still, rule keeps_rt_calls(2)) simp
qed

lemma still_wrappers:
  "keeps win_still m \<Longrightarrow> keeps win_still (win_translating ctx m)"
  "keeps win_still win_raise_if_closed"
  "(\<And>h. handle_neutral (W_call (c h) undefined)) \<Longrightarrow> keeps win_still (on_handle c)"
  "keeps win_still n \<Longrightarrow> keeps win_still (ignore n)"
  "keeps win_still u \<Longrightarrow> keeps win_still (suppress_oserror u)"
  unfolding win_translating_def win_raise_if_closed_def on_handle_def ignore_def suppress_oserror_def
  by (intro keeps_control_still still_calls; simp)+

lemma still_ioctl: "(\<And>h. handle_neutral (W_call (c h) undefined)) \<Longrightarrow> keeps win_still (win_ioctl c)"
  unfolding win_ioctl_def by (intro keeps_control_still still_calls still_wrappers)

lemma still_apply_dcb: "keeps win_still (apply_dcb config)"
  unfolding apply_dcb_def by (intro keeps_control_still still_calls still_wrappers; simp)

lemma still_ops:
  "keeps win_still (windows_configure c)"
  "keeps win_still windows_reset_input_buffer"
  "keeps win_still windows_reset_output_buffer"
  "keeps win_still windows_drain"
  "keeps win_still windows_send_break"
  "keeps win_still windows_modem_lines"
  "keeps win_still (windows_set_control_lines rts dtr)"
  "keeps win_still windows_input_waiting"
  "keeps win_still windows_output_waiting"
  "keeps win_still flush_in_thread"
  "keeps win_still (break_turn w)"
  "keeps win_still win_issue"
  unfolding windows_configure_def windows_reset_input_buffer_def windows_reset_output_buffer_def windows_drain_def
    windows_send_break_def windows_modem_lines_def windows_set_control_lines_def windows_input_waiting_def
    windows_output_waiting_def flush_in_thread_def win_comstat_def Let_def win_issue_def break_turn_def
  by (cases w; intro keeps_control_still still_calls still_wrappers still_ioctl still_apply_dcb keeps_modify;
      simp add: win_still_def)+

lemma still_loops:
  "keeps win_still (readinto_loop n into)" "keeps win_still (windows_receive n)"
  "keeps win_still (windows_receive_into n)"
  "keeps win_still (write_loop d j)" "keeps win_still (windows_send d)"
  unfolding readinto_loop_def windows_receive_def windows_receive_into_def write_loop_def windows_send_def
  by (intro keeps_control_still still_wrappers still_ops)+

lemma still_done: "keeps win_still m \<Longrightarrow> keeps win_still (done_with f m)"
  unfolding done_with_def by (intro keeps_control_still)

lemma still_call_op: "c \<noteq> B_aclose \<Longrightarrow> keeps win_still (windows_call_op c)"
  by (cases c) (simp_all add: still_loops still_done still_ops)

lemma still_run: "keeps win_still m \<Longrightarrow> m s = (r, s') \<Longrightarrow> win_still s s'"
  using keeps_snd [of win_still m s] by simp

subsection \<open>Turns of a transfer\<close>

fun win_sending :: "wpc \<Rightarrow> (bytes \<times> nat) option" where
  "win_sending (At_write d j) = Some (d, j)"
| "win_sending _ = None"

fun win_reading :: "wpc \<Rightarrow> (nat \<times> bool) option" where
  "win_reading (At_readinto n into) = Some (n, into)"
| "win_reading _ = None"

lemma seq_return_run: "io_seq m (io_return x) s = (r, s') \<Longrightarrow> r = Inr x \<or> (\<exists>e. r = Inl e)"
  by (auto simp: io_ctl_defs split: prod.splits sum.splits)

lemma readinto_loop_run:
  "readinto_loop n into s = (r, s') \<Longrightarrow> r = Inr (Awaits (At_readinto n into)) \<or> (\<exists>e. r = Inl e)"
  unfolding readinto_loop_def by (rule seq_return_run)

lemma write_loop_run:
  "write_loop d j s = (r, s') \<Longrightarrow>
     (if j < length d then r = Inr (Awaits (At_write d j)) \<or> (\<exists>e. r = Inl e) else r = Inr (Done V_unit) \<and> s' = s)"
  by (cases "j < length d") (auto simp: write_loop_def dest: seq_return_run, auto simp: io_return_def)

lemma win_translating_run:
  "win_translating ctx m s = (case m s of
     (Inl e, s') \<Rightarrow> (Inl (if isinstance e OSError then winerror_to_exception e ctx (Some (wb_path s')) else e), s')
   | (Inr x, s') \<Rightarrow> (Inr x, s'))"
  by (auto simp: win_translating_def io_ctl_defs split: prod.splits sum.splits)

lemma note_run [simp]: "note_event e s = (Inr (), s\<lparr>ws_log := ws_log s @ [e]\<rparr>)"
  by (simp add: note_event_def io_modify_def)

lemma write_turn_bind:
  "win_translating ''io'' (write_result (drop j d) w) s = (Inr m, s1) \<Longrightarrow> write_turn d j w s =
     (if m = 0 then (Inl (exn_os SerialDisconnectedError (Some 0) (Some ''WriteFile returned 0 bytes'') (Some (wb_path s1))), s1)
      else write_loop d (j + m) s1)"
  by (simp add: write_turn_def io_ctl_defs)

lemma readinto_turn_bind:
  "win_translating ''io'' (readinto_result n w) s = (Inr bs, s1) \<Longrightarrow> readinto_turn n into w s =
     (if bs \<noteq> [] then (Inr (Done (wrap_read into bs)), s1) else readinto_loop n into s1)"
  by (simp add: readinto_turn_def wrap_read_def io_ctl_defs)

text \<open>How the backend reports an exception of a transfer.\<close>

definition transfer_error :: "'k windows_backend_scheme \<Rightarrow> exn \<Rightarrow> exn" where
  "transfer_error s e = (if isinstance e OSError then winerror_to_exception e ''io'' (Some (wb_path s)) else e)"

text \<open>A turn of a write, by what the runtime delivers.\<close>

fun transferred :: "wwake \<Rightarrow> nat \<Rightarrow> nat" where
  "transferred (Woke_written n) k = min k n"
| "transferred (Woke_throw e x) k = min k (bytes_out x)"
| "transferred _ k = 0"

fun counted :: "wwake \<Rightarrow> bool" where
  "counted (Woke_throw e x) = False"
| "counted _ = True"

lemma transferred_le: "transferred w k \<le> k"
  by (cases w) simp_all

lemma write_turn_run:
  assumes "write_turn d j w s = (r, s')" "j < length d"
  defines "m \<equiv> transferred w (length d - j)"
  shows "win_sent s' = win_sent s @ take m (drop j d)
    \<and> win_received s' = win_received s
    \<and> (r = Inr (Done V_unit) \<and> j + m = length d
       \<or> r = Inr (Awaits (At_write d (j + m))) \<and> j + m < length d
       \<or> (\<exists>e. r = Inl e) \<and> (counted w \<longrightarrow> j + m < length d))
    \<and> (\<forall>e x. w = Woke_throw e x \<longrightarrow> r = Inl (transfer_error s e))
    \<and> open_handles (ws_log s') = open_handles (ws_log s) \<and> wb_open s' = wb_open s \<and> wb_handle s' = wb_handle s
    \<and> ws_env s' = ws_env s \<and> wb_runtime s' = wb_runtime s"
proof (cases w)
  case (Woke_written n)
  let ?m = "min (length d - j) n"
  let ?s1 = "s\<lparr>ws_log := ws_log s @ [W_written (drop j d) ?m]\<rparr>"
  have m: "m = ?m" using Woke_written by (simp add: m_def)
  have "win_translating ''io'' (write_result (drop j d) w) s = (Inr ?m, ?s1)"
    using Woke_written by (simp add: write_result_def win_translating_run io_ctl_defs)
  note run = write_turn_bind [OF this, unfolded assms(1)]
  have moved: "win_sent ?s1 = win_sent s @ take ?m (drop j d)" "win_received ?s1 = win_received s"
    "open_handles (ws_log ?s1) = open_handles (ws_log s)"
    by (simp_all add: win_byte_defs)
  show ?thesis
  proof (cases "?m = 0")
    case True
    with run moved m assms(2) Woke_written show ?thesis by auto
  next
    case False
    with run have loop: "write_loop d (j + ?m) ?s1 = (r, s')" by argo
    from still_run [OF still_loops(4) loop] have still: "win_still ?s1 s'" .
    from write_loop_run [OF loop] still_same [OF still] still moved m assms(2) Woke_written show ?thesis
      by (auto simp: win_still_def split: if_splits)
  qed
next
  case (Woke_throw e x)
  let ?m = "min (length d - j) (bytes_out x)"
  have "r = Inl (transfer_error s e) \<and> s' = s\<lparr>ws_log := ws_log s @ [W_written (drop j d) ?m]\<rparr>"
    using assms(1) Woke_throw
    by (auto simp: write_turn_def write_result_def win_translating_run transfer_error_def io_ctl_defs)
  with Woke_throw show ?thesis by (simp add: m_def win_byte_defs)
qed (use assms in \<open>auto simp: write_turn_def write_result_def win_translating_run io_ctl_defs\<close>)

text \<open>
  A turn of a read: bytes end it, an empty completion starts the next one. The next one cannot fail
  to start on Trio, and on asyncio only if there is no wrapper or the runtime refuses.
\<close>

fun delivered :: "wwake \<Rightarrow> nat \<Rightarrow> bytes" where
  "delivered (Woke_read bs) n = take n bs"
| "delivered _ n = []"

fun lost :: "wwake \<Rightarrow> nat \<Rightarrow> bytes" where
  "lost (Woke_throw e x) n = take n (bytes_in x)"
| "lost _ n = []"

text \<open>An empty completion: no bytes, or the timeout status that Trio raises.\<close>

fun idle :: "runtime option \<Rightarrow> wwake \<Rightarrow> nat \<Rightarrow> bool" where
  "idle rt (Woke_read bs) n \<longleftrightarrow> take n bs = []"
| "idle rt (Woke_throw e x) n \<longleftrightarrow> rt = Some Trio \<and> isinstance e OSError \<and> exn_winerror e = Some ERROR_TIMEOUT"
| "idle rt _ n \<longleftrightarrow> True"

definition can_issue :: "'k windows_backend_scheme \<Rightarrow> bool" where
  "can_issue s \<longleftrightarrow> wb_runtime s = Some Trio
     \<or> wb_wrapper s \<noteq> None \<and> (\<forall>l. we_issue (ws_env s) l (wb_handle s) = None)"

lemma win_issue_run:
  assumes "can_issue s"
  shows "\<exists>s'. win_issue s = (Inr (), s') \<and> win_still s s' \<and> can_issue s'"
proof (cases "wb_runtime s = Some Trio")
  case True
  then show ?thesis by (simp add: win_issue_def io_ctl_defs can_issue_def win_still_def)
next
  case False
  let ?s1 = "s\<lparr>ws_log := ws_log s @ [W_issue (wb_handle s) None]\<rparr>"
  from assms False have "win_issue s = (Inr (), ?s1)"
    by (auto simp: can_issue_def win_issue_def rt_issue_def rt_call_def io_ctl_defs)
  moreover have "win_still s ?s1" "can_issue ?s1" using assms by (simp_all add: win_still_def can_issue_def)
  ultimately show ?thesis by blast
qed

lemma issuing_loops:
  assumes "can_issue s"
  shows "\<exists>s'. readinto_loop n into s = (Inr (Awaits (At_readinto n into)), s')"
    and "j < length d \<Longrightarrow>
      \<exists>s'. write_loop d j s = (Inr (Awaits (At_write d j)), s') \<and> win_still s s' \<and> can_issue s'"
  using win_issue_run [OF assms]
  by (auto simp: readinto_loop_def write_loop_def win_translating_run io_ctl_defs)

lemma readinto_turn_run:
  assumes "readinto_turn n into w s = (r, s')"
  shows "win_sent s' = win_sent s
    \<and> win_received s' = win_received s @ delivered w n
    \<and> win_lost s' = win_lost s @ lost w n
    \<and> (if delivered w n \<noteq> [] then r = Inr (Done (wrap_read into (delivered w n)))
       else if idle (wb_runtime s) w n
         then (r = Inr (Awaits (At_readinto n into)) \<or> (\<exists>e. r = Inl e))
           \<and> (can_issue s \<longrightarrow> r = Inr (Awaits (At_readinto n into)))
       else \<exists>e x. w = Woke_throw e x \<and> r = Inl (transfer_error s e))
    \<and> open_handles (ws_log s') = open_handles (ws_log s) \<and> wb_open s' = wb_open s \<and> wb_handle s' = wb_handle s
    \<and> ws_env s' = ws_env s \<and> wb_runtime s' = wb_runtime s"
proof -
  have loop: "win_sent s' = win_sent s1 \<and> win_received s' = win_received s1 \<and> win_lost s' = win_lost s1
      \<and> (r = Inr (Awaits (At_readinto n into)) \<or> (\<exists>e. r = Inl e))
      \<and> (can_issue s1 \<longrightarrow> r = Inr (Awaits (At_readinto n into)))
      \<and> open_handles (ws_log s') = open_handles (ws_log s1) \<and> wb_open s' = wb_open s1 \<and> wb_handle s' = wb_handle s1
      \<and> ws_env s' = ws_env s1 \<and> wb_runtime s' = wb_runtime s1"
    if "readinto_loop n into s1 = (r, s')" for s1
    using still_run [OF still_loops(1) that] still_same readinto_loop_run [OF that] issuing_loops(1) [of s1 n into] that
    by (auto simp: win_still_def)
  have same: "can_issue (s\<lparr>ws_log := l\<rparr>) = can_issue s" for l by (simp add: can_issue_def)
  show ?thesis
  proof (cases w)
    case (Woke_read bs)
    let ?s1 = "s\<lparr>ws_log := ws_log s @ [W_read (take n bs)]\<rparr>"
    have "win_translating ''io'' (readinto_result n w) s = (Inr (take n bs), ?s1)"
      using Woke_read by (simp add: readinto_result_def win_translating_run io_ctl_defs)
    note run = readinto_turn_bind [OF this, of into, unfolded assms(1)]
    have moved: "win_sent ?s1 = win_sent s" "win_received ?s1 = win_received s @ take n bs"
      "win_lost ?s1 = win_lost s" "open_handles (ws_log ?s1) = open_handles (ws_log s)"
      by (simp_all add: win_byte_defs)
    show ?thesis
    proof (cases "take n bs = []")
      case True
      with run have "readinto_loop n into ?s1 = (r, s')" by argo
      from loop [OF this] moved Woke_read True same show ?thesis by simp
    next
      case False
      with run have "r = Inr (Done (wrap_read into (take n bs))) \<and> s' = ?s1" by simp
      with moved Woke_read False show ?thesis by simp
    qed
  next
    case (Woke_throw e x)
    let ?s1 = "s\<lparr>ws_log := ws_log s @ [W_lost (take n (bytes_in x))]\<rparr>"
    have moved: "win_sent ?s1 = win_sent s" "win_received ?s1 = win_received s"
      "win_lost ?s1 = win_lost s @ take n (bytes_in x)" "open_handles (ws_log ?s1) = open_handles (ws_log s)"
      by (simp_all add: win_byte_defs)
    show ?thesis
    proof (cases "idle (wb_runtime s) w n")
      case True
      with assms Woke_throw have "readinto_loop n into ?s1 = (r, s')"
        by (simp add: readinto_turn_def readinto_result_def win_translating_run io_ctl_defs)
      from loop [OF this] moved Woke_throw True same show ?thesis by simp
    next
      case False
      with assms Woke_throw have "r = Inl (transfer_error s e) \<and> s' = ?s1"
        by (auto simp: readinto_turn_def readinto_result_def win_translating_run transfer_error_def io_ctl_defs split: if_splits)
      with moved Woke_throw False show ?thesis by (simp del: idle.simps)
    qed
  next
    case Woke
    with assms have "readinto_loop n into s = (r, s')"
      by (simp add: readinto_turn_def readinto_result_def win_translating_run io_ctl_defs)
    from loop [OF this] Woke show ?thesis by simp
  next
    case (Woke_written k)
    with assms have "readinto_loop n into s = (r, s')"
      by (simp add: readinto_turn_def readinto_result_def win_translating_run io_ctl_defs)
    from loop [OF this] Woke_written show ?thesis by simp
  qed
qed

subsection \<open>The contract\<close>

text \<open>A good state: relative to the handles open before, exactly the port's is open, and while it is.\<close>

definition win_good :: "int multiset \<Rightarrow> 'k windows_backend_scheme \<Rightarrow> bool" where
  "win_good base s \<longleftrightarrow> (wb_open s \<longrightarrow> we_is_windows (ws_env s))
     \<and> open_handles (ws_log s) = base + (if wb_open s then {#wb_handle s#} else {#})"

lemma windows_ab_ops [simp]:
  "ab_path windows_ab = wb_path" "ab_is_open windows_ab = wb_open" "ab_open windows_ab = windows_open"
  "ab_call windows_ab = windows_call_op" "ab_resume windows_ab = windows_resume"
  "ab_input_waiting windows_ab = windows_input_waiting" "ab_output_waiting windows_ab = windows_output_waiting"
  by (simp_all add: windows_ab_def)

lemma same_state_lives:
  "open_handles (ws_log s') = open_handles (ws_log s) \<Longrightarrow> wb_open s' = wb_open s \<Longrightarrow> wb_handle s' = wb_handle s \<Longrightarrow>
     ws_env s' = ws_env s \<Longrightarrow> lives windows_ab (win_good base) s s'"
  by (simp add: lives_def win_good_def)

lemma still_rests: "win_still s s' \<Longrightarrow> rests windows_ab win_sent win_received (win_good base) s s'"
  using still_same [of s s'] by (auto simp: rests_def win_still_def intro!: same_state_lives)

lemma keeps_still_lives: "keeps win_still m \<Longrightarrow> keeps (lives windows_ab (win_good base)) m"
  by (erule keeps_weaken) (auto dest: still_rests [where base = base] simp: rests_def)

lemma windows_turn_lives: "keeps (lives windows_ab (win_good base)) (windows_resume q w)"
proof (cases q)
  case (At_readinto n into)
  show ?thesis
  proof (rule keepsI)
    fix s
    obtain r s' where run: "readinto_turn n into w s = (r, s')" by fastforce
    from readinto_turn_run [OF run] have "lives windows_ab (win_good base) s s'" by (simp add: same_state_lives)
    with At_readinto run show "wp (windows_resume q w) (\<lambda>_. lives windows_ab (win_good base) s)
        (\<lambda>_. lives windows_ab (win_good base) s) s"
      by (simp add: wp_def split: sum.split)
  qed
next
  case (At_write d j)
  show ?thesis
  proof (cases "j < length d")
    case True
    show ?thesis
    proof (rule keepsI)
      fix s
      obtain r s' where run: "write_turn d j w s = (r, s')" by fastforce
      from write_turn_run [OF run True] have "lives windows_ab (win_good base) s s'" by (simp add: same_state_lives)
      with At_write run show "wp (windows_resume q w) (\<lambda>_. lives windows_ab (win_good base) s)
          (\<lambda>_. lives windows_ab (win_good base) s) s"
        by (simp add: wp_def split: sum.split)
    qed
  next
    case False
    show ?thesis
    proof (rule keepsI)
      fix s
      have "lives windows_ab (win_good base) s (snd (write_turn d j w s))"
        using False
        by (cases w) (auto simp: write_turn_def write_result_def win_translating_run io_ctl_defs write_loop_def
            lives_def win_good_def)
      with At_write show "wp (windows_resume q w) (\<lambda>_. lives windows_ab (win_good base) s)
          (\<lambda>_. lives windows_ab (win_good base) s) s"
        by (auto simp: wp_def split: prod.split sum.split)
    qed
  qed
next
  case At_flush
  then show ?thesis
    by (cases w) (auto intro!: keeps_still_lives still_done still_ops keeps_control_still)
next
  case At_sleep
  then show ?thesis by (simp add: keeps_still_lives still_ops)
qed

lemma quiet_turn: "win_sending q = None \<Longrightarrow> win_reading q = None \<Longrightarrow> keeps win_still (windows_resume q w)"
  by (cases q; cases w) (auto intro!: still_done still_ops keeps_control_still)

lemma aclose_run:
  assumes "win_good base s"
  shows "wp windows_aclose (\<lambda>_ s'. \<not> wb_open s' \<and> win_good base s' \<and> win_sent s' = win_sent s \<and> win_received s' = win_received s)
    (\<lambda>_ _. False) s"
  using assms
  by (cases "wb_open s")
    (auto simp: windows_aclose_def suppress_oserror_def ignore_def wp_simps Let_def run_errcheck_def win_good_def
      win_sent_def win_received_def open_handles_append split: sum.splits)

lemma windows_aclose_moves:
  "windows_aclose s = (r, s') \<Longrightarrow> win_sent s' = win_sent s \<and> win_received s' = win_received s"
proof -
  have "wp windows_aclose (\<lambda>_ s'. win_sent s' = win_sent s \<and> win_received s' = win_received s)
      (\<lambda>_ s'. win_sent s' = win_sent s \<and> win_received s' = win_received s) s"
    by (auto simp: windows_aclose_def suppress_oserror_def ignore_def wp_simps Let_def run_errcheck_def
        win_sent_def win_received_def split: sum.splits)
  then show "windows_aclose s = (r, s') \<Longrightarrow> ?thesis" by (auto simp: wp_def split: sum.splits)
qed

text \<open>Where a call or a turn parks.\<close>

fun parks_at :: "bop \<Rightarrow> wpc option" where
  "parks_at (B_receive n) = Some (At_readinto n False)"
| "parks_at (B_receive_into n) = Some (At_readinto n True)"
| "parks_at (B_send d) = Some (At_write d 0)"
| "parks_at B_drain = Some At_flush"
| "parks_at (B_send_break f) = Some At_sleep"
| "parks_at _ = None"

definition awaits_only :: "(wpc \<Rightarrow> bool) \<Rightarrow> 'k windows_call \<Rightarrow> bool" where
  "awaits_only P m \<longleftrightarrow> (\<forall>s. wp m (\<lambda>x _. case x of Done v \<Rightarrow> True | Awaits q \<Rightarrow> P q) (\<lambda>_ _. True) s)"

lemma awaits_only_run: "awaits_only P m \<Longrightarrow> m s = (Inr (Awaits q), s') \<Longrightarrow> P q"
  by (auto simp: awaits_only_def wp_def dest: spec [of _ s])

lemma awaits_only_bind:
  assumes "\<And>x. awaits_only P (f x)"
  shows "awaits_only P (io_bind m f)"
  unfolding awaits_only_def wp_bind
proof (rule allI, rule wp_mono [OF wp_True])
  show "wp (f x) (\<lambda>y _. case y of Done v \<Rightarrow> True | Awaits q \<Rightarrow> P q) (\<lambda>_ _. True) s" for x s
    using assms [of x] by (simp add: awaits_only_def)
qed simp

lemma awaits_only_rules:
  "awaits_only P (io_return (Done v))"
  "P q \<Longrightarrow> awaits_only P (io_return (Awaits q))"
  "awaits_only P (io_raise e)"
  "awaits_only P m1 \<Longrightarrow> awaits_only P (io_seq m2 m1)"
  "awaits_only P m1 \<Longrightarrow> awaits_only P m3 \<Longrightarrow> awaits_only P (if b then m1 else m3)"
  by (simp_all add: awaits_only_bind io_seq_def) (simp_all add: awaits_only_def wp_simps)

lemma awaits_only_done: "awaits_only P (done_with f m)"
  unfolding done_with_def by (intro awaits_only_bind awaits_only_rules)

lemma call_awaits_only: "awaits_only (\<lambda>q. parks_at c = Some q) (windows_call_op c)"
  by (cases c; simp only: windows_call_op.simps parks_at.simps windows_receive_def windows_receive_into_def
      windows_send_def windows_drain_def windows_send_break_def readinto_loop_def write_loop_def)
    (intro awaits_only_done awaits_only_rules refl)+

lemma late_write_turn:
  "\<not> j < length d \<Longrightarrow> write_turn d j w s = (r, s') \<Longrightarrow> win_received s' = win_received s \<and> r \<noteq> Inr (Awaits q)"
  by (cases w) (auto simp: write_turn_def write_result_def win_translating_run io_ctl_defs win_received_def write_loop_def)

fun turn_parks :: "wpc \<Rightarrow> wpc \<Rightarrow> bool" where
  "turn_parks (At_readinto n into) q' \<longleftrightarrow> q' = At_readinto n into"
| "turn_parks (At_write d j) q' \<longleftrightarrow> (\<exists>k. q' = At_write d k)"
| "turn_parks _ q' \<longleftrightarrow> False"

lemma resume_awaits_only: "awaits_only (turn_parks q) (windows_resume q w)"
proof (cases q)
  case At_flush
  then show ?thesis by (cases w) (simp_all add: awaits_only_done awaits_only_rules)
next
  case At_sleep
  then show ?thesis by (cases w) (simp_all add: awaits_only_def break_turn_def wp_simps)
next
  case (At_readinto n into)
  then show ?thesis
    by (simp add: readinto_turn_def readinto_loop_def awaits_only_bind awaits_only_rules)
next
  case (At_write d j)
  then show ?thesis
    by (simp add: write_turn_def write_loop_def awaits_only_bind awaits_only_rules)
qed

lemma call_moves:
  assumes "windows_call_op c s = (r, s')"
  shows "win_sent s' = win_sent s \<and> win_received s' = win_received s"
proof (cases "c = B_aclose")
  case True
  with assms show ?thesis
    using windows_aclose_moves [of s] by (auto simp: done_with_def io_ctl_defs split: prod.splits sum.splits)
next
  case False
  from still_same [OF still_run [OF still_call_op [OF False] assms]] show ?thesis by simp
qed

lemma awaits_noneI: "(\<And>q. r = Inr (Awaits q) \<Longrightarrow> here q = None) \<Longrightarrow> awaits_none here r"
  by (cases "(here, r)" rule: awaits_none.cases) auto

lemma call_awaits:
  assumes "windows_call_op c s = (r, s')"
  shows "\<not> is_bsend c \<Longrightarrow> awaits_none win_sending r" "\<not> is_breceive c \<Longrightarrow> awaits_none win_reading r"
  using assms awaits_only_run [OF call_awaits_only, of c s _ s'] by (intro awaits_noneI; cases c; auto)+

lemma turn_awaits:
  assumes "windows_resume q w s = (r, s')"
  shows "win_sending q = None \<Longrightarrow> awaits_none win_sending r" "win_reading q = None \<Longrightarrow> awaits_none win_reading r"
  using assms awaits_only_run [OF resume_awaits_only, of q w s _ s'] by (intro awaits_noneI; cases q; auto)+

lemma turn_moves:
  "windows_resume q w s = (r, s') \<Longrightarrow> win_sending q = None \<Longrightarrow> win_sent s' = win_sent s"
  "windows_resume q w s = (r, s') \<Longrightarrow> win_reading q = None \<Longrightarrow> win_received s' = win_received s"
proof -
  assume run: "windows_resume q w s = (r, s')"
  show "win_sending q = None \<Longrightarrow> win_sent s' = win_sent s"
  proof (cases q)
    case (At_readinto n into)
    with run readinto_turn_run [of n into w s r s'] show ?thesis by simp
  qed (use still_same [OF still_run [OF quiet_turn run]] in simp_all)
  show "win_reading q = None \<Longrightarrow> win_received s' = win_received s"
  proof (cases q)
    case (At_write d j)
    with run write_turn_run [of d j w s r s'] late_write_turn [of j d w s r s'] show ?thesis
      by (cases "j < length d") simp_all
  qed (use still_same [OF still_run [OF quiet_turn run]] in simp_all)
qed

interpretation windows: async_backend_laws
  "windows_ab :: ('k windows_backend_scheme, wpc, wwake) async_backend" win_sent win_received "win_good base"
    win_sending win_reading for base
proof (unfold_locales, unfold windows_ab_ops, goal_cases)
  case (1 d b r b')
  then have "windows_send d b = (r, b')" by simp
  note still = still_same [OF still_run [OF still_loops(5) this]]
  show ?case
  proof (cases "wb_open b")
    case True
    with 1 have "write_loop d 0 b = (r, b')"
      by (simp add: windows_send_def win_raise_if_closed_def io_ctl_defs)
    from write_loop_run [OF this] still 1(1) show ?thesis
      by (auto simp: send_post_def intro: exI [of _ 0])
  next
    case False
    with 1 have "\<exists>e. r = Inl e" by (auto simp: windows_send_def win_raise_if_closed_def io_ctl_defs)
    with still 1(1) show ?thesis by (auto simp: send_post_def intro: exI [of _ 0])
  qed
next
  case (2 q d j b s w r b')
  from 2(1) have q: "q = At_write d j" by (cases q) auto
  with 2(4) have "write_turn d j w b = (r, b')" by simp
  note run = write_turn_run [OF this 2(2)]
  let ?m = "transferred w (length d - j)"
  have "take j d @ take ?m (drop j d) = take (j + ?m) d" by (simp add: take_add)
  with run 2(2,3) transferred_le [of w "length d - j"] show ?case
    by (auto simp: send_post_def intro!: exI [of _ "j + ?m"])
next
  case (3 n b r b')
  then have run: "windows_receive n b = (r, b')" by simp
  note still = still_same [OF still_run [OF still_loops(2) run]]
  with run readinto_loop_run [of n False b r b'] show ?case
    by (auto simp: windows_receive_def win_raise_if_closed_def io_ctl_defs read_post_def split: if_splits)
next
  case (4 n b r b')
  then have run: "windows_receive_into n b = (r, b')" by simp
  note still = still_same [OF still_run [OF still_loops(3) run]]
  with run readinto_loop_run [of n True b r b'] show ?case
    by (auto simp: windows_receive_into_def win_raise_if_closed_def io_ctl_defs read_post_def split: if_splits)
next
  case (5 q n into w b r b')
  from 5(1) have "q = At_readinto n into" by (cases q) auto
  with 5(2) have "readinto_turn n into w b = (r, b')" by simp
  from readinto_turn_run [OF this] show ?case
    by (cases w) (auto simp: read_post_def wrap_read_def split: if_splits)
next
  case (6 c b r b')
  then show ?case using call_moves call_awaits(1) by blast
next
  case (7 q w b r b')
  then show ?case using turn_moves(1) turn_awaits(1) by blast
next
  case (8 c b r b')
  then show ?case using call_moves call_awaits(2) by blast
next
  case (9 q w b r b')
  then show ?case using turn_moves(2) turn_awaits(2) by blast
next
  case 10
  show ?case by (rule keeps_weaken [OF still_ops(8)]) (rule still_rests)
next
  case 11
  show ?case by (rule keeps_weaken [OF still_ops(9)]) (rule still_rests)
next
  case (12 c)
  then show ?case by (rule keeps_still_lives [OF still_call_op])
next
  case (13 q w)
  show ?case by (rule windows_turn_lives)
next
  case (14 b r b')
  then have run: "done_with (\<lambda>_. V_unit) windows_aclose b = (r, b')" by simp
  from aclose_run [OF 14(1)] run show ?case
    by (auto simp: done_with_def io_ctl_defs wp_def split: prod.splits sum.splits)
qed

end
