(* ===== verification/Windows_Claims.thy ===== *)
theory Windows_Claims
  imports Windows_Port
begin

section \<open>Opening, waiting and transferring on Windows\<close>

text \<open>The properties of the Windows backend and of the asynchronous port over it.\<close>

subsection \<open>Opening\<close>

lemma win_open_raise_run:
  "isinstance e OSError \<Longrightarrow> win_open_raise path e s = (Inl (winerror_to_exception e ''open'' (Some path)), s)"
  by (simp add: win_open_raise_def io_raise_def)

lemma winerror_is_serial: "isinstance (winerror_to_exception e ctx path) SerialError"
  by (auto simp: winerror_to_exception_def isinstance_simps Let_def)

text \<open>All the failures of a sequence of calls are \<open>OSError\<close>s.\<close>

definition fails_os :: "('k windows_backend_scheme, exn, 'a) io \<Rightarrow> bool" where
  "fails_os m \<longleftrightarrow> (\<forall>s. wp m (\<lambda>_ _. True) (\<lambda>e _. isinstance e OSError) s)"

lemma platform_is_os: "isinstance (exn_msg UnsupportedPlatformError) OSError"
  "isinstance (exn_msg UnsupportedPlatformError) SerialError"
  by (simp_all add: exn_msg_def isinstance_simps)

lemma fails_os_rules:
  "fails_os (k32_call c)" "fails_os load_kernel32" "fails_os (io_return x)" "fails_os (io_get g)"
  by (auto simp: fails_os_def wp_simps Let_def run_errcheck_def platform_is_os split: sum.split errcheck.split)

lemma fails_os_bind:
  assumes "fails_os m" "\<And>x. fails_os (f x)"
  shows "fails_os (io_bind m f)"
  unfolding fails_os_def wp_bind
proof (rule allI)
  fix s
  have "wp m (\<lambda>_ _. True) (\<lambda>e _. isinstance e OSError) s" using assms(1) by (simp add: fails_os_def)
  then show "wp m (\<lambda>x. wp (f x) (\<lambda>_ _. True) (\<lambda>e _. isinstance e OSError)) (\<lambda>e _. isinstance e OSError) s"
    by (rule wp_mono) (use assms(2) in \<open>auto simp: fails_os_def\<close>)
qed

lemma fails_os_seq: "fails_os m \<Longrightarrow> fails_os n \<Longrightarrow> fails_os (io_seq m n)"
  unfolding io_seq_def by (rule fails_os_bind)

lemma fails_os_ops: "fails_os m \<Longrightarrow> fails_os (ignore m)" "fails_os (on_handle c)" "fails_os (apply_dcb config)"
  unfolding ignore_def on_handle_def apply_dcb_def
  by (auto intro!: fails_os_bind fails_os_seq fails_os_rules)

definition setup_calls :: "int \<Rightarrow> serial_config \<Rightarrow> 'k windows_op" where
  "setup_calls handle config =
     io_seq (ignore (k32_call (SetupComm handle DEFAULT_INPUT_QUEUE DEFAULT_OUTPUT_QUEUE)))
       (io_seq (apply_dcb config)
         (ignore (k32_call (SetCommTimeouts handle build_read_any_timeouts))))"

lemma setup_calls_wp:
  "wp (setup_calls h config) (\<lambda>_. win_still s) (\<lambda>e s'. win_still s s' \<and> isinstance e OSError) s"
proof -
  have "keeps win_still (setup_calls h config)"
    unfolding setup_calls_def by (intro keeps_control_still still_wrappers still_calls still_apply_dcb; simp)
  moreover have "fails_os (setup_calls h config)"
    unfolding setup_calls_def by (intro fails_os_seq fails_os_ops fails_os_rules)
  ultimately show ?thesis
    using wp_conj [OF keeps_wp [of win_still "setup_calls h config" s], of "\<lambda>_ _. True" "\<lambda>e _. isinstance e OSError"]
    by (auto simp: fails_os_def elim: wp_mono)
qed

lemma win_setup_wp:
  assumes "\<not> wb_open s"
  shows "wp (win_setup h path config) (\<lambda>_. win_still s)
    (\<lambda>e s'. isinstance e SerialError \<and> \<not> wb_open s' \<and> wb_handle s' = 0
      \<and> open_handles (ws_log s') = open_handles (ws_log s) - {#h#}) s"
  unfolding win_setup_def setup_calls_def [symmetric] wp_try
proof (rule wp_mono [OF setup_calls_wp])
  fix e s' assume *: "win_still s s' \<and> isinstance e OSError"
  with still_same [of s s'] assms
  have same: "open_handles (ws_log s') = open_handles (ws_log s)" "\<not> wb_open s'" by (auto simp: win_still_def)
  with * show "wp (if isinstance e OSError
      then io_seq (suppress_oserror (ignore (k32_call (CloseHandle h))))
        (io_seq (io_modify (\<lambda>s. s\<lparr>wb_handle := 0, wb_open := False\<rparr>)) (win_open_raise path e))
      else io_raise e) (\<lambda>_. win_still s)
      (\<lambda>e s'. isinstance e SerialError \<and> \<not> wb_open s' \<and> wb_handle s' = 0
        \<and> open_handles (ws_log s') = open_handles (ws_log s) - {#h#}) s'"
    by (auto simp: suppress_oserror_def ignore_def win_open_raise_def wp_simps Let_def run_errcheck_def
        winerror_is_serial split: sum.split)
qed

lemma win_create_wp:
  "wp (win_create path)
     (\<lambda>a s'. open_handles (ws_log s') = add_mset (an_result a) (open_handles (ws_log s)) \<and> wb_open s' = wb_open s
        \<and> wb_path s' = wb_path s \<and> wb_runtime s' = wb_runtime s)
     (\<lambda>e s'. isinstance e SerialError \<and> open_handles (ws_log s') = open_handles (ws_log s) \<and> wb_open s' = wb_open s
        \<and> wb_handle s' = wb_handle s) s"
  by (auto simp: win_create_def win_open_raise_def wp_simps Let_def run_errcheck_def winerror_is_serial split: sum.split)

text \<open>The driver accepted the control block that overlays the configuration on the one it reported.\<close>

definition dcb_written :: "serial_config \<Rightarrow> 'k windows_backend_scheme \<Rightarrow> bool" where
  "dcb_written config s \<longleftrightarrow> (\<exists>b a. an_result a \<noteq> 0
     \<and> W_call (GetCommState (wb_handle s)) b \<in> set (ws_log s)
     \<and> W_call (SetCommState (wb_handle s) (apply_config (an_dcb b) config)) a \<in> set (ws_log s))"

lemma apply_dcb_writes: "wp (apply_dcb config) (\<lambda>_. dcb_written config) (\<lambda>_ _. True) s"
  by (auto simp: apply_dcb_def on_handle_def ignore_def wp_simps Let_def run_errcheck_def dcb_written_def split: sum.splits)

lemma dcb_written_still: "win_still s s' \<Longrightarrow> dcb_written config s \<Longrightarrow> dcb_written config s'"
  unfolding win_still_def dcb_written_def by (elim conjE exE) (intro exI conjI, auto)

lemma win_setup_writes: "wp (win_setup h path config) (\<lambda>_. dcb_written config) (\<lambda>_ _. True) s"
proof -
  have dcb: "wp (io_seq (apply_dcb config) (ignore (k32_call (SetCommTimeouts h build_read_any_timeouts))))
      (\<lambda>_. dcb_written config) (\<lambda>_ _. True) s" for s :: "'a windows_backend_scheme"
    unfolding wp_seq
  proof (rule wp_mono [OF apply_dcb_writes])
    fix s :: "'a windows_backend_scheme" assume w: "dcb_written config s"
    have "keeps win_still (ignore (k32_call (SetCommTimeouts h build_read_any_timeouts)) :: 'a windows_op)"
      by (intro still_wrappers still_calls) simp
    from keeps_wp [OF this, of s] show "wp (ignore (k32_call (SetCommTimeouts h build_read_any_timeouts)))
        (\<lambda>_. dcb_written config) (\<lambda>_ _. True) s"
      by (rule wp_mono) (use dcb_written_still w in auto)
  qed simp
  have "wp (setup_calls h config) (\<lambda>_. dcb_written config) (\<lambda>_ _. True) s"
    unfolding setup_calls_def wp_seq [of "ignore x" for x] by (rule wp_mono [OF wp_True]) (use dcb in auto)
  then show ?thesis
    unfolding win_setup_def setup_calls_def [symmetric] wp_try
    by (rule wp_mono) (auto simp: suppress_oserror_def ignore_def win_open_raise_def wp_simps Let_def split: sum.split)
qed

text \<open>The last thing that happened is a refused registration, or a rejected \<open>SetCommMask\<close>.\<close>

definition late_failure :: "'k windows_backend_scheme \<Rightarrow> bool" where
  "late_failure s \<longleftrightarrow>
     (\<exists>code. last (ws_log s) = W_register (wb_handle s) (Some code))
     \<or> (\<exists>a. last (ws_log s) = W_call (SetCommMask (wb_handle s) EV_ALL_MODEM) a \<and> an_result a = 0)"

lemma win_register_wp:
  "wp win_register
     (\<lambda>_ s'. open_handles (ws_log s') = open_handles (ws_log s) \<and> wb_open s' = wb_open s \<and> wb_handle s' = wb_handle s
        \<and> wb_path s' = wb_path s \<and> wb_runtime s' = wb_runtime s
        \<and> (wb_runtime s \<noteq> Some Trio \<longrightarrow> wb_wrapper s' = Some (wb_handle s)) \<and> (dcb_written config s \<longrightarrow> dcb_written config s'))
     (\<lambda>e s'. open_handles (ws_log s') = open_handles (ws_log s) \<and> wb_open s' = wb_open s \<and> wb_handle s' = wb_handle s
        \<and> isinstance e OSError \<and> \<not> isinstance e SerialError \<and> late_failure s'
        \<and> (dcb_written config s \<longrightarrow> dcb_written config s')) s"
  by (auto simp: win_register_def rt_register_def wp_simps Let_def dcb_written_def late_failure_def split: option.split)

text \<open>From the registration on, and the whole.\<close>

lemma detect_runtime_error: "detect_runtime p = Inl e \<Longrightarrow> isinstance e SerialError \<and> isinstance e OSError"
  by (auto simp: detect_runtime_def require_proactor_def res_bind_def exn_msg_def isinstance_simps split: if_splits)

lemma windows_open_wp:
  assumes "\<not> wb_open s"
  shows "wp (windows_open path config)
     (\<lambda>_ s'. wb_open s' \<and> wb_path s' = path \<and> wb_config s' = Some config
        \<and> open_handles (ws_log s') = add_mset (wb_handle s') (open_handles (ws_log s))
        \<and> (wb_runtime s' \<noteq> Some Trio \<longrightarrow> wb_wrapper s' = Some (wb_handle s')) \<and> dcb_written config s')
     (\<lambda>e s'. \<not> wb_open s' \<and> isinstance e OSError \<and>
        (if isinstance e SerialError
         then open_handles (ws_log s') = open_handles (ws_log s) \<and> wb_handle s' \<in> {wb_handle s, 0}
         else open_handles (ws_log s') = add_mset (wb_handle s') (open_handles (ws_log s))
           \<and> late_failure s' \<and> dcb_written config s')) s"
proof -
  let ?Q = "\<lambda>_ s'. wb_open s' \<and> wb_path s' = path \<and> wb_config s' = Some config
        \<and> open_handles (ws_log s') = add_mset (wb_handle s') (open_handles (ws_log s))
        \<and> (wb_runtime s' \<noteq> Some Trio \<longrightarrow> wb_wrapper s' = Some (wb_handle s')) \<and> dcb_written config s'"
  let ?E = "\<lambda>e s'. \<not> wb_open s' \<and> isinstance e OSError \<and>
        (if isinstance e SerialError
         then open_handles (ws_log s') = open_handles (ws_log s) \<and> wb_handle s' \<in> {wb_handle s, 0}
         else open_handles (ws_log s') = add_mset (wb_handle s') (open_handles (ws_log s))
           \<and> late_failure s' \<and> dcb_written config s')"
  have last: "wp (io_seq (ignore (k32_call (SetCommMask (wb_handle s1) EV_ALL_MODEM)))
      (io_modify (\<lambda>s. s\<lparr>wb_config := Some config, wb_open := True\<rparr>))) ?Q ?E s1"
    if "wb_path s1 = path" "\<not> wb_open s1" "dcb_written config s1"
      "open_handles (ws_log s1) = add_mset (wb_handle s1) (open_handles (ws_log s))"
      "wb_runtime s1 \<noteq> Some Trio \<longrightarrow> wb_wrapper s1 = Some (wb_handle s1)" for s1
    using that by (auto simp: ignore_def wp_simps Let_def run_errcheck_def dcb_written_def late_failure_def split: sum.split)
  have registered: "wp (io_seq win_register (io_seq (ignore (k32_call (SetCommMask (wb_handle s1) EV_ALL_MODEM)))
      (io_modify (\<lambda>s. s\<lparr>wb_config := Some config, wb_open := True\<rparr>)))) ?Q ?E s1"
    if s1: "wb_path s1 = path" "\<not> wb_open s1" "dcb_written config s1"
      "open_handles (ws_log s1) = add_mset (wb_handle s1) (open_handles (ws_log s))" for s1
    unfolding wp_seq [of win_register]
  proof (rule wp_mono [OF win_register_wp [of s1 config]], goal_cases)
    case (1 x s')
    with s1 last [of s'] show ?case by simp
  qed (use s1 in simp)
  have set_up: "wp (io_seq (win_setup (wb_handle s1) path config) (io_seq win_register
      (io_seq (ignore (k32_call (SetCommMask (wb_handle s1) EV_ALL_MODEM)))
      (io_modify (\<lambda>s. s\<lparr>wb_config := Some config, wb_open := True\<rparr>))))) ?Q ?E s1"
    if s1: "wb_path s1 = path" "\<not> wb_open s1"
      "open_handles (ws_log s1) = add_mset (wb_handle s1) (open_handles (ws_log s))" for s1
    unfolding wp_seq [of "win_setup h p c" for h p c]
  proof (rule wp_mono [OF wp_conj [OF win_setup_wp [OF s1(2)] win_setup_writes]], goal_cases)
    case (1 x s')
    with still_same [of s1 s'] s1 have "open_handles (ws_log s') = add_mset (wb_handle s') (open_handles (ws_log s))"
      "wb_path s' = path" "\<not> wb_open s'" "dcb_written config s'" "wb_handle s' = wb_handle s1"
      by (auto simp: win_still_def)
    with registered [of s'] show ?case by simp
  next
    case (2 e s')
    with s1 SerialError_is_OSError [of e] show ?case by simp
  qed
  show ?thesis
  proof (cases "detect_runtime (we_probe (ws_env s) (ws_log s))")
    case (Inl e)
    with assms detect_runtime_error [OF Inl] show ?thesis by (simp add: windows_open_def wp_simps)
  next
    case (Inr rt)
    let ?s1 = "s\<lparr>wb_path := path, wb_runtime := Some rt\<rparr>"
    have "wp (io_bind (win_create path) (\<lambda>a. let handle = an_result a in
        io_seq (io_modify (\<lambda>s. s\<lparr>wb_handle := handle\<rparr>)) (io_seq (win_setup handle path config) (io_seq win_register
          (io_seq (ignore (k32_call (SetCommMask handle EV_ALL_MODEM)))
           (io_modify (\<lambda>s. s\<lparr>wb_config := Some config, wb_open := True\<rparr>))))))) ?Q ?E ?s1"
      unfolding wp_bind Let_def
    proof (rule wp_mono [OF win_create_wp], goal_cases)
      case (1 a s')
      with assms set_up [of "s'\<lparr>wb_handle := an_result a\<rparr>"] show ?case by (simp add: wp_seq [of "io_modify f" for f] wp_modify)
    next
      case (2 e s')
      with assms SerialError_is_OSError [of e] show ?case by simp
    qed
    with assms Inr platform_is_os show ?thesis
      by (simp add: windows_open_def wp_simps)
  qed
qed

text \<open>C10: Opening a Windows port either succeeds, with one handle more, registered with the running
  runtime and configured by overlaying the requested settings on the block the driver reported, or
  fails with the port closed. Exactly two failures leak: a refused registration with the completion
  port and a rejected \<open>SetCommMask\<close>. They raise the bare \<open>OSError\<close> with the handle still open, after the
  settings were written, so the exclusive port stays locked. Every other failure, of the runtime
  check, the creation of the handle, the queues, the settings or the timeouts, is a \<open>SerialError\<close>, and
  the handle, if there was one, has been given back and forgotten.\<close>

theorem windows_open_outcomes:
  assumes "\<not> wb_open s"
  shows "case windows_open path config s of
      (Inr _, s') \<Rightarrow> wb_open s' \<and> wb_path s' = path \<and> wb_config s' = Some config
        \<and> open_handles (ws_log s') = open_handles (ws_log s) + {#wb_handle s'#}
        \<and> (wb_runtime s' = Some Trio \<or> wb_wrapper s' = Some (wb_handle s')) \<and> dcb_written config s'
    | (Inl e, s') \<Rightarrow> \<not> wb_open s' \<and> isinstance e OSError
        \<and> (if isinstance e SerialError
           then open_handles (ws_log s') = open_handles (ws_log s) \<and> wb_handle s' \<in> {wb_handle s, 0}
           else open_handles (ws_log s') = open_handles (ws_log s) + {#wb_handle s'#}
             \<and> late_failure s' \<and> dcb_written config s')"
  using windows_open_wp [OF assms, of path config]
  by (auto simp: wp_def split: prod.splits sum.splits if_splits)

definition demo_answer :: "k32 \<Rightarrow> answer" where
  "demo_answer c = \<lparr>an_result = (case c of CreateFileW p a b d f \<Rightarrow> 7 | CreateEventW \<Rightarrow> 9 | WaitCommEvent h \<Rightarrow> 0
       | WaitForSingleObject h ms \<Rightarrow> 258 | _ \<Rightarrow> 1),
     an_last_error = 997, an_dcb = zero_dcb, an_word = 16, an_comstat = \<lparr>cs_cbInQue = 0, cs_cbOutQue = 0\<rparr>\<rparr>"

text \<open>Everything works, except that the registration fails with the given code, if any.\<close>

definition demo_win :: "runtime \<Rightarrow> int option \<Rightarrow> win_env" where
  "demo_win rt failing = \<lparr>we_is_windows = True,
     we_probe = (\<lambda>_. \<lparr>rp_asyncio_loop = (rt = Asyncio), rp_proactor = True, rp_trio_task = (rt = Trio)\<rparr>),
     we_answer = (\<lambda>_. demo_answer), we_register = (\<lambda>_ _. failing), we_issue = (\<lambda>_ _. None),
     we_errno = (\<lambda>_. 5), we_message = (\<lambda>_. [])\<rparr>"

lemmas demo_win_defs = demo_win_def demo_answer_def windows_init_def windows_open_def win_create_def win_setup_def
  win_register_def rt_register_def rt_call_def k32_call_def run_errcheck_def INVALID_HANDLE_VALUE_def load_kernel32_def
  apply_dcb_def on_handle_def ignore_def win_open_raise_def suppress_oserror_def detect_runtime_def require_proactor_def
  res_bind_def io_ctl_defs

lemma demo_open: "\<exists>s. windows_open ''COM3'' default_config (windows_init (demo_win rt None) []) = (Inr (), s)
    \<and> wb_runtime s = Some rt"
  by (cases rt) (simp_all add: demo_win_defs Let_def)

lemma demo_open_unregistered: "\<exists>s. windows_open ''COM3'' default_config (windows_init (demo_win rt (Some 31)) [])
    = (Inl (win_exn (demo_win rt (Some 31)) 31), s) \<and> wb_handle s = 7"
  by (cases rt) (simp_all add: demo_win_defs Let_def)

text \<open>A driver that rejects the queue sizes.\<close>

definition demo_reject :: "k32 \<Rightarrow> answer" where
  "demo_reject c = (case c of SetupComm h i q \<Rightarrow> (demo_answer c)\<lparr>an_result := 0\<rparr> | _ \<Rightarrow> demo_answer c)"

lemma demo_open_rejected:
  "\<exists>e s. windows_open ''COM3'' default_config (windows_init ((demo_win rt None)\<lparr>we_answer := (\<lambda>_. demo_reject)\<rparr>) []) = (Inl e, s)
     \<and> isinstance e SerialError"
  by (cases rt) (simp_all add: demo_win_defs demo_reject_def winerror_is_serial Let_def)

lemma windows_open_outcomes_witness:
  "(\<exists>s. windows_open ''COM3'' default_config (windows_init (demo_win Asyncio None) []) = (Inr (), s) \<and> wb_open s)
   \<and> (\<exists>e s. windows_open ''COM3'' default_config (windows_init (demo_win Trio (Some 31)) []) = (Inl e, s)
        \<and> \<not> isinstance e SerialError \<and> open_handles (ws_log s) = {#7#} \<and> late_failure s)
   \<and> (\<exists>e s. windows_open ''COM3'' default_config (windows_init ((demo_win Trio None)\<lparr>we_answer := (\<lambda>_. demo_reject)\<rparr>) []) = (Inl e, s)
        \<and> isinstance e SerialError \<and> open_handles (ws_log s) = {#} \<and> wb_handle s = 0)"
proof -
  have closed: "\<not> wb_open (windows_init env [])" for env by (simp add: windows_init_def)
  note outcome = windows_open_outcomes [OF closed, where path = "''COM3''" and config = default_config]
  obtain s where s: "windows_open ''COM3'' default_config (windows_init (demo_win Asyncio None) []) = (Inr (), s)"
    using demo_open by blast
  obtain s' where s': "windows_open ''COM3'' default_config (windows_init (demo_win Trio (Some 31)) [])
      = (Inl (win_exn (demo_win Trio (Some 31)) 31), s')" "wb_handle s' = 7"
    using demo_open_unregistered by blast
  obtain e s'' where s'': "windows_open ''COM3'' default_config
      (windows_init ((demo_win Trio None)\<lparr>we_answer := (\<lambda>_. demo_reject)\<rparr>) []) = (Inl e, s'')" "isinstance e SerialError"
    using demo_open_rejected by blast
  from outcome [of "demo_win Asyncio None"] outcome [of "demo_win Trio (Some 31)"]
    outcome [of "(demo_win Trio None)\<lparr>we_answer := (\<lambda>_. demo_reject)\<rparr>"] s s' s''
  show ?thesis by (simp add: windows_init_def)
qed

subsection \<open>The port over the backend\<close>

abbreviation windows_reachable :: "int multiset \<Rightarrow> ('k windows_backend_scheme, wpc) async_system \<Rightarrow> bool" where
  "windows_reachable base \<equiv>
     async_reachable windows_ab win_sent win_received (rests windows_ab win_sent win_received (win_good base)) (win_good base)"

abbreviation windows_port_step :: "int multiset \<Rightarrow> ('k windows_backend_scheme, wpc) async_system \<Rightarrow>
    (wpc, wwake) alabel \<Rightarrow> ('k windows_backend_scheme, wpc) async_system \<Rightarrow> bool" where
  "windows_port_step base \<equiv>
     async_step windows_ab win_sent win_received (rests windows_ab win_sent win_received (win_good base))"

lemma woken_turn:
  fixes s s' :: "('k windows_backend_scheme, wpc) async_system"
  assumes "windows_reachable base s" "windows_port_step base s (A_woken t w r) s'"
  obtains k q where "ac_pc t = Inside k q" "async_resume windows_ab k q w (fst s) = (r, fst s')"
    "call_ok_at win_sent win_received win_sending win_reading (ap_backend (fst s)) t"
    "result_exact win_sent win_received win_sending win_reading (ac_op t) (ac_sent t) (ac_received t) r (fst s')"
  using assms(2)
proof cases
  case (woken k q p p' ts us)
  from windows.reachable_invariants [OF assms(1)] woken(1)
  have ok: "call_ok_at win_sent win_received win_sending win_reading (ap_backend p) t" by simp
  with windows.woken_exact [OF this woken(3,4)] woken that show thesis by simp
qed

text \<open>A woken section is a turn of the backend, whose result it passes on.\<close>

lemma resumed_turn:
  assumes "async_resume windows_ab k q w p = (r, p')"
  obtains s where "windows_resume q w (ap_backend p) = (s, ap_backend p')"
    "r = tag k s \<or> (\<exists>v. s = Inr (Done v) \<and> k = read_kind (v = V_into []) \<and> v \<in> {V_bytes [], V_into []})"
proof -
  obtain r0 p0 where run: "finishing windows_ab k (on_async (windows_resume q w)) p = (r0, p0)" and r: "r = tag k r0"
    and p': "ap_backend p' = ap_backend p0"
    using assms unfolding async_resume_def windows_ab_ops by (rule run_section_run)
  obtain s where "windows_resume q w (ap_backend p) = (s, ap_backend p0)"
    "r0 = s \<or> (\<exists>v e. s = Inr (Done v) \<and> r0 = Inl e \<and> k = read_kind (v = V_into []) \<and> v \<in> {V_bytes [], V_into []})"
    using finishing_run [OF run, of True] by metis
  with r p' that show thesis by metis
qed

lemma windows_send_turn:
  fixes s s' :: "('k windows_backend_scheme, wpc) async_system"
  assumes "windows_reachable base s" "windows_port_step base s (A_woken t w r) s'" "ac_op t = Op_send d"
  obtains j s0 where "ac_pc t = Inside K_send (At_write d j)" "j < length d"
    "win_sent (ap_backend (fst s)) = ac_sent t @ take j d"
    "write_turn d j w (ap_backend (fst s)) = (s0, ap_backend (fst s'))" "r = tag K_send s0"
proof -
  obtain k q where turn: "ac_pc t = Inside k q" "async_resume windows_ab k q w (fst s) = (r, fst s')"
    "call_ok_at win_sent win_received win_sending win_reading (ap_backend (fst s)) t"
    using woken_turn [OF assms(1,2)] by metis
  then obtain j where at: "k = K_send" "q = At_write d j" "j < length d"
    "win_sent (ap_backend (fst s)) = ac_sent t @ take j d"
    using assms(3) by (cases q) (auto simp: call_ok_at_def pc_exact_def)
  obtain s0 where "windows_resume q w (ap_backend (fst s)) = (s0, ap_backend (fst s'))" "r = tag k s0"
    using resumed_turn [OF turn(2)] at(1) by (metis read_kind_simps(1))
  with turn(1) at that show thesis by simp
qed

lemma windows_read_turn:
  fixes s s' :: "('k windows_backend_scheme, wpc) async_system"
  assumes "windows_reachable base s" "windows_port_step base s (A_woken t w r) s'" "a_read (ac_op t)"
  obtains n into s0 where "ac_pc t = Inside (read_kind into) (At_readinto n into)" "reads_as (ac_op t) n into"
    "readinto_turn n into w (ap_backend (fst s)) = (s0, ap_backend (fst s'))" "r = tag (read_kind into) s0"
    "win_received (ap_backend (fst s)) = ac_received t"
proof -
  obtain k q where turn: "ac_pc t = Inside k q" "async_resume windows_ab k q w (fst s) = (r, fst s')"
    "call_ok_at win_sent win_received win_sending win_reading (ap_backend (fst s)) t"
    using woken_turn [OF assms(1,2)] by metis
  then obtain n into where at: "k = read_kind into" "q = At_readinto n into" "reads_as (ac_op t) n into"
    "win_received (ap_backend (fst s)) = ac_received t"
    using assms(3) by (cases q) (auto simp: call_ok_at_def pc_exact_def)
  obtain s0 where s0: "windows_resume q w (ap_backend (fst s)) = (s0, ap_backend (fst s'))"
    "r = tag k s0 \<or> (\<exists>v. s0 = Inr (Done v) \<and> v \<in> {V_bytes [], V_into []})"
    using resumed_turn [OF turn(2)] by metis
  with at(2) have run: "readinto_turn n into w (ap_backend (fst s)) = (s0, ap_backend (fst s'))" by simp
  from readinto_turn_run [OF run] have "s0 \<noteq> Inr (Done (V_bytes []))" "s0 \<noteq> Inr (Done (V_into []))"
    by (auto simp: wrap_read_def split: if_splits)
  with s0 turn(1) at run that show thesis by auto
qed

subsection \<open>A concrete run, on Trio\<close>

lemma demo_opened:
  "\<exists>s. windows_open ''COM3'' default_config (windows_init (demo_win rt None) []) = (Inr (), s)
     \<and> win_good {#} s \<and> wb_open s \<and> wb_runtime s = Some rt \<and> wb_wrapper s = (if rt = Trio then None else Some 7)
     \<and> win_sent s = [] \<and> win_received s = []"
  by (cases rt) (simp_all add: demo_win_defs Let_def win_good_def win_sent_def win_received_def open_handles_def)

definition demo_state :: "runtime \<Rightarrow> windows_backend" where
  "demo_state rt = snd (windows_open ''COM3'' default_config (windows_init (demo_win rt None) []))"

definition demo_async :: "runtime \<Rightarrow> windows_backend async_port" where
  "demo_async rt = new_async_port (demo_state rt) default_config"

lemma demo_state_facts:
  "win_good {#} (demo_state rt)" "wb_open (demo_state rt)" "wb_runtime (demo_state rt) = Some rt"
  "wb_wrapper (demo_state rt) = (if rt = Trio then None else Some 7)"
  "win_sent (demo_state rt) = []" "win_received (demo_state rt) = []"
  using demo_opened [of rt] by (auto simp: demo_state_def)

lemma demo_async_fields [simp]:
  "ap_backend (demo_async rt) = demo_state rt" "\<not> ap_closed (demo_async rt)" "\<not> ap_send_busy (demo_async rt)"
  "\<not> ap_receive_busy (demo_async rt)" "\<not> ap_close_locked (demo_async rt)" "ap_config (demo_async rt) = default_config"
  by (simp_all add: demo_async_def new_async_port_def)

lemma demo_async_reachable: "windows_reachable {#} (demo_async rt, [])"
  unfolding demo_async_def by (rule async_reachable.opened) (simp_all add: demo_state_facts)

definition demo_acall :: "op \<Rightarrow> kind \<Rightarrow> wpc \<Rightarrow> wpc acall" where
  "demo_acall op k q = \<lparr>ac_op = op, ac_pc = Inside k q, ac_sent = [], ac_received = []\<rparr>"

lemma demo_async_parked:
  assumes "async_start windows_ab op (demo_async rt) = (Inr (Awaits (Inside k q)), p)"
  shows "windows_reachable {#} (p, [demo_acall op k q])"
  using async_reachable.step [OF demo_async_reachable async_step.call [OF assms]]
  by (simp add: demo_acall_def demo_state_facts)

lemma demo_async_woken:
  assumes "async_resume windows_ab k q w p = (r, p')"
  shows "windows_port_step {#} (p, [demo_acall op k q]) (A_woken (demo_acall op k q) w r) (p', stays (demo_acall op k q) r)"
  using async_step.woken [of "demo_acall op k q" k q windows_ab w p r p' win_sent win_received
      "rests windows_ab win_sent win_received (win_good {#})" "[]" "[]"] assms
  by (simp add: demo_acall_def)

lemmas demo_async_defs = enter_def delegate_def run_section_def finishing_def on_async_def async_raise_if_closed_def
  io_ctl_defs windows_send_def windows_receive_def win_raise_if_closed_def write_loop_def readinto_loop_def win_issue_def
  win_translating_def async_resume_def write_turn_def write_result_def readinto_turn_def readinto_result_def
  note_event_def demo_state_facts

definition task_cancelled :: exn where
  "task_cancelled = exn_msg CancelledError"

lemma task_cancelled_simps [simp]: "\<not> isinstance task_cancelled OSError"
  by (simp add: task_cancelled_def exn_msg_def isinstance_simps)

lemma demo_async_send:
  "\<exists>p. async_start windows_ab (Op_send [1, 2, 3]) (demo_async Trio) = (Inr (Awaits (Inside K_send (At_write [1, 2, 3] 0))), p)
     \<and> (\<exists>p'. async_resume windows_ab K_send (At_write [1, 2, 3] 0) (Woke_written 3) p = (Inr (Done V_unit), p'))
     \<and> (\<exists>p'. async_resume windows_ab K_send (At_write [1, 2, 3] 0) (Woke_throw task_cancelled (Bytes_out 2)) p = (Inl task_cancelled, p'))"
  by (simp add: demo_async_defs Let_def)

lemma demo_async_receive:
  "\<exists>p. async_start windows_ab (Op_receive 5) (demo_async Trio) = (Inr (Awaits (Inside K_receive (At_readinto 5 False))), p)
     \<and> (\<exists>p'. async_resume windows_ab K_receive (At_readinto 5 False) (Woke_read [7, 8]) p = (Inr (Done (V_bytes [7, 8])), p'))
     \<and> (\<exists>p'. async_resume windows_ab K_receive (At_readinto 5 False) (Woke_read []) p
          = (Inr (Awaits (Inside K_receive (At_readinto 5 False))), p'))
     \<and> (\<exists>p'. async_resume windows_ab K_receive (At_readinto 5 False) (Woke_throw task_cancelled (Bytes_in [9])) p = (Inl task_cancelled, p'))"
  by (simp add: demo_async_defs Let_def)

subsection \<open>Transfers\<close>

text \<open>C8: A \<open>send\<close> on a Windows port is exact under any interleaving of the port's calls, at each of its
  completions. What the driver has taken is the part the send had got to and what this operation
  moved, in order and once. The send returns exactly when that is all of its data; it waits with the
  rest of it, a proper part; and it raises with a proper prefix taken if the operation had reported its
  count. If the operation failed or was cancelled, the send raises just that (an \<open>OSError\<close> translated),
  and what the operation had moved before it ended counts too: it may have been all of the data, and
  the exception does not tell.\<close>

theorem windows_send_exact:
  assumes "windows_reachable base s" and "windows_port_step base s (A_woken t w r) s'" and "ac_op t = Op_send d"
  shows "\<exists>j k. ac_pc t = Inside K_send (At_write d j) \<and> j < length d \<and> k = j + transferred w (length d - j)
    \<and> k \<le> length d \<and> win_sent (ap_backend (fst s')) = ac_sent t @ take k d
    \<and> (case r of
        Inr (Done v) \<Rightarrow> v = V_unit \<and> win_sent (ap_backend (fst s')) = ac_sent t @ d
      | Inr (Awaits pc) \<Rightarrow> pc = Inside K_send (At_write d k) \<and> k < length d
      | Inl e \<Rightarrow> (case w of Woke_throw e' x \<Rightarrow> e = transfer_error (ap_backend (fst s)) e' | _ \<Rightarrow> k < length d))
    \<and> (\<forall>e x. w = Woke_throw e x \<longrightarrow> isl r)"
proof -
  obtain j s0 where at: "ac_pc t = Inside K_send (At_write d j)" "j < length d"
    "win_sent (ap_backend (fst s)) = ac_sent t @ take j d"
    "write_turn d j w (ap_backend (fst s)) = (s0, ap_backend (fst s'))" "r = tag K_send s0"
    by (rule windows_send_turn [OF assms])
  let ?k = "j + transferred w (length d - j)"
  note run = write_turn_run [OF at(4,2)]
  have "?k \<le> length d" using transferred_le [of w "length d - j"] at(2) by simp
  moreover have "win_sent (ap_backend (fst s')) = ac_sent t @ take ?k d" using run at(3) by (simp add: take_add)
  moreover have "case r of Inr (Done v) \<Rightarrow> v = V_unit \<and> ?k = length d
      | Inr (Awaits pc) \<Rightarrow> pc = Inside K_send (At_write d ?k) \<and> ?k < length d
      | Inl e \<Rightarrow> (case w of Woke_throw e' x \<Rightarrow> e = transfer_error (ap_backend (fst s)) e' | _ \<Rightarrow> ?k < length d)"
    using run at(5) by (cases w) (auto split: sum.splits suspended.splits)
  moreover have "\<forall>e x. w = Woke_throw e x \<longrightarrow> isl r" using run at(5) by auto
  ultimately show ?thesis using at(1,2) by (auto split: sum.splits suspended.splits)
qed

text \<open>A send that returns, and one cancelled after the driver had taken two of its three bytes.\<close>

lemma windows_send_exact_witness:
  "\<exists>p p' p'' :: windows_backend async_port. windows_reachable {#} (p, [demo_acall (Op_send [1, 2, 3]) K_send (At_write [1, 2, 3] 0)])
     \<and> async_resume windows_ab K_send (At_write [1, 2, 3] 0) (Woke_written 3) p = (Inr (Done V_unit), p')
     \<and> win_sent (ap_backend p') = [1, 2, 3]
     \<and> async_resume windows_ab K_send (At_write [1, 2, 3] 0) (Woke_throw task_cancelled (Bytes_out 2)) p = (Inl task_cancelled, p'')
     \<and> win_sent (ap_backend p'') = [1, 2]"
proof -
  obtain p p' p'' where run: "async_start windows_ab (Op_send [1, 2, 3]) (demo_async Trio)
      = (Inr (Awaits (Inside K_send (At_write [1, 2, 3] 0))), p)"
    "async_resume windows_ab K_send (At_write [1, 2, 3] 0) (Woke_written 3) p = (Inr (Done V_unit), p')"
    "async_resume windows_ab K_send (At_write [1, 2, 3] 0) (Woke_throw task_cancelled (Bytes_out 2)) p = (Inl task_cancelled, p'')"
    using demo_async_send by blast
  note * = demo_async_parked [OF run(1)]
  from windows_send_exact [OF * demo_async_woken [OF run(2), of "Op_send [1, 2, 3]"], of "[1, 2, 3]"]
    windows_send_exact [OF * demo_async_woken [OF run(3), of "Op_send [1, 2, 3]"], of "[1, 2, 3]"]
  have "win_sent (ap_backend p') = [1, 2, 3]" "win_sent (ap_backend p'') = [1, 2]"
    by (auto simp: demo_acall_def)
  with * run show ?thesis by blast
qed

text \<open>C9: A read on a Windows port returns exactly what the completion of its overlapped read
  transferred, within the requested size and not empty. An empty completion (an idle line under the
  wait-for-any timeouts, which Trio raises as \<open>ERROR_TIMEOUT\<close>) is never reported, neither as data nor as
  an end of file nor as an error: as long as a new read can be issued the call waits again at the same
  point, with nothing delivered. A failed or cancelled read raises just that and has delivered
  nothing; what it had taken from the driver before it ended, if anything, is lost, and nothing else
  ever is.\<close>

theorem windows_receive_exact:
  assumes "windows_reachable base s" and "windows_port_step base s (A_woken t w r) s'" and "a_read (ac_op t)"
  shows "\<exists>n into. ac_pc t = Inside (read_kind into) (At_readinto n into)
    \<and> (case r of
        Inr (Done v) \<Rightarrow> delivered w n \<noteq> [] \<and> async_reply (ac_op t) (ap_config (fst s')) (delivered w n) v
          \<and> win_received (ap_backend (fst s')) = ac_received t @ delivered w n
      | Inr (Awaits pc) \<Rightarrow> idle (wb_runtime (ap_backend (fst s))) w n \<and> pc = ac_pc t
          \<and> win_received (ap_backend (fst s')) = ac_received t
      | Inl e \<Rightarrow> delivered w n = [] \<and> win_received (ap_backend (fst s')) = ac_received t
          \<and> (if idle (wb_runtime (ap_backend (fst s))) w n then \<not> can_issue (ap_backend (fst s))
             else \<exists>e' x. w = Woke_throw e' x \<and> e = transfer_error (ap_backend (fst s)) e'))
    \<and> win_lost (ap_backend (fst s')) = win_lost (ap_backend (fst s)) @ lost w n"
proof -
  obtain n into s0 where at: "ac_pc t = Inside (read_kind into) (At_readinto n into)" "reads_as (ac_op t) n into"
    "readinto_turn n into w (ap_backend (fst s)) = (s0, ap_backend (fst s'))" "r = tag (read_kind into) s0"
    "win_received (ap_backend (fst s)) = ac_received t"
    by (rule windows_read_turn [OF assms])
  note run = readinto_turn_run [OF at(3)]
  have "length (delivered w n) \<le> n" by (cases w) simp_all
  with reads_reply [OF at(2)] have reply: "delivered w n \<noteq> [] \<Longrightarrow>
      async_reply (ac_op t) (ap_config (fst s')) (delivered w n) (wrap_read into (delivered w n))" by simp
  show ?thesis
  proof (cases "delivered w n = []")
    case False
    then have "s0 = Inr (Done (wrap_read into (delivered w n)))" using run by simp
    with run at reply False show ?thesis by auto
  next
    case True
    with run at show ?thesis
      by (cases "idle (wb_runtime (ap_backend (fst s))) w n") (auto simp del: idle.simps)
  qed
qed

text \<open>A read that returns; one whose timeout is reissued; one cancelled with a byte already taken.\<close>

lemma windows_receive_exact_witness:
  "\<exists>p p' p'' p3 :: windows_backend async_port. windows_reachable {#} (p, [demo_acall (Op_receive 5) K_receive (At_readinto 5 False)])
     \<and> async_resume windows_ab K_receive (At_readinto 5 False) (Woke_read [7, 8]) p = (Inr (Done (V_bytes [7, 8])), p')
     \<and> win_received (ap_backend p') = [7, 8]
     \<and> async_resume windows_ab K_receive (At_readinto 5 False) (Woke_read []) p
        = (Inr (Awaits (Inside K_receive (At_readinto 5 False))), p'')
     \<and> win_received (ap_backend p'') = []
     \<and> async_resume windows_ab K_receive (At_readinto 5 False) (Woke_throw task_cancelled (Bytes_in [9])) p = (Inl task_cancelled, p3)
     \<and> win_lost (ap_backend p3) = win_lost (ap_backend p) @ [9]"
proof -
  obtain p p' p'' p3 where run: "async_start windows_ab (Op_receive 5) (demo_async Trio)
      = (Inr (Awaits (Inside K_receive (At_readinto 5 False))), p)"
    "async_resume windows_ab K_receive (At_readinto 5 False) (Woke_read [7, 8]) p = (Inr (Done (V_bytes [7, 8])), p')"
    "async_resume windows_ab K_receive (At_readinto 5 False) (Woke_read []) p
        = (Inr (Awaits (Inside K_receive (At_readinto 5 False))), p'')"
    "async_resume windows_ab K_receive (At_readinto 5 False) (Woke_throw task_cancelled (Bytes_in [9])) p = (Inl task_cancelled, p3)"
    using demo_async_receive by blast
  note * = demo_async_parked [OF run(1)]
  from windows_receive_exact [OF * demo_async_woken [OF run(2), of "Op_receive 5"]]
    windows_receive_exact [OF * demo_async_woken [OF run(3), of "Op_receive 5"]]
    windows_receive_exact [OF * demo_async_woken [OF run(4), of "Op_receive 5"]]
  have "win_received (ap_backend p') = [7, 8]" "win_received (ap_backend p'') = []"
    "win_lost (ap_backend p3) = win_lost (ap_backend p) @ [9]"
    by (auto simp: demo_acall_def)
  with * run show ?thesis by blast
qed

text \<open>Over any asynchronous backend at most one call is inside a read, one inside a write, drain or
  break, one inside the close and one inside a reconfiguration; while one reads, another read raises
  \<open>BusyResourceError\<close> and reaches neither port nor backend, and likewise for writes, so an overlapped
  transfer is never issued on top of another of the same direction.\<close>

theorem async_guards_exclusive:
  assumes "async_reachable ab sent received (rests ab sent received good) good (p, ts)" and "h \<noteq> H_none"
  shows "count_hold h ts \<le> 1
   \<and> (0 < count_hold H_receive ts \<and> 0 < n \<longrightarrow> async_start ab (Op_receive n) p = (Inl (exn_msg BusyResourceError), p))
   \<and> (0 < count_hold H_send ts \<and> d \<noteq> [] \<longrightarrow> async_start ab (Op_send d) p = (Inl (exn_msg BusyResourceError), p))"
proof -
  from async_guards_reachable [OF assms(1)] have "count_hold h ts = of_bool (held h p)"
    "count_hold H_receive ts = of_bool (ap_receive_busy p)" "count_hold H_send ts = of_bool (ap_send_busy p)"
    using assms(2) by (auto simp: holds_ok_def)
  then show ?thesis by (auto simp: enter_def io_ctl_defs)
qed

lemma async_guards_exclusive_witness:
  "\<exists>p :: windows_backend async_port. windows_reachable {#} (p, [demo_acall (Op_receive 5) K_receive (At_readinto 5 False)])
     \<and> async_start windows_ab (Op_receive 1) p = (Inl (exn_msg BusyResourceError), p)"
proof -
  obtain p where "async_start windows_ab (Op_receive 5) (demo_async Trio)
      = (Inr (Awaits (Inside K_receive (At_readinto 5 False))), p)"
    using demo_async_receive by blast
  note * = demo_async_parked [OF this]
  from async_guards_exclusive [OF *, of H_receive 1] have "async_start windows_ab (Op_receive 1) p = (Inl (exn_msg BusyResourceError), p)"
    by (simp add: demo_acall_def)
  with * show ?thesis by blast
qed

subsection \<open>Closing\<close>

text \<open>C11: In every reachable state a Windows port is marked closed exactly when its backend is, and
  beside the handles that were open before it was opened exactly its own is open, while it is open:
  closing gives the handle back once, whatever \<open>SetCommMask\<close>, \<open>PurgeComm\<close> and \<open>CloseHandle\<close> answer, and
  no step reopens it.\<close>

theorem windows_port_lifecycle:
  assumes "windows_reachable base (p, ts)"
  shows "(ap_closed p \<longleftrightarrow> \<not> wb_open (ap_backend p))
    \<and> open_handles (ws_log (ap_backend p)) = base + (if ap_closed p then {#} else {#wb_handle (ap_backend p)#})
    \<and> (windows_port_step base (p, ts) l (p', ts') \<and> ap_closed p \<longrightarrow>
        ap_closed p' \<and> open_handles (ws_log (ap_backend p')) = base)"
proof -
  have ok: "async_lifecycle windows_ab (win_good base) p" using windows.reachable_invariants [OF assms] by simp
  have "ap_closed p' \<and> open_handles (ws_log (ap_backend p')) = base"
    if "windows_port_step base (p, ts) l (p', ts')" "ap_closed p"
    using windows.lifecycle_step_async [OF that(1)] ok that(2) by (auto simp: rests_def async_lifecycle_def win_good_def)
  with ok show ?thesis by (auto simp: async_lifecycle_def win_good_def)
qed

lemma windows_port_lifecycle_witness:
  "\<not> ap_closed (demo_async Trio)
     \<and> open_handles (ws_log (ap_backend (demo_async Trio))) = {#wb_handle (ap_backend (demo_async Trio))#}"
  using windows_port_lifecycle [OF demo_async_reachable, of Trio] by simp

text \<open>What a parked read does when the port is closed between its completion and its resumption.\<close>

lemma close_run:
  assumes "\<not> ap_closed p" "\<not> ap_close_locked p" "wb_open (ap_backend p)" "we_is_windows (ws_env (ap_backend p))"
  obtains p' where "enter K_close (async_close_body windows_ab) p = (Inr (Done V_unit), p')" "ap_closed p'"
    "wb_handle (ap_backend p') = 0" "wb_wrapper (ap_backend p') = None" "wb_runtime (ap_backend p') = wb_runtime (ap_backend p)"
proof -
  have "wp windows_aclose (\<lambda>_ s'. wb_handle s' = 0 \<and> wb_wrapper s' = None \<and> wb_runtime s' = wb_runtime (ap_backend p))
      (\<lambda>_ _. False) (ap_backend p)"
    using assms(3,4)
    by (auto simp: windows_aclose_def suppress_oserror_def ignore_def wp_simps Let_def run_errcheck_def split: sum.splits)
  then obtain s' where "windows_aclose (ap_backend p) = (Inr (), s')" "wb_handle s' = 0" "wb_wrapper s' = None"
    "wb_runtime s' = wb_runtime (ap_backend p)"
    by (auto simp: wp_def split: prod.splits sum.splits)
  with assms(1,2) that show thesis
    by (simp add: enter_def run_section_def async_close_body_def on_async_def done_with_def io_ctl_defs)
qed

text \<open>C24: A read whose empty completion (the 1 ms timeout of an idle line) is delivered after the port
  was closed does not end with \<open>SerialClosedError\<close>: on asyncio the reissue trips over the cleared
  wrapper and \<open>receive\<close> raises a bare \<open>AssertionError\<close>, on Trio it issues a read on the null handle.\<close>

theorem windows_read_after_close:
  assumes "\<not> ap_closed p" and "\<not> ap_close_locked p" and "wb_open (ap_backend p)"
    and "we_is_windows (ws_env (ap_backend p))" and "wb_runtime (ap_backend p) = Some rt"
  shows "\<exists>p1. enter K_close (async_close_body windows_ab) p = (Inr (Done V_unit), p1) \<and> ap_closed p1
    \<and> (let r = fst (async_resume windows_ab K_receive (At_readinto n False) (Woke_read []) p1) in
        if rt = Asyncio then r = Inl (exn_msg AssertionError)
        else r = Inr (Awaits (Inside K_receive (At_readinto n False))) \<and> wb_handle (ap_backend p1) = 0)"
proof -
  obtain p1 where p1: "enter K_close (async_close_body windows_ab) p = (Inr (Done V_unit), p1)" "ap_closed p1"
    "wb_handle (ap_backend p1) = 0" "wb_wrapper (ap_backend p1) = None" "wb_runtime (ap_backend p1) = Some rt"
    using close_run [OF assms(1-4)] assms(5) by metis
  have "\<not> isinstance (exn_msg AssertionError) OSError" by (simp add: exn_msg_def isinstance_simps)
  with p1(3-5) have "let r = fst (async_resume windows_ab K_receive (At_readinto n False) (Woke_read []) p1) in
      if rt = Asyncio then r = Inl (exn_msg AssertionError)
      else r = Inr (Awaits (Inside K_receive (At_readinto n False))) \<and> wb_handle (ap_backend p1) = 0"
    by (cases rt) (simp_all add: async_resume_def run_section_def finishing_def on_async_def readinto_turn_def
        readinto_result_def readinto_loop_def win_issue_def win_translating_def note_event_def io_ctl_defs Let_def)
  with p1(1,2) show ?thesis by blast
qed

lemma demo_is_windows: "we_is_windows (ws_env (demo_state rt))"
  using demo_state_facts(1,2) [of rt] by (simp add: win_good_def)

lemma windows_read_after_close_witness:
  "\<exists>p1. enter K_close (async_close_body windows_ab) (demo_async Asyncio) = (Inr (Done V_unit), p1) \<and> ap_closed p1
     \<and> fst (async_resume windows_ab K_receive (At_readinto 5 False) (Woke_read []) p1) = Inl (exn_msg AssertionError)"
  using windows_read_after_close [of "demo_async Asyncio" Asyncio 5] by (simp add: demo_state_facts demo_is_windows Let_def)

subsection \<open>Progress\<close>

text \<open>Resuming a send once for each count of bytes the runtime reports.\<close>

fun drive_send :: "nat list \<Rightarrow> (exn + (outcome, wpc) suspended) \<times> 'k windows_backend_scheme \<Rightarrow>
    (exn + (outcome, wpc) suspended) \<times> 'k windows_backend_scheme" where
  "drive_send (n # ns) (Inr (Awaits q), s) = drive_send ns (windows_resume q (Woke_written n) s)"
| "drive_send _ x = x"

lemma drive_stops: "drive_send ns (Inr (Done v), s) = (Inr (Done v), s)"
  by (cases ns) simp_all

lemma drive_write:
  assumes "can_issue s" "j < length d" "list_all (\<lambda>n. 0 < n) ns" "length d - j \<le> length ns"
  shows "\<exists>s'. drive_send ns (Inr (Awaits (At_write d j)), s) = (Inr (Done V_unit), s')
    \<and> win_sent s' = win_sent s @ drop j d"
  using assms
proof (induction ns arbitrary: j s)
  case (Cons n ns)
  let ?m = "min (length d - j) n"
  let ?s1 = "s\<lparr>ws_log := ws_log s @ [W_written (drop j d) ?m]\<rparr>"
  have "0 < ?m" using Cons.prems by simp
  have issue: "can_issue ?s1" using Cons.prems(1) by (simp add: can_issue_def)
  have sent: "win_sent ?s1 = win_sent s @ take ?m (drop j d)" by (simp add: win_byte_defs)
  have "win_translating ''io'' (write_result (drop j d) (Woke_written n)) s = (Inr ?m, ?s1)"
    by (simp add: write_result_def win_translating_run io_ctl_defs)
  from write_turn_bind [OF this] \<open>0 < ?m\<close>
  have turn: "write_turn d j (Woke_written n) s = write_loop d (j + ?m) ?s1" by simp
  show ?case
  proof (cases "j + ?m < length d")
    case True
    then obtain s2 where s2: "write_loop d (j + ?m) ?s1 = (Inr (Awaits (At_write d (j + ?m))), s2)" "win_still ?s1 s2" "can_issue s2"
      using issuing_loops(2) [OF issue] by blast
    have "length d - (j + ?m) \<le> length ns" using Cons.prems(4) \<open>0 < ?m\<close> by (simp only: list.size(4))
    with Cons.IH [OF s2(3) True] Cons.prems(3) obtain s' where
      "drive_send ns (Inr (Awaits (At_write d (j + ?m))), s2) = (Inr (Done V_unit), s')"
      "win_sent s' = win_sent s2 @ drop (j + ?m) d" by auto
    moreover have "win_sent s2 = win_sent s @ take ?m (drop j d)" using still_same [OF s2(2)] sent by simp
    moreover have "take ?m (drop j d) @ drop (j + ?m) d = drop j d"
      by (metis add.commute append_take_drop_id drop_drop)
    ultimately show ?thesis using turn s2(1) by simp
  next
    case False
    then have "take ?m (drop j d) = drop j d" by simp
    moreover have "write_loop d (j + ?m) ?s1 = (Inr (Done V_unit), ?s1)"
      unfolding write_loop_def using False by (simp only: if_False io_return_def)
    with turn have "write_turn d j (Woke_written n) s = (Inr (Done V_unit), ?s1)" by simp
    ultimately show ?thesis using sent by (simp add: drive_stops)
  qed
qed simp

text \<open>C26: A send on an open Windows port returns, on Trio and on asyncio: if the runtime can issue its
  writes (Trio always can; on asyncio the wrapper is there and no overlapped write is refused at once)
  and each completion reports at least one byte, as many completions as there are bytes are enough, and
  all of the data has been transferred, once and in order.\<close>

theorem windows_send_returns:
  assumes "wb_open s" and "can_issue s" and "list_all (\<lambda>n. 0 < n) ns" and "length d \<le> length ns"
  shows "\<exists>s'. drive_send ns (windows_send d s) = (Inr (Done V_unit), s') \<and> win_sent s' = win_sent s @ d"
proof (cases "d = []")
  case True
  with assms(1) show ?thesis
    by (simp add: windows_send_def win_raise_if_closed_def write_loop_def io_ctl_defs drive_stops)
next
  case False
  then obtain s1 where s1: "write_loop d 0 s = (Inr (Awaits (At_write d 0)), s1)" "win_still s s1" "can_issue s1"
    using issuing_loops(2) [OF assms(2), of 0 d] by auto
  then have "windows_send d s = (Inr (Awaits (At_write d 0)), s1)"
    using assms(1) by (simp add: windows_send_def win_raise_if_closed_def io_ctl_defs)
  with drive_write [OF s1(3) _ assms(3), of 0 d] False assms(4) still_same [OF s1(2)] show ?thesis by simp
qed

lemma demo_can_issue: "can_issue (demo_state rt)"
  using demo_opened [of rt] demo_state_facts [of rt]
  by (cases rt) (auto simp: can_issue_def demo_state_def demo_win_defs Let_def)

lemma windows_send_returns_witness:
  "\<exists>s' s''. drive_send [2, 9, 1] (windows_send [1, 2, 3] (demo_state Trio)) = (Inr (Done V_unit), s') \<and> win_sent s' = [1, 2, 3]
    \<and> drive_send [1, 1, 1] (windows_send [1, 2, 3] (demo_state Asyncio)) = (Inr (Done V_unit), s'') \<and> win_sent s'' = [1, 2, 3]"
  using windows_send_returns [OF demo_state_facts(2) demo_can_issue [of Trio], of "[2, 9, 1]" "[1, 2, 3]"]
    windows_send_returns [OF demo_state_facts(2) demo_can_issue [of Asyncio], of "[1, 1, 1]" "[1, 2, 3]"]
  by (simp add: demo_state_facts)

subsection \<open>Waiting for modem events\<close>

text \<open>The event object a parked wait owns.\<close>

fun owned_event :: "exn + ('v, epc) suspended \<Rightarrow> int multiset" where
  "owned_event (Inr (Awaits (At_event h ev))) = {#ev#}"
| "owned_event (Inr (Awaits At_overlapped)) = {#}"
| "owned_event (Inr (Done v)) = {#}"
| "owned_event (Inl e) = {#}"

definition event_wp :: "('k windows_backend_scheme, exn, ('v, epc) suspended) io \<Rightarrow> 'k windows_backend_scheme \<Rightarrow> bool" where
  "event_wp m s \<longleftrightarrow> wp m
     (\<lambda>x s'. open_handles (ws_log s') = open_handles (ws_log s) + owned_event (Inr x) \<and> wb_abandoned s' = wb_abandoned s)
     (\<lambda>_ s'. open_handles (ws_log s') = open_handles (ws_log s) \<and> wb_abandoned s' = wb_abandoned s) s"

lemma release_event_wp:
  "wp (release_event released ev)
     (\<lambda>_ s'. if released then open_handles (ws_log s') = open_handles (ws_log s) - {#ev#} \<and> wb_abandoned s' = wb_abandoned s
        else open_handles (ws_log s') = open_handles (ws_log s) \<and> wb_abandoned s' = wb_abandoned s @ [ev])
     (\<lambda>_ _. False) s"
  by (auto simp: release_event_def suppress_oserror_def ignore_def wp_simps Let_def run_errcheck_def split: sum.splits)

lemma issue_wp:
  "wp (asyncio_wait_issue h ev)
     (\<lambda>x s'. open_handles (ws_log s') = open_handles (ws_log s) - {#ev#} + owned_event (Inr x) \<and> wb_abandoned s' = wb_abandoned s
        \<or> open_handles (ws_log s') = open_handles (ws_log s) \<and> owned_event (Inr x) = {#ev#} \<and> wb_abandoned s' = wb_abandoned s)
     (\<lambda>_ s'. open_handles (ws_log s') = open_handles (ws_log s) \<and> wb_abandoned s' = wb_abandoned s) s"
  by (auto simp: asyncio_wait_issue_def unless_pending_def release_event_def suppress_oserror_def ignore_def wp_simps Let_def
      run_errcheck_def open_handles_append split: sum.splits)

lemma asyncio_start_wp: "event_wp (asyncio_wait_start h) s"
proof -
  have issue: "wp (io_on_error (asyncio_wait_issue h ev) (release_event True ev))
     (\<lambda>x s'. open_handles (ws_log s') = hs + owned_event (Inr x) \<and> wb_abandoned s' = ab)
     (\<lambda>_ s'. open_handles (ws_log s') = hs \<and> wb_abandoned s' = ab) s1"
    if "open_handles (ws_log s1) = add_mset ev hs" "wb_abandoned s1 = ab"
    for ev hs ab and s1 :: "'a windows_backend_scheme"
    unfolding wp_on_error
  proof (rule wp_mono [OF issue_wp], goal_cases)
    case (1 x s')
    with that show ?case by auto
  next
    case (2 e s')
    show ?case by (rule wp_mono [OF release_event_wp]) (use 2 that in auto)
  qed
  show ?thesis
    unfolding event_wp_def asyncio_wait_start_def Let_def
    by (auto simp: wp_simps Let_def run_errcheck_def simp del: wp_on_error intro!: issue split: sum.split)
qed

lemma trio_start_wp: "event_wp (trio_wait_start h) s"
  by (auto simp: event_wp_def trio_wait_start_def unless_pending_def wp_simps Let_def run_errcheck_def split: sum.split)

lemma event_result_wp:
  assumes "event_wp m s"
  shows "event_wp (event_result m) s"
proof -
  have "owned_event (Inr (case x of Done b \<Rightarrow> Done (comm_event_of b) | Awaits q \<Rightarrow> Awaits q)) = owned_event (Inr x)" for x
    by (cases "Inr x :: exn + (int, epc) suspended" rule: owned_event.cases) auto
  then show ?thesis
    unfolding event_wp_def event_result_def win_translating_def wp_bind wp_try wp_get wp_return
    by (intro wp_mono [OF assms [unfolded event_wp_def]]) (auto simp: wp_simps)
qed

lemma wait_start_wp: "event_wp windows_wait_modem_event s"
proof (cases "wb_open s")
  case True
  have "event_wp wait_dispatch s"
    using trio_start_wp [of "wb_handle s" s] asyncio_start_wp [of "wb_handle s" s] by (simp add: event_wp_def wait_dispatch_def wp_simps)
  with event_result_wp [OF this] True show ?thesis
    by (simp add: event_wp_def windows_wait_modem_event_def win_raise_if_closed_def wp_simps)
next
  case False
  then show ?thesis by (simp add: event_wp_def windows_wait_modem_event_def win_raise_if_closed_def wp_simps)
qed

text \<open>
  The end of a wait. Signalled: the event is closed. Otherwise the kernel operation is cancelled and
  waited for; the event is closed if it ended within the time, and kept if it did not.
\<close>

definition event_ends :: "int \<Rightarrow> int \<Rightarrow> ewake \<Rightarrow> 'k windows_backend_scheme \<Rightarrow> 'k windows_backend_scheme \<Rightarrow> bool" where
  "event_ends h ev w s s' \<longleftrightarrow>
     (case w of
        Signalled bits \<Rightarrow> \<exists>c. ws_log s' = ws_log s @ [W_call (CloseHandle ev) c] \<and> wb_abandoned s' = wb_abandoned s
      | Event_throw e \<Rightarrow> \<exists>x a.
          if an_result a = 0
          then \<exists>c. ws_log s' = ws_log s @ [W_call (CancelIoEx h) x, W_call (WaitForSingleObject ev 1000) a, W_call (CloseHandle ev) c]
            \<and> wb_abandoned s' = wb_abandoned s
          else ws_log s' = ws_log s @ [W_call (CancelIoEx h) x, W_call (WaitForSingleObject ev 1000) a]
            \<and> wb_abandoned s' = wb_abandoned s @ [ev])"

lemma wait_cancel_wp:
  "wp (asyncio_wait_cancel h ev e) (\<lambda>_ _. False) (\<lambda>e' s'. e' = e \<and> event_ends h ev (Event_throw e) s s') s"
  by (auto simp: asyncio_wait_cancel_def release_event_def suppress_oserror_def ignore_def wp_simps Let_def run_errcheck_def
      WAIT_OBJECT_0_def CANCEL_WAIT_MS_def event_ends_def split: sum.splits)

lemma wait_signal_wp:
  "wp (wait_resume (At_event h ev) (Signalled bits)) (\<lambda>x s'. x = Done bits \<and> event_ends h ev (Signalled bits) s s') (\<lambda>_ _. False) s"
  by (auto simp: release_event_def suppress_oserror_def ignore_def wp_simps Let_def run_errcheck_def event_ends_def
      split: sum.splits)

text \<open>C25: On asyncio a wait for a modem event owns one event object from its start to its end, and
  nothing when it does not park. When it is signalled, the object is closed, once. When it fails or is
  cancelled, the kernel operation is cancelled first and waited for, up to a second: if it has ended by
  then (the wait answers \<open>WAIT_OBJECT_0\<close>), and only then, the object is closed, once; otherwise it is not
  closed but kept in \<open>_abandoned_waits\<close>, so the kernel never signals a closed event. The result is the
  decoded mask, or the exception translated as an ioctl error.\<close>

theorem wait_modem_event_releases:
  "(case windows_wait_modem_event s of (r, s') \<Rightarrow>
      open_handles (ws_log s') = open_handles (ws_log s) + owned_event r \<and> wb_abandoned s' = wb_abandoned s)
   \<and> (case windows_wait_resume (At_event h ev) w s of (r, s') \<Rightarrow>
      event_ends h ev w s s'
      \<and> open_handles (ws_log s') =
          (if wb_abandoned s' = wb_abandoned s then open_handles (ws_log s) - {#ev#} else open_handles (ws_log s))
      \<and> r = (case w of Signalled bits \<Rightarrow> Inr (Done (comm_event_of bits))
             | Event_throw e \<Rightarrow> Inl (if isinstance e OSError then winerror_to_exception e ''ioctl'' (Some (wb_path s)) else e)))"
proof
  show "case windows_wait_modem_event s of (r, s') \<Rightarrow>
      open_handles (ws_log s') = open_handles (ws_log s) + owned_event r \<and> wb_abandoned s' = wb_abandoned s"
    using wait_start_wp [of s] by (auto simp: event_wp_def wp_def split: prod.splits sum.splits)
next
  have freed: "open_handles (ws_log s') =
      (if wb_abandoned s' = wb_abandoned s then open_handles (ws_log s) - {#ev#} else open_handles (ws_log s))"
    if "event_ends h ev w s s'" for s'
    using that by (auto simp: event_ends_def open_handles_append split: ewake.splits if_splits)
  show "case windows_wait_resume (At_event h ev) w s of (r, s') \<Rightarrow>
      event_ends h ev w s s'
      \<and> open_handles (ws_log s') =
          (if wb_abandoned s' = wb_abandoned s then open_handles (ws_log s) - {#ev#} else open_handles (ws_log s))
      \<and> r = (case w of Signalled bits \<Rightarrow> Inr (Done (comm_event_of bits))
             | Event_throw e \<Rightarrow> Inl (if isinstance e OSError then winerror_to_exception e ''ioctl'' (Some (wb_path s)) else e))"
  proof (cases w)
    case (Signalled bits)
    obtain s' where "wait_resume (At_event h ev) (Signalled bits) s = (Inr (Done bits), s')" "event_ends h ev (Signalled bits) s s'"
      using wait_signal_wp [of h ev bits s] by (auto simp: wp_def split: prod.splits sum.splits)
    with Signalled freed [of s'] show ?thesis
      by (simp add: windows_wait_resume_def event_result_def win_translating_run io_ctl_defs del: wait_resume.simps)
  next
    case (Event_throw e)
    obtain s' where run: "asyncio_wait_cancel h ev e s = (Inl e, s')" "event_ends h ev (Event_throw e) s s'"
      using wait_cancel_wp [of h ev e s] by (auto simp: wp_def split: prod.splits sum.splits)
    have "wb_path s' = wb_path s"
    proof -
      have "wp (asyncio_wait_cancel h ev e) (\<lambda>_ s'. wb_path s' = wb_path s) (\<lambda>_ s'. wb_path s' = wb_path s) s"
        by (auto simp: asyncio_wait_cancel_def release_event_def suppress_oserror_def ignore_def wp_simps Let_def
            run_errcheck_def split: sum.splits)
      with run(1) show ?thesis by (simp add: wp_def)
    qed
    with Event_throw run freed [of s'] show ?thesis
      by (simp add: windows_wait_resume_def event_result_def win_translating_run io_ctl_defs)
  qed
qed

end
