(* ===== verification/Windows_Open.thy ===== *)
theory Windows_Open
  imports Windows_Claims Windows_Discovery
begin

section \<open>Opening a port on Windows (\<open>open_serial_port\<close> in \<open>stream.py\<close>)\<close>

text \<open>
  The asynchronous branch of \<open>open_serial_port\<close>: the metadata of the path is resolved first, in a worker
  thread whose outcome (a cancellation included) is an argument, then the backend is opened and the
  port built around it. The theorem composes it with the Windows backend, the SetupAPI resolver and
  the system of calls of theory \<open>Async_Port\<close>.
\<close>

definition open_async_port ::
  "('b, 'p, 'w) async_backend \<Rightarrow> (string \<Rightarrow> exn + port_info option) \<Rightarrow> string \<Rightarrow> serial_config option \<Rightarrow>
   ('b, exn, 'b async_port \<times> port_info option) io" where
  "open_async_port ab resolve_info path config =
     (let cfg = (case config of None \<Rightarrow> default_config | Some c \<Rightarrow> c) in
      io_bind (io_lift (resolve_info path)) (\<lambda>port_info.
      io_seq (ab_open ab path cfg)
        (io_get (\<lambda>b. (new_async_port b cfg, port_info)))))"

definition windows_info_resolver :: "setup_api \<Rightarrow> family \<Rightarrow> string \<Rightarrow> exn + port_info option" where
  "windows_info_resolver api f path =
     (if f = WindowsFamily then windows_resolve_port_info api path else Inl (exn_msg RuntimeError))"

definition windows_open_serial_port ::
  "setup_api \<Rightarrow> string \<Rightarrow> serial_config option \<Rightarrow>
   ('k windows_backend_scheme, exn, 'k windows_backend_scheme async_port \<times> port_info option) io" where
  "windows_open_serial_port api =
     open_async_port windows_ab (resolve_port_info_for_path (windows_info_resolver api) ''win32'')"

definition same_env :: "'k win_state_scheme \<Rightarrow> 'k win_state_scheme \<Rightarrow> bool" where
  "same_env s s' \<longleftrightarrow> ws_env s' = ws_env s"

interpretation env: frame "same_env :: 'k win_state_scheme \<Rightarrow> 'k win_state_scheme \<Rightarrow> bool"
  by unfold_locales (auto simp: same_env_def)

lemma env_calls:
  "keeps same_env load_kernel32" "keeps same_env (k32_call c)" "keeps same_env (rt_register h)"
  by (auto simp: keeps_def wp_simps rt_register_def same_env_def Let_def split: sum.split option.split)

lemma env_modify: "(\<And>s. ws_env (f s) = ws_env s) \<Longrightarrow> keeps same_env (io_modify f)"
  by (simp add: keeps_def wp_simps same_env_def)

lemma env_open: "keeps same_env (windows_open path config)"
  unfolding windows_open_def win_create_def win_setup_def win_register_def win_open_raise_def apply_dcb_def on_handle_def
    ignore_def suppress_oserror_def Let_def
  by (intro env.keeps_control env_calls env_modify; simp)+

lemma open_on_windows: "wp (windows_open path config) (\<lambda>_ _. we_is_windows (ws_env s)) (\<lambda>_ _. True) s"
  by (simp add: windows_open_def wp_simps split: sum.split)

lemma info_of_listed:
  assumes "resolve_port_info_for_path (windows_info_resolver api) ''win32'' path = Inr info"
    and "windows_enumerate_ports api = Inr ports"
    and "filter (\<lambda>q. windows_canonical (pi_device q) = windows_canonical path) ports = [p]"
  shows "info = Some p"
proof -
  from arg_cong [OF assms(3), of set] have "p \<in> set ports" "windows_canonical (pi_device p) = windows_canonical path" by auto
  with windows_lookup [of api path] assms(2,3) have "windows_resolve_port_info api path = Inr (Some p)" by auto
  with assms(1) show ?thesis
    by (simp add: resolve_port_info_for_path_def platform_port_info_resolver_def windows_info_resolver_def
        starts_with_def is_bsd_name_def)
qed

text \<open>C35: On Windows \<open>open_serial_port\<close> either returns a port that starts a run of the port system, over a backend
  opened on exactly the given path with the requested settings, one handle more, and the metadata of
  the one listed port that has the path's name; or it raises with the backend closed. A failure of the
  lookup has opened nothing, and a failure of the open is an \<open>OSError\<close> that leaves no handle behind
  unless it is untranslated.\<close>

theorem windows_open_serial_port_outcomes:
  assumes "\<not> wb_open s"
  shows "case windows_open_serial_port api path config s of
      (Inr (port, info), s') \<Rightarrow> ap_backend port = s' \<and> windows_reachable (open_handles (ws_log s)) (port, [])
        \<and> ap_config port = (case config of None \<Rightarrow> default_config | Some c \<Rightarrow> c) \<and> dcb_written (ap_config port) s'
        \<and> wb_path s' = path \<and> open_handles (ws_log s') = open_handles (ws_log s) + {#wb_handle s'#}
        \<and> (\<forall>ports p. windows_enumerate_ports api = Inr ports
             \<and> filter (\<lambda>q. windows_canonical (pi_device q) = windows_canonical path) ports = [p] \<longrightarrow> info = Some p)
    | (Inl e, s') \<Rightarrow> \<not> wb_open s' \<and> (s' = s \<or> isinstance e OSError
        \<and> open_handles (ws_log s') = open_handles (ws_log s) + (if isinstance e SerialError then {#} else {#wb_handle s'#}))"
proof -
  let ?cfg = "case config of None \<Rightarrow> default_config | Some c \<Rightarrow> c"
  let ?found = "resolve_port_info_for_path (windows_info_resolver api) ''win32'' path"
  show ?thesis
  proof (cases ?found)
    case (Inl e)
    with assms show ?thesis by (simp add: windows_open_serial_port_def open_async_port_def Let_def io_ctl_defs)
  next
    case (Inr info)
    obtain r s' where run: "windows_open path ?cfg s = (r, s')" by fastforce
    have "ws_env s' = ws_env s" using keeps_snd [OF env_open, of s path ?cfg] run by (simp add: same_env_def)
    moreover have "r = Inr () \<Longrightarrow> we_is_windows (ws_env s)"
      using open_on_windows [of path ?cfg s] run by (simp add: wp_def)
    ultimately have reach: "windows_reachable (open_handles (ws_log s)) (new_async_port s' ?cfg, [])" if "r = Inr ()"
      using windows_open_wp [OF assms, of path ?cfg] run that
      by (intro async_reachable.opened) (auto simp: wp_def win_good_def)
    have open_run: "windows_open_serial_port api path config s =
        (case r of Inl e \<Rightarrow> Inl e | Inr _ \<Rightarrow> Inr (new_async_port s' ?cfg, info), s')"
      using run Inr by (auto simp: windows_open_serial_port_def open_async_port_def Let_def io_ctl_defs split: sum.split)
    from windows_open_wp [OF assms, of path ?cfg] run reach info_of_listed [OF Inr] show ?thesis
      unfolding open_run by (cases r) (auto simp: wp_def new_async_port_def)
  qed
qed

lemma windows_open_serial_port_outcomes_witness:
  "case windows_open_serial_port demo_setup_api ''com8'' None (windows_init (demo_win Asyncio None) []) of
     (Inr (port, info), s') \<Rightarrow> windows_reachable {#} (port, []) \<and> info = Some demo_com_port
   | (Inl e, s') \<Rightarrow> \<not> wb_open s'"
proof -
  have "windows_enumerate_ports demo_setup_api = Inr [demo_com_port]"
    "filter (\<lambda>q. windows_canonical (pi_device q) = windows_canonical ''com8'') [demo_com_port] = [demo_com_port]"
    by code_simp+
  moreover have "\<not> wb_open (windows_init (demo_win Asyncio None) [])" "open_handles (ws_log (windows_init (demo_win Asyncio None) [])) = {#}"
    by (simp_all add: windows_init_def)
  ultimately show ?thesis
    using windows_open_serial_port_outcomes [of "windows_init (demo_win Asyncio None) []" None "''com8''" demo_setup_api]
    by (auto split: prod.splits sum.splits)
qed

end
