(* ===== verification/Unix_Ports.thy ===== *)
theory Unix_Ports
  imports Port_Claims Darwin_Bsd
begin

section \<open>The port on macOS and the BSDs\<close>

text \<open>
  \<open>DarwinBackend\<close> and \<open>BsdBackend\<close> inherit everything but \<open>open\<close> and \<open>configure\<close>. A backend that differs
  from the POSIX one only there, and whose \<open>configure\<close> moves no bytes, satisfies the contract of theory
  \<open>Backend_Protocol\<close>; so every lemma of the port holds on both.
\<close>

lemma posix_like_laws:
  assumes "\<And>c. keeps posix_steady (cfg c)"
  shows "sync_backend_laws ((posix_vt m :: 'k posix_backend_scheme sync_backend)\<lparr>bk_open := opn, bk_configure := cfg\<rparr>)
    log_sent log_received (\<lambda>_. True)"
proof -
  let ?vt = "(posix_vt m :: 'k posix_backend_scheme sync_backend)\<lparr>bk_open := opn, bk_configure := cfg\<rparr>"
  have lives: "lives_on ?vt = lives_on (posix_vt m)"
    by (simp add: fun_eq_iff lives_on_def)
  then have st: "steady ?vt log_sent log_received (\<lambda>_. True) = steady (posix_vt m) log_sent log_received (\<lambda>_. True)"
    by (simp add: fun_eq_iff steady_def)
  show ?thesis
    by (unfold_locales, unfold st lives)
      (simp_all add: posix.write_law posix.read_law posix.steady_laws posix.close_law [simplified]
        assms [folded posix_steady_posix_vt [of m]])
qed

definition darwin_vt :: "termios_mod \<Rightarrow> 'k posix_backend_scheme sync_backend" where
  "darwin_vt m = (posix_vt m)\<lparr>bk_open := darwin_open m, bk_configure := darwin_configure m\<rparr>"

definition bsd_vt :: "termios_mod \<Rightarrow> 'k posix_backend_scheme sync_backend" where
  "bsd_vt m = (posix_vt m)\<lparr>bk_open := bsd_open m, bk_configure := bsd_configure m\<rparr>"

lemma quiet_reject:
  "keeps (appends quiet_event) (reject_darwin_unsupported config :: ('a kernel_scheme, exn, unit) io)"
  "keeps (appends quiet_event) (reject_bsd_unsupported config :: ('a kernel_scheme, exn, unit) io)"
proof -
  have "appends (\<lambda>e. \<exists>t r. e = Ev_warn t r) s s' \<Longrightarrow> appends quiet_event s s'" for s s' :: "'a kernel_scheme"
    by (erule appends_mono) (auto simp: moves_def)
  then show "keeps (appends quiet_event) (reject_darwin_unsupported config :: ('a kernel_scheme, exn, unit) io)"
    "keeps (appends quiet_event) (reject_bsd_unsupported config :: ('a kernel_scheme, exn, unit) io)"
    by (auto intro: keeps_weaken keeps_reject)
qed

lemma quiet_custom:
  "keeps (appends quiet_event) (darwin_apply_config_to_fd m fd config)"
  "keeps (appends quiet_event) (bsd_apply_config_to_fd m fd config)"
  unfolding darwin_apply_config_to_fd_def darwin_apply_custom_baud_def set_iossiospeed_def bsd_apply_config_to_fd_def
    bsd_apply_custom_baud_def Let_def
  by (intro app.keeps_control keeps_syscalls quiet_applies; simp)+

lemma configure_steady:
  "keeps posix_steady (darwin_configure m config)" "keeps posix_steady (bsd_configure m config)"
  unfolding darwin_configure_def bsd_configure_def posix_configure_def
  by (intro pst.keeps_control keeps_modify quiet_reject [THEN keeps_posix_steady] quiet_custom [THEN keeps_posix_steady];
      simp add: moves_nothing_def log_sent_def log_received_def posix_is_open_def)+

interpretation darwin: sync_backend_laws
  "darwin_vt m :: 'k posix_backend_scheme sync_backend" log_sent log_received "\<lambda>_. True" for m
  unfolding darwin_vt_def by (rule posix_like_laws) (rule configure_steady)

interpretation bsd: sync_backend_laws
  "bsd_vt m :: 'k posix_backend_scheme sync_backend" log_sent log_received "\<lambda>_. True" for m
  unfolding bsd_vt_def by (rule posix_like_laws) (rule configure_steady)

text \<open>What a woken call of a port may leave behind, from the laws of the backend alone.\<close>

context sync_backend_laws
begin

lemma woken_outcome:
  assumes reach: "port_reachable vt sent received good s" and step: "port_step vt sent received good s (Woken t w r) s'"
  shows "t_op t = Op_send d \<Longrightarrow> sent_exactly sent (t_sent t) d r (fst s')"
    "is_read (t_op t) \<Longrightarrow> read_result received (t_received t) (t_op t) r (fst s')"
    "p_closed (fst s') \<longleftrightarrow> \<not> bk_is_open vt (p_backend (fst s'))"
proof -
  from step obtain p p' where p: "fst s' = p'" and ok: "call_ok sent received p t"
    and run: "resume vt (t_pc t) w p = (r, p')"
  proof cases
    case (wake p p' ts us)
    with calls_reachable [OF reach] show ?thesis by (intro that) auto
  qed
  note exact = resumed [OF ok run]
  from ok have at: "call_at (t_op t) (t_pc t)" by (simp add: call_ok_def)
  show "sent_exactly sent (t_sent t) d r (fst s')" if "t_op t = Op_send d"
    using send_pc [of d "t_pc t"] at that exact p by auto
  show "read_result received (t_received t) (t_op t) r (fst s')" if "is_read (t_op t)"
    using read_outcome [OF at that exact] p by simp
  show "p_closed (fst s') \<longleftrightarrow> \<not> bk_is_open vt (p_backend (fst s'))"
    using lifecycle_step [OF step lifecycle_reachable [OF reach]] by (simp add: lifecycle_ok_def)
qed

end

definition unix_backend :: "termios_mod \<Rightarrow> 'k posix_backend_scheme sync_backend \<Rightarrow> bool" where
  "unix_backend m vt \<longleftrightarrow> vt = darwin_vt m \<or> vt = bsd_vt m"

lemma unix_backend_laws: "unix_backend m vt \<Longrightarrow> sync_backend_laws vt log_sent log_received (\<lambda>_. True)"
  unfolding unix_backend_def by (elim disjE; simp add: darwin.sync_backend_laws_axioms bsd.sync_backend_laws_axioms)

text \<open>C18: The port keeps its contract on macOS and on the BSDs under any interleaving of calls, including
  reconfigurations that set a custom rate or are refused: a \<open>send\<close> that returns has had exactly its data
  accepted, one that waits, raises or is cancelled a proper prefix; a read returns exactly what was
  delivered since it was called and otherwise has consumed nothing; and after every step the port is
  marked closed exactly when it has no descriptor.\<close>

theorem unix_ports_exact:
  assumes "unix_backend m vt" and "port_reachable vt log_sent log_received (\<lambda>_. True) s"
    and "port_step vt log_sent log_received (\<lambda>_. True) s (Woken t w r) s'"
  shows "(\<forall>d. t_op t = Op_send d \<longrightarrow> sent_exactly log_sent (t_sent t) d r (fst s'))
    \<and> (is_read (t_op t) \<longrightarrow> read_result log_received (t_received t) (t_op t) r (fst s'))
    \<and> (p_closed (fst s') \<longleftrightarrow> \<not> posix_is_open (p_backend (fst s')))"
proof -
  note woken = sync_backend_laws.woken_outcome [OF unix_backend_laws [OF assms(1)] assms(2,3)]
  from assms(1) have "bk_is_open vt = posix_is_open"
    by (auto simp: unix_backend_def darwin_vt_def bsd_vt_def posix_vt_def)
  with woken show ?thesis by simp
qed

text \<open>A send on a macOS port, woken once.\<close>

definition unix_demo_port :: "posix_backend port" where
  "unix_demo_port = new_port \<lparr>k_env = good_env, k_log = [], pb_fd = 3, pb_path = ''/dev/cu.demo'', pb_config = None\<rparr> default_config"

theorem unix_ports_exact_witness:
  "let t = demo_call (Op_send [1, 2, 3]) (At_send [1, 2, 3] 0 3); vt = darwin_vt linux_termios in
   \<exists>p p' :: posix_backend port. port_reachable vt log_sent log_received (\<lambda>_. True) (p, [t])
     \<and> port_step vt log_sent log_received (\<lambda>_. True) (p, [t]) (Woken t W_ready (Inr (Return V_unit))) (p', [])
     \<and> log_sent (p_backend p') = [1, 2, 3] \<and> \<not> p_closed p'"
proof -
  let ?vt = "darwin_vt linux_termios :: posix_backend sync_backend"
  have "\<exists>p. start ?vt (Op_send [1, 2, 3]) unix_demo_port = (Inr (Park (At_send [1, 2, 3] 0 3) (A_writable 3)), p)
     \<and> (\<exists>p'. resume ?vt (At_send [1, 2, 3] 0 3) W_ready p = (Inr (Return V_unit), p') \<and> \<not> p_closed p')"
    by (simp add: unix_demo_port_def darwin_vt_def demo_defs Let_def)
  then obtain p p' where start: "start ?vt (Op_send [1, 2, 3]) unix_demo_port
      = (Inr (Park (At_send [1, 2, 3] 0 3) (A_writable 3)), p)"
    and wake: "resume ?vt (At_send [1, 2, 3] 0 3) W_ready p = (Inr (Return V_unit), p')" and "open": "\<not> p_closed p'"
    by blast
  have "port_reachable ?vt log_sent log_received (\<lambda>_. True) (unix_demo_port, [])"
    unfolding unix_demo_port_def
    by (rule port_reachable.opened) (simp_all add: darwin_vt_def posix_vt_def posix_is_open_def log_sent_def log_received_def)
  note reach = port_reachable.step [OF this port_step.call [OF start]]
  have data: "log_sent (p_backend unix_demo_port) = []" "log_received (p_backend unix_demo_port) = []"
    by (simp_all add: unix_demo_port_def new_port_def log_sent_def log_received_def)
  let ?t = "demo_call (Op_send [1, 2, 3]) (At_send [1, 2, 3] 0 3)"
  from reach have reach: "port_reachable ?vt log_sent log_received (\<lambda>_. True) (p, [?t])"
    by (simp add: data demo_call_def)
  have step: "port_step ?vt log_sent log_received (\<lambda>_. True) (p, [?t]) (Woken ?t W_ready (Inr (Return V_unit))) (p', [])"
    using port_step.wake [of ?vt ?t W_ready p _ p' log_sent log_received "\<lambda>_. True" "[]" "[]"] wake
    by (simp add: demo_call_def del: resume.simps)
  have "unix_backend linux_termios ?vt" by (simp add: unix_backend_def)
  from unix_ports_exact [OF this reach step] have "log_sent (p_backend p') = [1, 2, 3]"
    by (simp add: demo_call_def sent_exactly_def)
  with reach step "open" show ?thesis unfolding Let_def by blast
qed

end
