(* ===== verification/Unix_Open.thy ===== *)
theory Unix_Open
  imports Unix_Ports Open_Port Bsd_Discovery Darwin_Discovery
begin

section \<open>Opening a port on macOS and the BSDs\<close>

text \<open>
  The synchronous branch of \<open>open_serial_port\<close> composed with the Darwin and BSD backends and their
  resolvers. IOKit is asked in the state \<open>ik\<close> of its references.
\<close>

definition unix_info_resolver :: "'cf iokit \<Rightarrow> iokit_state \<Rightarrow> string \<Rightarrow> family \<Rightarrow> string \<Rightarrow> exn + port_info option" where
  "unix_info_resolver os ik platform f path =
     (if f = DarwinFamily then fst (darwin_resolve_port_info os path ik)
      else if f = BsdFamily then Inr (bsd_resolve_port_info DEFAULT_DEV_ROOT platform path)
      else Inl (exn_msg RuntimeError))"

definition unix_open_serial_port ::
  "'k posix_backend_scheme sync_backend \<Rightarrow> 'cf iokit \<Rightarrow> iokit_state \<Rightarrow> string \<Rightarrow> string \<Rightarrow> serial_config option \<Rightarrow>
   ('k posix_backend_scheme, exn, 'k posix_backend_scheme port \<times> port_info option) io" where
  "unix_open_serial_port vt os ik platform =
     open_sync_port vt (resolve_port_info_for_path (unix_info_resolver os ik platform) platform)"

text \<open>The metadata: what IOKit lists for the path, or the name of a device node of the platform.\<close>

definition unix_info :: "'cf iokit \<Rightarrow> iokit_state \<Rightarrow> string \<Rightarrow> string \<Rightarrow> port_info option \<Rightarrow> bool" where
  "unix_info os ik platform path info \<longleftrightarrow>
     (if platform = ''darwin'' then fst (darwin_resolve_port_info os path ik) = Inr info
      else info = bsd_resolve_port_info DEFAULT_DEV_ROOT platform path)"

definition selects :: "string \<Rightarrow> termios_mod \<Rightarrow> 'k posix_backend_scheme sync_backend \<Rightarrow> bool" where
  "selects platform m vt \<longleftrightarrow>
     (case select_backend platform of
        Inr DarwinFamily \<Rightarrow> vt = darwin_vt m
      | Inr BsdFamily \<Rightarrow> vt = bsd_vt m
      | _ \<Rightarrow> False)"

lemma unix_info_found:
  assumes "selects platform m vt"
  obtains info where "resolve_port_info_for_path (unix_info_resolver os ik platform) platform path = Inr info"
    "unix_info os ik platform path info"
proof -
  obtain info where d: "fst (darwin_resolve_port_info os path ik) = Inr info"
    using leaks_resolve_port [of os path] by (auto simp: leaks_def) (metis fst_conv)
  have "resolve_port_info_for_path (unix_info_resolver os ik platform) platform path =
      Inr (if platform = ''darwin'' then info else bsd_resolve_port_info DEFAULT_DEV_ROOT platform path)"
    using assms d
    by (auto simp: selects_def select_backend_def resolve_port_info_for_path_def platform_port_info_resolver_def
        unix_info_resolver_def split: if_splits)
  with d show thesis by (intro that) (auto simp: unix_info_def)
qed

lemma rejects_neutral:
  "keeps (appends fd_neutral) (reject_darwin_unsupported config :: ('a kernel_scheme, exn, unit) io)"
  "keeps (appends fd_neutral) (reject_bsd_unsupported config :: ('a kernel_scheme, exn, unit) io)"
proof -
  have "appends (\<lambda>e. \<exists>t r. e = Ev_warn t r) s s' \<Longrightarrow> appends fd_neutral s s'" for s s' :: "'a kernel_scheme"
    by (erule appends_mono) auto
  then show "keeps (appends fd_neutral) (reject_darwin_unsupported config :: ('a kernel_scheme, exn, unit) io)"
    "keeps (appends fd_neutral) (reject_bsd_unsupported config :: ('a kernel_scheme, exn, unit) io)"
    by (auto intro: keeps_weaken keeps_reject)
qed

lemma unix_open_wp:
  fixes s :: "'k posix_backend_scheme"
  assumes "unix_backend m vt"
  shows "wp (bk_open vt path config)
    (\<lambda>_ s'. posix_is_open s' \<and> pb_path s' = path \<and> open_fds (k_log s') = add_mset (pb_fd s') (open_fds (k_log s)))
    (\<lambda>e s'. posix_is_open s' = posix_is_open s \<and> open_fds (k_log s') = open_fds (k_log s)) s"
proof -
  have after: "wp (posix_open commit path config)
      (\<lambda>_ s'. posix_is_open s' \<and> pb_path s' = path \<and> open_fds (k_log s') = add_mset (pb_fd s') (open_fds (k_log s)))
      (\<lambda>e s'. posix_is_open s' = posix_is_open s \<and> open_fds (k_log s') = open_fds (k_log s)) s1"
    if ap: "\<And>fd. keeps (appends (on_fd fd)) (commit fd config)" and s1: "appends fd_neutral s s1"
    for commit :: "int \<Rightarrow> serial_config \<Rightarrow> 'k posix_op" and s1
  proof (rule wp_mono [OF posix_open_wp [of commit config, OF ap]], goal_cases)
    case (1 x s')
    then show ?case using appends_fds [OF s1] by simp
  next
    case (2 e s')
    have "posix_is_open s1 = posix_is_open s" using s1 by (auto simp: appends_def posix_is_open_def)
    moreover have "pb_fd s' = pb_fd s1"
    proof -
      from 2 have "s' = s1\<lparr>k_log := k_log s'\<rparr>" by (rule conjunct1)
      then have "pb_fd s' = pb_fd (s1\<lparr>k_log := k_log s'\<rparr>)" by (rule arg_cong)
      also have "pb_fd (s1\<lparr>k_log := k_log s'\<rparr>) = pb_fd s1" by simp
      finally show ?thesis .
    qed
    ultimately show ?case using 2 appends_fds [OF s1] by (simp add: posix_is_open_def)
  qed
  have both: "wp (io_seq reject (posix_open commit path config))
      (\<lambda>_ s'. posix_is_open s' \<and> pb_path s' = path \<and> open_fds (k_log s') = add_mset (pb_fd s') (open_fds (k_log s)))
      (\<lambda>e s'. posix_is_open s' = posix_is_open s \<and> open_fds (k_log s') = open_fds (k_log s)) s"
    if "keeps (appends fd_neutral) reject" "\<And>fd. keeps (appends (on_fd fd)) (commit fd config)"
    for reject :: "'k posix_op" and commit :: "int \<Rightarrow> serial_config \<Rightarrow> 'k posix_op"
    unfolding wp_seq
  proof (rule keeps_wp_mono [OF that(1)], goal_cases)
    case (1 x s1)
    then show ?case by (intro after that(2))
  next
    case (2 e s1)
    then show ?case using appends_fds [OF 2] by (auto simp: appends_def posix_is_open_def)
  qed
  from assms consider (darwin) "bk_open vt = darwin_open m" | (bsd) "bk_open vt = bsd_open m"
    by (auto simp: unix_backend_def darwin_vt_def bsd_vt_def)
  then show ?thesis
  proof cases
    case darwin
    show ?thesis unfolding darwin darwin_open_def by (intro both rejects_neutral darwin_apply_frame)
  next
    case bsd
    show ?thesis unfolding bsd bsd_open_def by (intro both rejects_neutral bsd_apply_frame)
  qed
qed

text \<open>C34: On macOS and the BSDs \<open>open_serial_port\<close> either returns an open port that starts a run of the
  port system, with the requested configuration mirrored, one descriptor more, and the metadata of
  the platform's resolver, or raises with the backend closed and no descriptor leaked, whatever the
  kernel and IOKit answer; what it raises is a \<open>SerialError\<close> unless it was no \<open>OSError\<close>.\<close>

theorem unix_open_serial_port_outcomes:
  assumes "selects platform m vt" and "\<not> posix_is_open s"
  shows "case unix_open_serial_port vt os ik platform path config s of
      (Inr (port, info), s') \<Rightarrow> p_backend port = s' \<and> port_reachable vt log_sent log_received (\<lambda>_. True) (port, [])
        \<and> port_is_open vt port \<and> pb_path s' = path
        \<and> p_config port = (case config of None \<Rightarrow> default_config | Some c \<Rightarrow> c)
        \<and> open_fds (k_log s') = open_fds (k_log s) + {#pb_fd s'#}
        \<and> unix_info os ik platform path info
    | (Inl e, s') \<Rightarrow> \<not> posix_is_open s' \<and> open_fds (k_log s') = open_fds (k_log s)
        \<and> (isinstance e SerialError \<or> \<not> isinstance e OSError)"
proof -
  let ?cfg = "case config of None \<Rightarrow> default_config | Some c \<Rightarrow> c"
  have unix: "unix_backend m vt"
    using assms(1) by (auto simp: selects_def unix_backend_def split: sum.splits family.splits)
  then have is_open: "bk_is_open vt = posix_is_open"
    by (auto simp: unix_backend_def darwin_vt_def bsd_vt_def posix_vt_def)
  obtain info where info: "resolve_port_info_for_path (unix_info_resolver os ik platform) platform path = Inr info"
    "unix_info os ik platform path info"
    using unix_info_found [OF assms(1)] .
  have run: "wp (unix_open_serial_port vt os ik platform path config)
      (\<lambda>r s'. r = (new_port s' ?cfg, info) \<and> posix_is_open s' \<and> pb_path s' = path
         \<and> open_fds (k_log s') = add_mset (pb_fd s') (open_fds (k_log s)))
      (\<lambda>e s'. \<not> posix_is_open s' \<and> open_fds (k_log s') = open_fds (k_log s)
         \<and> (isinstance e SerialError \<or> \<not> isinstance e OSError)) s"
    unfolding unix_open_serial_port_def open_sync_port_def Let_def wp_simps info(1)
    by (rule wp_mono [OF unix_open_wp [OF unix, of path ?cfg]]) (use assms(2) in auto)
  have start: "port_reachable vt log_sent log_received (\<lambda>_. True) (new_port s' ?cfg, [])"
    "port_is_open vt (new_port s' ?cfg)" if "posix_is_open s'" for s'
    using that is_open by (auto intro!: port_reachable.opened simp: port_is_open_def)
  obtain r s' where r: "unix_open_serial_port vt os ik platform path config s = (r, s')" by fastforce
  show ?thesis
    using run r start [of s'] info(2) by (cases r) (auto simp: wp_def)
qed

definition quiet_iokit :: "unit iokit" where
  "quiet_iokit = \<lparr>ik_matching = False, ik_matching_kr = 0, ik_services = [], ik_key_string = (\<lambda>_. True),
     ik_property = (\<lambda>_ _ _. None), ik_parent = (\<lambda>_ _. (1, 0)), ik_length = (\<lambda>_. 0),
     ik_cstring = (\<lambda>_ _. None), ik_number = (\<lambda>_. None)\<rparr>"

text \<open>The witness opens a node of a BSD host.\<close>

theorem unix_open_serial_port_outcomes_witness:
  "case unix_open_serial_port (bsd_vt linux_termios) quiet_iokit
      \<lparr>ik_refs = \<lambda>_. 0, ik_iterators = 0, ik_cf = 0\<rparr> ''freebsd14'' ''/dev/cuaU0'' None (posix_init good_env []) of
      (Inr (port, info), s') \<Rightarrow> port_is_open (bsd_vt linux_termios) port \<and> info = bsd_resolve_port_info DEFAULT_DEV_ROOT ''freebsd14'' ''/dev/cuaU0''
    | (Inl e, s') \<Rightarrow> open_fds (k_log s') = {#}"
proof -
  have "selects ''freebsd14'' linux_termios (bsd_vt linux_termios :: posix_backend sync_backend)"
    by (simp add: selects_def select_backend_def starts_with_def is_bsd_name_def)
  moreover have "\<not> posix_is_open (posix_init good_env [])" "open_fds (k_log (posix_init good_env [])) = {#}"
    by (simp_all add: posix_init_def posix_is_open_def)
  ultimately show ?thesis
    using unix_open_serial_port_outcomes [where platform = "''freebsd14''" and m = linux_termios
        and vt = "bsd_vt linux_termios" and s = "posix_init good_env []" and os = quiet_iokit
        and ik = "\<lparr>ik_refs = \<lambda>_. 0, ik_iterators = 0, ik_cf = 0\<rparr>" and path = "''/dev/cuaU0''" and config = None]
    by (auto simp: unix_info_def split: prod.splits sum.splits)
qed

end
