(* ===== verification/Sync_Object.thy ===== *)
theory Sync_Object
  imports Sync_Api Port_Object Open_Port
begin

section \<open>The blocking port as a Python object (\<open>sync.py\<close>)\<close>

text \<open>
  What the blocking port does outside its calls: the \<open>with\<close> statement, the finaliser, the attributes it
  passes on, the test helper that forgets the provider, and the deferred opens. \<open>run\<close> is what happens
  on the portal while \<open>close\<close> waits for the asynchronous \<open>aclose\<close>.
\<close>

subsection \<open>Attributes\<close>

text \<open>\<open>extra(attribute, default)\<close>: the sentinel \<open>_MISSING\<close> is an argument that was not given.\<close>

datatype 'a optional_arg = Missing | Given 'a

definition sync_extra :: "(typed_attribute \<Rightarrow> attribute_value option) \<Rightarrow> typed_attribute \<Rightarrow>
    attribute_value option optional_arg \<Rightarrow> exn + attribute_value option" where
  "sync_extra attrs a arg =
     (case arg of
        Missing \<Rightarrow> map_sum id Some (extra attrs a)
      | Given d \<Rightarrow> Inr (case extra attrs a of Inl e \<Rightarrow> d | Inr v \<Rightarrow> Some v))"

lemma sync_extra_port_info:
  "sync_extra (posix_attributes vt caps info p) Attr_port_info Missing =
     (case info of None \<Rightarrow> Inl (exn_msg LookupError) | Some i \<Rightarrow> Inr (Some (Val_port_info i)))"
  "sync_extra (posix_attributes vt caps info p) Attr_port_info (Given None) = Inr (map_option Val_port_info info)"
  by (simp_all add: sync_extra_def extra_attributes_of_port split: option.split)

subsection \<open>Deferred opens\<close>

record serial_connectable =
  sc_path :: string
  sc_config :: serial_config

definition new_connectable :: "string \<Rightarrow> serial_config option \<Rightarrow> serial_connectable" where
  "new_connectable path config =
     \<lparr>sc_path = path, sc_config = (case config of None \<Rightarrow> default_config | Some c \<Rightarrow> c)\<rparr>"

definition connect :: "'b sync_backend \<Rightarrow> (string \<Rightarrow> exn + port_info option) \<Rightarrow> serial_connectable \<Rightarrow>
    ('b, exn, 'b port \<times> port_info option) io" where
  "connect vt resolve_info c = open_sync_port vt resolve_info (sc_path c) (Some (sc_config c))"

lemma connect_opens: "connect vt resolve_info (new_connectable path config) = open_sync_port vt resolve_info path config"
  by (simp add: connect_def new_connectable_def open_sync_port_def split: option.split)

text \<open>The blocking factories; \<open>called\<close> is how the asynchronous \<open>open_serial_port\<close> ends on the portal.\<close>

definition sync_open_serial_port :: "string \<Rightarrow> serial_config option \<Rightarrow> exn + unit \<Rightarrow>
    (string \<Rightarrow> serial_config \<Rightarrow> exn + unit) \<Rightarrow> sync_port sync_io" where
  "sync_open_serial_port path config started called =
     (let cfg = (case config of None \<Rightarrow> default_config | Some c \<Rightarrow> c)
      in sync_open False (Inr cfg) started (called path cfg))"

definition sync_connect :: "serial_connectable \<Rightarrow> exn + unit \<Rightarrow> (string \<Rightarrow> serial_config \<Rightarrow> exn + unit) \<Rightarrow>
    sync_port sync_io" where
  "sync_connect c started called = sync_open False (Inr (sc_config c)) started (called (sc_path c) (sc_config c))"

lemma sync_connect_opens:
  "sync_connect (new_connectable path config) started called = sync_open_serial_port path config started called"
  by (simp add: sync_connect_def sync_open_serial_port_def new_connectable_def Let_def)

subsection \<open>Leaving a block, and finalisation\<close>

definition with_port :: "nat \<Rightarrow> unit sync_io \<Rightarrow> unit sync_io \<Rightarrow> unit sync_io" where
  "with_port i body run = io_finally body (sync_close i run)"

definition sync_del :: "nat \<Rightarrow> exn + unit \<Rightarrow> unit sync_io \<Rightarrow> unit sync_io" where
  "sync_del i warned run =
     io_bind (io_get (\<lambda>s. sp_closed (ps_ports s ! i))) (\<lambda>closed.
       if closed then io_return ()
       else io_seq (io_lift warned) (io_suppress (\<lambda>e. isinstance e Exception) (sync_close i run)))"

text \<open>The state after a close that ran to its end.\<close>

definition given_up :: "nat \<Rightarrow> portal_state \<Rightarrow> portal_state" where
  "given_up i s =
     (let q = ps_ports s ! i in
      s\<lparr>ps_ports := (ps_ports s)[i := q\<lparr>sp_closed := True, sp_portal_entered := False\<rparr>],
        ps_users := (if sp_portal_entered q then (ps_users s)(sp_provider q := ps_users s (sp_provider q) - 1)
          else ps_users s)\<rparr>)"

lemma sync_close_run:
  assumes "i < length (ps_ports s)" "\<not> sp_closed (ps_ports s ! i)" "sp_portal_entered (ps_ports s ! i)"
  shows "sync_close i (io_lift r) s = (r, given_up i s)"
  using assms
  by (cases r) (auto simp: sync_close_def close_runs release_portal_run io_ctl_defs io_finally_def given_up_def Let_def)

lemma open_port_holds:
  assumes "portal_reachable False s" "i < length (ps_ports s)" "\<not> sp_closed (ps_ports s ! i)"
  shows "sp_portal_entered (ps_ports s ! i)"
  using portal_invariants [OF assms(1)] assms(2,3) open_port_entered by (simp add: users_exact_def)

text \<open>A blocking port that is collected while open gives its portal use back exactly once, whatever its
  \<open>aclose\<close> does on the portal, an \<open>Exception\<close> of it being swallowed; a closed port is left alone. When
  the filters turn the \<open>ResourceWarning\<close> into an error, the finaliser stops there, and the use of the
  portal is never given back, so its thread stays up.\<close>

theorem sync_del_outcomes:
  assumes "portal_reachable False s" and "i < length (ps_ports s)"
  shows "sync_del i warned (io_lift r) s =
    (if sp_closed (ps_ports s ! i) then (Inr (), s)
     else case warned of
       Inl e \<Rightarrow> (Inl e, s)
     | Inr _ \<Rightarrow> (case r of Inl e \<Rightarrow> if isinstance e Exception then Inr () else Inl e | Inr _ \<Rightarrow> Inr (),
         given_up i s))
    \<and> (\<not> sp_closed (ps_ports s ! i) \<longrightarrow>
         ps_users (given_up i s) (sp_provider (ps_ports s ! i)) = ps_users s (sp_provider (ps_ports s ! i)) - 1)"
proof
  show "sync_del i warned (io_lift r) s =
    (if sp_closed (ps_ports s ! i) then (Inr (), s)
     else case warned of
       Inl e \<Rightarrow> (Inl e, s)
     | Inr _ \<Rightarrow> (case r of Inl e \<Rightarrow> if isinstance e Exception then Inr () else Inl e | Inr _ \<Rightarrow> Inr (),
         given_up i s))"
    using sync_close_run [OF assms(2), of r] open_port_holds [OF assms]
    by (auto simp: sync_del_def io_ctl_defs io_suppress_def split: sum.split)
  show "\<not> sp_closed (ps_ports s ! i) \<longrightarrow>
      ps_users (given_up i s) (sp_provider (ps_ports s ! i)) = ps_users s (sp_provider (ps_ports s ! i)) - 1"
    using open_port_holds [OF assms] by (simp add: given_up_def Let_def)
qed

theorem sync_del_outcomes_witness:
  "\<exists>s'. sync_del 0 (Inr ()) (io_lift (Inl (exn_msg RuntimeError))) demo_portal = (Inr (), s') \<and> ps_users s' 0 = 0"
proof -
  have "0 < length (ps_ports demo_portal)" "\<not> sp_closed (ps_ports demo_portal ! 0)" "sp_provider (ps_ports demo_portal ! 0) = 0"
    "ps_users demo_portal 0 = 1" "isinstance (exn_msg RuntimeError) Exception"
    by (simp_all add: demo_portal_def sync_port_init_def isinstance_simps exn_msg_def)
  with sync_del_outcomes [OF demo_portal_reachable this(1), of "Inr ()" "Inl (exn_msg RuntimeError)"] show ?thesis
    by simp
qed

subsection \<open>Forgetting the provider\<close>

definition reset_portal_for_testing :: "unit sync_io" where
  "reset_portal_for_testing = io_modify (\<lambda>s. s\<lparr>ps_provider := None\<rparr>)"

text \<open>The documented condition is the right one: without blocking ports and \<open>open\<close> calls that hold a
  portal the reset keeps the invariants of theory \<open>Sync_Portal\<close>; with one, the next \<open>open\<close> starts a
  second portal beside it.\<close>

lemma reset_portal_outcomes:
  assumes "portal_reachable False s"
  shows "ps_opens s = [] \<and> (\<forall>p. holders p s = 0) \<Longrightarrow>
      users_exact (snd (reset_portal_for_testing s)) \<and> one_portal (snd (reset_portal_for_testing s))"
    and "0 < holders p s \<Longrightarrow> fst (get_provider (snd (reset_portal_for_testing s))) \<noteq> Inr p"
proof -
  have inv: "users_exact s" "one_portal s" using portal_invariants [OF assms] by simp_all
  have h: "holders q (s\<lparr>ps_provider := None\<rparr>) = holders q s"
      "closes_ok (s\<lparr>ps_provider := None\<rparr>) = closes_ok s" for q by (simp_all add: holders_def closes_ok_def)
  show "users_exact (snd (reset_portal_for_testing s)) \<and> one_portal (snd (reset_portal_for_testing s))"
    if "ps_opens s = [] \<and> (\<forall>p. holders p s = 0)"
    using inv that by (auto simp: reset_portal_for_testing_def io_modify_def users_exact_def one_portal_def h)
  show "fst (get_provider (snd (reset_portal_for_testing s))) \<noteq> Inr p" if "0 < holders p s"
  proof -
    from inv(2) that have "p < ps_fresh s" by (auto simp: one_portal_def)
    then show ?thesis by (simp add: reset_portal_for_testing_def io_modify_def portal_runs new_provider_def)
  qed
qed

end
