(* ===== verification/C_Layout.thy ===== *)
theory C_Layout
  imports Win32
begin

unbundle bit_operations_syntax

section \<open>The C structures of the Windows bindings (\<open>_windows/_win32.py\<close>, \<open>_setupapi.py\<close>)\<close>

text \<open>
  \<open>ctypes.Structure\<close> lays its fields out as Microsoft's compiler does. A C type is a datatype, a
  structure the list of its fields with an optional bit width, and \<open>layout\<close> computes where \<open>ctypes\<close> puts
  each field, on a host whose pointers, wide characters and longs have given sizes. The memory of a structure
  is an integer, its bytes read in the little-endian order of every Windows host.
\<close>

subsection \<open>Types and their layout\<close>

datatype ctype =
    C_uint8
  | C_uint16
  | C_uint32
  | C_int
  | C_long
  | C_int64
  | C_char
  | C_bool
  | C_wchar
  | C_void_p
  | C_wchar_p
  | C_char_p
  | C_pointer ctype
  | C_array ctype nat
  | C_struct string "nat option" "(string \<times> ctype \<times> nat option) list"

record abi =
  abi_pointer :: nat
  abi_wchar :: nat
  abi_long :: nat

definition x64 :: abi where "x64 = \<lparr>abi_pointer = 8, abi_wchar = 2, abi_long = 4\<rparr>"
definition x86 :: abi where "x86 = \<lparr>abi_pointer = 4, abi_wchar = 2, abi_long = 4\<rparr>"
definition lp64 :: abi where "lp64 = \<lparr>abi_pointer = 8, abi_wchar = 4, abi_long = 8\<rparr>"

definition windows_abis :: "abi list" where "windows_abis = [x64, x86]"

definition round_up :: "nat \<Rightarrow> nat \<Rightarrow> nat" where
  "round_up n a = (n + a - 1) div a * a"

text \<open>A field in memory: its first bit and its width. While a run of bit fields is open, \<open>lo_unit\<close> is
  its storage unit (first byte and size) and the number of bits taken.\<close>

type_synonym slot = "string \<times> nat \<times> nat"

record layout_state =
  lo_end :: nat
  lo_unit :: "(nat \<times> nat \<times> nat) option"
  lo_align :: nat
  lo_slots :: "slot list"

definition capped :: "nat option \<Rightarrow> nat \<Rightarrow> nat" where
  "capped pack a = (case pack of None \<Rightarrow> a | Some p \<Rightarrow> min p a)"

definition open_unit :: "nat option \<Rightarrow> nat \<Rightarrow> nat \<Rightarrow> layout_state \<Rightarrow> nat \<times> nat" where
  "open_unit bits size' al s =
     (case (bits, lo_unit s) of
        (Some n, Some (start, usize, used)) \<Rightarrow>
          if usize = size' \<and> used + n \<le> 8 * usize then (start, used) else (round_up (lo_end s) al, 0)
      | _ \<Rightarrow> (round_up (lo_end s) al, 0))"

text \<open>A bit field joins the open unit of its type's size while it has room; any other field starts at
  the next multiple of its alignment.\<close>

definition place :: "nat option \<Rightarrow> layout_state \<Rightarrow> string \<times> (nat \<times> nat) \<times> nat option \<Rightarrow> layout_state" where
  "place pack s field =
     (case field of (name, (size', al0), bits) \<Rightarrow>
        let al = capped pack al0; (start, used) = open_unit bits size' al s
        in \<lparr>lo_end = start + size',
            lo_unit = map_option (\<lambda>n. (start, size', used + n)) bits,
            lo_align = max (lo_align s) al,
            lo_slots = lo_slots s @ [(name, 8 * start + used, case bits of None \<Rightarrow> 8 * size' | Some n \<Rightarrow> n)]\<rparr>)"

definition start_layout :: layout_state where
  "start_layout = \<lparr>lo_end = 0, lo_unit = None, lo_align = 1, lo_slots = []\<rparr>"

definition layout :: "nat option \<Rightarrow> (string \<times> (nat \<times> nat) \<times> nat option) list \<Rightarrow> layout_state" where
  "layout pack = foldl (place pack) start_layout"

definition layout_extent :: "layout_state \<Rightarrow> nat \<times> nat" where
  "layout_extent s = (round_up (lo_end s) (lo_align s), lo_align s)"

text \<open>\<open>ctypes.sizeof\<close> and \<open>ctypes.alignment\<close>.\<close>

primrec extent :: "abi \<Rightarrow> ctype \<Rightarrow> nat \<times> nat" where
  "extent m C_uint8 = (1, 1)"
| "extent m C_uint16 = (2, 2)"
| "extent m C_uint32 = (4, 4)"
| "extent m C_int = (4, 4)"
| "extent m C_long = (abi_long m, abi_long m)"
| "extent m C_int64 = (8, 8)"
| "extent m C_char = (1, 1)"
| "extent m C_bool = (1, 1)"
| "extent m C_wchar = (abi_wchar m, abi_wchar m)"
| "extent m C_void_p = (abi_pointer m, abi_pointer m)"
| "extent m C_wchar_p = (abi_pointer m, abi_pointer m)"
| "extent m C_char_p = (abi_pointer m, abi_pointer m)"
| "extent m (C_pointer t) = (abi_pointer m, abi_pointer m)"
| "extent m (C_array t n) = (n * fst (extent m t), snd (extent m t))"
| "extent m (C_struct name pack fs) =
     layout_extent (layout pack (map (map_prod id (map_prod (extent m) id)) fs))"

abbreviation sizeof :: "abi \<Rightarrow> ctype \<Rightarrow> nat" where
  "sizeof m t \<equiv> fst (extent m t)"

fun slots :: "abi \<Rightarrow> ctype \<Rightarrow> slot list" where
  "slots m (C_struct name pack fs) =
     lo_slots (layout pack (map (map_prod id (map_prod (extent m) id)) fs))"
| "slots m t = []"

subsection \<open>The structures\<close>

abbreviation plain :: "string \<Rightarrow> ctype \<Rightarrow> string \<times> ctype \<times> nat option" where
  "plain n t \<equiv> (n, t, None)"

abbreviation bitfield :: "string \<Rightarrow> nat \<Rightarrow> string \<times> ctype \<times> nat option" where
  "bitfield n w \<equiv> (n, C_uint32, Some w)"

definition DCB :: ctype where
  "DCB = C_struct ''DCB'' (Some 1)
    [plain ''DCBlength'' C_uint32, plain ''BaudRate'' C_uint32,
     bitfield ''fBinary'' 1, bitfield ''fParity'' 1, bitfield ''fOutxCtsFlow'' 1, bitfield ''fOutxDsrFlow'' 1,
     bitfield ''fDtrControl'' 2, bitfield ''fDsrSensitivity'' 1, bitfield ''fTXContinueOnXoff'' 1, bitfield ''fOutX'' 1,
     bitfield ''fInX'' 1, bitfield ''fErrorChar'' 1, bitfield ''fNull'' 1, bitfield ''fRtsControl'' 2,
     bitfield ''fAbortOnError'' 1, bitfield ''fDummy2'' 17,
     plain ''wReserved'' C_uint16, plain ''XonLim'' C_uint16, plain ''XoffLim'' C_uint16,
     plain ''ByteSize'' C_uint8, plain ''Parity'' C_uint8, plain ''StopBits'' C_uint8,
     plain ''XonChar'' C_char, plain ''XoffChar'' C_char, plain ''ErrorChar'' C_char,
     plain ''EofChar'' C_char, plain ''EvtChar'' C_char, plain ''wReserved1'' C_uint16]"

definition COMMTIMEOUTS :: ctype where
  "COMMTIMEOUTS = C_struct ''COMMTIMEOUTS'' None
    [plain ''ReadIntervalTimeout'' C_uint32, plain ''ReadTotalTimeoutMultiplier'' C_uint32,
     plain ''ReadTotalTimeoutConstant'' C_uint32, plain ''WriteTotalTimeoutMultiplier'' C_uint32,
     plain ''WriteTotalTimeoutConstant'' C_uint32]"

definition COMSTAT :: ctype where
  "COMSTAT = C_struct ''COMSTAT'' None
    [bitfield ''fCtsHold'' 1, bitfield ''fDsrHold'' 1, bitfield ''fRlsdHold'' 1, bitfield ''fXoffHold'' 1,
     bitfield ''fXoffSent'' 1, bitfield ''fEof'' 1, bitfield ''fTxim'' 1, bitfield ''fReserved'' 25,
     plain ''cbInQue'' C_uint32, plain ''cbOutQue'' C_uint32]"

definition OVERLAPPED :: ctype where
  "OVERLAPPED = C_struct ''OVERLAPPED'' None
    [plain ''Internal'' C_void_p, plain ''InternalHigh'' C_void_p, plain ''Offset'' C_uint32,
     plain ''OffsetHigh'' C_uint32, plain ''hEvent'' C_void_p]"

definition GUID :: ctype where
  "GUID = C_struct ''GUID'' None
    [plain ''Data1'' C_uint32, plain ''Data2'' C_uint16, plain ''Data3'' C_uint16,
     plain ''Data4'' (C_array C_uint8 8)]"

definition SP_DEVINFO_DATA :: ctype where
  "SP_DEVINFO_DATA = C_struct ''SP_DEVINFO_DATA'' None
    [plain ''cbSize'' C_uint32, plain ''ClassGuid'' GUID, plain ''DevInst'' C_uint32,
     plain ''Reserved'' C_void_p]"

definition SP_DEVICE_INTERFACE_DATA :: ctype where
  "SP_DEVICE_INTERFACE_DATA = C_struct ''SP_DEVICE_INTERFACE_DATA'' None
    [plain ''cbSize'' C_uint32, plain ''InterfaceClassGuid'' GUID, plain ''Flags'' C_uint32,
     plain ''Reserved'' C_void_p]"

definition MAX_PATH_WCHARS :: nat where "MAX_PATH_WCHARS = 512"

definition SP_DEVICE_INTERFACE_DETAIL_DATA_W :: ctype where
  "SP_DEVICE_INTERFACE_DETAIL_DATA_W = C_struct ''SP_DEVICE_INTERFACE_DETAIL_DATA_W'' None
    [plain ''cbSize'' C_uint32, plain ''DevicePath'' (C_array C_wchar MAX_PATH_WCHARS)]"

definition detail_cb_size :: "abi \<Rightarrow> nat" where
  "detail_cb_size m = (if sizeof m C_void_p = 8 then 8 else 6)"

definition windows_structs :: "ctype list" where
  "windows_structs = [DCB, COMMTIMEOUTS, COMSTAT, OVERLAPPED, GUID, SP_DEVINFO_DATA, SP_DEVICE_INTERFACE_DATA,
     SP_DEVICE_INTERFACE_DETAIL_DATA_W]"

subsection \<open>Fields in memory\<close>

definition get_slot :: "nat \<times> nat \<Rightarrow> int \<Rightarrow> int" where
  "get_slot x mem = take_bit (snd x) (drop_bit (fst x) mem)"

definition set_slot :: "nat \<times> nat \<Rightarrow> int \<Rightarrow> int \<Rightarrow> int" where
  "set_slot x v mem =
     (mem AND NOT (push_bit (fst x) (mask (snd x)))) OR push_bit (fst x) (take_bit (snd x) v)"

definition field_slot :: "abi \<Rightarrow> ctype \<Rightarrow> string \<Rightarrow> (nat \<times> nat) option" where
  "field_slot m t f = map_of (slots m t) f"

text \<open>Reading and assigning an attribute of an instance; an attribute that is no field is out of scope.\<close>

definition read_field :: "abi \<Rightarrow> ctype \<Rightarrow> string \<Rightarrow> int \<Rightarrow> int" where
  "read_field m t f mem = (case field_slot m t f of None \<Rightarrow> 0 | Some x \<Rightarrow> get_slot x mem)"

definition write_field :: "abi \<Rightarrow> ctype \<Rightarrow> string \<Rightarrow> int \<Rightarrow> int \<Rightarrow> int" where
  "write_field m t f v mem = (case field_slot m t f of None \<Rightarrow> mem | Some x \<Rightarrow> set_slot x v mem)"

definition write_fields :: "abi \<Rightarrow> ctype \<Rightarrow> (string \<times> int) list \<Rightarrow> int \<Rightarrow> int" where
  "write_fields m t = fold (\<lambda>(f, v). write_field m t f v)"

definition apart :: "nat \<times> nat \<Rightarrow> nat \<times> nat \<Rightarrow> bool" where
  "apart x y \<longleftrightarrow> fst x + snd x \<le> fst y \<or> fst y + snd y \<le> fst x"

definition fits_in :: "nat \<Rightarrow> nat \<times> nat \<Rightarrow> bool" where
  "fits_in n x \<longleftrightarrow> fst x + snd x \<le> n"

lemma bit_set_slot:
  "bit (set_slot x v mem) n \<longleftrightarrow> (if fst x \<le> n \<and> n < fst x + snd x then bit v (n - fst x) else bit mem n)"
  by (auto simp: set_slot_def bit_simps)

lemma bit_get_slot: "bit (get_slot x mem) n \<longleftrightarrow> n < snd x \<and> bit mem (fst x + n)"
  by (auto simp: get_slot_def bit_simps add.commute)

lemma get_set_same: "get_slot x (set_slot x v mem) = take_bit (snd x) v"
  by (rule bit_eqI) (auto simp: bit_get_slot bit_set_slot bit_simps)

lemma get_set_apart: "apart x y \<Longrightarrow> get_slot y (set_slot x v mem) = get_slot y mem"
  by (rule bit_eqI) (auto simp: bit_get_slot bit_set_slot apart_def)

lemma set_slot_inside:
  assumes "fits_in n x" "take_bit n mem = mem"
  shows "take_bit n (set_slot x v mem) = set_slot x v mem"
proof (rule bit_eqI)
  fix i
  have "bit mem i \<Longrightarrow> i < n" for i using assms(2) by (metis bit_take_bit_iff)
  then show "bit (take_bit n (set_slot x v mem)) i \<longleftrightarrow> bit (set_slot x v mem) i"
    using assms(1) by (auto simp: bit_set_slot bit_take_bit_iff fits_in_def)
qed

text \<open>Every structure of the bindings: its fields have different names, follow one another and end inside it.\<close>

fun ascending :: "nat \<Rightarrow> (nat \<times> nat) list \<Rightarrow> nat \<Rightarrow> bool" where
  "ascending a [] n \<longleftrightarrow> a \<le> n"
| "ascending a (x # xs) n \<longleftrightarrow> a \<le> fst x \<and> ascending (fst x + snd x) xs n"

lemma ascending_bounds: "ascending a xs n \<Longrightarrow> a \<le> n \<and> (\<forall>x\<in>set xs. a \<le> fst x \<and> fits_in n x)"
  by (induction a xs n rule: ascending.induct) (fastforce simp: fits_in_def)+

lemma ascending_apart: "ascending a xs n \<Longrightarrow> sorted_wrt apart xs"
  by (induction a xs n rule: ascending.induct) (auto simp: apart_def dest: ascending_bounds)

definition sound_slots :: "nat \<Rightarrow> slot list \<Rightarrow> bool" where
  "sound_slots n xs \<longleftrightarrow> distinct (map fst xs) \<and> ascending 0 (map snd xs) n"

lemmas layout_defs = layout_def layout_extent_def place_def open_unit_def start_layout_def capped_def round_up_def

lemma DCB_layout:
  "slots m DCB = [(''DCBlength'', 0, 32), (''BaudRate'', 32, 32), (''fBinary'', 64, 1), (''fParity'', 65, 1),
     (''fOutxCtsFlow'', 66, 1), (''fOutxDsrFlow'', 67, 1), (''fDtrControl'', 68, 2), (''fDsrSensitivity'', 70, 1),
     (''fTXContinueOnXoff'', 71, 1), (''fOutX'', 72, 1), (''fInX'', 73, 1), (''fErrorChar'', 74, 1),
     (''fNull'', 75, 1), (''fRtsControl'', 76, 2), (''fAbortOnError'', 78, 1), (''fDummy2'', 79, 17),
     (''wReserved'', 96, 16), (''XonLim'', 112, 16), (''XoffLim'', 128, 16), (''ByteSize'', 144, 8),
     (''Parity'', 152, 8), (''StopBits'', 160, 8), (''XonChar'', 168, 8), (''XoffChar'', 176, 8),
     (''ErrorChar'', 184, 8), (''EofChar'', 192, 8), (''EvtChar'', 200, 8), (''wReserved1'', 208, 16)]"
  "sizeof m DCB = 28"
  by (simp_all add: DCB_def layout_defs)

lemma sound_DCB: "sound_slots (8 * sizeof m DCB) (slots m DCB)"
  by (simp add: DCB_layout sound_slots_def)

lemmas small_structs = COMMTIMEOUTS_def COMSTAT_def OVERLAPPED_def GUID_def SP_DEVINFO_DATA_def
  SP_DEVICE_INTERFACE_DATA_def SP_DEVICE_INTERFACE_DETAIL_DATA_W_def MAX_PATH_WCHARS_def

lemma sound_small:
  assumes "t \<in> {COMMTIMEOUTS, COMSTAT, OVERLAPPED, GUID, SP_DEVINFO_DATA, SP_DEVICE_INTERFACE_DATA,
      SP_DEVICE_INTERFACE_DETAIL_DATA_W}"
  shows "sound_slots (8 * sizeof x64 t) (slots x64 t)" and "sound_slots (8 * sizeof x86 t) (slots x86 t)"
  subgoal using assms by (elim insertE emptyE; hypsubst)
    (simp_all add: small_structs layout_defs x64_def sound_slots_def)
  subgoal using assms by (elim insertE emptyE; hypsubst)
    (simp_all add: small_structs layout_defs x86_def sound_slots_def)
  done

lemma struct_sound:
  "m \<in> set windows_abis \<Longrightarrow> t \<in> set windows_structs \<Longrightarrow> sound_slots (8 * sizeof m t) (slots m t)"
  using sound_DCB [of m] sound_small [of t] by (auto simp: windows_abis_def windows_structs_def)

lemma sound_slots_apart:
  assumes "sound_slots n xs" "map_of xs f = Some x"
  shows "map_of xs g = Some y \<Longrightarrow> f \<noteq> g \<Longrightarrow> apart x y" and "fits_in n x"
proof -
  have asc: "ascending 0 (map snd xs) n" using assms(1) by (simp add: sound_slots_def)
  have "(f, x) \<in> set xs" by (rule map_of_SomeD [OF assms(2)])
  with ascending_bounds [OF asc] show "fits_in n x" by force
  assume g: "map_of xs g = Some y" and ne: "f \<noteq> g"
  obtain i where i: "i < length xs" "xs ! i = (f, x)" using \<open>(f, x) \<in> set xs\<close> by (auto simp: in_set_conv_nth)
  obtain j where j: "j < length xs" "xs ! j = (g, y)" using map_of_SomeD [OF g] by (auto simp: in_set_conv_nth)
  have sorted: "sorted_wrt apart (map snd xs)" by (rule ascending_apart [OF asc])
  from i j ne have "i \<noteq> j" by auto
  then show "apart x y"
  proof (rule linorder_neqE_nat)
    assume "i < j"
    with sorted_wrt_nth_less [OF sorted, of i j] i j show ?thesis by simp
  next
    assume "j < i"
    with sorted_wrt_nth_less [OF sorted, of j i] i j show ?thesis by (simp add: apart_def disj_commute)
  qed
qed

text \<open>On 64-bit and on 32-bit Windows each structure of the bindings has the size the SDK gives it, and
  assigning one of its fields stores the value modulo the field's width, changes no other field and
  nothing outside the structure.\<close>

theorem struct_fields_independent:
  assumes "m \<in> set windows_abis" and "t \<in> set windows_structs"
    and "field_slot m t f \<noteq> None" and "take_bit (8 * sizeof m t) mem = mem"
  shows "take_bit (8 * sizeof m t) (write_field m t f v mem) = write_field m t f v mem
    \<and> read_field m t g (write_field m t f v mem) =
        (if g = f then take_bit (snd (the (field_slot m t f))) v else read_field m t g mem)
    \<and> (m = x64 \<longrightarrow> map (sizeof m) windows_structs = [28, 20, 12, 32, 16, 32, 32, 1028])
    \<and> (m = x86 \<longrightarrow> map (sizeof m) windows_structs = [28, 20, 12, 20, 16, 28, 28, 1028])"
proof (intro conjI)
  note sound = struct_sound [OF assms(1,2)]
  from assms(3) obtain x where x: "field_slot m t f = Some x" by blast
  note slot = sound_slots_apart [OF sound x [unfolded field_slot_def]]
  show "take_bit (8 * sizeof m t) (write_field m t f v mem) = write_field m t f v mem"
    using set_slot_inside [OF slot(2) assms(4)] x by (simp add: write_field_def)
  show "read_field m t g (write_field m t f v mem) =
      (if g = f then take_bit (snd (the (field_slot m t f))) v else read_field m t g mem)"
    using slot(1) [of g] x
    by (auto simp: write_field_def read_field_def get_set_same field_slot_def get_set_apart split: option.split)
  show "m = x64 \<longrightarrow> map (sizeof m) windows_structs = [28, 20, 12, 32, 16, 32, 32, 1028]"
    by (simp add: windows_structs_def DCB_layout small_structs layout_defs x64_def)
  show "m = x86 \<longrightarrow> map (sizeof m) windows_structs = [28, 20, 12, 20, 16, 28, 28, 1028]"
    by (simp add: windows_structs_def DCB_layout small_structs layout_defs x86_def)
qed

theorem struct_fields_independent_witness:
  "read_field x64 DCB ''fInX'' (write_field x64 DCB ''fRtsControl'' 6 0) = 0
   \<and> read_field x64 DCB ''fRtsControl'' (write_field x64 DCB ''fRtsControl'' 6 0) = 2"
proof -
  have slot: "field_slot x64 DCB ''fRtsControl'' = Some (76, 2)" "field_slot x64 DCB ''fInX'' = Some (73, 1)"
    by (simp_all add: field_slot_def DCB_layout)
  have dom: "x64 \<in> set windows_abis" "DCB \<in> set windows_structs" "field_slot x64 DCB ''fRtsControl'' \<noteq> None"
    "take_bit (8 * sizeof x64 DCB) (0::int) = 0"
    by (simp_all add: windows_abis_def windows_structs_def slot)
  have zero: "read_field x64 DCB ''fInX'' 0 = 0"
    by (simp add: read_field_def slot get_slot_def)
  have two: "take_bit 2 (6::int) = 2" by simp
  show ?thesis
    using struct_fields_independent [OF dom, of 6 "''fInX''"]
      struct_fields_independent [OF dom, of 6 "''fRtsControl''"]
    by (simp add: slot zero two)
qed

subsection \<open>The control block in memory\<close>

lemma read_write_fields:
  assumes "sound_slots n (slots m t)" "distinct (map fst vs)" "(f, v) \<in> set vs" "field_slot m t f = Some x"
  shows "read_field m t f (write_fields m t vs mem) = take_bit (snd x) v"
  using assms(2,3)
proof (induction vs arbitrary: mem rule: rev_induct)
  case (snoc p vs)
  obtain g w where p: "p = (g, w)" by fastforce
  show ?case
  proof (cases "g = f")
    case True
    with snoc p have "w = v" by (force simp: image_iff)
    with True p assms(4) show ?thesis
      by (simp add: write_fields_def write_field_def read_field_def get_set_same)
  next
    case False
    with snoc p have "read_field m t f (write_fields m t vs mem) = take_bit (snd x) v" by auto
    with False p assms(1,4) show ?thesis
      using sound_slots_apart(1) [of n "slots m t" g _ f x]
      by (auto simp: write_fields_def write_field_def read_field_def field_slot_def get_set_apart split: option.split)
  qed
qed simp

lemma bit_write_fields:
  assumes "\<And>f v x. (f, v) \<in> set vs \<Longrightarrow> field_slot m t f = Some x \<Longrightarrow> take_bit (snd x) v = get_slot x mem"
  shows "bit (write_fields m t vs mem0) i \<longleftrightarrow>
    (if \<exists>f v x. (f, v) \<in> set vs \<and> field_slot m t f = Some x \<and> fst x \<le> i \<and> i < fst x + snd x
     then bit mem i else bit mem0 i)"
  using assms
proof (induction vs rule: rev_induct)
  case (snoc p vs)
  obtain f v where p: "p = (f, v)" by fastforce
  have IH: "bit (write_fields m t vs mem0) i \<longleftrightarrow>
    (if \<exists>f v x. (f, v) \<in> set vs \<and> field_slot m t f = Some x \<and> fst x \<le> i \<and> i < fst x + snd x
     then bit mem i else bit mem0 i)"
    by (rule snoc.IH) (use snoc.prems in auto)
  show ?case
  proof (cases "field_slot m t f")
    case None
    then show ?thesis using IH p by (auto simp: write_fields_def write_field_def)
  next
    case (Some x)
    have "bit v (i - fst x) \<longleftrightarrow> bit mem i" if "fst x \<le> i" "i < fst x + snd x"
      using snoc.prems [of f v x] that p Some bit_get_slot [of x mem "i - fst x"]
        bit_take_bit_iff [of "snd x" v "i - fst x"] by auto
    then show ?thesis using IH p Some by (auto simp: write_fields_def write_field_def bit_set_slot)
  qed
qed (simp add: write_fields_def)

fun contiguous :: "nat \<Rightarrow> (nat \<times> nat) list \<Rightarrow> nat \<Rightarrow> bool" where
  "contiguous a [] b \<longleftrightarrow> a = b"
| "contiguous a (x # xs) b \<longleftrightarrow> fst x = a \<and> contiguous (a + snd x) xs b"

lemma contiguous_covers: "contiguous a xs b \<Longrightarrow> a \<le> i \<Longrightarrow> i < b \<Longrightarrow> \<exists>x\<in>set xs. fst x \<le> i \<and> i < fst x + snd x"
proof (induction a xs b rule: contiguous.induct)
  case (2 a x xs b)
  then show ?case by (cases "i < a + snd x") auto
qed simp

definition dcb_values :: "dcb \<Rightarrow> (string \<times> int) list" where
  "dcb_values d =
    [(''DCBlength'', uint (d_DCBlength d)), (''BaudRate'', uint (d_BaudRate d)), (''fBinary'', uint (d_fBinary d)),
     (''fParity'', uint (d_fParity d)), (''fOutxCtsFlow'', uint (d_fOutxCtsFlow d)),
     (''fOutxDsrFlow'', uint (d_fOutxDsrFlow d)), (''fDtrControl'', uint (d_fDtrControl d)),
     (''fDsrSensitivity'', uint (d_fDsrSensitivity d)), (''fTXContinueOnXoff'', uint (d_fTXContinueOnXoff d)),
     (''fOutX'', uint (d_fOutX d)), (''fInX'', uint (d_fInX d)), (''fErrorChar'', uint (d_fErrorChar d)),
     (''fNull'', uint (d_fNull d)), (''fRtsControl'', uint (d_fRtsControl d)),
     (''fAbortOnError'', uint (d_fAbortOnError d)), (''fDummy2'', uint (d_fDummy2 d)),
     (''wReserved'', uint (d_wReserved d)), (''XonLim'', uint (d_XonLim d)), (''XoffLim'', uint (d_XoffLim d)),
     (''ByteSize'', uint (d_ByteSize d)), (''Parity'', uint (d_Parity d)), (''StopBits'', uint (d_StopBits d)),
     (''XonChar'', uint (d_XonChar d)), (''XoffChar'', uint (d_XoffChar d)), (''ErrorChar'', uint (d_ErrorChar d)),
     (''EofChar'', uint (d_EofChar d)), (''EvtChar'', uint (d_EvtChar d)), (''wReserved1'', uint (d_wReserved1 d))]"

definition dcb_to_mem :: "abi \<Rightarrow> dcb \<Rightarrow> int" where
  "dcb_to_mem m d = write_fields m DCB (dcb_values d) 0"

definition dcb_of_mem :: "abi \<Rightarrow> int \<Rightarrow> dcb" where
  "dcb_of_mem m mem = \<lparr>d_DCBlength = word_of_int (read_field m DCB ''DCBlength'' mem),
     d_BaudRate = word_of_int (read_field m DCB ''BaudRate'' mem),
     d_fBinary = word_of_int (read_field m DCB ''fBinary'' mem),
     d_fParity = word_of_int (read_field m DCB ''fParity'' mem),
     d_fOutxCtsFlow = word_of_int (read_field m DCB ''fOutxCtsFlow'' mem),
     d_fOutxDsrFlow = word_of_int (read_field m DCB ''fOutxDsrFlow'' mem),
     d_fDtrControl = word_of_int (read_field m DCB ''fDtrControl'' mem),
     d_fDsrSensitivity = word_of_int (read_field m DCB ''fDsrSensitivity'' mem),
     d_fTXContinueOnXoff = word_of_int (read_field m DCB ''fTXContinueOnXoff'' mem),
     d_fOutX = word_of_int (read_field m DCB ''fOutX'' mem),
     d_fInX = word_of_int (read_field m DCB ''fInX'' mem),
     d_fErrorChar = word_of_int (read_field m DCB ''fErrorChar'' mem),
     d_fNull = word_of_int (read_field m DCB ''fNull'' mem),
     d_fRtsControl = word_of_int (read_field m DCB ''fRtsControl'' mem),
     d_fAbortOnError = word_of_int (read_field m DCB ''fAbortOnError'' mem),
     d_fDummy2 = word_of_int (read_field m DCB ''fDummy2'' mem),
     d_wReserved = word_of_int (read_field m DCB ''wReserved'' mem),
     d_XonLim = word_of_int (read_field m DCB ''XonLim'' mem),
     d_XoffLim = word_of_int (read_field m DCB ''XoffLim'' mem),
     d_ByteSize = word_of_int (read_field m DCB ''ByteSize'' mem),
     d_Parity = word_of_int (read_field m DCB ''Parity'' mem),
     d_StopBits = word_of_int (read_field m DCB ''StopBits'' mem),
     d_XonChar = word_of_int (read_field m DCB ''XonChar'' mem),
     d_XoffChar = word_of_int (read_field m DCB ''XoffChar'' mem),
     d_ErrorChar = word_of_int (read_field m DCB ''ErrorChar'' mem),
     d_EofChar = word_of_int (read_field m DCB ''EofChar'' mem),
     d_EvtChar = word_of_int (read_field m DCB ''EvtChar'' mem),
     d_wReserved1 = word_of_int (read_field m DCB ''wReserved1'' mem)\<rparr>"

lemma dcb_names: "map fst (dcb_values d) = map fst (slots m DCB)"
  by (simp add: dcb_values_def DCB_layout)

lemma read_dcb_field:
  assumes "(f, v) \<in> set (dcb_values d)" "field_slot m DCB f = Some x"
  shows "read_field m DCB f (dcb_to_mem m d) = take_bit (snd x) v"
  unfolding dcb_to_mem_def
  by (rule read_write_fields [OF sound_DCB _ assms])
    (use sound_DCB [of m] in \<open>simp add: dcb_names [of d m] sound_slots_def\<close>)

text \<open>The record of theory \<open>Windows_Dcb\<close> is the 28 bytes of the structure, no more and no less.\<close>

lemma take_bit_uint: "take_bit LENGTH('a) (uint (w :: 'a::len word)) = uint w"
  by (rule bit_eqI) (simp add: bit_take_bit_iff bit_uint_iff)

lemmas take_bit_uints = take_bit_uint [where 'a = 1, simplified] take_bit_uint [where 'a = 2, simplified]
  take_bit_uint [where 'a = 8, simplified] take_bit_uint [where 'a = 16, simplified]
  take_bit_uint [where 'a = 17, simplified] take_bit_uint [where 'a = 32, simplified]

lemma dcb_values_fit: "list_all (\<lambda>(f, v). \<exists>x. field_slot m DCB f = Some x \<and> take_bit (snd x) v = v) (dcb_values d)"
  by (simp add: dcb_values_def field_slot_def DCB_layout take_bit_uints)

lemma read_dcb_fields: "list_all (\<lambda>(f, v). read_field m DCB f (dcb_to_mem m d) = v) (dcb_values d)"
  using dcb_values_fit [of m d] read_dcb_field [of _ _ d m] by (fastforce simp: list_all_iff)

lemma dcb_of_to_mem: "dcb_of_mem m (dcb_to_mem m d) = d"
  using read_dcb_fields [of m d] by (simp add: dcb_of_mem_def dcb_values_def)

lemma dcb_values_of_mem:
  "dcb_values (dcb_of_mem m mem) = map (\<lambda>(f, _, w). (f, take_bit w (read_field m DCB f mem))) (slots m DCB)"
  by (simp add: dcb_values_def dcb_of_mem_def DCB_layout uint_word_of_int_eq)

lemma dcb_to_of_mem:
  assumes "take_bit 224 mem = mem"
  shows "dcb_to_mem m (dcb_of_mem m mem) = mem"
proof (rule bit_eqI)
  fix i
  have vals: "take_bit (snd x) v = get_slot x mem"
    if fv: "(f, v) \<in> set (dcb_values (dcb_of_mem m mem))" and x: "field_slot m DCB f = Some x" for f v x
  proof -
    from fv obtain l w where "(f, l, w) \<in> set (slots m DCB)" "v = take_bit w (read_field m DCB f mem)"
      unfolding dcb_values_of_mem by auto
    then have "field_slot m DCB f = Some (l, w)"
      using sound_DCB [of m] by (simp add: field_slot_def sound_slots_def)
    with x \<open>v = _\<close> show ?thesis by (auto simp: read_field_def get_slot_def)
  qed
  have cover: "\<exists>f v x. (f, v) \<in> set (dcb_values (dcb_of_mem m mem)) \<and> field_slot m DCB f = Some x \<and> fst x \<le> i \<and> i < fst x + snd x"
    if i: "i < 224"
  proof -
    have "contiguous 0 (map snd (slots m DCB)) 224" by (simp add: DCB_layout)
    from contiguous_covers [OF this _ i] obtain f x where x: "(f, x) \<in> set (slots m DCB)" "fst x \<le> i" "i < fst x + snd x"
      by auto
    have "field_slot m DCB f = Some x"
      using x(1) sound_DCB [of m] by (simp add: field_slot_def sound_slots_def)
    moreover from x(1) have "f \<in> set (map fst (dcb_values (dcb_of_mem m mem)))"
      unfolding dcb_names [of _ m] by force
    then obtain v where "(f, v) \<in> set (dcb_values (dcb_of_mem m mem))" by auto
    ultimately show ?thesis using x(2,3) by blast
  qed
  have "bit (dcb_to_mem m (dcb_of_mem m mem)) i \<longleftrightarrow>
    (if \<exists>f v x. (f, v) \<in> set (dcb_values (dcb_of_mem m mem)) \<and> field_slot m DCB f = Some x
        \<and> fst x \<le> i \<and> i < fst x + snd x then bit mem i else bit (0 :: int) i)"
    unfolding dcb_to_mem_def by (rule bit_write_fields) (rule vals)
  moreover have "bit mem i \<Longrightarrow> i < 224" using assms by (metis bit_take_bit_iff)
  ultimately show "bit (dcb_to_mem m (dcb_of_mem m mem)) i \<longleftrightarrow> bit mem i"
    using cover by (cases "i < 224") auto
qed

end
