(* ===== verification/Setup_Api.thy ===== *)
theory Setup_Api
  imports C_Layout Windows_Discovery
begin

section \<open>The SetupAPI bindings and the calls of the Windows walk (\<open>_windows/_setupapi.py\<close>)\<close>

text \<open>
  Theory \<open>Windows_Discovery\<close> describes discovery by what Windows stores in the buffers it is given. Here
  are the calls themselves: \<open>load_setupapi\<close>, the buffers and structure sizes each call passes, the two
  loops that end when Windows says so, and the release of the device list and of the registry key.
  Windows is a parameter: \<open>sp_answer\<close> answers a call from the calls before it, or raises.
\<close>

definition DIGCF_PRESENT :: int where "DIGCF_PRESENT = 2"
definition DIGCF_DEVICEINTERFACE :: int where "DIGCF_DEVICEINTERFACE = 0x10"
definition MAX_DEVICE_ID_LEN :: nat where "MAX_DEVICE_ID_LEN = 200"

subsection \<open>Calls\<close>

text \<open>A call with its varying arguments. \<open>SetupDiEnumDeviceInterfaces\<close> carries the index and the
  \<open>cbSize\<close> of the element it fills; \<open>SetupDiGetDeviceInterfaceDetailW\<close> the \<open>cbSize\<close> of the detail, the
  size of its buffer and the \<open>cbSize\<close> of the device element; the next two the size of the buffer. What
  Windows writes into an interface or device element is a token that later calls pass back.\<close>

datatype sp_call =
    SetupDiGetClassDevsW int
  | SetupDiEnumDeviceInterfaces int nat nat
  | SetupDiGetDeviceInterfaceDetailW int nat nat nat nat
  | SetupDiGetDeviceRegistryPropertyW int nat nat nat
  | SetupDiGetDeviceInstanceIdW int nat nat
  | SetupDiDestroyDeviceInfoList int
  | Winreg_OpenKey
  | Winreg_EnumValue nat
  | Winreg_Close

text \<open>The value of a function that returns a handle (\<open>None\<close> is NULL), the truth of the others, and what
  was stored.\<close>

record sp_reply =
  sr_handle :: "int option"
  sr_ok :: bool
  sr_token :: nat
  sr_text :: "string option"

type_synonym sp_log = "(sp_call \<times> (exn + sp_reply)) list"

record sp_env =
  sp_platform :: string
  sp_windll :: bool
  sp_bind :: "exn option"
  sp_abi :: abi
  sp_winreg :: bool
  sp_answer :: "sp_log \<Rightarrow> sp_call \<Rightarrow> exn + sp_reply"

record setup_state =
  st_env :: sp_env
  st_log :: sp_log
  st_cached :: bool

type_synonym 'a setup_io = "(setup_state, exn, 'a) io"

definition sp_ask :: "sp_call \<Rightarrow> sp_reply setup_io" where
  "sp_ask c = (\<lambda>s. let r = sp_answer (st_env s) (st_log s) c in (r, s\<lparr>st_log := st_log s @ [(c, r)]\<rparr>))"

definition load_setupapi :: "unit setup_io" where
  "load_setupapi =
     io_bind (io_get st_cached) (\<lambda>cached. if cached then io_return () else
     io_bind (io_get st_env) (\<lambda>env.
       if sp_platform env \<noteq> ''win32'' \<or> \<not> sp_windll env then io_raise (exn_msg UnsupportedPlatformError)
       else case sp_bind env of
           Some e \<Rightarrow> io_raise e
         | None \<Rightarrow> io_modify (\<lambda>s. s\<lparr>st_cached := True\<rparr>)))"

text \<open>\<open>.value\<close> of a character buffer: up to the first NUL. \<open>ctypes\<close> buffers start zeroed.\<close>

definition c_text :: "string \<Rightarrow> string" where
  "c_text t = takeWhile (\<lambda>c. c \<noteq> CHR 0x00) t"

definition reply_text :: "sp_reply \<Rightarrow> string option" where
  "reply_text a =
     (if sr_ok a then Some (case sr_text a of None \<Rightarrow> [] | Some t \<Rightarrow> c_text t) else None)"

subsection \<open>One interface\<close>

definition sp_abi_of :: "abi setup_io" where "sp_abi_of = io_get (\<lambda>s. sp_abi (st_env s))"

definition REGISTRY_CHARS :: nat where "REGISTRY_CHARS = 1024"

definition sp_registry_value :: "int \<Rightarrow> nat \<Rightarrow> nat \<Rightarrow> string option setup_io" where
  "sp_registry_value h dev prop =
     io_bind sp_abi_of (\<lambda>m.
     io_bind (sp_ask (SetupDiGetDeviceRegistryPropertyW h dev prop (sizeof m (C_array C_wchar REGISTRY_CHARS)))) (\<lambda>a.
     io_return (reply_text a)))"

definition sp_instance_id :: "int \<Rightarrow> nat \<Rightarrow> string option setup_io" where
  "sp_instance_id h dev =
     io_bind (sp_ask (SetupDiGetDeviceInstanceIdW h dev (MAX_DEVICE_ID_LEN + 1))) (\<lambda>a. io_return (reply_text a))"

definition sp_detail :: "int \<Rightarrow> nat \<Rightarrow> sp_reply setup_io" where
  "sp_detail h iface =
     io_bind sp_abi_of (\<lambda>m.
     sp_ask (SetupDiGetDeviceInterfaceDetailW h iface (detail_cb_size m)
       (sizeof m SP_DEVICE_INTERFACE_DETAIL_DATA_W) (sizeof m SP_DEVINFO_DATA)))"

text \<open>\<open>_resolve_interface\<close>: the calls in their order; what they stored is then put together by
  \<open>resolve_interface\<close> of theory \<open>Windows_Discovery\<close>.\<close>

definition stored_properties :: "string option \<Rightarrow> string option \<Rightarrow> string option \<Rightarrow> nat \<Rightarrow> string option" where
  "stored_properties friendly hardware_id location prop =
     (if prop = SPDRP_FRIENDLYNAME then friendly
      else if prop = SPDRP_HARDWAREID then hardware_id
      else if prop = SPDRP_LOCATION_INFORMATION then location else None)"

definition sp_resolve_interface :: "int \<Rightarrow> nat \<Rightarrow> port_info option setup_io" where
  "sp_resolve_interface h iface =
     io_bind (sp_detail h iface) (\<lambda>a.
       if reply_text a = None then io_return None
       else
         io_bind (sp_registry_value h (sr_token a) SPDRP_FRIENDLYNAME) (\<lambda>friendly.
         io_bind (sp_registry_value h (sr_token a) SPDRP_HARDWAREID) (\<lambda>hardware_id.
         io_bind (sp_registry_value h (sr_token a) SPDRP_LOCATION_INFORMATION) (\<lambda>location.
         io_bind (sp_instance_id h (sr_token a)) (\<lambda>instance_id.
         io_return (resolve_interface \<lparr>ci_device_path = reply_text a,
           ci_property = stored_properties friendly hardware_id location, ci_instance_id = instance_id\<rparr>))))))"

subsection \<open>The loops\<close>

text \<open>Runs that may not end: \<open>None\<close> is a loop that Windows keeps going for ever.\<close>

type_synonym 'a walk = "setup_state \<Rightarrow> ((exn + 'a) \<times> setup_state) option"

definition walk_io :: "'a setup_io \<Rightarrow> 'a walk" where
  "walk_io m s = Some (m s)"

definition walk_bind :: "'a walk \<Rightarrow> ('a \<Rightarrow> 'b walk) \<Rightarrow> 'b walk" where
  "walk_bind m f s =
     (case m s of None \<Rightarrow> None
      | Some (Inl e, s') \<Rightarrow> Some (Inl e, s')
      | Some (Inr x, s') \<Rightarrow> f x s')"

definition walk_finally :: "'a walk \<Rightarrow> unit setup_io \<Rightarrow> 'a walk" where
  "walk_finally m c s =
     (case m s of None \<Rightarrow> None | Some (r, s') \<Rightarrow> Some (io_finally (io_lift r) c s'))"

definition sp_enum :: "int \<Rightarrow> nat \<Rightarrow> nat option setup_io" where
  "sp_enum h index =
     io_bind sp_abi_of (\<lambda>m.
     io_bind (sp_ask (SetupDiEnumDeviceInterfaces h (index mod 2 ^ 32) (sizeof m SP_DEVICE_INTERFACE_DATA))) (\<lambda>a.
     io_return (if sr_ok a then Some (sr_token a) else None)))"

partial_function (option) interface_loop ::
    "int \<Rightarrow> nat \<Rightarrow> port_info list \<Rightarrow> port_info list walk" where
  "interface_loop h index ports s =
     (case sp_enum h index s of
        (Inl e, s1) \<Rightarrow> Some (Inl e, s1)
      | (Inr None, s1) \<Rightarrow> Some (Inr ports, s1)
      | (Inr (Some iface), s1) \<Rightarrow>
          (case sp_resolve_interface h iface s1 of
             (Inl e, s2) \<Rightarrow> Some (Inl e, s2)
           | (Inr info, s2) \<Rightarrow>
               interface_loop h (Suc index) (case info of None \<Rightarrow> ports | Some p \<Rightarrow> ports @ [p]) s2))"

definition invalid_list :: "abi \<Rightarrow> int option \<Rightarrow> bool" where
  "invalid_list m h \<longleftrightarrow> h = None \<or> h = Some (INVALID_HANDLE_VALUE mod 2 ^ (8 * sizeof m C_void_p))"

definition sp_open_list :: "int option setup_io" where
  "sp_open_list =
     io_bind sp_abi_of (\<lambda>m.
     io_bind (sp_ask (SetupDiGetClassDevsW (DIGCF_PRESENT OR DIGCF_DEVICEINTERFACE))) (\<lambda>a.
     io_return (if invalid_list m (sr_handle a) then None else sr_handle a)))"

definition setupapi_walk :: "port_info list walk" where
  "setupapi_walk =
     walk_bind (walk_io (io_seq load_setupapi sp_open_list)) (\<lambda>list.
       case list of
         None \<Rightarrow> walk_io (io_return [])
       | Some h \<Rightarrow> walk_finally (interface_loop h 0 []) (io_seq (sp_ask (SetupDiDestroyDeviceInfoList h)) (io_return ())))"

text \<open>\<open>_enumerate_registry_fallback\<close>: \<open>with key\<close> closes the key whatever happens.\<close>

partial_function (option) value_loop :: "nat \<Rightarrow> port_info list \<Rightarrow> port_info list walk" where
  "value_loop index ports s =
     (case sp_ask (Winreg_EnumValue index) s of
        (Inl e, s1) \<Rightarrow> if isinstance e OSError then Some (Inr ports, s1) else Some (Inl e, s1)
      | (Inr a, s1) \<Rightarrow>
          value_loop (Suc index)
            (if truthy (sr_text a) then ports @ [bare_port (the (sr_text a)) (sr_text a)] else ports) s1)"

definition open_key :: "bool setup_io" where
  "open_key =
     io_try (io_seq (sp_ask Winreg_OpenKey) (io_return True))
       (\<lambda>e. if isinstance e OSError then io_return False else io_raise e)"

definition registry_walk :: "port_info list walk" where
  "registry_walk =
     walk_bind (walk_io (io_get (\<lambda>s. sp_winreg (st_env s)))) (\<lambda>winreg.
       if \<not> winreg then walk_io (io_return [])
       else walk_bind (walk_io open_key) (\<lambda>opened.
         if \<not> opened then walk_io (io_return [])
         else walk_finally (value_loop 0 []) (io_seq (sp_ask Winreg_Close) (io_return ()))))"

definition enumerate_walk :: "port_info list walk" where
  "enumerate_walk =
     walk_bind setupapi_walk (\<lambda>found.
     walk_bind (if found = [] then registry_walk else walk_io (io_return found)) (\<lambda>ports.
       walk_io (io_return (sort_key pi_device ports))))"

definition resolve_walk :: "string \<Rightarrow> port_info option walk" where
  "resolve_walk path =
     (let wanted = windows_canonical path; is_wanted = (\<lambda>p. windows_canonical (pi_device p) = wanted) in
      walk_bind setupapi_walk (\<lambda>found.
        case find is_wanted found of
          Some p \<Rightarrow> walk_io (io_return (Some p))
        | None \<Rightarrow> walk_bind registry_walk (\<lambda>found. walk_io (io_return (find is_wanted found)))))"

subsection \<open>What Windows documents\<close>

text \<open>
  A Windows host with COM-port devices and \<open>SERIALCOMM\<close> values. The structure sizes are those of the SDK
  for each pointer size: an element whose \<open>cbSize\<close> is wrong is refused, and so is a buffer in which the
  text does not fit with its NUL.
\<close>

record com_device =
  dv_path :: string
  dv_property :: "nat \<Rightarrow> string option"
  dv_instance :: "string option"

record windows_host =
  wh_list :: "int option"
  wh_devices :: "com_device list"
  wh_winreg :: bool
  wh_key :: bool
  wh_values :: "string option list"

definition yes :: "nat \<Rightarrow> string option \<Rightarrow> exn + sp_reply" where
  "yes token txt = Inr \<lparr>sr_handle = None, sr_ok = True, sr_token = token, sr_text = txt\<rparr>"

definition no :: "exn + sp_reply" where
  "no = Inr \<lparr>sr_handle = None, sr_ok = False, sr_token = 0, sr_text = None\<rparr>"

definition fitting :: "nat \<Rightarrow> nat \<Rightarrow> string option \<Rightarrow> exn + sp_reply" where
  "fitting token chars txt =
     (case txt of None \<Rightarrow> no | Some t \<Rightarrow> if length t < chars then yes token (Some t) else no)"

definition sdk_element_size :: "abi \<Rightarrow> nat" where "sdk_element_size m = (if m = x64 then 32 else 28)"
definition sdk_detail_size :: "abi \<Rightarrow> nat" where "sdk_detail_size m = (if m = x64 then 8 else 6)"

fun host_answer :: "windows_host \<Rightarrow> abi \<Rightarrow> sp_call \<Rightarrow> exn + sp_reply" where
  "host_answer w m (SetupDiGetClassDevsW flags) =
     Inr \<lparr>sr_handle = (if flags = 0x12 \<and> wh_list w \<noteq> None then wh_list w else Some (2 ^ (8 * abi_pointer m) - 1)),
       sr_ok = True, sr_token = 0, sr_text = None\<rparr>"
| "host_answer w m (SetupDiEnumDeviceInterfaces h i cb) =
     (if wh_list w = Some h \<and> i < length (wh_devices w) \<and> cb = sdk_element_size m then yes i None else no)"
| "host_answer w m (SetupDiGetDeviceInterfaceDetailW h i cb size' dev_cb) =
     (if wh_list w = Some h \<and> i < length (wh_devices w) \<and> cb = sdk_detail_size m \<and> dev_cb = sdk_element_size m
      then fitting i ((size' - 4) div 2) (Some (dv_path (wh_devices w ! i))) else no)"
| "host_answer w m (SetupDiGetDeviceRegistryPropertyW h i prop size') =
     (if wh_list w = Some h \<and> i < length (wh_devices w)
      then fitting i (size' div 2) (dv_property (wh_devices w ! i) prop) else no)"
| "host_answer w m (SetupDiGetDeviceInstanceIdW h i chars) =
     (if wh_list w = Some h \<and> i < length (wh_devices w)
      then fitting i chars (dv_instance (wh_devices w ! i)) else no)"
| "host_answer w m (SetupDiDestroyDeviceInfoList h) = yes 0 None"
| "host_answer w m Winreg_OpenKey = (if wh_key w then yes 0 None else Inl (exn_msg OSError))"
| "host_answer w m (Winreg_EnumValue i) =
     (if i < length (wh_values w) then yes 0 (wh_values w ! i) else Inl (exn_msg OSError))"
| "host_answer w m Winreg_Close = yes 0 None"

definition runs_on :: "windows_host \<Rightarrow> sp_env \<Rightarrow> bool" where
  "runs_on w env \<longleftrightarrow> sp_platform env = ''win32'' \<and> sp_windll env \<and> sp_bind env = None
     \<and> (sp_abi env = x64 \<or> sp_abi env = x86) \<and> sp_winreg env = wh_winreg w
     \<and> sp_answer env = (\<lambda>_. host_answer w (sp_abi env))
     \<and> wh_list w \<noteq> Some (2 ^ (8 * abi_pointer (sp_abi env)) - 1) \<and> length (wh_devices w) < 2 ^ 32"

text \<open>What the walk can see of it: texts up to their first NUL, if they fit the buffers.\<close>

definition seen_text :: "nat \<Rightarrow> string option \<Rightarrow> string option" where
  "seen_text chars txt =
     (case txt of None \<Rightarrow> None | Some t \<Rightarrow> if length t < chars then Some (c_text t) else None)"

definition seen :: "com_device \<Rightarrow> com_interface" where
  "seen d = \<lparr>ci_device_path = seen_text 512 (Some (dv_path d)),
     ci_property = (\<lambda>prop. seen_text 1024 (dv_property d prop)), ci_instance_id = seen_text 201 (dv_instance d)\<rparr>"

definition api_of :: "windows_host \<Rightarrow> setup_api" where
  "api_of w = \<lparr>sa_load = Inr (), sa_dev_info = (wh_list w \<noteq> None),
     sa_interfaces = map seen (wh_devices w), sa_winreg = wh_winreg w, sa_open_key = wh_key w,
     sa_values = wh_values w\<rparr>"

subsection \<open>The walk on a documented host\<close>

lemma wp_sp_ask [wp_simps]:
  "wp (sp_ask c) Q E s \<longleftrightarrow>
     (let r = sp_answer (st_env s) (st_log s) c; s' = s\<lparr>st_log := st_log s @ [(c, r)]\<rparr> in
      case r of Inl e \<Rightarrow> E e s' | Inr a \<Rightarrow> Q a s')"
  by (auto simp: wp_def sp_ask_def Let_def split: sum.splits)

lemma structs_on_windows:
  "m = x64 \<or> m = x86 \<Longrightarrow> sizeof m SP_DEVICE_INTERFACE_DATA = sdk_element_size m"
  "m = x64 \<or> m = x86 \<Longrightarrow> sizeof m SP_DEVINFO_DATA = sdk_element_size m"
  "m = x64 \<or> m = x86 \<Longrightarrow> detail_cb_size m = sdk_detail_size m"
  "m = x64 \<or> m = x86 \<Longrightarrow> sizeof m SP_DEVICE_INTERFACE_DETAIL_DATA_W = 1028"
  "m = x64 \<or> m = x86 \<Longrightarrow> sizeof m (C_array C_wchar REGISTRY_CHARS) = 2048"
  by (auto simp: small_structs layout_defs x64_def x86_def sdk_element_size_def sdk_detail_size_def
      detail_cb_size_def REGISTRY_CHARS_def)

text \<open>\<open>gives m s x\<close>: from \<open>s\<close> the run returns \<open>x\<close>, on the same host.\<close>

definition gives :: "'a setup_io \<Rightarrow> setup_state \<Rightarrow> 'a \<Rightarrow> bool" where
  "gives m s x \<longleftrightarrow> wp m (\<lambda>y s'. y = x \<and> st_env s' = st_env s) (\<lambda>_ _. False) s"

lemma gives_run: "gives m s x \<Longrightarrow> \<exists>s'. m s = (Inr x, s') \<and> st_env s' = st_env s"
  by (auto simp: gives_def wp_def split: prod.splits sum.splits)

lemma gives_bind: "gives m s x \<Longrightarrow> (\<And>s' :: setup_state. st_env s' = st_env s \<Longrightarrow> gives (f x) s' y) \<Longrightarrow> gives (io_bind m f) s y"
  unfolding gives_def wp_bind by (erule wp_mono) auto

lemma gives_return: "gives (io_return x) s x"
  by (simp add: gives_def wp_simps)

lemma gives_abi: "gives sp_abi_of s (sp_abi (st_env s))"
  by (simp add: gives_def sp_abi_of_def wp_simps)

lemma gives_ask: "runs_on w (st_env s) \<Longrightarrow> host_answer w (sp_abi (st_env s)) c = Inr a \<Longrightarrow> gives (sp_ask c) s a"
  by (simp add: gives_def wp_simps runs_on_def Let_def)

lemma fitting_ok:
  obtains a where "fitting i n txt = Inr a" "reply_text a = seen_text n txt" "seen_text n txt \<noteq> None \<Longrightarrow> sr_token a = i"
proof (cases "\<exists>t. txt = Some t \<and> length t < n")
  case True
  then show ?thesis
    by (intro that [of "\<lparr>sr_handle = None, sr_ok = True, sr_token = i, sr_text = txt\<rparr>"])
      (auto simp: fitting_def seen_text_def yes_def reply_text_def)
next
  case False
  then show ?thesis
    by (intro that [of "\<lparr>sr_handle = None, sr_ok = False, sr_token = 0, sr_text = None\<rparr>"])
      (auto simp: fitting_def seen_text_def no_def reply_text_def split: option.splits)
qed

lemma windows_abi: "runs_on w env \<Longrightarrow> sp_abi env = x64 \<or> sp_abi env = x86"
  by (simp add: runs_on_def)

lemma gives_value:
  assumes on: "runs_on w (st_env s)" and dev: "wh_list w = Some h" "i < length (wh_devices w)"
  shows "gives (sp_registry_value h i prop) s (ci_property (seen (wh_devices w ! i)) prop)"
    and "gives (sp_instance_id h i) s (ci_instance_id (seen (wh_devices w ! i)))"
proof -
  obtain a where a: "fitting i 1024 (dv_property (wh_devices w ! i) prop) = Inr a"
    "reply_text a = ci_property (seen (wh_devices w ! i)) prop"
    by (rule fitting_ok [of i 1024 "dv_property (wh_devices w ! i) prop"]) (simp add: seen_def)
  show "gives (sp_registry_value h i prop) s (ci_property (seen (wh_devices w ! i)) prop)"
    unfolding sp_registry_value_def a(2) [symmetric]
    by (rule gives_bind [OF gives_abi], rule gives_bind, rule gives_ask [of w])
      (use on dev a(1) structs_on_windows(5) [OF windows_abi [OF on]] in \<open>auto intro: gives_return\<close>)
  obtain a where a: "fitting i 201 (dv_instance (wh_devices w ! i)) = Inr a"
    "reply_text a = ci_instance_id (seen (wh_devices w ! i))"
    by (rule fitting_ok [of i 201 "dv_instance (wh_devices w ! i)"]) (simp add: seen_def)
  show "gives (sp_instance_id h i) s (ci_instance_id (seen (wh_devices w ! i)))"
    unfolding sp_instance_id_def a(2) [symmetric]
    by (rule gives_bind, rule gives_ask [of w])
      (use on dev a(1) in \<open>auto simp: MAX_DEVICE_ID_LEN_def intro: gives_return\<close>)
qed

lemma gives_resolve:
  assumes "runs_on w (st_env s)" "wh_list w = Some h" "i < length (wh_devices w)"
  shows "gives (sp_resolve_interface h i) s (resolve_interface (seen (wh_devices w ! i)))"
proof -
  let ?d = "wh_devices w ! i"
  note read = gives_value [OF _ assms(2,3)]
  obtain a where a: "fitting i 512 (Some (dv_path ?d)) = Inr a" "reply_text a = ci_device_path (seen ?d)"
    "ci_device_path (seen ?d) \<noteq> None \<Longrightarrow> sr_token a = i"
    by (rule fitting_ok [of i 512 "Some (dv_path ?d)"]) (simp add: seen_def)
  have detail: "gives (sp_detail h i) s a"
    unfolding sp_detail_def
    by (rule gives_bind [OF gives_abi], rule gives_ask [of w])
      (use assms a(1) structs_on_windows(2-4) [OF windows_abi [OF assms(1)]] in auto)
  show ?thesis
    unfolding sp_resolve_interface_def
  proof (rule gives_bind [OF detail])
    fix s' :: setup_state assume "st_env s' = st_env s"
    with assms(1) have on: "runs_on w (st_env s')" by simp
    show "gives (if reply_text a = None then io_return None else
        io_bind (sp_registry_value h (sr_token a) SPDRP_FRIENDLYNAME) (\<lambda>friendly.
        io_bind (sp_registry_value h (sr_token a) SPDRP_HARDWAREID) (\<lambda>hardware_id.
        io_bind (sp_registry_value h (sr_token a) SPDRP_LOCATION_INFORMATION) (\<lambda>location.
        io_bind (sp_instance_id h (sr_token a)) (\<lambda>instance_id.
        io_return (resolve_interface \<lparr>ci_device_path = reply_text a,
           ci_property = stored_properties friendly hardware_id location, ci_instance_id = instance_id\<rparr>))))))
      s' (resolve_interface (seen ?d))"
    proof (cases "reply_text a = None")
      case True
      with a(2) show ?thesis using gives_return [of None s'] by (simp add: resolve_interface_def)
    next
      case False
      with a have tok: "sr_token a = i" by simp
      have same: "resolve_interface \<lparr>ci_device_path = reply_text a, ci_property = stored_properties
            (ci_property (seen ?d) SPDRP_FRIENDLYNAME) (ci_property (seen ?d) SPDRP_HARDWAREID)
            (ci_property (seen ?d) SPDRP_LOCATION_INFORMATION), ci_instance_id = ci_instance_id (seen ?d)\<rparr>
          = resolve_interface (seen ?d)"
        by (cases "ci_device_path (seen ?d)")
          (simp_all add: resolve_interface_def a(2) get_registry_string_def get_instance_id_def stored_properties_def
            SPDRP_FRIENDLYNAME_def SPDRP_HARDWAREID_def SPDRP_LOCATION_INFORMATION_def)
      have "gives (io_bind (sp_registry_value h i SPDRP_FRIENDLYNAME) (\<lambda>friendly.
          io_bind (sp_registry_value h i SPDRP_HARDWAREID) (\<lambda>hardware_id.
          io_bind (sp_registry_value h i SPDRP_LOCATION_INFORMATION) (\<lambda>location.
          io_bind (sp_instance_id h i) (\<lambda>instance_id.
          io_return (resolve_interface \<lparr>ci_device_path = reply_text a,
             ci_property = stored_properties friendly hardware_id location, ci_instance_id = instance_id\<rparr>))))))
        s' (resolve_interface (seen ?d))"
        unfolding same [symmetric]
        by ((rule gives_bind [OF read(1)], simp add: on)+, rule gives_bind [OF read(2)], simp add: on, rule gives_return)
      with tok show ?thesis by (simp add: if_not_P [OF False])
    qed
  qed
qed

lemma gives_enum:
  assumes "runs_on w (st_env s)" "wh_list w = Some h" "i < 2 ^ 32"
  shows "gives (sp_enum h i) s (if i < length (wh_devices w) then Some i else None)"
proof -
  have "sp_answer (st_env s) = (\<lambda>_. host_answer w (sp_abi (st_env s)))" using assms(1) by (simp add: runs_on_def)
  then show ?thesis
    using assms(2,3) structs_on_windows(1) [OF windows_abi [OF assms(1)]]
    by (simp add: gives_def sp_enum_def sp_abi_of_def wp_simps yes_def no_def)
qed

lemma interface_loop_gives:
  assumes "wh_list w = Some h"
  shows "runs_on w (st_env s) \<Longrightarrow> i \<le> length (wh_devices w) \<Longrightarrow>
    \<exists>s'. interface_loop h i ports s =
        Some (Inr (ports @ List.map_filter resolve_interface (map seen (drop i (wh_devices w)))), s')
      \<and> st_env s' = st_env s"
proof (induction "length (wh_devices w) - i" arbitrary: i ports s)
  case 0
  then have "i < 2 ^ 32" "\<not> i < length (wh_devices w)" by (auto simp: runs_on_def)
  from gives_run [OF gives_enum [OF 0(2) assms this(1)]] this(2) 0(3) show ?case
    by (subst interface_loop.simps) (auto simp: List.map_filter_def)
next
  case (Suc n)
  then have "i < length (wh_devices w)" "i < 2 ^ 32" by (auto simp: runs_on_def)
  let ?d = "wh_devices w ! i"
  from gives_run [OF gives_enum [OF Suc(3) assms \<open>i < 2 ^ 32\<close>]] \<open>i < length (wh_devices w)\<close> obtain s1
    where s1: "sp_enum h i s = (Inr (Some i), s1)" "st_env s1 = st_env s" by auto
  with Suc(3) have "runs_on w (st_env s1)" by simp
  from gives_run [OF gives_resolve [OF this assms \<open>i < length _\<close>]] obtain s2
    where s2: "sp_resolve_interface h i s1 = (Inr (resolve_interface (seen ?d)), s2)" "st_env s2 = st_env s"
    using s1(2) by auto
  have "n = length (wh_devices w) - Suc i" "runs_on w (st_env s2)" "Suc i \<le> length (wh_devices w)"
    using Suc(2,3) s2(2) \<open>i < length _\<close> by auto
  note IH = Suc(1) [OF this]
  have "drop i (wh_devices w) = ?d # drop (Suc i) (wh_devices w)"
    using \<open>i < length _\<close> by (rule Cons_nth_drop_Suc [symmetric])
  then show ?case
    using IH [of "case resolve_interface (seen ?d) of None \<Rightarrow> ports | Some p \<Rightarrow> ports @ [p]"] s1(1) s2
    by (subst interface_loop.simps) (auto simp: List.map_filter_def split: option.splits)
qed

text \<open>\<open>walks m s x\<close>: the walk returns \<open>x\<close>, on the same host.\<close>

definition walks :: "'a walk \<Rightarrow> setup_state \<Rightarrow> 'a \<Rightarrow> bool" where
  "walks m s x \<longleftrightarrow> (\<exists>s'. m s = Some (Inr x, s') \<and> st_env s' = st_env s)"

lemma walks_io: "gives m s x \<Longrightarrow> walks (walk_io m) s x"
  using gives_run [of m s x] by (auto simp: walks_def walk_io_def)

lemma walks_bind: "walks m s x \<Longrightarrow> (\<And>s'. st_env s' = st_env s \<Longrightarrow> walks (f x) s' y) \<Longrightarrow> walks (walk_bind m f) s y"
  by (force simp: walks_def walk_bind_def)

lemma walks_return: "walks (walk_io (io_return x)) s x"
  by (rule walks_io) (rule gives_return)

lemma walks_finally:
  assumes "walks m s x" "\<And>s'. st_env s' = st_env s \<Longrightarrow> gives c s' ()"
  shows "walks (walk_finally m c) s x"
proof -
  from assms(1) obtain s1 where s1: "m s = Some (Inr x, s1)" "st_env s1 = st_env s" by (auto simp: walks_def)
  from gives_run [OF assms(2) [OF s1(2)]] s1 show ?thesis
    by (auto simp: walks_def walk_finally_def io_finally_def io_ctl_defs)
qed

lemma gives_quiet: "runs_on w (st_env s) \<Longrightarrow> host_answer w (sp_abi (st_env s)) c = Inr a \<Longrightarrow>
    gives (io_seq (sp_ask c) (io_return ())) s ()"
  using gives_bind [OF gives_ask, of w s c a "\<lambda>_. io_return ()" "()"] gives_return
  by (simp add: gives_def wp_simps)

lemma gives_load: "runs_on w (st_env s) \<Longrightarrow> gives load_setupapi s ()"
  by (simp add: gives_def load_setupapi_def wp_simps runs_on_def)

lemma gives_open_list:
  assumes "runs_on w (st_env s)"
  shows "gives sp_open_list s (wh_list w)"
proof -
  let ?m = "sp_abi (st_env s)"
  have flags: "DIGCF_PRESENT OR DIGCF_DEVICEINTERFACE = 0x12"
    by (simp add: DIGCF_PRESENT_def DIGCF_DEVICEINTERFACE_def)
  have invalid: "invalid_list ?m (Some h) \<longleftrightarrow> h = 2 ^ (8 * abi_pointer ?m) - 1" for h
    using windows_abi [OF assms] by (auto simp: invalid_list_def INVALID_HANDLE_VALUE_def x64_def x86_def)
  have "wh_list w \<noteq> Some (2 ^ (8 * abi_pointer ?m) - 1)" using assms by (simp add: runs_on_def)
  moreover have "sp_answer (st_env s) = (\<lambda>_. host_answer w ?m)" using assms by (simp add: runs_on_def)
  ultimately show ?thesis
    by (cases "wh_list w") (simp_all add: gives_def sp_open_list_def sp_abi_of_def wp_simps flags invalid)
qed

lemma gives_seq: "gives m s x \<Longrightarrow> (\<And>s'. st_env s' = st_env s \<Longrightarrow> gives n s' y) \<Longrightarrow> gives (io_seq m n) s y"
  unfolding gives_def wp_seq by (erule wp_mono) auto

lemma setupapi_walk_gives:
  assumes "runs_on w (st_env s)"
  shows "walks setupapi_walk s (if wh_list w = None then [] else List.map_filter resolve_interface (map seen (wh_devices w)))"
  unfolding setupapi_walk_def
proof (rule walks_bind [OF walks_io])
  show "gives (io_seq load_setupapi sp_open_list) s (wh_list w)"
    using assms by (intro gives_seq [OF gives_load gives_open_list]) auto
  fix s1 :: setup_state assume s1: "st_env s1 = st_env s"
  show "walks (case wh_list w of None \<Rightarrow> walk_io (io_return [])
     | Some h \<Rightarrow> walk_finally (interface_loop h 0 []) (io_seq (sp_ask (SetupDiDestroyDeviceInfoList h)) (io_return ())))
    s1 (if wh_list w = None then [] else List.map_filter resolve_interface (map seen (wh_devices w)))"
  proof (cases "wh_list w")
    case None
    then show ?thesis by (simp add: walks_return)
  next
    case (Some h)
    with interface_loop_gives [of w h s1 0 "[]"] assms s1
    have "walks (interface_loop h 0 []) s1 (List.map_filter resolve_interface (map seen (wh_devices w)))"
      by (simp add: walks_def)
    then have "walks (walk_finally (interface_loop h 0 []) (io_seq (sp_ask (SetupDiDestroyDeviceInfoList h)) (io_return ())))
       s1 (List.map_filter resolve_interface (map seen (wh_devices w)))"
      by (rule walks_finally) (use assms s1 in \<open>auto simp: yes_def intro!: gives_quiet [of w]\<close>)
    with Some show ?thesis by simp
  qed
qed

abbreviation named_values :: "string option list \<Rightarrow> port_info list" where
  "named_values \<equiv> List.map_filter (\<lambda>value. if truthy value then Some (bare_port (the value) value) else None)"

lemma os_error: "isinstance (exn_msg OSError) OSError"
  by (simp add: isinstance_simps exn_msg_def)

lemma value_loop_gives:
  "runs_on w (st_env s) \<Longrightarrow> i \<le> length (wh_values w) \<Longrightarrow>
    \<exists>s'. value_loop i ports s = Some (Inr (ports @ named_values (drop i (wh_values w))), s') \<and> st_env s' = st_env s"
proof (induction "length (wh_values w) - i" arbitrary: i ports s)
  case 0
  then have "sp_answer (st_env s) = (\<lambda>_. host_answer w (sp_abi (st_env s)))" "i = length (wh_values w)"
    by (auto simp: runs_on_def)
  then show ?case
    by (subst value_loop.simps) (simp add: sp_ask_def List.map_filter_simps Let_def os_error)
next
  case (Suc n)
  then have i: "i < length (wh_values w)" and ans: "sp_answer (st_env s) = (\<lambda>_. host_answer w (sp_abi (st_env s)))"
    by (auto simp: runs_on_def)
  let ?s1 = "s\<lparr>st_log := st_log s @ [(Winreg_EnumValue i, yes 0 (wh_values w ! i))]\<rparr>"
  have "n = length (wh_values w) - Suc i" "runs_on w (st_env ?s1)" "Suc i \<le> length (wh_values w)"
    using Suc(2,3) i by auto
  note IH = Suc(1) [OF this]
  have "drop i (wh_values w) = wh_values w ! i # drop (Suc i) (wh_values w)"
    using i by (rule Cons_nth_drop_Suc [symmetric])
  then show ?case
    using IH [of "if truthy (wh_values w ! i) then ports @ [bare_port (the (wh_values w ! i)) (wh_values w ! i)] else ports"] i ans
    by (subst value_loop.simps, cases "truthy (wh_values w ! i)")
      (simp_all add: sp_ask_def yes_def List.map_filter_simps Let_def)
qed

lemma registry_walk_gives:
  assumes "runs_on w (st_env s)"
  shows "walks registry_walk s (enumerate_registry_fallback (api_of w))"
proof -
  have io: "gives (io_get (\<lambda>s. sp_winreg (st_env s))) s (wh_winreg w)"
    using assms by (simp add: gives_def wp_simps runs_on_def)
  have key: "gives open_key s' (wh_key w)" if "st_env s' = st_env s" for s'
    using assms that by (simp add: gives_def open_key_def wp_simps runs_on_def yes_def os_error)
  have vals: "walks (walk_finally (value_loop 0 []) (io_seq (sp_ask Winreg_Close) (io_return ()))) s'
      (named_values (wh_values w))" if "st_env s' = st_env s" for s'
  proof (rule walks_finally)
    show "walks (value_loop 0 []) s' (named_values (wh_values w))"
      using value_loop_gives [of w s' 0 "[]"] assms that by (simp add: walks_def)
  qed (use assms that in \<open>auto simp: yes_def intro!: gives_quiet [of w]\<close>)
  have opened: "walks (if \<not> wh_key w then walk_io (io_return [])
      else walk_finally (value_loop 0 []) (io_seq (sp_ask Winreg_Close) (io_return ()))) s'
      (if \<not> wh_key w then [] else named_values (wh_values w))" if "st_env s' = st_env s" for s'
    using vals [OF that] by (simp add: walks_return)
  have "walks (if \<not> wh_winreg w then walk_io (io_return [])
       else walk_bind (walk_io open_key) (\<lambda>opened. if \<not> opened then walk_io (io_return [])
         else walk_finally (value_loop 0 []) (io_seq (sp_ask Winreg_Close) (io_return ())))) s'
      (if \<not> wh_winreg w then [] else if \<not> wh_key w then [] else named_values (wh_values w))"
    if "st_env s' = st_env s" for s'
    using walks_bind [OF walks_io [OF key [OF that]], of _ "if \<not> wh_key w then [] else named_values (wh_values w)"]
      opened that by (simp add: walks_return)
  then have "walks registry_walk s (if \<not> wh_winreg w then [] else if \<not> wh_key w then [] else named_values (wh_values w))"
    unfolding registry_walk_def by (rule walks_bind [OF walks_io [OF io]])
  then show ?thesis
    by (cases "wh_winreg w"; cases "wh_key w") (simp_all add: enumerate_registry_fallback_def api_of_def)
qed

definition found_ports :: "windows_host \<Rightarrow> port_info list" where
  "found_ports w = (if wh_list w = None then [] else List.map_filter resolve_interface (map seen (wh_devices w)))"

lemma enumerate_setupapi_found: "enumerate_setupapi (api_of w) = Inr (found_ports w)"
  by (simp add: enumerate_setupapi_def api_of_def found_ports_def res_bind_def)

text \<open>C19: On a documented Windows host the calls of discovery carry out its description: the structure
  sizes, buffer sizes and flags the code passes are the ones Windows requires on 64-bit and 32-bit
  hosts, the loops end, and enumerating and resolving return what theory \<open>Windows_Discovery\<close> computes
  from the devices' texts, a text being seen up to its first NUL and only when it fits its buffer (511,
  1023 and 200 characters).\<close>

theorem setupapi_walk_refines:
  assumes "runs_on w (st_env s)"
  shows "map_option fst (enumerate_walk s) = Some (windows_enumerate_ports (api_of w))
    \<and> map_option fst (resolve_walk path s) = Some (windows_resolve_port_info (api_of w) path)"
proof
  note found = setupapi_walk_gives [OF assms, folded found_ports_def]
  note fallback = registry_walk_gives [of w]
  have "walks enumerate_walk s (sort_key pi_device
      (if found_ports w = [] then enumerate_registry_fallback (api_of w) else found_ports w))"
    unfolding enumerate_walk_def
    by (rule walks_bind [OF found], rule walks_bind [of _ _ "if found_ports w = [] then enumerate_registry_fallback (api_of w) else found_ports w"])
      (use assms fallback in \<open>auto intro: walks_return\<close>)
  then show "map_option fst (enumerate_walk s) = Some (windows_enumerate_ports (api_of w))"
    by (auto simp: walks_def windows_enumerate_ports_def enumerate_setupapi_found res_bind_def)
  let ?wanted = "\<lambda>p. windows_canonical (pi_device p) = windows_canonical path"
  have "walks (case find ?wanted (found_ports w) of Some p \<Rightarrow> walk_io (io_return (Some p))
        | None \<Rightarrow> walk_bind registry_walk (\<lambda>found. walk_io (io_return (find ?wanted found)))) s'
      (case find ?wanted (found_ports w) of Some p \<Rightarrow> Some p
        | None \<Rightarrow> find ?wanted (enumerate_registry_fallback (api_of w)))" if "st_env s' = st_env s" for s'
    using walks_bind [OF fallback, of s' "\<lambda>found. walk_io (io_return (find ?wanted found))"] assms that
    by (cases "find ?wanted (found_ports w)") (simp_all add: walks_return)
  then have "walks (resolve_walk path) s (case find ?wanted (found_ports w) of Some p \<Rightarrow> Some p
      | None \<Rightarrow> find ?wanted (enumerate_registry_fallback (api_of w)))"
    unfolding resolve_walk_def Let_def by (rule walks_bind [OF found])
  then show "map_option fst (resolve_walk path s) = Some (windows_resolve_port_info (api_of w) path)"
    by (auto simp: walks_def windows_resolve_port_info_def enumerate_setupapi_found res_bind_def Let_def
        split: option.splits)
qed

definition demo_device :: com_device where
  "demo_device = \<lparr>dv_path = ''path'',
     dv_property = (\<lambda>p. if p = SPDRP_FRIENDLYNAME then Some ''UART (COM8)'' else None),
     dv_instance = Some (usb_instance_id True 0x10C4 0xEA60 ''0001'')\<rparr>"

definition demo_host :: windows_host where
  "demo_host = \<lparr>wh_list = Some 77, wh_devices = [demo_device], wh_winreg = True, wh_key = True, wh_values = []\<rparr>"

definition demo_env :: sp_env where
  "demo_env = \<lparr>sp_platform = ''win32'', sp_windll = True, sp_bind = None, sp_abi = x64, sp_winreg = True,
     sp_answer = (\<lambda>_. host_answer demo_host x64)\<rparr>"

definition demo_setup :: setup_state where
  "demo_setup = \<lparr>st_env = demo_env, st_log = [], st_cached = False\<rparr>"

theorem setupapi_walk_refines_witness:
  "map_option fst (enumerate_walk demo_setup) = Some (windows_enumerate_ports (api_of demo_host))
   \<and> map_option fst (resolve_walk ''com8'' demo_setup) = Some (windows_resolve_port_info (api_of demo_host) ''com8'')"
proof (rule setupapi_walk_refines)
  show "runs_on demo_host (st_env demo_setup)"
    by (simp add: runs_on_def demo_setup_def demo_env_def demo_host_def x64_def)
qed

subsection \<open>Releasing\<close>

text \<open>The device lists and registry keys a run of calls has obtained and not given back. A list is given
  back by passing it to \<open>SetupDiDestroyDeviceInfoList\<close>, whatever that call answers.\<close>

fun lists_step :: "abi \<Rightarrow> sp_call \<times> (exn + sp_reply) \<Rightarrow> int multiset \<Rightarrow> int multiset" where
  "lists_step m (SetupDiGetClassDevsW f, Inr a) hs =
     (if invalid_list m (sr_handle a) then hs else add_mset (the (sr_handle a)) hs)"
| "lists_step m (SetupDiDestroyDeviceInfoList h, r) hs = hs - {#h#}"
| "lists_step m _ hs = hs"

fun keys_step :: "sp_call \<times> (exn + sp_reply) \<Rightarrow> int \<Rightarrow> int" where
  "keys_step (Winreg_OpenKey, Inr a) n = n + 1"
| "keys_step (Winreg_Close, r) n = n - 1"
| "keys_step _ n = n"

definition held :: "setup_state \<Rightarrow> int multiset \<times> int" where
  "held s = (fold (lists_step (sp_abi (st_env s))) (st_log s) {#}, fold keys_step (st_log s) 0)"

text \<open>\<open>balanced\<close>: the host is the same and what is held too.\<close>

definition balanced :: "setup_state \<Rightarrow> setup_state \<Rightarrow> bool" where
  "balanced s s' \<longleftrightarrow> st_env s' = st_env s \<and> held s' = held s"

interpretation bal: frame balanced
  by unfold_locales (auto simp: balanced_def)

lemma balanced_ask:
  assumes "\<And>f. c \<noteq> SetupDiGetClassDevsW f" "\<And>h. c \<noteq> SetupDiDestroyDeviceInfoList h" "c \<noteq> Winreg_OpenKey" "c \<noteq> Winreg_Close"
  shows "keeps balanced (sp_ask c)"
  using assms by (cases c) (auto simp: keeps_def wp_simps Let_def balanced_def held_def split: sum.split)

lemma balanced_load: "keeps balanced load_setupapi"
  by (auto simp: keeps_def load_setupapi_def wp_simps balanced_def held_def split: option.split)

lemma balanced_steps:
  "keeps balanced (sp_enum h i)" "keeps balanced (sp_resolve_interface h iface)"
  unfolding sp_enum_def sp_resolve_interface_def sp_detail_def sp_registry_value_def sp_instance_id_def sp_abi_of_def
  by (intro bal.keeps_bind bal.keeps_get bal.keeps_return bal.keeps_if balanced_ask; simp)+

text \<open>\<open>ends P m\<close>: a run of the walk that returns ends in a state related by \<open>P\<close> to where it started.\<close>

definition ends :: "(setup_state \<Rightarrow> setup_state \<Rightarrow> bool) \<Rightarrow> 'a walk \<Rightarrow> bool" where
  "ends P m \<longleftrightarrow> (\<forall>s r s'. m s = Some (r, s') \<longrightarrow> P s s')"

lemma ends_io: "keeps P m \<Longrightarrow> ends P (walk_io m)"
  using keeps_snd [of P m] by (auto simp: ends_def walk_io_def) (metis snd_conv)

lemma ends_bind: "ends balanced m \<Longrightarrow> (\<And>x. ends balanced (f x)) \<Longrightarrow> ends balanced (walk_bind m f)"
  by (fastforce simp: ends_def walk_bind_def split: option.splits prod.splits sum.splits intro: bal.R_trans)

lemma balanced_interface_loop:
  assumes "interface_loop h i ports s = Some y"
  shows "balanced s (snd y)"
proof (rule interface_loop.raw_induct [OF _ assms], goal_cases)
  case (1 loop h i ports s y)
  obtain q s1 where enum: "sp_enum h i s = (q, s1)" by fastforce
  then have b1: "balanced s s1" using keeps_snd [OF balanced_steps(1), of s h i] by simp
  show ?case
  proof (cases q)
    case (Inl e)
    with 1(2) enum b1 show ?thesis by force
  next
    case (Inr found)
    show ?thesis
    proof (cases found)
      case None
      with Inr 1(2) enum b1 show ?thesis by force
    next
      case (Some iface)
      obtain q' s2 where run: "sp_resolve_interface h iface s1 = (q', s2)" by fastforce
      then have "balanced s1 s2" using keeps_snd [OF balanced_steps(2), of s1 h iface] by simp
      with b1 have b2: "balanced s s2" by (rule bal.R_trans)
      with Inr Some 1(2) enum run show ?thesis
        by (cases q') (auto dest!: 1(1) intro: bal.R_trans [OF b2])
    qed
  qed
qed

lemma balanced_value_loop:
  assumes "value_loop i ports s = Some y"
  shows "balanced s (snd y)"
proof (rule value_loop.raw_induct [OF _ assms], goal_cases)
  case (1 loop i ports s y)
  obtain q s1 where ask: "sp_ask (Winreg_EnumValue i) s = (q, s1)" by fastforce
  have "keeps balanced (sp_ask (Winreg_EnumValue i))" by (rule balanced_ask) simp_all
  with ask have b1: "balanced s s1" using keeps_snd [of balanced "sp_ask (Winreg_EnumValue i)" s] by simp
  with 1(2) ask show ?case
    by (cases q) (auto split: if_splits dest!: 1(1) intro: bal.R_trans [OF b1])
qed

lemma balanced_setupapi_walk:
  assumes run: "setupapi_walk s = Some (r, s')"
  shows "balanced s s'"
proof -
  obtain q s1 where load: "load_setupapi s = (q, s1)" by fastforce
  have b1: "balanced s s1" using keeps_snd [OF balanced_load, of s] load by simp
  show ?thesis
  proof (cases q)
    case (Inl e)
    with run load b1 show ?thesis by (simp add: setupapi_walk_def walk_bind_def walk_io_def io_ctl_defs)
  next
    case (Inr u)
    let ?c = "SetupDiGetClassDevsW (DIGCF_PRESENT OR DIGCF_DEVICEINTERFACE)"
    define a where "a = sp_answer (st_env s1) (st_log s1) ?c"
    define s2 where "s2 = s1\<lparr>st_log := st_log s1 @ [(?c, a)]\<rparr>"
    have opened: "sp_open_list s1 = (case a of Inl e \<Rightarrow> Inl e
        | Inr b \<Rightarrow> Inr (if invalid_list (sp_abi (st_env s1)) (sr_handle b) then None else sr_handle b), s2)"
      by (simp add: sp_open_list_def sp_abi_of_def sp_ask_def io_ctl_defs Let_def a_def s2_def split: sum.split)
    show ?thesis
    proof (cases "\<exists>b h. a = Inr b \<and> \<not> invalid_list (sp_abi (st_env s1)) (sr_handle b) \<and> sr_handle b = Some h")
      case False
      then have "held s2 = held s1"
        by (cases a) (auto simp: held_def s2_def invalid_list_def)
      then have "balanced s s2" using b1 by (simp add: balanced_def s2_def)
      moreover have "s' = s2"
        using run False Inr load opened
        by (auto simp: setupapi_walk_def walk_bind_def walk_io_def io_ctl_defs invalid_list_def split: sum.splits if_splits)
      ultimately show ?thesis by simp
    next
      case True
      then obtain b h where a: "a = Inr b" "\<not> invalid_list (sp_abi (st_env s1)) (sr_handle b)" "sr_handle b = Some h" by blast
      then have held2: "held s2 = (add_mset h (fst (held s1)), snd (held s1))" "st_env s2 = st_env s1"
        by (simp_all add: held_def s2_def)
      from run Inr load opened a obtain q3 s3 where loop: "interface_loop h 0 [] s2 = Some (q3, s3)"
        and s': "s' = s3\<lparr>st_log := st_log s3 @ [(SetupDiDestroyDeviceInfoList h,
          sp_answer (st_env s3) (st_log s3) (SetupDiDestroyDeviceInfoList h))]\<rparr>"
        by (auto simp: setupapi_walk_def walk_bind_def walk_io_def walk_finally_def io_finally_def io_ctl_defs sp_ask_def Let_def
            split: option.splits sum.splits prod.splits)
      from balanced_interface_loop [OF loop] have "balanced s2 s3" by simp
      with held2 s' b1 show ?thesis by (auto simp: balanced_def held_def)
    qed
  qed
qed

lemma balanced_registry_walk:
  assumes run: "registry_walk s = Some (r, s')"
  shows "balanced s s'"
proof (cases "sp_winreg (st_env s)")
  case False
  with run show ?thesis by (simp add: registry_walk_def walk_bind_def walk_io_def io_ctl_defs balanced_def)
next
  case True
  define a where "a = sp_answer (st_env s) (st_log s) Winreg_OpenKey"
  define s1 where "s1 = s\<lparr>st_log := st_log s @ [(Winreg_OpenKey, a)]\<rparr>"
  have opened: "open_key s = (case a of Inl e \<Rightarrow> if isinstance e OSError then Inr False else Inl e | Inr b \<Rightarrow> Inr True, s1)"
    by (simp add: open_key_def sp_ask_def io_ctl_defs Let_def a_def s1_def split: sum.split)
  show ?thesis
  proof (cases a)
    case (Inl e)
    then have "balanced s s1" by (simp add: balanced_def held_def s1_def)
    moreover have "s' = s1"
      using run True Inl opened
      by (auto simp: registry_walk_def walk_bind_def walk_io_def io_ctl_defs split: if_splits)
    ultimately show ?thesis by simp
  next
    case (Inr b)
    then have held1: "held s1 = (fst (held s), snd (held s) + 1)" "st_env s1 = st_env s"
      by (simp_all add: held_def s1_def)
    from run True Inr opened obtain q s2 where loop: "value_loop 0 [] s1 = Some (q, s2)"
      and s': "s' = s2\<lparr>st_log := st_log s2 @ [(Winreg_Close, sp_answer (st_env s2) (st_log s2) Winreg_Close)]\<rparr>"
      by (auto simp: registry_walk_def walk_bind_def walk_io_def walk_finally_def io_finally_def io_ctl_defs sp_ask_def Let_def
          split: option.splits sum.splits prod.splits)
    from balanced_value_loop [OF loop] have "balanced s1 s2" by simp
    with held1 s' show ?thesis by (auto simp: balanced_def held_def)
  qed
qed

text \<open>C20: Whatever Windows answers and whichever call raises: a discovery run that ends has given back every
  device list it obtained, once, and closed every registry key it opened.\<close>

theorem setupapi_releases:
  "ends balanced enumerate_walk \<and> ends balanced (resolve_walk path)"
proof -
  have walks: "ends balanced setupapi_walk" "ends balanced registry_walk"
    using balanced_setupapi_walk balanced_registry_walk by (auto simp: ends_def)
  show ?thesis
    unfolding enumerate_walk_def resolve_walk_def Let_def
    by (auto intro!: ends_bind walks ends_io bal.keeps_return split: option.split)
qed

end
