(* ===== verification/Foreign_Calls.thy ===== *)
theory Foreign_Calls
  imports Setup_Api
begin

section \<open>Prototypes of the foreign functions (\<open>_bind_kernel32\<close>, \<open>_bind_setupapi\<close>)\<close>

text \<open>
  The argument and result types the loaders declare, against the arguments the package passes. A call
  whose arguments do not convert raises \<open>ArgumentError\<close> and never reaches Windows; a handle returned
  through anything but a pointer-sized type would be cut to 32 bits.
\<close>

record prototype =
  pr_args :: "ctype list"
  pr_result :: ctype
  pr_check :: errcheck

abbreviation proto :: "ctype list \<Rightarrow> ctype \<Rightarrow> errcheck \<Rightarrow> prototype" where
  "proto args result check \<equiv> \<lparr>pr_args = args, pr_result = result, pr_check = check\<rparr>"

definition kernel32_prototypes :: "(string \<times> prototype) list" where
  "kernel32_prototypes =
    [(''CreateFileW'', proto [C_wchar_p, C_uint32, C_uint32, C_void_p, C_uint32, C_uint32, C_void_p] C_void_p Check_handle),
     (''CloseHandle'', proto [C_void_p] C_uint32 Check_bool),
     (''GetCommState'', proto [C_void_p, C_pointer DCB] C_uint32 Check_bool),
     (''SetCommState'', proto [C_void_p, C_pointer DCB] C_uint32 Check_bool),
     (''SetCommTimeouts'', proto [C_void_p, C_pointer COMMTIMEOUTS] C_uint32 Check_bool),
     (''SetupComm'', proto [C_void_p, C_uint32, C_uint32] C_uint32 Check_bool),
     (''PurgeComm'', proto [C_void_p, C_uint32] C_uint32 Check_bool),
     (''EscapeCommFunction'', proto [C_void_p, C_uint32] C_uint32 Check_bool),
     (''GetCommModemStatus'', proto [C_void_p, C_pointer C_uint32] C_uint32 Check_bool),
     (''ClearCommError'', proto [C_void_p, C_pointer C_uint32, C_pointer COMSTAT] C_uint32 Check_bool),
     (''SetCommBreak'', proto [C_void_p] C_uint32 Check_bool),
     (''ClearCommBreak'', proto [C_void_p] C_uint32 Check_bool),
     (''FlushFileBuffers'', proto [C_void_p] C_uint32 Check_bool),
     (''SetCommMask'', proto [C_void_p, C_uint32] C_uint32 Check_bool),
     (''WaitCommEvent'', proto [C_void_p, C_pointer C_uint32, C_pointer OVERLAPPED] C_uint32 No_check),
     (''CreateEventW'', proto [C_void_p, C_uint32, C_uint32, C_void_p] C_void_p Check_handle),
     (''ResetEvent'', proto [C_void_p] C_uint32 Check_bool),
     (''CancelIoEx'', proto [C_void_p, C_pointer OVERLAPPED] C_uint32 No_check),
     (''WaitForSingleObject'', proto [C_void_p, C_uint32] C_uint32 No_check)]"

definition setupapi_prototypes :: "(string \<times> prototype) list" where
  "setupapi_prototypes =
    [(''SetupDiGetClassDevsW'', proto [C_pointer GUID, C_void_p, C_void_p, C_uint32] C_void_p No_check),
     (''SetupDiEnumDeviceInterfaces'',
        proto [C_void_p, C_void_p, C_pointer GUID, C_uint32, C_pointer SP_DEVICE_INTERFACE_DATA] C_bool No_check),
     (''SetupDiGetDeviceInterfaceDetailW'',
        proto [C_void_p, C_pointer SP_DEVICE_INTERFACE_DATA, C_void_p, C_uint32, C_pointer C_uint32,
          C_pointer SP_DEVINFO_DATA] C_bool No_check),
     (''SetupDiGetDeviceRegistryPropertyW'',
        proto [C_void_p, C_pointer SP_DEVINFO_DATA, C_uint32, C_pointer C_uint32, C_void_p, C_uint32,
          C_pointer C_uint32] C_bool No_check),
     (''SetupDiGetDeviceInstanceIdW'',
        proto [C_void_p, C_pointer SP_DEVINFO_DATA, C_void_p, C_uint32, C_pointer C_uint32] C_bool No_check),
     (''SetupDiDestroyDeviceInfoList'', proto [C_void_p] C_bool No_check)]"

subsection \<open>Arguments\<close>

text \<open>A Python argument: an integer, \<open>None\<close>, a string, bytes, \<open>byref\<close> of an instance, a \<open>c_uint32\<close>, a character
  buffer.\<close>

datatype c_arg =
    is_A_int: A_int int
  | A_none
  | is_A_text: A_text string
  | is_A_bytes: A_bytes string
  | is_A_byref: A_byref ctype
  | A_uint32
  | A_buffer

text \<open>Whether \<open>from_param\<close> of the declared type accepts the argument.\<close>

fun accepts :: "ctype \<Rightarrow> c_arg \<Rightarrow> bool" where
  "accepts C_uint32 a \<longleftrightarrow> is_A_int a \<or> a = A_uint32"
| "accepts C_int a \<longleftrightarrow> is_A_int a"
| "accepts C_long a \<longleftrightarrow> is_A_int a"
| "accepts C_void_p a \<longleftrightarrow> is_A_int a \<or> a = A_none \<or> is_A_byref a \<or> a = A_buffer"
| "accepts C_char_p a \<longleftrightarrow> is_A_bytes a \<or> a = A_buffer \<or> a = A_none"
| "accepts C_wchar_p a \<longleftrightarrow> is_A_text a \<or> a = A_none"
| "accepts (C_pointer t) a \<longleftrightarrow> a = A_byref t \<or> a = A_none"
| "accepts _ a \<longleftrightarrow> False"

text \<open>The calls of \<open>_windows/backend.py\<close>, \<open>_asyncio_io.py\<close> and \<open>_trio_io.py\<close> as they are written.\<close>

fun k32_call_args :: "k32 \<Rightarrow> string \<times> c_arg list" where
  "k32_call_args (CreateFileW path access share disposition flags) =
     (''CreateFileW'', [A_text path, A_int access, A_int share, A_none, A_int disposition, A_int flags, A_none])"
| "k32_call_args (CloseHandle h) = (''CloseHandle'', [A_int h])"
| "k32_call_args (GetCommState h) = (''GetCommState'', [A_int h, A_byref DCB])"
| "k32_call_args (SetCommState h d) = (''SetCommState'', [A_int h, A_byref DCB])"
| "k32_call_args (SetCommTimeouts h t) = (''SetCommTimeouts'', [A_int h, A_byref COMMTIMEOUTS])"
| "k32_call_args (SetupComm h i out) = (''SetupComm'', [A_int h, A_int i, A_int out])"
| "k32_call_args (PurgeComm h flags) = (''PurgeComm'', [A_int h, A_int flags])"
| "k32_call_args (EscapeCommFunction h f) = (''EscapeCommFunction'', [A_int h, A_int f])"
| "k32_call_args (GetCommModemStatus h) = (''GetCommModemStatus'', [A_int h, A_byref C_uint32])"
| "k32_call_args (ClearCommError h) = (''ClearCommError'', [A_int h, A_byref C_uint32, A_byref COMSTAT])"
| "k32_call_args (SetCommBreak h) = (''SetCommBreak'', [A_int h])"
| "k32_call_args (ClearCommBreak h) = (''ClearCommBreak'', [A_int h])"
| "k32_call_args (FlushFileBuffers h) = (''FlushFileBuffers'', [A_int h])"
| "k32_call_args (SetCommMask h bits) = (''SetCommMask'', [A_int h, A_int bits])"
| "k32_call_args (WaitCommEvent h) = (''WaitCommEvent'', [A_int h, A_byref C_uint32, A_byref OVERLAPPED])"
| "k32_call_args CreateEventW = (''CreateEventW'', [A_none, A_int 1, A_int 0, A_none])"
| "k32_call_args (CancelIoEx h) = (''CancelIoEx'', [A_int h, A_byref OVERLAPPED])"
| "k32_call_args (WaitForSingleObject h ms) = (''WaitForSingleObject'', [A_int h, A_int ms])"

text \<open>The calls of \<open>_windows/discovery.py\<close>; the last three constructors are calls of \<open>winreg\<close>.\<close>

fun setup_call_args :: "sp_call \<Rightarrow> (string \<times> c_arg list) option" where
  "setup_call_args (SetupDiGetClassDevsW flags) =
     Some (''SetupDiGetClassDevsW'', [A_byref GUID, A_none, A_none, A_int flags])"
| "setup_call_args (SetupDiEnumDeviceInterfaces h i cb) =
     Some (''SetupDiEnumDeviceInterfaces'',
       [A_int h, A_none, A_byref GUID, A_int (int i), A_byref SP_DEVICE_INTERFACE_DATA])"
| "setup_call_args (SetupDiGetDeviceInterfaceDetailW h iface cb n dev_cb) =
     Some (''SetupDiGetDeviceInterfaceDetailW'',
       [A_int h, A_byref SP_DEVICE_INTERFACE_DATA, A_byref SP_DEVICE_INTERFACE_DETAIL_DATA_W, A_int (int n),
        A_byref C_uint32, A_byref SP_DEVINFO_DATA])"
| "setup_call_args (SetupDiGetDeviceRegistryPropertyW h dev prop n) =
     Some (''SetupDiGetDeviceRegistryPropertyW'',
       [A_int h, A_byref SP_DEVINFO_DATA, A_int (int prop), A_byref C_uint32, A_buffer, A_int (int n), A_byref C_uint32])"
| "setup_call_args (SetupDiGetDeviceInstanceIdW h dev n) =
     Some (''SetupDiGetDeviceInstanceIdW'', [A_int h, A_byref SP_DEVINFO_DATA, A_buffer, A_int (int n), A_none])"
| "setup_call_args (SetupDiDestroyDeviceInfoList h) = Some (''SetupDiDestroyDeviceInfoList'', [A_int h])"
| "setup_call_args _ = None"

definition conforms :: "(string \<times> prototype) list \<Rightarrow> errcheck \<Rightarrow> bool \<Rightarrow> string \<times> c_arg list \<Rightarrow> bool" where
  "conforms protos check handle call =
     (case map_of protos (fst call) of
        None \<Rightarrow> False
      | Some p \<Rightarrow> list_all2 accepts (pr_args p) (snd call) \<and> pr_check p = check
          \<and> (pr_result p = C_void_p \<longleftrightarrow> handle))"

fun returns_handle :: "k32 \<Rightarrow> bool" where
  "returns_handle (CreateFileW p a s d f) = True"
| "returns_handle CreateEventW = True"
| "returns_handle _ = False"

text \<open>Every call of a kernel32 or SetupAPI function in the package has exactly the arguments its declared
  prototype converts, structure pointers of the declared structure included; handles are returned at
  pointer width and nothing else is; and the hook that turns a failure into an \<open>OSError\<close> is installed
  where the model of the calls applies it, on no SetupAPI function and not on the three functions whose
  zero is not an error.\<close>

theorem foreign_calls_conform:
  "conforms kernel32_prototypes (errcheck_of c) (returns_handle c) (k32_call_args c)
   \<and> (case setup_call_args d of
        None \<Rightarrow> d \<in> {Winreg_OpenKey, Winreg_Close} \<union> range Winreg_EnumValue
      | Some call \<Rightarrow> conforms setupapi_prototypes No_check (\<exists>flags. d = SetupDiGetClassDevsW flags) call)"
proof
  show "conforms kernel32_prototypes (errcheck_of c) (returns_handle c) (k32_call_args c)"
    by (cases c) (simp_all add: conforms_def kernel32_prototypes_def)
  show "case setup_call_args d of
        None \<Rightarrow> d \<in> {Winreg_OpenKey, Winreg_Close} \<union> range Winreg_EnumValue
      | Some call \<Rightarrow> conforms setupapi_prototypes No_check (\<exists>flags. d = SetupDiGetClassDevsW flags) call"
    by (cases d) (simp_all add: conforms_def setupapi_prototypes_def)
qed

end
