(* ===== verification/Darwin_Calls.thy ===== *)
theory Darwin_Calls
  imports Foreign_Calls Darwin_Discovery
begin

section \<open>Loading and calling the Apple frameworks (\<open>_darwin/_iokit.py\<close>)\<close>

text \<open>
  The prototypes \<open>_configure_signatures\<close> declares, against the calls of the client, on a 64-bit Darwin
  host; and the cached client of \<open>default_client\<close>, whose construction loads the two frameworks.
\<close>

subsection \<open>Prototypes\<close>

text \<open>A \<open>restype\<close> of \<open>None\<close> is a function without result.\<close>

type_synonym mac_prototype = "ctype list \<times> ctype option"

definition iokit_prototypes :: "(string \<times> mac_prototype) list" where
  "iokit_prototypes =
    [(''IOServiceMatching'', [C_char_p], Some C_void_p),
     (''IOServiceGetMatchingServices'', [C_uint32, C_void_p, C_pointer C_uint32], Some C_int),
     (''IOIteratorNext'', [C_uint32], Some C_uint32),
     (''IOObjectRelease'', [C_uint32], Some C_int),
     (''IORegistryEntryCreateCFProperty'', [C_uint32, C_void_p, C_void_p, C_uint32], Some C_void_p),
     (''IORegistryEntryGetParentEntry'', [C_uint32, C_char_p, C_pointer C_uint32], Some C_int)]"

definition cf_prototypes :: "(string \<times> mac_prototype) list" where
  "cf_prototypes =
    [(''CFStringCreateWithCString'', [C_void_p, C_char_p, C_uint32], Some C_void_p),
     (''CFStringGetLength'', [C_void_p], Some C_long),
     (''CFStringGetCString'', [C_void_p, C_char_p, C_long, C_uint32], Some C_uint8),
     (''CFNumberGetValue'', [C_void_p, C_int, C_void_p], Some C_uint8),
     (''CFRelease'', [C_void_p], None)]"

subsection \<open>The client's calls\<close>

text \<open>
  Each call with the values it passes: Mach port names of registry entries, and CoreFoundation
  references. The iterator is passed as the \<open>c_uint32\<close> that received it.
\<close>

datatype mac_call =
    IOServiceMatching
  | IOServiceGetMatchingServices int
  | IOIteratorNext
  | IOObjectRelease_iterator
  | IOObjectRelease int
  | IORegistryEntryCreateCFProperty int int
  | IORegistryEntryGetParentEntry int
  | CFStringCreateWithCString string
  | CFStringGetLength int
  | CFStringGetCString int int
  | CFNumberGetValue int
  | CFRelease int

definition IOSERIAL_BSD_CLIENT :: string where "IOSERIAL_BSD_CLIENT = ''IOSerialBSDClient''"
definition IOSERVICE_PLANE :: string where "IOSERVICE_PLANE = ''IOService''"
definition CF_ALLOCATOR_DEFAULT :: int where "CF_ALLOCATOR_DEFAULT = 0"
definition CF_STRING_ENCODING_UTF8 :: int where "CF_STRING_ENCODING_UTF8 = 0x08000100"
definition IO_MAIN_PORT_DEFAULT :: int where "IO_MAIN_PORT_DEFAULT = 0"

lemmas mac_constants = CF_ALLOCATOR_DEFAULT_def CF_STRING_ENCODING_UTF8_def IO_MAIN_PORT_DEFAULT_def

fun mac_call_args :: "mac_call \<Rightarrow> string \<times> c_arg list" where
  "mac_call_args IOServiceMatching = (''IOServiceMatching'', [A_bytes IOSERIAL_BSD_CLIENT])"
| "mac_call_args (IOServiceGetMatchingServices matching) =
     (''IOServiceGetMatchingServices'', [A_int IO_MAIN_PORT_DEFAULT, A_int matching, A_byref C_uint32])"
| "mac_call_args IOIteratorNext = (''IOIteratorNext'', [A_uint32])"
| "mac_call_args IOObjectRelease_iterator = (''IOObjectRelease'', [A_uint32])"
| "mac_call_args (IOObjectRelease service) = (''IOObjectRelease'', [A_int service])"
| "mac_call_args (IORegistryEntryCreateCFProperty service key) =
     (''IORegistryEntryCreateCFProperty'', [A_int service, A_int key, A_int CF_ALLOCATOR_DEFAULT, A_int 0])"
| "mac_call_args (IORegistryEntryGetParentEntry cursor) =
     (''IORegistryEntryGetParentEntry'', [A_int cursor, A_bytes IOSERVICE_PLANE, A_byref C_uint32])"
| "mac_call_args (CFStringCreateWithCString key) =
     (''CFStringCreateWithCString'', [A_int CF_ALLOCATOR_DEFAULT, A_bytes key, A_int CF_STRING_ENCODING_UTF8])"
| "mac_call_args (CFStringGetLength cf) = (''CFStringGetLength'', [A_int cf])"
| "mac_call_args (CFStringGetCString cf len) =
     (''CFStringGetCString'', [A_int cf, A_buffer, A_int (len * 4 + 1), A_int CF_STRING_ENCODING_UTF8])"
| "mac_call_args (CFNumberGetValue cf) = (''CFNumberGetValue'', [A_int cf, A_int 4, A_byref C_int64])"
| "mac_call_args (CFRelease cf) = (''CFRelease'', [A_int cf])"

text \<open>\<open>ctypes\<close> cuts an integer argument to the width of the declared type.\<close>

definition int_range :: "abi \<Rightarrow> ctype \<Rightarrow> int \<times> int" where
  "int_range m t =
     (let w = 8 * sizeof m t in
      if t = C_int \<or> t = C_long \<or> t = C_int64 then (- (2 ^ (w - 1)), 2 ^ (w - 1)) else (0, 2 ^ w))"

fun arrives :: "abi \<Rightarrow> ctype \<Rightarrow> c_arg \<Rightarrow> bool" where
  "arrives m t (A_int n) \<longleftrightarrow> accepts t (A_int n) \<and> fst (int_range m t) \<le> n \<and> n < snd (int_range m t)"
| "arrives m t a \<longleftrightarrow> accepts t a"

text \<open>The values of a running host: names are 32 bits wide and references 64 bits, and the length of a
  CoreFoundation string leaves room for its UTF-8 form in memory.\<close>

definition port_name :: "int \<Rightarrow> bool" where "port_name n \<longleftrightarrow> 0 \<le> n \<and> n < 2 ^ 32"
definition cf_reference :: "int \<Rightarrow> bool" where "cf_reference n \<longleftrightarrow> 0 \<le> n \<and> n < 2 ^ 64"

fun host_values :: "mac_call \<Rightarrow> bool" where
  "host_values (IOServiceGetMatchingServices matching) = cf_reference matching"
| "host_values (IOObjectRelease service) = port_name service"
| "host_values (IORegistryEntryCreateCFProperty service key) \<longleftrightarrow> port_name service \<and> cf_reference key"
| "host_values (IORegistryEntryGetParentEntry cursor) = port_name cursor"
| "host_values (CFStringGetLength cf) = cf_reference cf"
| "host_values (CFStringGetCString cf len) \<longleftrightarrow> cf_reference cf \<and> 0 \<le> len \<and> len < 2 ^ 60"
| "host_values (CFNumberGetValue cf) = cf_reference cf"
| "host_values (CFRelease cf) = cf_reference cf"
| "host_values _ = True"

text \<open>What the frameworks' headers declare as the result: a reference, a name, a \<open>kern_return_t\<close>, a
  \<open>CFIndex\<close> or a \<open>Boolean\<close>.\<close>

fun answer_range :: "mac_call \<Rightarrow> (int \<times> int) option" where
  "answer_range IOServiceMatching = Some (0, 2 ^ 64)"
| "answer_range (IORegistryEntryCreateCFProperty service key) = Some (0, 2 ^ 64)"
| "answer_range (CFStringCreateWithCString key) = Some (0, 2 ^ 64)"
| "answer_range IOIteratorNext = Some (0, 2 ^ 32)"
| "answer_range (CFStringGetLength cf) = Some (- (2 ^ 63), 2 ^ 63)"
| "answer_range (CFStringGetCString cf len) = Some (0, 2 ^ 8)"
| "answer_range (CFNumberGetValue cf) = Some (0, 2 ^ 8)"
| "answer_range (CFRelease cf) = None"
| "answer_range _ = Some (- (2 ^ 31), 2 ^ 31)"

text \<open>On a 64-bit Darwin host every call of the client names a function with a declared prototype, each
  argument converts to the declared type with its value unchanged (no reference or name is cut), and
  the declared result holds every answer of the function.\<close>

theorem mac_calls_conform:
  assumes "host_values c"
  shows "case map_of (iokit_prototypes @ cf_prototypes) (fst (mac_call_args c)) of
      None \<Rightarrow> False
    | Some (args, result) \<Rightarrow> list_all2 (arrives lp64) args (snd (mac_call_args c))
        \<and> map_option (int_range lp64) result = answer_range c"
  using assms
  by (cases c) (simp_all add: iokit_prototypes_def cf_prototypes_def int_range_def lp64_def mac_constants
      port_name_def cf_reference_def)

theorem mac_calls_conform_witness:
  "list_all2 (arrives lp64) [C_void_p, C_char_p, C_long, C_uint32] (snd (mac_call_args (CFStringGetCString 140735000000000 20)))"
proof -
  have "host_values (CFStringGetCString 140735000000000 20)" by (simp add: cf_reference_def)
  from mac_calls_conform [OF this] show ?thesis by (simp add: iokit_prototypes_def cf_prototypes_def)
qed

subsection \<open>The cached client\<close>

text \<open>
  \<open>_cached_client\<close> and the libraries loaded so far. \<open>find_library\<close> and \<open>CDLL\<close> are the host's: they
  answer from the history of loads. A client is the number of loads when its construction ended.
\<close>

record client_cache =
  cc_client :: "nat option"
  cc_loads :: "(string \<times> string) list"

record mac_loader =
  ml_find :: "(string \<times> string) list \<Rightarrow> string \<Rightarrow> string option"
  ml_cdll :: "(string \<times> string) list \<Rightarrow> string \<Rightarrow> exn + unit"

type_synonym 'a loader_io = "(client_cache, exn, 'a) io"

definition load_framework :: "mac_loader \<Rightarrow> string \<Rightarrow> unit loader_io" where
  "load_framework host name =
     io_bind (io_get cc_loads) (\<lambda>loads.
       case ml_find host loads name of
         None \<Rightarrow> io_raise (exn_msg OSError)
       | Some path \<Rightarrow> io_seq (io_lift (ml_cdll host loads path))
           (io_modify (\<lambda>s. s\<lparr>cc_loads := cc_loads s @ [(name, path)]\<rparr>)))"

definition new_client :: "mac_loader \<Rightarrow> nat loader_io" where
  "new_client host =
     io_seq (load_framework host ''IOKit'')
       (io_seq (load_framework host ''CoreFoundation'') (io_get (\<lambda>s. length (cc_loads s))))"

definition default_client :: "mac_loader \<Rightarrow> nat loader_io" where
  "default_client host =
     io_bind (io_get cc_client) (\<lambda>cached.
       io_seq (io_when (cached = None)
           (io_bind (new_client host) (\<lambda>c. io_modify (\<lambda>s. s\<lparr>cc_client := Some c\<rparr>))))
         (io_get (\<lambda>s. the (cc_client s))))"

text \<open>What constructing a client does to the cache: nothing, whether it succeeds or raises.\<close>

lemma new_client_keeps: "keeps (\<lambda>s s'. cc_client s' = cc_client s) (new_client host)"
  by (auto simp: keeps_def new_client_def load_framework_def wp_simps split: option.split sum.split)

text \<open>The first call that succeeds fixes the client: every later call returns it and loads nothing, also
  when the host has changed. A call that raises leaves the cache empty, so the next one tries again; and
  missing frameworks raise \<open>OSError\<close>, which \<open>open_serial_port\<close> turns into missing metadata.\<close>

theorem default_client_cached:
  "case default_client host s of
     (Inr c, s') \<Rightarrow> default_client host' s' = (Inr c, s') \<and> cc_client s' = Some c
   | (Inl e, s') \<Rightarrow> cc_client s = None \<and> cc_client s' = None
       \<and> (isinstance e OSError \<or> (\<exists>loads path. ml_cdll host loads path = Inl e))"
proof (cases "cc_client s")
  case None
  obtain r s1 where r: "new_client host s = (r, s1)" by fastforce
  from keeps_snd [OF new_client_keeps, of host s] None r have same: "cc_client s1 = None" by simp
  have raised: "isinstance e OSError \<or> (\<exists>loads path. ml_cdll host loads path = Inl e)" if "r = Inl e" for e
    using r that
    by (auto simp: new_client_def load_framework_def io_ctl_defs isinstance_simps exn_msg_def
        split: option.splits sum.splits)
  show ?thesis using None r same raised by (cases r) (simp_all add: default_client_def io_ctl_defs)
next
  case (Some c)
  then show ?thesis by (simp add: default_client_def io_ctl_defs)
qed

subsection \<open>Resolving with the cached client\<close>

definition darwin_resolve_on :: "mac_loader \<Rightarrow> 'cf iokit \<Rightarrow> string \<Rightarrow> client_cache \<times> iokit_state \<Rightarrow>
    (exn + port_info option) \<times> client_cache \<times> iokit_state" where
  "darwin_resolve_on host os path s =
     (case default_client host (fst s) of
        (Inl e, cache) \<Rightarrow> (Inl e, cache, snd s)
      | (Inr _, cache) \<Rightarrow> (case darwin_resolve_port_info os path (snd s) of (r, ik) \<Rightarrow> (r, cache, ik)))"

text \<open>A host without the frameworks opens its ports all the same, without metadata.\<close>

lemma darwin_open_without_frameworks:
  assumes "cc_client cache = None" "ml_find host (cc_loads cache) ''IOKit'' = None"
  shows "resolve_port_info_for_path (\<lambda>f p. fst (darwin_resolve_on host os p (cache, ik))) ''darwin'' path = Inr None"
proof -
  have "default_client host cache = (Inl (exn_msg OSError), cache)"
    using assms by (simp add: default_client_def new_client_def load_framework_def io_ctl_defs)
  then show ?thesis
    by (simp add: darwin_resolve_on_def resolve_port_info_for_path_def platform_port_info_resolver_def starts_with_def
        isinstance_simps exn_msg_def)
qed

end
