(* ===== verification/Spec2Isabelle.thy ===== *)
theory Spec2Isabelle
  imports Linux_Config Darwin_Bsd Port_Claims Mock_Backend Bsd_Discovery Extra_Discovery Darwin_Discovery
    Windows_Discovery Sync_Api Open_Port Buffer_Store Port_Object Windows_Open Unix_Open Sync_Object
    Darwin_Calls
begin

text \<open>
  A verification library for anyserial (\<open>src/src/anyserial\<close>), an AnyIO serial-port package for Linux,
  macOS, the BSDs and Windows. File names below are relative to that directory.

  \<^bold>\<open>The program.\<close> \<open>open_serial_port\<close> (\<open>stream.py\<close>) selects a backend for \<open>sys.platform\<close>, opens it, looks up
  the device's metadata and wraps the backend in a \<open>SerialPort\<close>. A POSIX backend is synchronous: it owns
  a non-blocking descriptor, and \<open>_PosixSerialPort\<close> drives it from a readiness loop. The Windows backend
  is asynchronous: it owns overlapped transfers, and \<open>_AsyncBackendSerialPort\<close> delegates to it. Both
  variants guard reads and writes against concurrent use and serialise closing and reconfiguring.
  \<open>sync.py\<close> runs the asynchronous port on a shared event-loop thread for blocking callers.
  \<open>discovery.py\<close> and the per-platform modules list the ports of the host.

  \<^bold>\<open>Method.\<close> Code that only computes is a HOL function. Stateful code is a function of the state monad
  with exceptions of theory \<open>Prelude\<close> (\<open>io\<close>: a state to an exception or a value, and the new state), so
  every \<open>raise\<close>, \<open>try\<close>, \<open>finally\<close> and \<open>suppress\<close> of the source is a combinator of the model. Properties of
  it are weakest preconditions (\<open>wp\<close>) and frames (\<open>keeps R\<close>: every outcome, exceptions included, relates
  the states by \<open>R\<close>); the locale \<open>frame\<close> proves the control structures once for any preorder. The
  operating system is not assumed to be well behaved: a kernel, Windows, IOKit, SetupAPI, a filesystem
  or an event loop is a record of functions of the history of calls, arbitrary in every theorem, and
  each call is logged. Resources (descriptors, handles, IOKit references) are counted from the log.
  A coroutine is split at its \<open>await\<close>s: a start function, and a resumption from each program counter.
  Any interleaving of calls, wake-ups, cancellations and background activity is a run of a step
  relation (\<open>port_step\<close>, \<open>async_step\<close>, \<open>portal_step\<close>), and the properties of concurrent use are
  invariants of the reachable states.

  \<^bold>\<open>Theories.\<close>
  \<^item> \<open>Prelude\<close>, \<open>Strings\<close>: the monad, \<open>wp\<close>, frames, little-endian bytes and bit masks; decimal text.
  \<^item> \<open>Types\<close> (\<open>_types.py\<close>, and Python floats as rationals with infinities and NaN), \<open>Doubles\<close> (rounding
    to IEEE doubles, where a product matters), \<open>Exceptions\<close>
    (\<open>exceptions.py\<close>: the class hierarchy as data and \<open>errno_to_exception\<close>), \<open>Config\<close> (\<open>config.py\<close>),
    \<open>Capabilities\<close> (\<open>capabilities.py\<close> and the platform snapshots).
  \<^item> \<open>Termios\<close> (\<open>_posix/termios_apply.py\<close>), \<open>Baudrate\<close> (the \<open>baudrate.py\<close> modules; struct termios2),
    \<open>Kernel\<close> (the POSIX system calls with their log), \<open>Ioctl\<close> (\<open>_posix/ioctl.py\<close>), \<open>Posix_Backend\<close>
    (\<open>_posix/backend.py\<close>), \<open>Linux_LowLatency\<close>, \<open>Linux_RS485\<close>, \<open>Linux_Backend\<close>, \<open>Linux_Config\<close> (\<open>_linux\<close>),
    \<open>Darwin_Bsd\<close> (\<open>_darwin/backend.py\<close>, \<open>_bsd/backend.py\<close>). The states are records that extend each
    other as the classes do.
  \<^item> \<open>Backend_Protocol\<close> (\<open>_backend/protocol.py\<close>): the contract of a synchronous backend as the locale
    \<open>sync_backend_laws\<close>, interpreted on the POSIX and Linux backends and, in \<open>Mock_Backend\<close>
    (\<open>_mock/backend.py\<close>, \<open>testing.py\<close>), on the mock.
  \<^item> \<open>Stream\<close> (\<open>_PosixSerialPort\<close>), \<open>Port_System\<close> and \<open>Port_Invariants\<close> (the system of concurrent calls and
    its invariants, for every backend that satisfies the laws), \<open>Port_Claims\<close> (their instances on
    Linux), \<open>Unix_Ports\<close> (the same contract on macOS and the BSDs), \<open>Stream_Spec\<close> (the abstract byte stream and the refinement),
    \<open>Send_Buffer\<close> (\<open>send_buffer\<close> over memory views), \<open>Buffer_Store\<close> (\<open>receive_into\<close> and \<open>send_buffer\<close>
    over memory shared with other tasks), \<open>Port_Object\<close> (the choice of the variant, typed
    attributes, finalisation), \<open>Open_Port\<close> and \<open>Unix_Open\<close> (\<open>open_serial_port\<close> on Linux, and on macOS
    and the BSDs).
  \<^item> \<open>Windows_Dcb\<close> (\<open>dcb.py\<close>, \<open>_errors.py\<close>, \<open>_runtime.py\<close>), \<open>Win32\<close> (\<open>_win32.py\<close>), \<open>Async_Port\<close>
    (\<open>_AsyncBackendSerialPort\<close> and its system of calls), \<open>Async_Laws\<close> (the locale
    \<open>async_backend_laws\<close> and its invariants), \<open>Windows_Backend\<close> (\<open>_windows/backend.py\<close>,
    \<open>_asyncio_io.py\<close>, \<open>_trio_io.py\<close>), \<open>Windows_Port\<close> (the interpretation), \<open>Windows_Claims\<close>,
    \<open>Windows_Open\<close> (\<open>open_serial_port\<close> on Windows).
  \<^item> \<open>Sync_Portal\<close> and \<open>Sync_Api\<close> (\<open>sync.py\<close>): the reference-counted portal shared by threads, and blocking
    calls with timeouts as runs of the port system; \<open>Sync_Object\<close> (the \<open>with\<close> statement, finalisation,
    attributes and deferred opens).
  \<^item> \<open>Discovery\<close> (\<open>discovery.py\<close>, \<open>_backend/selector.py\<close>), \<open>Linux_Discovery\<close>, \<open>Bsd_Discovery\<close>,
    \<open>Darwin_Discovery\<close> (\<open>_darwin/discovery.py\<close>, \<open>_iokit.py\<close>), \<open>Windows_Discovery\<close> (what is
    listed, from what Windows stores), \<open>Extra_Discovery\<close> (\<open>_discovery\<close>: pySerial and pyudev).
  \<^item> \<open>C_Layout\<close> (the structures of \<open>_win32.py\<close> and \<open>_setupapi.py\<close> as \<open>ctypes\<close> lays them out), \<open>Setup_Api\<close>
    (\<open>_setupapi.py\<close> and discovery call by call), \<open>Foreign_Calls\<close> and \<open>Darwin_Calls\<close> (the declared prototypes, and the cached
    client of the Apple frameworks).

  \<^bold>\<open>What is shown.\<close> The two ports: a transfer that returns moved exactly its bytes (and, over shared memory, wrote
  exactly its part of it). One that waits moved a proper prefix (sends) or nothing (reads), and so did, on
  POSIX, one that raises, is cancelled or times out; on Windows an overlapped operation that failed or
  was cancelled may have moved anything: a send may then have transferred all of its data, a read may
  have lost what it took. Guards admit one reader and one writer; a port is closed exactly when its
  backend is, holds one descriptor or handle while open and none after, and never reopens; each step
  refines one action of a byte stream. The portal of the blocking ports has exactly as many users as
  holders, as long as no two threads close one port at once; if they do, it may lose its last user
  while another port is open. The backends: opening either succeeds with one resource more or rolls
  back; closing gives back what opening took and tuned; reconfiguring commits exactly what was asked or
  raises, with the steps after which a failure leaves half of it committed stated exactly. The codecs and
  bit fields (termios, termios2, RS-485, DCB) round-trip. Discovery: the lookup of a path agrees with
  the listing, Darwin and Windows release what they take, and on a documented Windows host the calls
  carry out the description; structures, prototypes and call sites of the foreign functions agree. Where the code does not do what it or its documentation
  says, the theorem states what it does: a two-dimensional buffer loses data, a Darwin climb stops after
  one level and every Darwin listing leaks an object per USB adapter, a Windows open can leak its handle, a read can outlive its port, a close can give up, and a long
  RS-485 delay raises instead of being clamped.

  \<^bold>\<open>Bounds and fuel.\<close> The climb to a USB ancestor on Darwin takes the 32 hops of the source; the sysfs climb
  on Linux ends because each parent path is shorter; the two loops of Windows discovery go on as long as
  Windows answers, so they are partial functions, shown to end on a documented host; a send is shown to return, on POSIX over a kernel that
  accepts a byte per write and on Windows (both runtimes) if its writes can be issued and report a byte
  each, after at most as many wake-ups as there are bytes. Machine integers are words or integers with
  their width written out (\<open>fits\<close> conditions of \<open>struct.pack\<close>, \<open>mod 2 ^ 32\<close> in the DCB). No other fuel is used.

  \<^bold>\<open>Not modelled.\<close> AnyIO, asyncio and Trio themselves: which await is woken, when and with what, and which
  lock is granted, is the environment of a run. Message texts, logging and documentation strings.
  Outside \<open>Buffer_Store\<close> a read returns its bytes instead of writing them into the caller's buffer, and
  memory under an overlapped transfer of Windows is not modelled. Arithmetic on floats other than the scaling of
  RS-485 delays is exact (the sleeping times of \<open>drain\<close>, timeouts). Text that is not ASCII. The re-exporting \<open>__init__\<close> modules, benchmarks and tests.
\<close>

end
